(* ===== verification/Nexus_Prelude.thy ===== *)
theory Nexus_Prelude
  imports Main "HOL-Library.Word" "HOL-Library.Sublist"
begin

text \<open>
  Shared vocabulary of the development: the fragment of Rust's \<open>str\<close>, \<open>Vec\<close> and integer
  operations that the gateway's source uses, and the generic lemmas about it.

  A Rust string is the list of its UTF-8 bytes (\<open>str\<close>, HOL characters are bytes), so every
  byte offset, \<open>len()\<close> and slice of the source is the same number here.  Operations that Rust
  defines on \<open>char\<close>s (trimming, splitting at white space) recognise the UTF-8 encodings of all
  Unicode white-space characters.  A slice at an offset that is no character boundary panics in
  Rust; \<open>'a run\<close> makes that outcome a value.
\<close>

named_theorems str_simps \<open>rewriting of string operations\<close>

type_synonym str = string

section \<open>Panics\<close>

datatype 'a run = Panic | Done 'a

fun run_bind :: "'a run \<Rightarrow> ('a \<Rightarrow> 'b run) \<Rightarrow> 'b run" where
  "run_bind Panic f = Panic"
| "run_bind (Done x) f = f x"

lemma run_bind_Done_iff [simp]:
  "run_bind m f = Done y \<longleftrightarrow> (\<exists>x. m = Done x \<and> f x = Done y)"
  by (cases m) auto

lemma run_not_Panic_iff: "m \<noteq> Panic \<longleftrightarrow> (\<exists>x. m = Done x)"
  by (cases m) auto

text \<open>A computation that does not panic; the rules follow the shape of the code.\<close>

definition returns :: "'a run \<Rightarrow> bool" where
  "returns m \<longleftrightarrow> m \<noteq> Panic"

named_theorems returns_intros

lemma returns_Ex: "returns m \<longleftrightarrow> (\<exists>x. m = Done x)"
  by (simp add: returns_def run_not_Panic_iff)

lemma returns_Done [returns_intros]: "returns (Done x)"
  by (simp add: returns_def)

lemma returns_bind [returns_intros]:
  "returns m \<Longrightarrow> (\<And>x. m = Done x \<Longrightarrow> returns (f x)) \<Longrightarrow> returns (run_bind m f)"
  by (cases m) (auto simp: returns_def)

lemma returns_if [returns_intros]:
  "(P \<Longrightarrow> returns a) \<Longrightarrow> (\<not> P \<Longrightarrow> returns b) \<Longrightarrow> returns (if P then a else b)"
  by simp

lemma returns_Let [returns_intros]: "(\<And>x. x = v \<Longrightarrow> returns (f x)) \<Longrightarrow> returns (Let v f)"
  by simp

lemma returns_option [returns_intros]:
  "(x = None \<Longrightarrow> returns a) \<Longrightarrow> (\<And>v. x = Some v \<Longrightarrow> returns (f v)) \<Longrightarrow>
     returns (case x of None \<Rightarrow> a | Some v \<Rightarrow> f v)"
  by (cases x) auto

lemma returns_sum [returns_intros]:
  "(\<And>e. x = Inl e \<Longrightarrow> returns (f e)) \<Longrightarrow> (\<And>v. x = Inr v \<Longrightarrow> returns (g v)) \<Longrightarrow>
     returns (case x of Inl e \<Rightarrow> f e | Inr v \<Rightarrow> g v)"
  by (cases x) auto

lemma returns_prod [returns_intros]:
  "(\<And>a b. x = (a, b) \<Longrightarrow> returns (f a b)) \<Longrightarrow> returns (case x of (a, b) \<Rightarrow> f a b)"
  by (cases x) auto

text \<open>Case distinctions over results, read from the value they produce.\<close>

lemma sum_case_eq_iff:
  "(case a of Inl e \<Rightarrow> f e | Inr v \<Rightarrow> g v) = y \<longleftrightarrow>
     (\<exists>e. a = Inl e \<and> f e = y) \<or> (\<exists>v. a = Inr v \<and> g v = y)"
  by (cases a) auto

lemma option_case_eq_iff:
  "(case a of None \<Rightarrow> f | Some v \<Rightarrow> g v) = y \<longleftrightarrow> (a = None \<and> f = y) \<or> (\<exists>v. a = Some v \<and> g v = y)"
  by (cases a) auto

section \<open>Bytes\<close>

abbreviation byte :: "char \<Rightarrow> nat" where
  "byte c \<equiv> of_char c"

definition is_ascii_uppercase :: "char \<Rightarrow> bool" where
  "is_ascii_uppercase c \<longleftrightarrow> 65 \<le> byte c \<and> byte c \<le> 90"

definition is_ascii_lowercase :: "char \<Rightarrow> bool" where
  "is_ascii_lowercase c \<longleftrightarrow> 97 \<le> byte c \<and> byte c \<le> 122"

definition is_ascii_digit :: "char \<Rightarrow> bool" where
  "is_ascii_digit c \<longleftrightarrow> 48 \<le> byte c \<and> byte c \<le> 57"

definition is_ascii_alphanumeric :: "char \<Rightarrow> bool" where
  "is_ascii_alphanumeric c \<longleftrightarrow> is_ascii_uppercase c \<or> is_ascii_lowercase c \<or> is_ascii_digit c"

definition lower_byte :: "char \<Rightarrow> char" where
  "lower_byte c = (if is_ascii_uppercase c then char_of (byte c + 32) else c)"

definition upper_byte :: "char \<Rightarrow> char" where
  "upper_byte c = (if is_ascii_lowercase c then char_of (byte c - 32) else c)"

definition to_ascii_lowercase :: "str \<Rightarrow> str" where
  "to_ascii_lowercase s = map lower_byte s"

text \<open>\<open>u8::is_ascii_whitespace\<close>: space, tab, line feed, form feed, carriage return.\<close>

definition is_u8_whitespace :: "char \<Rightarrow> bool" where
  "is_u8_whitespace c \<longleftrightarrow> byte c \<in> {9, 10, 12, 13, 32}"

definition is_ascii_alphabetic :: "char \<Rightarrow> bool" where
  "is_ascii_alphabetic c \<longleftrightarrow> is_ascii_uppercase c \<or> is_ascii_lowercase c"

definition is_ascii_control :: "char \<Rightarrow> bool" where
  "is_ascii_control c \<longleftrightarrow> byte c < 32 \<or> byte c = 127"

definition to_ascii_uppercase :: "str \<Rightarrow> str" where
  "to_ascii_uppercase s = map upper_byte s"

definition eq_ignore_ascii_case :: "str \<Rightarrow> str \<Rightarrow> bool" where
  "eq_ignore_ascii_case a b \<longleftrightarrow> to_ascii_lowercase a = to_ascii_lowercase b"

definition is_ascii_str :: "str \<Rightarrow> bool" where
  "is_ascii_str s \<longleftrightarrow> list_all (\<lambda>c. byte c < 128) s"

lemma byte_lower: "byte (lower_byte c) = (if is_ascii_uppercase c then byte c + 32 else byte c)"
  by (simp add: lower_byte_def is_ascii_uppercase_def)

lemma byte_upper: "byte (upper_byte c) = (if is_ascii_lowercase c then byte c - 32 else byte c)"
  by (auto simp: upper_byte_def is_ascii_lowercase_def)

lemma lower_byte_idem [simp]: "lower_byte (lower_byte c) = lower_byte c"
  using byte_lower [of c]
  by (auto simp: lower_byte_def [of "lower_byte c"] is_ascii_uppercase_def split: if_splits)

lemma upper_byte_idem [simp]: "upper_byte (upper_byte c) = upper_byte c"
  using byte_upper [of c]
  by (auto simp: upper_byte_def [of "upper_byte c"] is_ascii_lowercase_def split: if_splits)

lemma lower_byte_eq_iff:
  assumes "\<not> is_ascii_uppercase d" and "\<not> is_ascii_lowercase d"
  shows "lower_byte c = d \<longleftrightarrow> c = d"
proof -
  have "byte (lower_byte c) = byte d \<longleftrightarrow> byte c = byte d"
    using assms by (auto simp: byte_lower is_ascii_uppercase_def is_ascii_lowercase_def)
  then show ?thesis by simp
qed

lemma upper_byte_eq_iff:
  assumes "\<not> is_ascii_uppercase d" and "\<not> is_ascii_lowercase d"
  shows "upper_byte c = d \<longleftrightarrow> c = d"
proof -
  have "byte (upper_byte c) = byte d \<longleftrightarrow> byte c = byte d"
    using assms by (auto simp: byte_upper is_ascii_uppercase_def is_ascii_lowercase_def)
  then show ?thesis by simp
qed

lemma length_to_ascii_lowercase [simp]: "length (to_ascii_lowercase s) = length s"
  by (simp add: to_ascii_lowercase_def)

lemma length_to_ascii_uppercase [simp]: "length (to_ascii_uppercase s) = length s"
  by (simp add: to_ascii_uppercase_def)

lemma to_ascii_lowercase_idem [simp]:
  "to_ascii_lowercase (to_ascii_lowercase s) = to_ascii_lowercase s"
  by (simp add: to_ascii_lowercase_def)

lemma to_ascii_lowercase_Nil [simp]: "to_ascii_lowercase [] = []"
  by (simp add: to_ascii_lowercase_def)

lemma to_ascii_lowercase_append [simp]:
  "to_ascii_lowercase (a @ b) = to_ascii_lowercase a @ to_ascii_lowercase b"
  by (simp add: to_ascii_lowercase_def)

lemma eq_ignore_ascii_case_refl [simp]: "eq_ignore_ascii_case s s"
  by (simp add: eq_ignore_ascii_case_def)

lemma eq_ignore_ascii_case_sym: "eq_ignore_ascii_case a b \<Longrightarrow> eq_ignore_ascii_case b a"
  by (simp add: eq_ignore_ascii_case_def)

lemma eq_ignore_ascii_case_trans [trans]:
  "eq_ignore_ascii_case a b \<Longrightarrow> eq_ignore_ascii_case b c \<Longrightarrow> eq_ignore_ascii_case a c"
  by (simp add: eq_ignore_ascii_case_def)

section \<open>White space\<close>

text \<open>
  \<open>char::is_whitespace\<close>: the ASCII characters U+0009 to U+000D and U+0020, and the encodings of
  U+0085, U+00A0, U+1680, U+2000 to U+200A, U+2028, U+2029, U+202F, U+205F and U+3000.
  \<open>ws_prefix s\<close> is the number of bytes of the white-space character that \<open>s\<close> starts with
  (0 for none); \<open>ws_prefix_rev\<close> reads a reversed string.
\<close>

definition is_ascii_ws :: "char \<Rightarrow> bool" where
  "is_ascii_ws c \<longleftrightarrow> (9 \<le> byte c \<and> byte c \<le> 13) \<or> byte c = 32"

definition ws2 :: "char \<Rightarrow> char \<Rightarrow> bool" where
  "ws2 c d \<longleftrightarrow> byte c = 0xC2 \<and> (byte d = 0x85 \<or> byte d = 0xA0)"

definition ws3 :: "char \<Rightarrow> char \<Rightarrow> char \<Rightarrow> bool" where
  "ws3 c d e \<longleftrightarrow>
     (byte c = 0xE1 \<and> byte d = 0x9A \<and> byte e = 0x80) \<or>
     (byte c = 0xE2 \<and> byte d = 0x80 \<and>
        ((0x80 \<le> byte e \<and> byte e \<le> 0x8A) \<or> byte e = 0xA8 \<or> byte e = 0xA9 \<or> byte e = 0xAF)) \<or>
     (byte c = 0xE2 \<and> byte d = 0x81 \<and> byte e = 0x9F) \<or>
     (byte c = 0xE3 \<and> byte d = 0x80 \<and> byte e = 0x80)"

fun ws_prefix :: "str \<Rightarrow> nat" where
  "ws_prefix [] = 0"
| "ws_prefix (c # r) =
     (if is_ascii_ws c then 1
      else case r of [] \<Rightarrow> 0
        | d # r' \<Rightarrow> if ws2 c d then 2
            else (case r' of [] \<Rightarrow> 0 | e # _ \<Rightarrow> if ws3 c d e then 3 else 0))"

fun ws_prefix_rev :: "str \<Rightarrow> nat" where
  "ws_prefix_rev [] = 0"
| "ws_prefix_rev (c # r) =
     (if is_ascii_ws c then 1
      else case r of [] \<Rightarrow> 0
        | d # r' \<Rightarrow> if ws2 d c then 2
            else (case r' of [] \<Rightarrow> 0 | e # _ \<Rightarrow> if ws3 e d c then 3 else 0))"

lemma ws_prefix_pos_nonempty: "0 < ws_prefix s \<Longrightarrow> s \<noteq> []"
  by auto

lemma ws_prefix_rev_pos_nonempty: "0 < ws_prefix_rev s \<Longrightarrow> s \<noteq> []"
  by auto

function trim_start :: "str \<Rightarrow> str" where
  "trim_start s = (if 0 < ws_prefix s then trim_start (drop (ws_prefix s) s) else s)"
  by pat_completeness auto
termination
  by (relation "measure length") (simp_all add: ws_prefix_pos_nonempty diff_less)

function trim_rev :: "str \<Rightarrow> str" where
  "trim_rev s = (if 0 < ws_prefix_rev s then trim_rev (drop (ws_prefix_rev s) s) else s)"
  by pat_completeness auto
termination
  by (relation "measure length") (simp_all add: ws_prefix_rev_pos_nonempty diff_less)

declare trim_start.simps [simp del] trim_rev.simps [simp del]

definition trim_end :: "str \<Rightarrow> str" where
  "trim_end s = rev (trim_rev (rev s))"

definition trim :: "str \<Rightarrow> str" where
  "trim s = trim_end (trim_start s)"

lemma trim_start_stop: "ws_prefix (trim_start s) = 0"
proof (induction s rule: trim_start.induct)
  case (1 s)
  then show ?case by (cases "0 < ws_prefix s") (auto simp: trim_start.simps [of s])
qed

lemma trim_start_id: "ws_prefix s = 0 \<Longrightarrow> trim_start s = s"
  by (simp add: trim_start.simps)

lemma trim_start_idem [simp]: "trim_start (trim_start s) = trim_start s"
  by (rule trim_start_id) (rule trim_start_stop)

lemma trim_start_suffix: "\<exists>ws. s = ws @ trim_start s"
proof (induction s rule: trim_start.induct)
  case (1 s)
  show ?case
  proof (cases "0 < ws_prefix s")
    case True
    with 1 obtain ws where "drop (ws_prefix s) s = ws @ trim_start (drop (ws_prefix s) s)"
      by blast
    with True have "s = (take (ws_prefix s) s @ ws) @ trim_start s"
      by (metis trim_start.simps [of s] append_take_drop_id append.assoc)
    then show ?thesis by blast
  next
    case False
    then show ?thesis by (simp add: trim_start.simps [of s])
  qed
qed

lemma length_trim_start [simp]: "length (trim_start s) \<le> length s"
  by (metis trim_start_suffix length_append le_add2)

lemma trim_start_Nil [simp]: "trim_start [] = []"
  by (simp add: trim_start.simps)

lemma trim_rev_Nil [simp]: "trim_rev [] = []"
  by (simp add: trim_rev.simps)

lemma length_trim_rev [simp]: "length (trim_rev s) \<le> length s"
proof (induction s rule: trim_rev.induct)
  case (1 s)
  then show ?case by (subst trim_rev.simps) fastforce
qed

lemma length_trim_end [simp]: "length (trim_end s) \<le> length s"
  by (metis trim_end_def length_rev length_trim_rev)

lemma trim_Nil [simp]: "trim [] = []"
  by (simp add: trim_def trim_end_def)

lemma length_trim [simp]: "length (trim s) \<le> length s"
  by (metis trim_def length_trim_end length_trim_start order_trans)

text \<open>What trimming removes: white-space characters, none of whose bytes has a meaning in SQL.\<close>

definition ws_bytes :: "str \<Rightarrow> bool" where
  "ws_bytes s \<longleftrightarrow> (\<forall>c \<in> set s. is_ascii_ws c \<or> 128 \<le> byte c)"

lemma ws2_bytes: "ws2 c d \<Longrightarrow> 128 \<le> byte c \<and> 128 \<le> byte d"
  by (auto simp: ws2_def)

lemma ws3_bytes: "ws3 c d e \<Longrightarrow> 128 \<le> byte c \<and> 128 \<le> byte d \<and> 128 \<le> byte e"
  unfolding ws3_def by linarith

lemma take_ws_prefix: "\<forall>c \<in> set (take (ws_prefix s) s). is_ascii_ws c \<or> 128 \<le> byte c"
  by (cases s rule: ws_prefix.cases) (simp_all add: ws2_bytes ws3_bytes split: list.split)

lemma take_ws_prefix_rev: "\<forall>c \<in> set (take (ws_prefix_rev s) s). is_ascii_ws c \<or> 128 \<le> byte c"
  by (cases s rule: ws_prefix_rev.cases) (simp_all add: ws2_bytes ws3_bytes split: list.split)

lemma ws_prefix_append: "0 < ws_prefix a \<Longrightarrow> 0 < ws_prefix (a @ b)"
  by (cases a rule: ws_prefix.cases) (auto split: list.splits if_splits)

lemma trim_start_decomp: "\<exists>ws. s = ws @ trim_start s \<and> ws_bytes ws"
proof (induction s rule: trim_start.induct)
  case (1 s)
  show ?case
  proof (cases "0 < ws_prefix s")
    case True
    with 1 obtain ws where "drop (ws_prefix s) s = ws @ trim_start (drop (ws_prefix s) s)" "ws_bytes ws"
      by blast
    with True have "s = (take (ws_prefix s) s @ ws) @ trim_start s" 
      by (metis trim_start.simps [of s] append_take_drop_id append.assoc)
    moreover have "ws_bytes (take (ws_prefix s) s @ ws)"
      using take_ws_prefix \<open>ws_bytes ws\<close> by (auto simp: ws_bytes_def)
    ultimately show ?thesis by blast
  next
    case False
    then show ?thesis by (simp add: trim_start.simps [of s] ws_bytes_def)
  qed
qed

lemma trim_rev_decomp: "\<exists>ws. s = ws @ trim_rev s \<and> ws_bytes ws"
proof (induction s rule: trim_rev.induct)
  case (1 s)
  show ?case
  proof (cases "0 < ws_prefix_rev s")
    case True
    with 1 obtain ws where "drop (ws_prefix_rev s) s = ws @ trim_rev (drop (ws_prefix_rev s) s)" "ws_bytes ws"
      by blast
    with True have "s = (take (ws_prefix_rev s) s @ ws) @ trim_rev s" 
      by (metis trim_rev.simps [of s] append_take_drop_id append.assoc)
    moreover have "ws_bytes (take (ws_prefix_rev s) s @ ws)"
      using take_ws_prefix_rev \<open>ws_bytes ws\<close> by (auto simp: ws_bytes_def)
    ultimately show ?thesis by blast
  next
    case False
    then show ?thesis by (simp add: trim_rev.simps [of s] ws_bytes_def)
  qed
qed

lemma trim_end_decomp: "\<exists>ws. s = trim_end s @ ws \<and> ws_bytes ws"
proof -
  obtain ws where "rev s = ws @ trim_rev (rev s)" "ws_bytes ws" using trim_rev_decomp by blast
  then have "s = trim_end s @ rev ws" by (metis trim_end_def rev_append rev_rev_ident)
  moreover have "ws_bytes (rev ws)" using \<open>ws_bytes ws\<close> by (simp add: ws_bytes_def)
  ultimately show ?thesis by blast
qed

lemma trim_decomp: "\<exists>a b. s = a @ trim s @ b \<and> ws_bytes a \<and> ws_bytes b"
  unfolding trim_def using trim_start_decomp [of s] trim_end_decomp [of "trim_start s"] by metis

lemma trim_rev_idem: "trim_rev (trim_rev s) = trim_rev s"
proof (induction s rule: trim_rev.induct)
  case (1 s)
  then show ?case by (cases "0 < ws_prefix_rev s") (simp_all add: trim_rev.simps [of s])
qed

lemma trim_idem [simp]: "trim (trim s) = trim s"
proof -
  obtain ws where ws: "trim_start s = trim s @ ws" using trim_end_decomp trim_def by metis
  have "\<not> 0 < ws_prefix (trim s)"
    using ws_prefix_append [of "trim s" ws] ws trim_start_stop [of s] by auto
  then have "trim_start (trim s) = trim s" by (simp add: trim_start_id)
  then show ?thesis by (simp add: trim_def trim_end_def trim_rev_idem)
qed

lemma trim_space [simp]: "trim (CHR '' '' # s) = trim s"
  unfolding trim_def by (subst trim_start.simps) (simp add: is_ascii_ws_def)

section \<open>Searching and splitting\<close>

definition starts_with :: "str \<Rightarrow> str \<Rightarrow> bool" where
  "starts_with p s \<longleftrightarrow> take (length p) s = p"

definition ends_with :: "str \<Rightarrow> str \<Rightarrow> bool" where
  "ends_with p s \<longleftrightarrow> starts_with (rev p) (rev s)"

text \<open>\<open>str::find\<close> with a string pattern: the first offset where the needle occurs.\<close>

fun find_sub :: "str \<Rightarrow> str \<Rightarrow> nat option" where
  "find_sub n [] = (if n = [] then Some 0 else None)"
| "find_sub n (c # s) =
     (if starts_with n (c # s) then Some 0 else map_option Suc (find_sub n s))"

definition contains :: "str \<Rightarrow> str \<Rightarrow> bool" where
  "contains n s \<longleftrightarrow> find_sub n s \<noteq> None"

definition strip_prefix :: "str \<Rightarrow> str \<Rightarrow> str option" where
  "strip_prefix p s = (if starts_with p s then Some (drop (length p) s) else None)"

definition trim_start_matches :: "(char \<Rightarrow> bool) \<Rightarrow> str \<Rightarrow> str" where
  "trim_start_matches P s = dropWhile P s"

definition trim_end_matches :: "(char \<Rightarrow> bool) \<Rightarrow> str \<Rightarrow> str" where
  "trim_end_matches P s = rev (dropWhile P (rev s))"

definition trim_matches :: "char \<Rightarrow> str \<Rightarrow> str" where
  "trim_matches c s = trim_end_matches (\<lambda>x. x = c) (trim_start_matches (\<lambda>x. x = c) s)"

text \<open>\<open>s.rsplit(c).next()\<close>: what follows the last \<open>c\<close>, or all of \<open>s\<close>.\<close>

definition rsplit_next :: "char \<Rightarrow> str \<Rightarrow> str" where
  "rsplit_next c s = rev (takeWhile (\<lambda>x. x \<noteq> c) (rev s))"

text \<open>What precedes the last \<open>c\<close>: the second item of \<open>s.rsplitn(2, c)\<close>, if any.\<close>

definition rsplit_before :: "char \<Rightarrow> str \<Rightarrow> str option" where
  "rsplit_before c s =
     (case dropWhile (\<lambda>x. x \<noteq> c) (rev s) of [] \<Rightarrow> None | _ # r \<Rightarrow> Some (rev r))"

text \<open>\<open>s.split(c)\<close>: always at least one item.\<close>

fun split_on :: "char \<Rightarrow> str \<Rightarrow> str list" where
  "split_on c [] = [[]]"
| "split_on c (x # s) =
     (if x = c then [] # split_on c s
      else case split_on c s of [] \<Rightarrow> [[x]] | w # ws \<Rightarrow> (x # w) # ws)"

text \<open>The word up to the next white-space character, and \<open>split_whitespace\<close>.\<close>

fun take_word :: "str \<Rightarrow> str" where
  "take_word [] = []"
| "take_word (c # s) = (if 0 < ws_prefix (c # s) then [] else c # take_word s)"

fun split_ws_fuel :: "nat \<Rightarrow> str \<Rightarrow> str list" where
  "split_ws_fuel 0 s = []"
| "split_ws_fuel (Suc n) s =
     (let t = trim_start s
      in if t = [] then [] else take_word t # split_ws_fuel n (drop (length (take_word t)) t))"

definition split_whitespace :: "str \<Rightarrow> str list" where
  "split_whitespace s = split_ws_fuel (length s) s"

definition first_word :: "str \<Rightarrow> str option" where
  "first_word s = (case split_whitespace s of [] \<Rightarrow> None | w # _ \<Rightarrow> Some w)"

fun join :: "str \<Rightarrow> str list \<Rightarrow> str" where
  "join sep [] = []"
| "join sep [x] = x"
| "join sep (x # y # xs) = x @ sep @ join sep (y # xs)"

lemma starts_with_append [simp]: "starts_with p (p @ s)"
  by (simp add: starts_with_def)

lemma starts_with_Nil [simp]: "starts_with [] s"
  by (simp add: starts_with_def)

lemma starts_with_iff: "starts_with p s \<longleftrightarrow> (\<exists>r. s = p @ r)"
  by (auto simp: starts_with_def) (metis append_take_drop_id)

lemma find_sub_Some:
  "find_sub n s = Some i \<Longrightarrow> \<exists>a b. s = a @ n @ b \<and> length a = i"
proof (induction n s arbitrary: i rule: find_sub.induct)
  case (2 n c s)
  show ?case
  proof (cases "starts_with n (c # s)")
    case True
    with 2 show ?thesis by (auto simp: starts_with_iff)
  next
    case False
    with 2 obtain j where "find_sub n s = Some j" and i: "i = Suc j" by auto
    with 2 False obtain a b where "s = a @ n @ b" "length a = j" by blast
    then have "c # s = (c # a) @ n @ b" "length (c # a) = i" by (simp_all add: i)
    then show ?thesis by blast
  qed
qed (auto split: if_splits)

lemma contains_iff: "contains n s \<longleftrightarrow> (\<exists>a b. s = a @ n @ b)"
proof
  assume "contains n s"
  then obtain i where "find_sub n s = Some i" by (auto simp: contains_def)
  then show "\<exists>a b. s = a @ n @ b" using find_sub_Some by blast
next
  assume "\<exists>a b. s = a @ n @ b"
  then obtain a b where s: "s = a @ n @ b" by blast
  have "find_sub n (a @ n @ b) \<noteq> None"
  proof (induction a)
    case Nil
    have "starts_with n (n @ b)" by simp
    then show ?case by (cases "n @ b") auto
  qed auto
  then show "contains n s" by (simp add: contains_def s)
qed

lemma find_sub_skip:
  "find_sub n s = Some i \<Longrightarrow> \<forall>j < i. \<not> starts_with n (drop j s)"
proof (induction n s arbitrary: i rule: find_sub.induct)
  case (2 n c s)
  then show ?case by (auto split: if_splits simp: less_Suc_eq_0_disj)
qed (auto split: if_splits)

lemma split_on_nonempty [simp]: "split_on c s \<noteq> []"
  by (induction s) (auto split: list.splits)

lemma join_split_on: "join [c] (split_on c s) = s"
proof (induction s)
  case (Cons x s)
  show ?case
  proof (cases "split_on c s")
    case (Cons w ws)
    with \<open>join [c] (split_on c s) = s\<close> show ?thesis by (cases ws) auto
  qed simp
qed simp

text \<open>Printable ASCII without the space: never part of a white-space character.\<close>

definition plain :: "char \<Rightarrow> bool" where
  "plain c \<longleftrightarrow> 33 \<le> byte c \<and> byte c < 128"

lemma ws_prefix_plain: "plain c \<Longrightarrow> ws_prefix (c # r) = 0"
  by (auto simp: plain_def is_ascii_ws_def ws2_def ws3_def split: list.split)

lemma ws_prefix_rev_plain: "plain c \<Longrightarrow> ws_prefix_rev (c # r) = 0"
  by (auto simp: plain_def is_ascii_ws_def ws2_def ws3_def split: list.split)

lemma trim_start_plain: "plain c \<Longrightarrow> trim_start (c # s) = c # s"
  by (rule trim_start_id) (rule ws_prefix_plain)

lemma trim_end_plain:
  assumes "plain c"
  shows "trim_end (s @ [c]) = s @ [c]"
proof -
  have "trim_rev (c # rev s) = c # rev s"
    by (subst trim_rev.simps) (simp only: ws_prefix_rev_plain [OF assms] less_irrefl if_False)
  then show ?thesis by (simp add: trim_end_def)
qed

lemma trim_plain:
  assumes "s \<noteq> []" and "plain (hd s)" and "plain (last s)"
  shows "trim s = s"
proof -
  from assms have "trim_start s = s" by (cases s) (auto simp: trim_start_plain)
  moreover have "trim_end s = s"
    using trim_end_plain [of "last s" "butlast s"] assms by simp
  ultimately show ?thesis by (simp add: trim_def)
qed

lemma take_word_plain: "list_all plain s \<Longrightarrow> take_word s = s"
  by (induction s) (auto simp: ws_prefix_plain simp del: ws_prefix.simps)

lemma first_word_plain: "list_all plain s \<Longrightarrow> s \<noteq> [] \<Longrightarrow> first_word s = Some s"
  by (cases s)
    (auto simp: first_word_def split_whitespace_def Let_def trim_start_plain take_word_plain
      simp del: take_word.simps)

section \<open>Slices\<close>

definition is_continuation :: "char \<Rightarrow> bool" where
  "is_continuation c \<longleftrightarrow> 128 \<le> byte c \<and> byte c < 192"

definition is_char_boundary :: "str \<Rightarrow> nat \<Rightarrow> bool" where
  "is_char_boundary s i \<longleftrightarrow>
     i = 0 \<or> i = length s \<or> (i < length s \<and> \<not> is_continuation (s ! i))"

text \<open>\<open>&s[..i]\<close> and \<open>&s[i..]\<close>.\<close>

definition slice_to :: "str \<Rightarrow> nat \<Rightarrow> str run" where
  "slice_to s i = (if is_char_boundary s i then Done (take i s) else Panic)"

definition slice_from :: "str \<Rightarrow> nat \<Rightarrow> str run" where
  "slice_from s i = (if is_char_boundary s i then Done (drop i s) else Panic)"

text \<open>\<open>&s[a..b]\<close>: also panics when the range is reversed.\<close>

definition slice_range :: "str \<Rightarrow> nat \<Rightarrow> nat \<Rightarrow> str run" where
  "slice_range s a b =
     (if a \<le> b \<and> is_char_boundary s a \<and> is_char_boundary s b
      then Done (take (b - a) (drop a s)) else Panic)"

lemma ascii_char_boundary: "is_ascii_str s \<Longrightarrow> i \<le> length s \<Longrightarrow> is_char_boundary s i"
  by (auto simp: is_ascii_str_def is_char_boundary_def is_continuation_def list_all_length
      dest: le_neq_implies_less)

section \<open>Numbers\<close>

definition u32_max :: nat where "u32_max = 2 ^ 32 - 1"
definition u64_max :: nat where "u64_max = 2 ^ 64 - 1"

definition saturating_add64 :: "nat \<Rightarrow> nat \<Rightarrow> nat" where
  "saturating_add64 a b = min (a + b) u64_max"

definition saturating_mul64 :: "nat \<Rightarrow> nat \<Rightarrow> nat" where
  "saturating_mul64 a b = min (a * b) u64_max"

lemma saturating_add64_le [simp]: "saturating_add64 a b \<le> u64_max"
  by (simp add: saturating_add64_def)

lemma saturating_mul64_le [simp]: "saturating_mul64 a b \<le> u64_max"
  by (simp add: saturating_mul64_def)

definition digit_char :: "nat \<Rightarrow> char" where
  "digit_char d = char_of (48 + d)"

fun show_nat :: "nat \<Rightarrow> str" where
  "show_nat n = (if n < 10 then [digit_char n] else show_nat (n div 10) @ [digit_char (n mod 10)])"

declare show_nat.simps [simp del]

definition show_int :: "int \<Rightarrow> str" where
  "show_int i = (if i < 0 then ''-'' @ show_nat (nat (- i)) else show_nat (nat i))"

text \<open>The digits read as a number; \<open>str::parse\<close> for unsigned types also takes a leading \<open>+\<close>.\<close>

fun digits_value :: "nat \<Rightarrow> str \<Rightarrow> nat" where
  "digits_value acc [] = acc"
| "digits_value acc (c # s) = digits_value (10 * acc + (byte c - 48)) s"

definition parse_unsigned :: "nat \<Rightarrow> str \<Rightarrow> nat option" where
  "parse_unsigned hi s =
     (let d = (case s of c # r \<Rightarrow> if c = CHR ''+'' then r else s | [] \<Rightarrow> [])
      in if d \<noteq> [] \<and> list_all is_ascii_digit d \<and> digits_value 0 d \<le> hi
         then Some (digits_value 0 d) else None)"

definition parse_i32 :: "str \<Rightarrow> int option" where
  "parse_i32 s =
     (let neg = (case s of c # _ \<Rightarrow> c = CHR ''-'' | [] \<Rightarrow> False);
          d = (case s of c # r \<Rightarrow> if c = CHR ''+'' \<or> c = CHR ''-'' then r else s | [] \<Rightarrow> []);
          v = (if neg then - int (digits_value 0 d) else int (digits_value 0 d))
      in if d \<noteq> [] \<and> list_all is_ascii_digit d \<and> - (2 ^ 31) \<le> v \<and> v < 2 ^ 31
         then Some v else None)"

lemma digit_char_props:
  assumes "d < 10"
  shows "is_ascii_digit (digit_char d)" and "byte (digit_char d) - 48 = d"
proof -
  have "byte (digit_char d) = 48 + d"
    using assms by (simp add: digit_char_def)
  then show "is_ascii_digit (digit_char d)" and "byte (digit_char d) - 48 = d"
    using assms by (simp_all add: is_ascii_digit_def)
qed

lemma digits_value_append:
  "digits_value acc (s @ t) = digits_value (digits_value acc s) t"
  by (induction s arbitrary: acc) auto

lemma digits_value_show_nat: "digits_value 0 (show_nat n) = n"
proof (induction n rule: show_nat.induct)
  case (1 n)
  then show ?case
    by (cases "n < 10")
      (auto simp: show_nat.simps [of n] digits_value_append digit_char_props)
qed

lemma show_nat_digits: "list_all is_ascii_digit (show_nat n)"
proof (induction n rule: show_nat.induct)
  case (1 n)
  then show ?case
    by (cases "n < 10") (auto simp: show_nat.simps [of n] digit_char_props)
qed

lemma show_nat_nonempty [simp]: "show_nat n \<noteq> []"
  by (subst show_nat.simps) simp

lemma show_nat_inj [simp]: "show_nat m = show_nat n \<longleftrightarrow> m = n"
  by (metis digits_value_show_nat)

lemma parse_unsigned_show_nat: "n \<le> hi \<Longrightarrow> parse_unsigned hi (show_nat n) = Some n"
proof -
  assume n: "n \<le> hi"
  obtain c r where s: "show_nat n = c # r" by (cases "show_nat n") auto
  with show_nat_digits [of n] have "is_ascii_digit c" by simp
  then have "c \<noteq> CHR ''+''" by (auto simp: is_ascii_digit_def)
  with s n show ?thesis
    using show_nat_digits [of n] digits_value_show_nat [of n]
    by (simp add: parse_unsigned_def)
qed

section \<open>Association lists\<close>

text \<open>A \<open>HashMap\<close> is an association list with distinct keys, in the map's unspecified order.\<close>

fun al_insert :: "'k \<Rightarrow> 'v \<Rightarrow> ('k \<times> 'v) list \<Rightarrow> ('k \<times> 'v) list" where
  "al_insert k v [] = [(k, v)]"
| "al_insert k v (p # ps) = (if fst p = k then (k, v) # ps else p # al_insert k v ps)"

lemma map_of_al_insert [simp]: "map_of (al_insert k v m) = (map_of m)(k \<mapsto> v)"
  by (induction m) (auto simp: fun_eq_iff)

lemma keys_al_insert: "fst ` set (al_insert k v m) = insert k (fst ` set m)"
  by (induction m) auto

lemma distinct_al_insert:
  "distinct (map fst m) \<Longrightarrow> distinct (map fst (al_insert k v m))"
proof (induction m)
  case (Cons p ps)
  have "k \<noteq> fst p \<Longrightarrow> fst p \<notin> fst ` set ps \<Longrightarrow> fst p \<notin> fst ` set (al_insert k v ps)"
    by (simp add: keys_al_insert)
  with Cons show ?case by auto
qed simp

lemma al_insert_forall:
  "(\<forall>p \<in> set m. P p) \<Longrightarrow> P (k, v) \<Longrightarrow> \<forall>p \<in> set (al_insert k v m). P p"
  by (induction m) auto

end
