(* ===== verification/Gateway_Model.thy ===== *)
theory Gateway_Model
  imports Nexus_Prelude
begin

text \<open>
  The protocol-neutral data model of the gateway (\<open>gateway/core/src/model.rs\<close>), the logical
  column types used to present one backend's results to the other protocol's clients
  (\<open>types.rs\<close>), and the SQL dialect heuristics (\<open>dialect.rs\<close>).
\<close>

named_theorems model_simps \<open>evaluation of the data-model tables\<close>

section \<open>Commands, values and responses\<close>

datatype protocol_kind = MySql | PostgreSql

definition protocol_as_str :: "protocol_kind \<Rightarrow> str" where
  "protocol_as_str p = (case p of MySql \<Rightarrow> ''mysql'' | PostgreSql \<Rightarrow> ''postgresql'')"

datatype transaction_state = Idle | Active | Failed

text \<open>An \<open>f64\<close> is kept as its 64 bits.\<close>

datatype gateway_value =
    GvNull | GvBoolean bool | GvInteger int | GvUnsigned nat | GvFloat "64 word"
  | GvDecimal str | GvString str | GvBytes str

record column =
  col_name :: str
  data_type :: str

datatype gateway_command =
    Query str
  | QueryParams str "gateway_value list"
  | Prepare str
  | Execute str "gateway_value list"
  | CloseStatement str
  | DescribeSql str
  | ClientWire "str list"
  | PgBackendSync
  | UseDatabase str
  | Begin | Commit | Rollback | Ping | Quit

datatype gateway_response =
    RspOk nat "nat option"
  | RspCommandComplete str
  | RspError str str
  | RspResultSet "column list" "gateway_value list list"
  | RspTaggedResultSet "column list" "gateway_value list list" str
  | RspWire "str list"
  | RspPrepared str nat "column list"
  | RspRowDescription "column list"
  | RspPong | RspBye

datatype execute_mode =
    Materialized
  | Streaming nat "nat option"
  | Passthrough

definition from_streaming_config :: "nat \<Rightarrow> nat option \<Rightarrow> execute_mode" where
  "from_streaming_config window_rows mr = Streaming (max window_rows 1) mr"

fun effective_max_rows :: "execute_mode \<Rightarrow> nat option" where
  "effective_max_rows Materialized = None"
| "effective_max_rows Passthrough = None"
| "effective_max_rows (Streaming w m) = m"

fun mode_window_rows :: "execute_mode \<Rightarrow> nat option" where
  "mode_window_rows Materialized = None"
| "mode_window_rows Passthrough = None"
| "mode_window_rows (Streaming w m) = Some w"

fun promote_row_stream :: "execute_mode \<Rightarrow> execute_mode" where
  "promote_row_stream Materialized = from_streaming_config 256 None"
| "promote_row_stream other = other"

section \<open>Logical column types\<close>

datatype canonical_data_type =
    TBool | TInt8 | TInt16 | TInt32 | TInt64 | TUInt64 | TFloat32 | TFloat64 | TDecimal
  | TString | TBytes | TDate | TTime | TTimestamp | TTimestamptz | TJson | TUnknown

fun to_protocol_type :: "canonical_data_type \<Rightarrow> protocol_kind \<Rightarrow> str" where
  "to_protocol_type TBool MySql = ''tiny''"
| "to_protocol_type TBool PostgreSql = ''bool''"
| "to_protocol_type TInt8 MySql = ''tiny''"
| "to_protocol_type TInt8 PostgreSql = ''int2''"
| "to_protocol_type TInt16 MySql = ''short''"
| "to_protocol_type TInt16 PostgreSql = ''int2''"
| "to_protocol_type TInt32 MySql = ''long''"
| "to_protocol_type TInt32 PostgreSql = ''int4''"
| "to_protocol_type TInt64 MySql = ''longlong''"
| "to_protocol_type TInt64 PostgreSql = ''int8''"
| "to_protocol_type TUInt64 MySql = ''longlong''"
| "to_protocol_type TUInt64 PostgreSql = ''numeric''"
| "to_protocol_type TFloat32 MySql = ''float''"
| "to_protocol_type TFloat32 PostgreSql = ''float4''"
| "to_protocol_type TFloat64 MySql = ''double''"
| "to_protocol_type TFloat64 PostgreSql = ''float8''"
| "to_protocol_type TDecimal MySql = ''new_decimal''"
| "to_protocol_type TDecimal PostgreSql = ''numeric''"
| "to_protocol_type TString MySql = ''var_string''"
| "to_protocol_type TString PostgreSql = ''text''"
| "to_protocol_type TBytes MySql = ''blob''"
| "to_protocol_type TBytes PostgreSql = ''bytea''"
| "to_protocol_type TDate _ = ''date''"
| "to_protocol_type TTime _ = ''time''"
| "to_protocol_type TTimestamp MySql = ''datetime''"
| "to_protocol_type TTimestamp PostgreSql = ''timestamp''"
| "to_protocol_type TTimestamptz MySql = ''timestamp''"
| "to_protocol_type TTimestamptz PostgreSql = ''timestamptz''"
| "to_protocol_type TJson MySql = ''var_string''"
| "to_protocol_type TJson PostgreSql = ''text''"
| "to_protocol_type TUnknown MySql = ''var_string''"
| "to_protocol_type TUnknown PostgreSql = ''text''"

text \<open>The alias table of \<open>parse_backend_type\<close>, on a lower-case trimmed name.\<close>

definition common_type_alias :: "str \<Rightarrow> canonical_data_type option" where
  "common_type_alias t =
     (if t \<in> set [''bool'', ''boolean'', ''bit''] then Some TBool
      else if t \<in> set [''tiny'', ''tinyint'', ''int1''] then Some TInt8
      else if t \<in> set [''short'', ''int2'', ''smallint'', ''year''] then Some TInt16
      else if t \<in> set [''long'', ''int'', ''int4'', ''integer'', ''mediumint''] then Some TInt32
      else if t \<in> set [''longlong'', ''int8'', ''bigint'', ''serial'', ''bigserial'']
        then Some TInt64
      else if t \<in> set [''uint64'', ''ulonglong''] then Some TUInt64
      else if t \<in> set [''float'', ''float4'', ''real''] then Some TFloat32
      else if t \<in> set [''double'', ''float8'', ''double precision''] then Some TFloat64
      else if t \<in> set [''decimal'', ''numeric'', ''new_decimal'', ''newdecimal'']
        then Some TDecimal
      else if t = ''date'' then Some TDate
      else if t = ''time'' then Some TTime
      else if t \<in> set [''datetime'', ''timestamp''] then Some TTimestamp
      else if t \<in> set [''timestamptz'', ''timestamp with time zone''] then Some TTimestamptz
      else if t \<in> set [''blob'', ''bytea'', ''bytes'', ''binary'', ''varbinary'', ''longblob'',
                       ''mediumblob'', ''tinyblob''] then Some TBytes
      else if t \<in> set [''json'', ''jsonb''] then Some TJson
      else if t \<in> set [''text'', ''varchar'', ''char'', ''bpchar'', ''var_string'', ''string'',
                       ''enum'', ''set'', ''uuid'', ''name'', ''citext''] then Some TString
      else None)"

text \<open>\<open>trim_start_matches\<close> with a non-empty string pattern removes it as often as it occurs.\<close>

function strip_repeat :: "str \<Rightarrow> str \<Rightarrow> str" where
  "strip_repeat p s = (if p \<noteq> [] \<and> starts_with p s then strip_repeat p (drop (length p) s) else s)"
  by pat_completeness auto
termination
  by (relation "measure (\<lambda>(p, s). length s)") (auto simp: starts_with_iff)

declare strip_repeat.simps [simp del]

lemma length_strip_repeat [simp]: "length (strip_repeat p s) \<le> length s"
proof (induction p s rule: strip_repeat.induct)
  case (1 p s)
  then show ?case
    by (cases "p \<noteq> [] \<and> starts_with p s") (auto simp: strip_repeat.simps [of p s])
qed

lemma strip_repeat_shorter:
  assumes "p \<noteq> []" and "starts_with p s"
  shows "length (strip_repeat p s) < length s"
proof -
  from assms have "length (strip_repeat p s) \<le> length (drop (length p) s)"
    by (subst strip_repeat.simps) (simp only: if_True simp_thms length_strip_repeat)
  also have "\<dots> < length s"
    using assms by (auto simp: starts_with_iff)
  finally show ?thesis .
qed

function parse_backend_type :: "str \<Rightarrow> protocol_kind \<Rightarrow> canonical_data_type" where
  "parse_backend_type dt backend =
     (let t = trim (to_ascii_lowercase dt)
      in case common_type_alias t of
           Some c \<Rightarrow> c
         | None \<Rightarrow>
             (case backend of
                MySql \<Rightarrow> if starts_with ''mysql_type_'' t
                         then parse_backend_type (strip_repeat ''mysql_type_'' t) MySql
                         else TUnknown
              | PostgreSql \<Rightarrow> TUnknown))"
  by pat_completeness auto
termination
proof (relation "measure (\<lambda>(s, b). length s)", goal_cases)
  case (2 dt backend t)
  have "length (strip_repeat ''mysql_type_'' t) < length t"
    using 2 by (intro strip_repeat_shorter) simp_all
  also have "\<dots> \<le> length dt"
    using 2 length_trim [of "to_ascii_lowercase dt"] by simp
  finally show ?case by simp
qed simp

declare parse_backend_type.simps [simp del]

definition map_column_type :: "str \<Rightarrow> protocol_kind \<Rightarrow> protocol_kind \<Rightarrow> str" where
  "map_column_type backend_type backend frontend =
     (if backend = frontend then backend_type
      else to_protocol_type (parse_backend_type backend_type backend) frontend)"

section \<open>Dialect heuristics\<close>

text \<open>The default method of the trait \<open>DialectParser\<close>.\<close>

definition leading_keyword :: "str \<Rightarrow> str option" where
  "leading_keyword sql =
     (case first_word (to_ascii_uppercase (trim_start sql)) of
        None \<Rightarrow> None
      | Some w \<Rightarrow>
          let token = trim_end_matches (\<lambda>c. c = CHR '';'') w
          in if token = [] then None else Some token)"

definition mysql_read_keywords :: "str list" where
  "mysql_read_keywords =
     [''SELECT'', ''SHOW'', ''EXPLAIN'', ''DESCRIBE'', ''DESC'', ''WITH'', ''VALUES'']"

definition postgresql_read_keywords :: "str list" where
  "postgresql_read_keywords =
     [''SELECT'', ''SHOW'', ''EXPLAIN'', ''WITH'', ''VALUES'', ''TABLE'']"

definition heuristic_is_read_only :: "protocol_kind \<Rightarrow> str \<Rightarrow> bool" where
  "heuristic_is_read_only dialect sql =
     (let upper = to_ascii_uppercase (trim_start sql);
          first_token = trim_end_matches (\<lambda>c. c = CHR '';'')
            (case first_word upper of None \<Rightarrow> [] | Some w \<Rightarrow> w);
          read_keywords = (case dialect of
              MySql \<Rightarrow> first_token \<in> set mysql_read_keywords
            | PostgreSql \<Rightarrow> first_token \<in> set postgresql_read_keywords)
      in read_keywords
         \<and> \<not> contains '' FOR UPDATE'' upper
         \<and> \<not> contains '' FOR SHARE'' upper
         \<and> \<not> contains '' FOR NO KEY UPDATE'' upper
         \<and> \<not> contains '' FOR KEY SHARE'' upper)"

section \<open>Properties of the tables\<close>

lemma read_only_leading_keyword:
  assumes "heuristic_is_read_only d sql"
  obtains k where "leading_keyword sql = Some k"
    and "k \<in> set mysql_read_keywords \<union> set postgresql_read_keywords"
proof -
  let ?w = "first_word (to_ascii_uppercase (trim_start sql))"
  let ?t = "trim_end_matches (\<lambda>c. c = CHR '';'') (case ?w of None \<Rightarrow> [] | Some w \<Rightarrow> w)"
  have mem: "?t \<in> set mysql_read_keywords \<union> set postgresql_read_keywords"
    using assms by (cases d) (auto simp: heuristic_is_read_only_def Let_def)
  moreover have "[] \<notin> set mysql_read_keywords \<union> set postgresql_read_keywords"
    by (simp add: mysql_read_keywords_def postgresql_read_keywords_def)
  ultimately have "?t \<noteq> []" by metis
  then have "leading_keyword sql = Some ?t"
    by (cases ?w) (auto simp: leading_keyword_def trim_end_matches_def Let_def)
  with mem that show thesis by blast
qed

text \<open>
  Printing a canonical type, parsing the name and printing it again gives the same name, except for
  MySQL's \<open>timestamp\<close> of a time with zone.
\<close>

lemma wire_type_stable:
  assumes "(c, p) \<noteq> (TTimestamptz, MySql)"
  shows "to_protocol_type (parse_backend_type (to_protocol_type c p) p) p = to_protocol_type c p"
  using assms by (cases c; cases p; simp; code_simp)

end
