(* ===== verification/Sql_Scan.thy ===== *)
theory Sql_Scan
  imports Nexus_Prelude
begin

text \<open>
  The byte scanners over SQL text that the policy engine shares: top-level keyword search
  (\<open>find_top_level_keyword\<close>, the same text in \<open>obligations.rs\<close> and \<open>pdp.rs\<close>, and the
  quote-blind \<open>contains_top_level_keyword\<close> of \<open>ticket.rs\<close>), \<open>find_matching_paren\<close> and
  \<open>split_select_list\<close> of \<open>pdp.rs\<close>.

  The source keeps three flags \<open>in_single\<close>, \<open>in_double\<close>, \<open>in_back\<close>, of which at most one
  is set; \<open>quote_state\<close> is that state and \<open>scan_step\<close> the update every scanner shares.
\<close>

section \<open>The scanner state\<close>

datatype quote_state = NoQuote | InSingle | InDouble | InBack

abbreviation squote :: char where "squote \<equiv> CHR 0x27"
abbreviation dquote :: char where "dquote \<equiv> CHR 0x22"
abbreviation bquote :: char where "bquote \<equiv> CHR 0x60"
abbreviation lparen :: char where "lparen \<equiv> CHR ''(''"
abbreviation rparen :: char where "rparen \<equiv> CHR '')''"
abbreviation comma :: char where "comma \<equiv> CHR '',''"
abbreviation dot :: char where "dot \<equiv> CHR ''.''"

definition scan_step :: "quote_state \<times> int \<Rightarrow> char \<Rightarrow> quote_state \<times> int" where
  "scan_step st c =
     (case fst st of
        InSingle \<Rightarrow> (if c = squote then NoQuote else InSingle, snd st)
      | InDouble \<Rightarrow> (if c = dquote then NoQuote else InDouble, snd st)
      | InBack \<Rightarrow> (if c = bquote then NoQuote else InBack, snd st)
      | NoQuote \<Rightarrow>
          if c = squote then (InSingle, snd st)
          else if c = dquote then (InDouble, snd st)
          else if c = bquote then (InBack, snd st)
          else if c = lparen then (NoQuote, snd st + 1)
          else if c = rparen then (NoQuote, snd st - 1)
          else st)"

definition scan_special :: "char \<Rightarrow> bool" where
  "scan_special c \<longleftrightarrow> c = squote \<or> c = dquote \<or> c = bquote \<or> c = lparen \<or> c = rparen"

definition scan_to :: "quote_state \<times> int \<Rightarrow> str \<Rightarrow> quote_state \<times> int" where
  "scan_to st s = foldl scan_step st s"

lemma scan_to_simps [simp]:
  "scan_to st [] = st"
  "scan_to st (c # s) = scan_to (scan_step st c) s"
  "scan_to st (a @ b) = scan_to (scan_to st a) b"
  by (simp_all add: scan_to_def)

lemma scan_step_upper: "scan_step st (upper_byte c) = scan_step st c"
proof -
  have "upper_byte c = d \<longleftrightarrow> c = d" if "scan_special d" for d
    by (rule upper_byte_eq_iff)
      (use that in \<open>auto simp: scan_special_def is_ascii_uppercase_def is_ascii_lowercase_def\<close>)
  then show ?thesis by (simp add: scan_step_def scan_special_def split: quote_state.split)
qed

lemma scan_to_upper: "scan_to st (to_ascii_uppercase s) = scan_to st s"
  by (induction s arbitrary: st) (simp_all add: to_ascii_uppercase_def scan_step_upper)

section \<open>Keyword search\<close>

text \<open>The word-boundary test around an occurrence; \<open>prev\<close> is the byte before it, if any.\<close>

definition boundary_before :: "char option \<Rightarrow> bool" where
  "boundary_before prev \<longleftrightarrow> (case prev of None \<Rightarrow> True | Some b \<Rightarrow> \<not> is_ascii_alphanumeric b)"

definition boundary_after :: "str \<Rightarrow> bool" where
  "boundary_after rest \<longleftrightarrow> (case rest of [] \<Rightarrow> True | b # _ \<Rightarrow> \<not> is_ascii_alphanumeric b)"

definition keyword_at :: "str \<Rightarrow> char option \<Rightarrow> str \<Rightarrow> bool" where
  "keyword_at key prev s \<longleftrightarrow>
     starts_with key s \<and> boundary_before prev \<and> boundary_after (drop (length key) s)"

fun ftk_loop :: "str \<Rightarrow> char option \<Rightarrow> quote_state \<times> int \<Rightarrow> nat \<Rightarrow> str \<Rightarrow> nat option" where
  "ftk_loop key prev st i [] = None"
| "ftk_loop key prev st i (c # r) =
     (if length (c # r) < length key then None
      else if st = (NoQuote, 0) \<and> \<not> scan_special c \<and> keyword_at key prev (c # r) then Some i
      else ftk_loop key (Some c) (scan_step st c) (i + 1) r)"

definition find_top_level_keyword :: "str \<Rightarrow> str \<Rightarrow> nat option" where
  "find_top_level_keyword sql keyword =
     ftk_loop (to_ascii_uppercase keyword) None (NoQuote, 0) 0 (to_ascii_uppercase sql)"

text \<open>The variant of \<open>ticket.rs\<close>: parentheses count, quotes do not.\<close>

fun ctk_loop :: "str \<Rightarrow> char option \<Rightarrow> int \<Rightarrow> str \<Rightarrow> bool" where
  "ctk_loop key prev depth [] = False"
| "ctk_loop key prev depth (c # r) =
     (if length (c # r) < length key then False
      else if c = lparen then ctk_loop key (Some c) (depth + 1) r
      else if c = rparen then ctk_loop key (Some c) (depth - 1) r
      else if depth = 0 \<and> keyword_at key prev (c # r) then True
      else ctk_loop key (Some c) depth r)"

definition contains_top_level_keyword :: "str \<Rightarrow> str \<Rightarrow> bool" where
  "contains_top_level_keyword sql keyword =
     ctk_loop (to_ascii_uppercase keyword) None 0 (to_ascii_uppercase sql)"

section \<open>Parentheses and lists\<close>

fun fmp_loop :: "quote_state \<times> int \<Rightarrow> nat \<Rightarrow> str \<Rightarrow> nat option" where
  "fmp_loop st i [] = None"
| "fmp_loop st i (c # r) =
     (if fst st = NoQuote \<and> c = rparen \<and> snd st - 1 = 0 then Some i
      else fmp_loop (scan_step st c) (i + 1) r)"

definition find_matching_paren :: "str \<Rightarrow> nat option" where
  "find_matching_paren s = fmp_loop (NoQuote, 1) 0 s"

text \<open>\<open>cur\<close> is the slice from \<open>start\<close> to the current index.\<close>

definition push_part :: "str \<Rightarrow> str list" where
  "push_part cur = (if trim cur = [] then [] else [trim cur])"

fun ssl_loop :: "quote_state \<times> int \<Rightarrow> str \<Rightarrow> str \<Rightarrow> str list" where
  "ssl_loop st cur [] = push_part cur"
| "ssl_loop st cur (c # r) =
     (if st = (NoQuote, 0) \<and> c = comma then push_part cur @ ssl_loop st [] r
      else ssl_loop (scan_step st c) (cur @ [c]) r)"

definition split_select_list :: "str \<Rightarrow> str list" where
  "split_select_list l = ssl_loop (NoQuote, 0) [] l"

section \<open>What the scanners find\<close>

definition hit_from :: "str \<Rightarrow> char option \<Rightarrow> quote_state \<times> int \<Rightarrow> str \<Rightarrow> nat \<Rightarrow> bool" where
  "hit_from key prev st s j \<longleftrightarrow>
     j < length s \<and> scan_to st (take j s) = (NoQuote, 0) \<and> \<not> scan_special (s ! j) \<and>
     keyword_at key (if j = 0 then prev else Some (s ! (j - 1))) (drop j s)"

abbreviation top_level_hit :: "str \<Rightarrow> str \<Rightarrow> nat \<Rightarrow> bool" where
  "top_level_hit key s i \<equiv> hit_from key None (NoQuote, 0) s i"

lemma hit_from_0:
  "hit_from key prev st (c # r) 0 \<longleftrightarrow>
     st = (NoQuote, 0) \<and> \<not> scan_special c \<and> keyword_at key prev (c # r)"
  by (simp add: hit_from_def)

lemma hit_from_Suc:
  "hit_from key prev st (c # r) (Suc j) = hit_from key (Some c) (scan_step st c) r j"
  by (cases j) (auto simp: hit_from_def)

lemma hit_from_length: "hit_from key prev st s j \<Longrightarrow> j + length key \<le> length s"
proof -
  assume "hit_from key prev st s j"
  then obtain t where "drop j s = key @ t" and "j < length s"
    by (auto simp: hit_from_def keyword_at_def starts_with_iff)
  then have "length s - j = length key + length t" by (metis length_append length_drop)
  with \<open>j < length s\<close> show ?thesis by simp
qed

lemma ftk_loop_spec:
  "ftk_loop key prev st i s =
     (if \<exists>j. hit_from key prev st s j
      then Some (i + (LEAST j. hit_from key prev st s j)) else None)"
proof (induction key prev st i s rule: ftk_loop.induct)
  case (1 key prev st i)
  show ?case by (simp add: hit_from_def)
next
  case (2 key prev st i c r)
  let ?P = "hit_from key prev st (c # r)" and ?Q = "hit_from key (Some c) (scan_step st c) r"
  consider (short) "length (c # r) < length key" | (hit) "\<not> length (c # r) < length key" "?P 0"
    | (skip) "\<not> length (c # r) < length key" "\<not> ?P 0" by blast
  then show ?case
  proof cases
    case short
    then have "\<not> ?P j" for j using hit_from_length [of key prev st "c # r" j] by auto
    with short show ?thesis by simp
  next
    case hit
    then have "(LEAST j. ?P j) = 0" by (simp add: Least_eq_0)
    moreover have "\<exists>j. ?P j" using hit(2) by blast
    ultimately show ?thesis using hit by (simp add: hit_from_0)
  next
    case skip
    have ex: "(\<exists>j. ?P j) \<longleftrightarrow> (\<exists>j. ?Q j)"
      using skip(2) hit_from_Suc by (metis not0_implies_Suc)
    have least: "(LEAST j. ?P j) = Suc (LEAST j. ?Q j)" if "?Q k" for k
    proof -
      from that have k: "?P (Suc k)" by (simp add: hit_from_Suc)
      then show ?thesis using Least_Suc [of ?P, OF k skip(2)] by (simp add: hit_from_Suc)
    qed
    from skip have no: "\<not> (st = (NoQuote, 0) \<and> \<not> scan_special c \<and> keyword_at key prev (c # r))"
      by (simp add: hit_from_0)
    have "ftk_loop key prev st i (c # r) = ftk_loop key (Some c) (scan_step st c) (i + 1) r"
      by (simp only: ftk_loop.simps if_not_P [OF skip(1)] if_not_P [OF no])
    also have "\<dots> = (if \<exists>j. ?Q j then Some (i + 1 + (LEAST j. ?Q j)) else None)"
      by (rule "2.IH" [OF skip(1) no])
    finally show ?thesis using ex least by auto
  qed
qed

lemma find_top_level_keyword_Some:
  assumes "find_top_level_keyword sql key = Some i"
  shows "top_level_hit (to_ascii_uppercase key) (to_ascii_uppercase sql) i"
    and "\<And>j. j < i \<Longrightarrow> \<not> top_level_hit (to_ascii_uppercase key) (to_ascii_uppercase sql) j"
proof -
  let ?H = "\<lambda>j. top_level_hit (to_ascii_uppercase key) (to_ascii_uppercase sql) j"
  have ex: "\<exists>j. ?H j" and least: "i = (LEAST j. ?H j)"
    using assms unfolding find_top_level_keyword_def ftk_loop_spec
    by (auto split: if_splits)
  show "?H i" unfolding least using ex by (rule LeastI_ex)
  show "\<not> ?H j" if "j < i" for j
    using that unfolding least by (rule not_less_Least)
qed

lemma find_top_level_keyword_None:
  "find_top_level_keyword sql key = None \<longleftrightarrow>
     (\<nexists>i. top_level_hit (to_ascii_uppercase key) (to_ascii_uppercase sql) i)"
  unfolding find_top_level_keyword_def ftk_loop_spec by simp

lemma find_top_level_keyword_bound:
  "find_top_level_keyword sql key = Some i \<Longrightarrow> i + length key \<le> length sql"
  using hit_from_length [OF find_top_level_keyword_Some(1)] by simp

lemma fmp_loop_Some:
  "fmp_loop st i s = Some k \<Longrightarrow>
     i \<le> k \<and> k - i < length s \<and> s ! (k - i) = rparen \<and> scan_to st (take (k - i) s) = (NoQuote, 1)"
proof (induction st i s rule: fmp_loop.induct)
  case (2 st i c r)
  show ?case
  proof (cases "fst st = NoQuote \<and> c = rparen \<and> snd st - 1 = 0")
    case True
    with 2 show ?thesis by (cases st) auto
  next
    case False
    with 2 have IH: "i + 1 \<le> k \<and> k - (i + 1) < length r \<and> r ! (k - (i + 1)) = rparen \<and>
        scan_to (scan_step st c) (take (k - (i + 1)) r) = (NoQuote, 1)"
      by (auto simp only: fmp_loop.simps if_False)
    then have "k - i = Suc (k - (i + 1))" by auto
    with IH show ?thesis by simp
  qed
qed simp

lemma find_matching_paren_Some:
  "find_matching_paren s = Some k \<Longrightarrow>
     k < length s \<and> s ! k = rparen \<and> scan_to (NoQuote, 1) (take k s) = (NoQuote, 1)"
  using fmp_loop_Some [of "(NoQuote, 1)" 0 s k] by (simp add: find_matching_paren_def)

text \<open>The untrimmed segments between the top-level commas.\<close>

fun segments :: "quote_state \<times> int \<Rightarrow> str \<Rightarrow> str \<Rightarrow> str list" where
  "segments st cur [] = [cur]"
| "segments st cur (c # r) =
     (if st = (NoQuote, 0) \<and> c = comma then cur # segments st [] r
      else segments (scan_step st c) (cur @ [c]) r)"

lemma segments_nonempty [simp]: "segments st cur s \<noteq> []"
  by (induction st cur s rule: segments.induct) auto

lemma join_Cons: "xs \<noteq> [] \<Longrightarrow> join sep (x # xs) = x @ sep @ join sep xs"
  by (cases xs) auto

lemma join_segments: "join [comma] (segments st cur s) = cur @ s"
  by (induction st cur s rule: segments.induct) (auto simp: join_Cons)

lemma ssl_loop_segments: "ssl_loop st cur s = concat (map push_part (segments st cur s))"
  by (induction st cur s rule: segments.induct) auto

definition top_level_comma_free :: "str \<Rightarrow> bool" where
  "top_level_comma_free s \<longleftrightarrow>
     (\<forall>i < length s. s ! i = comma \<longrightarrow> scan_to (NoQuote, 0) (take i s) \<noteq> (NoQuote, 0))"

lemma segments_comma_free:
  "top_level_comma_free cur \<Longrightarrow> scan_to (NoQuote, 0) cur = st \<Longrightarrow>
     \<forall>x \<in> set (segments st cur s). top_level_comma_free x"
proof (induction st cur s rule: segments.induct)
  case (2 st cur c r)
  show ?case
  proof (cases "st = (NoQuote, 0) \<and> c = comma")
    case True
    have "top_level_comma_free []" by (simp add: top_level_comma_free_def)
    with True 2 show ?thesis by simp
  next
    case False
    have "top_level_comma_free (cur @ [c])"
      using "2.prems" False by (auto simp: top_level_comma_free_def nth_append less_Suc_eq)
    moreover have "scan_to (NoQuote, 0) (cur @ [c]) = scan_step st c"
      using "2.prems" by simp
    ultimately have "\<forall>x \<in> set (segments (scan_step st c) (cur @ [c]) r). top_level_comma_free x"
      using "2.IH"(2) [OF False] by simp
    then show ?thesis by (simp only: segments.simps if_not_P [OF False])
  qed
qed simp

section \<open>Joining the items of a list again\<close>

fun comma_free_from :: "quote_state \<times> int \<Rightarrow> str \<Rightarrow> bool" where
  "comma_free_from st [] = True"
| "comma_free_from st (c # r) =
     (\<not> (st = (NoQuote, 0) \<and> c = comma) \<and> comma_free_from (scan_step st c) r)"

lemma comma_free_from_append:
  "comma_free_from st (a @ b) \<longleftrightarrow> comma_free_from st a \<and> comma_free_from (scan_to st a) b"
  by (induction a arbitrary: st) auto

text \<open>An item of a select list: trimmed, with balanced quotes and parentheses, no comma outside.\<close>

definition list_item :: "str \<Rightarrow> bool" where
  "list_item k \<longleftrightarrow>
     k \<noteq> [] \<and> trim k = k \<and> scan_to (NoQuote, 0) k = (NoQuote, 0) \<and> comma_free_from (NoQuote, 0) k"

lemma scan_ws_byte: "is_ascii_ws c \<or> 128 \<le> byte c \<Longrightarrow> scan_step st c = st \<and> c \<noteq> comma"
  by (cases st; cases "fst st") (auto simp: scan_step_def is_ascii_ws_def)

lemma scan_ws_bytes: "ws_bytes a \<Longrightarrow> scan_to st a = st \<and> comma_free_from st a"
  by (induction a) (auto simp: ws_bytes_def scan_ws_byte)

lemma scan_to_trim:
  assumes "scan_to (NoQuote, 0) s = (NoQuote, 0)"
  shows "scan_to (NoQuote, 0) (trim s) = (NoQuote, 0)"
proof -
  obtain a b where s: "s = a @ trim s @ b" "ws_bytes a" "ws_bytes b" using trim_decomp by blast
  show ?thesis
    using assms scan_ws_bytes [OF s(2)] scan_ws_bytes [OF s(3)] by (subst (asm) s(1)) simp
qed

lemma push_part_item:
  assumes "scan_to (NoQuote, 0) s = (NoQuote, 0)" and "comma_free_from (NoQuote, 0) s"
    and "k \<in> set (push_part s)"
  shows "list_item k"
proof -
  obtain a b where s: "s = a @ trim s @ b" "ws_bytes a" "ws_bytes b" using trim_decomp by blast
  have "scan_to (NoQuote, 0) (trim s) = (NoQuote, 0)" using assms(1) by (rule scan_to_trim)
  moreover have "comma_free_from (NoQuote, 0) (trim s)"
    using assms(2) scan_ws_bytes [OF s(2)]
    by (subst (asm) s(1)) (simp add: comma_free_from_append)
  ultimately show ?thesis using assms(3) by (auto simp: push_part_def list_item_def split: if_splits)
qed

lemma segments_items:
  assumes "scan_to st s = (NoQuote, 0)" and "scan_to (NoQuote, 0) cur = st"
    and "comma_free_from (NoQuote, 0) cur" and "x \<in> set (segments st cur s)"
  shows "scan_to (NoQuote, 0) x = (NoQuote, 0) \<and> comma_free_from (NoQuote, 0) x"
  using assms
proof (induction st cur s rule: segments.induct)
  case (2 st cur c r)
  show ?case
  proof (cases "st = (NoQuote, 0) \<and> c = comma")
    case True
    with 2 show ?thesis by (auto simp: scan_step_def)
  next
    case False
    then show ?thesis
      using "2.prems"
      by (intro "2.IH"(2)) (auto simp: comma_free_from_append split: if_splits)
  qed
qed auto

lemma split_select_list_items:
  "scan_to (NoQuote, 0) l = (NoQuote, 0) \<Longrightarrow> k \<in> set (split_select_list l) \<Longrightarrow> list_item k"
  using segments_items [of "(NoQuote, 0)" l "[]"] push_part_item
  by (auto simp: split_select_list_def ssl_loop_segments)

lemma ssl_loop_skip:
  "comma_free_from st k \<Longrightarrow> ssl_loop st cur (k @ t) = ssl_loop (scan_to st k) (cur @ k) t"
  by (induction k arbitrary: st cur) auto

lemma ssl_loop_join:
  "list_all list_item ks \<Longrightarrow> ks \<noteq> [] \<Longrightarrow> cur = [] \<or> cur = '' '' \<Longrightarrow>
     ssl_loop (NoQuote, 0) cur (join '', '' ks) = ks"
proof (induction "'', ''" ks arbitrary: cur rule: join.induct)
  case (2 k)
  then show ?case
    using ssl_loop_skip [of "(NoQuote, 0)" k cur "[]"] by (auto simp: list_item_def push_part_def)
next
  case (3 k k' ks)
  have "ssl_loop (NoQuote, 0) cur (join '', '' (k # k' # ks)) =
      push_part (cur @ k) @ ssl_loop (NoQuote, 0) '' '' (join '', '' (k' # ks))"
    using "3.prems" ssl_loop_skip [of "(NoQuote, 0)" k cur "'', '' @ join '', '' (k' # ks)"]
    by (simp add: list_item_def scan_step_def)
  also have "push_part (cur @ k) = [k]"
    using "3.prems" by (auto simp: list_item_def push_part_def)
  finally show ?case using 3 by simp
qed simp

lemma split_join_items:
  "list_all list_item ks \<Longrightarrow> ks \<noteq> [] \<Longrightarrow> split_select_list (join '', '' ks) = ks"
  by (simp add: split_select_list_def ssl_loop_join)

end
