(* ===== verification/Wire_Bytes.thy ===== *)
theory Wire_Bytes
  imports Nexus_Prelude
begin

text \<open>
  Bytes on the wire: the part of the \<open>bytes\<close>, \<open>byteorder\<close> and \<open>std::str\<close> interfaces that the two
  protocol crates use.  A byte vector is the list of its bytes, as a string is.  Integers are written
  and read in both byte orders; reading from a \<open>Buf\<close> that is too short panics, which is the value
  \<open>Panic\<close>.  UTF-8 validation is the one of the standard library, its error value included.

  The locale \<open>wire_format\<close> is the contract a pair of encoder and reader has: what was encoded is read
  back and the bytes after it are left alone.  It gives, once for all formats, that encodings are
  uniquely decodable, also when they are sent one after the other.
\<close>

type_synonym bytes = str

named_theorems wire_simps \<open>reading back what was written\<close>

lemma if_Panic_iff: "(if P then Panic else m) = Done y \<longleftrightarrow> \<not> P \<and> m = Done y"
  by simp

section \<open>Byte order\<close>

fun le_bytes :: "nat \<Rightarrow> nat \<Rightarrow> bytes" where
  "le_bytes 0 n = []"
| "le_bytes (Suc k) n = char_of (n mod 256) # le_bytes k (n div 256)"

fun le_nat :: "bytes \<Rightarrow> nat" where
  "le_nat [] = 0"
| "le_nat (c # bs) = byte c + 256 * le_nat bs"

definition be_bytes :: "nat \<Rightarrow> nat \<Rightarrow> bytes" where
  "be_bytes k n = rev (le_bytes k n)"

definition be_nat :: "bytes \<Rightarrow> nat" where
  "be_nat bs = le_nat (rev bs)"

lemma length_le_bytes [simp]: "length (le_bytes k n) = k"
  by (induction k arbitrary: n) auto

lemma length_be_bytes [simp]: "length (be_bytes k n) = k"
  by (simp add: be_bytes_def)

lemma byte_less [simp]: "byte c < 256"
  using of_char_mod_256 [of c, where ?'a = nat] by (metis mod_less_divisor zero_less_numeral)

lemma le_nat_less: "le_nat bs < 256 ^ length bs"
proof (induction bs)
  case (Cons c bs)
  have "byte c < 256" by simp
  with Cons have "byte c + 256 * le_nat bs < 256 * (Suc (le_nat bs))" by simp
  also have "\<dots> \<le> 256 * 256 ^ length bs" using Cons by (intro mult_le_mono2) simp
  finally show ?case by simp
qed simp

lemma le_nat_le_bytes: "le_nat (le_bytes k n) = n mod 256 ^ k"
proof (induction k arbitrary: n)
  case (Suc k)
  have "n mod 256 + 256 * (n div 256 mod 256 ^ k) = n mod (256 * 256 ^ k)"
    by (simp add: mod_mult2_eq)
  then show ?case using Suc by simp
qed simp

lemma le_bytes_le_nat [simp]: "le_bytes (length bs) (le_nat bs) = bs"
proof (induction bs)
  case (Cons c bs)
  have "(byte c + 256 * le_nat bs) mod 256 = byte c" "(byte c + 256 * le_nat bs) div 256 = le_nat bs"
    using byte_less [of c] by (simp_all del: byte_less)
  with Cons show ?case by simp
qed simp

lemma be_nat_be_bytes: "be_nat (be_bytes k n) = n mod 256 ^ k"
  by (simp add: be_nat_def be_bytes_def le_nat_le_bytes)

lemma be_nat_less: "be_nat bs < 256 ^ length bs"
  using le_nat_less [of "rev bs"] by (simp add: be_nat_def)

lemma be_bytes_be_nat [simp]: "be_bytes (length bs) (be_nat bs) = bs"
  using le_bytes_le_nat [of "rev bs"] by (simp add: be_nat_def be_bytes_def)

text \<open>A \<open>Vec\<close> of more than \<open>isize::MAX\<close> bytes is a capacity overflow.\<close>

definition isize_max :: nat where "isize_max = 2 ^ 63 - 1"

definition with_capacity :: "nat \<Rightarrow> nat \<Rightarrow> unit run" where
  "with_capacity elem_size n = (if isize_max < n * elem_size then Panic else Done ())"

section \<open>Reading from a buffer\<close>

text \<open>\<open>Buf::get_u8\<close>, \<open>get_uint_le\<close>, \<open>advance\<close> and \<open>BytesMut::split_to\<close>: all panic on a short buffer.\<close>

fun get_u8 :: "bytes \<Rightarrow> (nat \<times> bytes) run" where
  "get_u8 [] = Panic"
| "get_u8 (c # bs) = Done (byte c, bs)"

definition split_to :: "nat \<Rightarrow> bytes \<Rightarrow> (bytes \<times> bytes) run" where
  "split_to n bs = (if n \<le> length bs then Done (take n bs, drop n bs) else Panic)"

definition advance :: "nat \<Rightarrow> bytes \<Rightarrow> bytes run" where
  "advance n bs = (if n \<le> length bs then Done (drop n bs) else Panic)"

definition get_uint_le :: "nat \<Rightarrow> bytes \<Rightarrow> (nat \<times> bytes) run" where
  "get_uint_le n bs = (if n \<le> length bs then Done (le_nat (take n bs), drop n bs) else Panic)"

text \<open>\<open>&data[a..b]\<close>, \<open>&data[a..]\<close> and \<open>data[i]\<close> of a byte slice.\<close>

definition sub_range :: "bytes \<Rightarrow> nat \<Rightarrow> nat \<Rightarrow> bytes run" where
  "sub_range bs a b = (if a \<le> b \<and> b \<le> length bs then Done (take (b - a) (drop a bs)) else Panic)"

definition sub_from :: "bytes \<Rightarrow> nat \<Rightarrow> bytes run" where
  "sub_from bs a = (if a \<le> length bs then Done (drop a bs) else Panic)"

definition at_index :: "bytes \<Rightarrow> nat \<Rightarrow> nat run" where
  "at_index bs i = (if i < length bs then Done (byte (bs ! i)) else Panic)"

lemma get_uint_le_append [wire_simps]:
  "n < 256 ^ k \<Longrightarrow> get_uint_le k (le_bytes k n @ r) = Done (n, r)"
  by (simp add: get_uint_le_def le_nat_le_bytes)

lemma split_to_append [wire_simps]: "split_to (length a) (a @ r) = Done (a, r)"
  by (simp add: split_to_def)

lemma advance_append [wire_simps]: "advance (length a) (a @ r) = Done r"
  by (simp add: advance_def)

lemma get_u8_char_of [wire_simps]: "n < 256 \<Longrightarrow> get_u8 (char_of n # r) = Done (n, r)"
  by simp

section \<open>Machine integers of the PostgreSQL protocol\<close>

text \<open>\<open>to_be_bytes\<close> and \<open>BigEndian::read_i16\<close>, \<open>read_i32\<close>, \<open>read_i64\<close>; the word keeps the width and
  \<open>sint\<close> reads its sign.\<close>

definition i16_be :: "16 word \<Rightarrow> bytes" where "i16_be w = be_bytes 2 (unat w)"
definition i32_be :: "32 word \<Rightarrow> bytes" where "i32_be w = be_bytes 4 (unat w)"

definition read_i16 :: "bytes \<Rightarrow> 16 word" where "read_i16 bs = of_nat (be_nat bs)"
definition read_i32 :: "bytes \<Rightarrow> 32 word" where "read_i32 bs = of_nat (be_nat bs)"
definition read_i64 :: "bytes \<Rightarrow> 64 word" where "read_i64 bs = of_nat (be_nat bs)"

lemma length_i16_be [simp]: "length (i16_be w) = 2" by (simp add: i16_be_def)
lemma length_i32_be [simp]: "length (i32_be w) = 4" by (simp add: i32_be_def)

lemma read_i16_be [simp, wire_simps]: "read_i16 (i16_be w) = w"
proof -
  have "unat w < 256 ^ 2" using unsigned_less [of w, where ?'a = nat] by simp
  then show ?thesis by (simp add: read_i16_def i16_be_def be_nat_be_bytes)
qed

lemma read_i32_be [simp, wire_simps]: "read_i32 (i32_be w) = w"
proof -
  have "unat w < 256 ^ 4" using unsigned_less [of w, where ?'a = nat] by simp
  then show ?thesis by (simp add: read_i32_def i32_be_def be_nat_be_bytes)
qed

lemma i32_be_read: "length bs = 4 \<Longrightarrow> i32_be (read_i32 bs) = bs"
proof -
  assume l: "length bs = 4"
  then have "be_nat bs < 2 ^ LENGTH(32)" using be_nat_less [of bs] by simp
  then show ?thesis using l be_bytes_be_nat [of bs] by (simp add: i32_be_def read_i32_def unat_of_nat take_bit_nat_eq_self)
qed

text \<open>\<open>as usize\<close> on a signed integer sign-extends to 64 bits.\<close>

definition i16_as_usize :: "16 word \<Rightarrow> nat" where
  "i16_as_usize w = nat (sint w mod 2 ^ 64)"

definition i32_as_usize :: "32 word \<Rightarrow> nat" where
  "i32_as_usize w = nat (sint w mod 2 ^ 64)"

lemma i16_as_usize_nonneg: "0 \<le> sint w \<Longrightarrow> i16_as_usize w = nat (sint w)"
  using sint_less [of w] by (simp add: i16_as_usize_def)

lemma i16_as_usize_neg: "sint w < 0 \<Longrightarrow> 2 ^ 63 \<le> i16_as_usize w"
proof -
  assume "sint w < 0"
  moreover have "- (2 ^ 15) \<le> sint w" using sint_ge [of w] by simp
  ultimately have "(sint w + 2 ^ 64) mod 2 ^ 64 = sint w + 2 ^ 64"
    by (intro mod_pos_pos_trivial) simp_all
  then show ?thesis using \<open>- (2 ^ 15) \<le> sint w\<close> by (simp add: i16_as_usize_def)
qed

lemma sint_of_nat_small:
  assumes "n < 2 ^ (LENGTH('a :: len) - 1)"
  shows "sint (of_nat n :: 'a word) = int n"
proof -
  have "int n < 2 ^ (LENGTH('a) - 1)" using assms by (metis of_nat_less_iff of_nat_numeral of_nat_power)
  then have "signed_take_bit (LENGTH('a) - 1) (int n) = int n"
    by (intro signed_take_bit_int_eq_self) (auto intro: order_trans [of _ 0])
  then show ?thesis by (simp add: signed_of_nat)
qed

section \<open>UTF-8\<close>

text \<open>
  \<open>utf8_width\<close> is the length of the longest prefix that is a valid character (\<open>True\<close>) or a maximal
  invalid subpart (\<open>False\<close>).
\<close>

definition second_ok :: "nat \<Rightarrow> nat \<Rightarrow> bool" where
  "second_ok b d \<longleftrightarrow>
     (if b = 0xE0 then 0xA0 \<le> d \<and> d \<le> 0xBF
      else if b = 0xED then 0x80 \<le> d \<and> d \<le> 0x9F
      else if b = 0xF0 then 0x90 \<le> d \<and> d \<le> 0xBF
      else if b = 0xF4 then 0x80 \<le> d \<and> d \<le> 0x8F
      else 0x80 \<le> d \<and> d \<le> 0xBF)"

definition utf8_width :: "str \<Rightarrow> nat \<times> bool" where
  "utf8_width s =
     (let b = byte (hd s);
          ok2 = (1 < length s \<and> second_ok b (byte (s ! 1)));
          ok3 = (2 < length s \<and> is_continuation (s ! 2));
          ok4 = (3 < length s \<and> is_continuation (s ! 3))
      in if b < 0x80 then (1, True)
         else if 0xC2 \<le> b \<and> b \<le> 0xDF then (if ok2 then (2, True) else (1, False))
         else if 0xE0 \<le> b \<and> b \<le> 0xEF
           then (if \<not> ok2 then (1, False) else if ok3 then (3, True) else (2, False))
         else if 0xF0 \<le> b \<and> b \<le> 0xF4
           then (if \<not> ok2 then (1, False) else if \<not> ok3 then (2, False)
                 else if ok4 then (4, True) else (3, False))
         else (1, False))"

lemma utf8_width_pos: "0 < fst (utf8_width s)"
  by (simp add: utf8_width_def Let_def)

text \<open>\<open>std::str::Utf8Error\<close> and its \<open>Display\<close>: no length when the bytes only end too early.\<close>

record utf8_error =
  valid_up_to :: nat
  error_len :: "nat option"

definition utf8_error_display :: "utf8_error \<Rightarrow> str" where
  "utf8_error_display e =
     (case error_len e of
        Some n \<Rightarrow> ''invalid utf-8 sequence of '' @ show_nat n @ '' bytes from index '' @ show_nat (valid_up_to e)
      | None \<Rightarrow> ''incomplete utf-8 byte sequence from index '' @ show_nat (valid_up_to e))"

definition truncated_char :: "bytes \<Rightarrow> bool" where
  "truncated_char s \<longleftrightarrow> 0xC2 \<le> byte (hd s) \<and> byte (hd s) \<le> 0xF4 \<and> fst (utf8_width s) = length s"

function utf8_check :: "nat \<Rightarrow> bytes \<Rightarrow> utf8_error option" where
  "utf8_check i s =
     (if s = [] then None
      else if snd (utf8_width s) then utf8_check (i + fst (utf8_width s)) (drop (fst (utf8_width s)) s)
      else Some \<lparr>valid_up_to = i,
                 error_len = (if truncated_char s then None else Some (fst (utf8_width s)))\<rparr>)"
  by pat_completeness auto
termination
  by (relation "measure (\<lambda>(i, s). length s)") (auto simp: utf8_width_pos)

declare utf8_check.simps [simp del]

definition from_utf8 :: "bytes \<Rightarrow> utf8_error + str" where
  "from_utf8 bs = (case utf8_check 0 bs of None \<Rightarrow> Inr bs | Some e \<Rightarrow> Inl e)"

text \<open>The strings of Rust: valid UTF-8.\<close>

definition utf8 :: "bytes \<Rightarrow> bool" where
  "utf8 bs \<longleftrightarrow> utf8_check 0 bs = None"

lemma from_utf8_ok [simp, wire_simps]: "utf8 bs \<Longrightarrow> from_utf8 bs = Inr bs"
  by (simp add: from_utf8_def utf8_def)

lemma from_utf8_Inr_iff: "from_utf8 bs = Inr s \<longleftrightarrow> utf8 bs \<and> s = bs"
  by (auto simp: from_utf8_def utf8_def split: option.splits)

lemma utf8_check_ascii: "list_all (\<lambda>c. byte c < 128) s \<Longrightarrow> utf8_check i s = None"
proof (induction s arbitrary: i)
  case Nil
  then show ?case by (simp add: utf8_check.simps)
next
  case (Cons c s)
  then have "utf8_width (c # s) = (1, True)" by (simp add: utf8_width_def)
  with Cons show ?case by (simp add: utf8_check.simps)
qed

lemma utf8_ascii: "is_ascii_str s \<Longrightarrow> utf8 s"
  by (simp add: utf8_def is_ascii_str_def utf8_check_ascii)

lemma utf8_Nil [simp]: "utf8 []"
  by (simp add: utf8_ascii is_ascii_str_def)

section \<open>The contract of a wire format\<close>

locale wire_format =
  fixes enc :: "'a \<Rightarrow> bytes" and reads :: "bytes \<Rightarrow> 'a \<Rightarrow> bytes \<Rightarrow> bool" and ok :: "'a \<Rightarrow> bool"
  assumes reads_enc: "ok x \<Longrightarrow> reads (enc x @ r) x r"
    and reads_det: "reads bs x r \<Longrightarrow> reads bs y s \<Longrightarrow> x = y \<and> r = s"
    and enc_nonempty: "ok x \<Longrightarrow> enc x \<noteq> []"
begin

lemma prefix_free:
  assumes "ok x" and "ok y" and "enc x @ r = enc y @ s"
  shows "x = y \<and> r = s"
  using reads_enc [OF assms(1), of r] reads_enc [OF assms(2), of s] assms(3) reads_det by metis

lemma enc_inj: "ok x \<Longrightarrow> ok y \<Longrightarrow> enc x = enc y \<Longrightarrow> x = y"
  using prefix_free [of x y "[]" "[]"] by simp

lemma unique_decoding:
  assumes "list_all ok xs" and "list_all ok ys" and "concat (map enc xs) = concat (map enc ys)"
  shows "xs = ys"
  using assms
proof (induction xs arbitrary: ys)
  case Nil
  then show ?case using enc_nonempty by (cases ys) auto
next
  case (Cons x xs)
  then obtain y ys' where ys: "ys = y # ys'" using enc_nonempty by (cases ys) auto
  with Cons.prems have "enc x @ concat (map enc xs) = enc y @ concat (map enc ys')" by simp
  with Cons.prems ys have "x = y \<and> concat (map enc xs) = concat (map enc ys')"
    by (intro prefix_free) auto
  with Cons ys show ?case by auto
qed

end

end
