(* ===== verification/Obligations.thy ===== *)
theory Obligations
  imports Gateway_Model Sql_Scan Wire_Bytes
begin

text \<open>
  The obligations a decision carries and their enforcement (\<open>gateway/core/src/obligations.rs\<close>):
  masking of result cells, row limits, visible watermarks, and the injection of a row filter into
  the SQL text.  The decimal rendering of an \<open>f64\<close> is a parameter (\<open>f64_display\<close>) of the
  definitions that print cell values.
\<close>

unbundle bit_operations_syntax

section \<open>Mask and watermark specifications\<close>

datatype mask_algorithm = Nullify | Partial | Hash | Replace | KeepPrefix

definition mask_algorithm_parse :: "str \<Rightarrow> mask_algorithm option" where
  "mask_algorithm_parse raw =
     (let r = to_ascii_lowercase (trim raw)
      in if r = '''' then None
         else if r = ''nullify'' \<or> r = ''null'' then Some Nullify
         else if r = ''partial'' \<or> r = ''mask'' then Some Partial
         else if r = ''hash'' then Some Hash
         else if r = ''replace'' then Some Replace
         else if r = ''keep_prefix'' \<or> r = ''prefix'' then Some KeepPrefix
         else None)"

record mask_spec =
  ms_column :: str
  ms_algorithm :: mask_algorithm
  ms_replace_with :: str
  ms_prefix_len :: nat
  ms_suffix_len :: nat
  ms_rule :: str

definition mask_spec_new :: "str \<Rightarrow> mask_algorithm \<Rightarrow> str \<Rightarrow> mask_spec" where
  "mask_spec_new column algorithm rule =
     \<lparr>ms_column = column, ms_algorithm = algorithm, ms_replace_with = ''***'',
      ms_prefix_len = 3, ms_suffix_len = 2, ms_rule = rule\<rparr>"

datatype watermark_mode = WmColumn | WmSuffix

definition watermark_mode_parse :: "str \<Rightarrow> watermark_mode" where
  "watermark_mode_parse raw =
     (if to_ascii_lowercase (trim raw) = ''suffix'' then WmSuffix else WmColumn)"

record watermark_spec =
  wm_mode :: watermark_mode
  wm_column :: str
  wm_token :: str

record obligations =
  column_masks :: "mask_spec list"
  row_filter :: "str option"
  max_rows :: "nat option"
  audit_level :: "str option"
  watermark :: "watermark_spec option"

definition obligations_default :: obligations where
  "obligations_default =
     \<lparr>column_masks = [], row_filter = None, max_rows = None, audit_level = None, watermark = None\<rparr>"

definition obligations_is_empty :: "obligations \<Rightarrow> bool" where
  "obligations_is_empty o1 \<longleftrightarrow>
     column_masks o1 = [] \<and> row_filter o1 = None \<and> max_rows o1 = None \<and> audit_level o1 = None
     \<and> watermark o1 = None"

text \<open>\<open>merge\<close>: the loop over \<open>other.column_masks\<close> appends the masks of columns not yet masked.\<close>

fun merge_masks :: "mask_spec list \<Rightarrow> mask_spec list \<Rightarrow> mask_spec list" where
  "merge_masks ms [] = ms"
| "merge_masks ms (m # other) =
     merge_masks
       (if \<exists>x \<in> set ms. eq_ignore_ascii_case (ms_column x) (ms_column m) then ms else ms @ [m])
       other"

definition obligations_merge :: "obligations \<Rightarrow> obligations \<Rightarrow> obligations" where
  "obligations_merge self other =
     \<lparr>column_masks = merge_masks (column_masks self) (column_masks other),
      row_filter = (case row_filter self of
          None \<Rightarrow> row_filter other
        | Some existing \<Rightarrow>
            (case row_filter other of
               None \<Rightarrow> Some existing
             | Some extra \<Rightarrow> Some (''('' @ existing @ '') AND ('' @ extra @ '')''))),
      max_rows = (case (max_rows self, max_rows other) of
          (Some a, Some b) \<Rightarrow> Some (min a b)
        | (None, Some b) \<Rightarrow> Some b
        | (a, None) \<Rightarrow> a),
      audit_level = (case audit_level self of None \<Rightarrow> audit_level other | l \<Rightarrow> l),
      watermark = (case watermark self of None \<Rightarrow> watermark other | w \<Rightarrow> w)\<rparr>"

definition has_result_obligations :: "obligations \<Rightarrow> bool" where
  "has_result_obligations ob \<longleftrightarrow>
     column_masks ob \<noteq> [] \<or> max_rows ob \<noteq> None \<or> watermark ob \<noteq> None"

section \<open>Masking one cell\<close>

text \<open>\<open>s.chars()\<close>: each character as its bytes.\<close>

function utf8_chars :: "str \<Rightarrow> str list" where
  "utf8_chars [] = []"
| "utf8_chars (c # s) =
     (c # takeWhile is_continuation s) # utf8_chars (dropWhile is_continuation s)"
  by pat_completeness auto
termination
  by (relation "measure length") (auto simp: le_imp_less_Suc length_dropWhile_le)

text \<open>
  \<open>String::from_utf8_lossy\<close>: a maximal invalid subpart (\<open>utf8_width\<close>) is replaced by U+FFFD.
\<close>

definition replacement_char :: str where
  "replacement_char = [CHR 0xEF, CHR 0xBF, CHR 0xBD]"

function from_utf8_lossy :: "str \<Rightarrow> str" where
  "from_utf8_lossy s =
     (if s = [] then []
      else (if snd (utf8_width s) then take (fst (utf8_width s)) s else replacement_char)
           @ from_utf8_lossy (drop (fst (utf8_width s)) s))"
  by pat_completeness auto
termination
  by (relation "measure length") (auto simp: utf8_width_pos)

declare from_utf8_lossy.simps [simp del]

definition value_as_display :: "(64 word \<Rightarrow> str) \<Rightarrow> gateway_value \<Rightarrow> str" where
  "value_as_display f64_display v =
     (case v of
        GvNull \<Rightarrow> ''''
      | GvBoolean b \<Rightarrow> if b then ''true'' else ''false''
      | GvInteger i \<Rightarrow> show_int i
      | GvUnsigned u \<Rightarrow> show_nat u
      | GvFloat f \<Rightarrow> f64_display f
      | GvDecimal s \<Rightarrow> s
      | GvString s \<Rightarrow> s
      | GvBytes b \<Rightarrow> from_utf8_lossy b)"

text \<open>FNV-1a over the bytes, on \<open>u64\<close> with wrapping multiplication, printed with \<open>{:016x}\<close>.\<close>

definition hex_digit :: "nat \<Rightarrow> char" where
  "hex_digit d = (if d < 10 then char_of (48 + d) else char_of (87 + d))"

definition show_hex16 :: "64 word \<Rightarrow> str" where
  "show_hex16 w = map (\<lambda>i. hex_digit (unat w div 16 ^ i mod 16)) (rev [0..<16])"

definition fnv1a :: "str \<Rightarrow> 64 word" where
  "fnv1a input =
     foldl (\<lambda>h b. (h XOR of_nat (byte b)) * 0x100000001b3) 0xcbf29ce484222325 input"

definition simple_fingerprint :: "str \<Rightarrow> str" where
  "simple_fingerprint input = show_hex16 (fnv1a input)"

definition partial_mask :: "str \<Rightarrow> nat \<Rightarrow> nat \<Rightarrow> str" where
  "partial_mask s pre suf =
     (let chars = utf8_chars s; n = length chars
      in if n = 0 then []
         else if pre + suf \<ge> n then replicate (max n 1) (CHR ''*'')
         else concat (take pre chars) @ replicate (n - pre - suf) (CHR ''*'')
              @ concat (drop (n - suf) chars))"

definition keep_prefix_mask :: "str \<Rightarrow> nat \<Rightarrow> str" where
  "keep_prefix_mask s pre =
     (let chars = utf8_chars s
      in if chars = [] then []
         else let keep = min pre (length chars)
              in concat (take keep chars) @ (if keep < length chars then ''***'' else []))"

definition mask_gateway_value ::
  "(64 word \<Rightarrow> str) \<Rightarrow> gateway_value \<Rightarrow> mask_spec \<Rightarrow> gateway_value" where
  "mask_gateway_value f64_display v spec =
     (case ms_algorithm spec of
        Nullify \<Rightarrow> GvNull
      | Replace \<Rightarrow>
          GvString (if ms_replace_with spec = [] then ''***'' else ms_replace_with spec)
      | Hash \<Rightarrow> GvString (''hash:'' @ simple_fingerprint (value_as_display f64_display v))
      | Partial \<Rightarrow>
          GvString (partial_mask (value_as_display f64_display v)
            (ms_prefix_len spec) (ms_suffix_len spec))
      | KeepPrefix \<Rightarrow>
          GvString (keep_prefix_mask (value_as_display f64_display v) (ms_prefix_len spec)))"

section \<open>Row filters\<close>

text \<open>
  \<open>chars().take_while(is_whitespace).count()\<close>: a number of characters, which the source adds
  to a byte offset.
\<close>

function ws_count :: "str \<Rightarrow> nat" where
  "ws_count s = (if 0 < ws_prefix s then Suc (ws_count (drop (ws_prefix s) s)) else 0)"
  by pat_completeness auto
termination
  by (relation "measure length") (simp_all add: ws_prefix_pos_nonempty diff_less)

declare ws_count.simps [simp del]

definition post_where_keys :: "str list" where
  "post_where_keys =
     [''GROUP'', ''HAVING'', ''ORDER'', ''LIMIT'', ''FOR'', ''WINDOW'', ''FETCH'', ''OFFSET'']"

definition post_from_keys :: "str list" where
  "post_from_keys =
     [''WHERE'', ''GROUP'', ''HAVING'', ''ORDER'', ''LIMIT'', ''FOR'', ''WINDOW'', ''FETCH'',
      ''OFFSET'']"

definition min_opt :: "nat option \<Rightarrow> nat option \<Rightarrow> nat option" where
  "min_opt best hit =
     (case hit of
        None \<Rightarrow> best
      | Some idx \<Rightarrow> Some (case best of None \<Rightarrow> idx | Some b \<Rightarrow> min b idx))"

definition find_boundary :: "str list \<Rightarrow> str \<Rightarrow> nat option" where
  "find_boundary keys sql =
     foldl (\<lambda>best key. min_opt best (find_top_level_keyword sql key)) None keys"

definition find_post_where_boundary :: "str \<Rightarrow> nat option" where
  "find_post_where_boundary sql = find_boundary post_where_keys sql"

definition find_post_from_boundary :: "str \<Rightarrow> nat option" where
  "find_post_from_boundary sql = find_boundary post_from_keys sql"

definition append_tail :: "str \<Rightarrow> str \<Rightarrow> str" where
  "append_tail out tail = (if tail = [] then out else out @ '' '' @ tail)"

definition inject_row_filter :: "str \<Rightarrow> str \<Rightarrow> str option run" where
  "inject_row_filter sql predicate =
     (let pred = trim predicate; trimmed = trim_start sql; upper = to_ascii_uppercase trimmed;
          lead = take (length sql - length trimmed) sql
      in if pred = [] then Done (Some sql)
         else if \<not> (starts_with ''SELECT'' upper \<or> starts_with ''WITH'' upper) then Done None
         else if contains '' UNION '' upper then Done None
         else if find_top_level_keyword trimmed ''FROM'' = None then Done None
         else case find_top_level_keyword trimmed ''WHERE'' of
           Some where_idx \<Rightarrow>
             let after_where_kw = where_idx + 5;
                 where_body_start = after_where_kw + ws_count (drop after_where_kw trimmed)
             in run_bind (slice_from trimmed where_body_start) (\<lambda>rest.
                  let boundary = (case find_post_where_boundary rest of
                        None \<Rightarrow> length rest | Some b \<Rightarrow> b);
                      body = trim_end (take boundary rest);
                      tail = trim_start (drop boundary rest)
                  in Done (Some (append_tail
                       (lead @ take where_body_start trimmed @ ''('' @ body @ '') AND (''
                        @ pred @ '')'') tail)))
         | None \<Rightarrow>
             let insert_at = (case find_post_from_boundary trimmed of
                   None \<Rightarrow> length trimmed | Some b \<Rightarrow> b);
                 tail = trim_start (drop insert_at trimmed)
             in Done (Some (append_tail
                  (lead @ trim_end (take insert_at trimmed) @ '' WHERE ('' @ pred @ '')'') tail)))"

section \<open>Result sets\<close>

type_synonym row = "gateway_value list"

text \<open>\<open>rsplit('.')\<close>, quotes trimmed, lower case: the bare column name of the metadata.\<close>

definition bare_column_name :: "str \<Rightarrow> str" where
  "bare_column_name name =
     to_ascii_lowercase (trim_matches dquote (trim_matches bquote (rsplit_next dot name)))"

definition masks_by_name :: "mask_spec list \<Rightarrow> (str \<times> mask_spec) list" where
  "masks_by_name masks =
     foldl (\<lambda>m s. al_insert (to_ascii_lowercase (ms_column s)) s m) [] masks"

fun mask_index_from :: "(str \<Rightarrow> mask_spec option) \<Rightarrow> nat \<Rightarrow> column list \<Rightarrow> (nat \<times> mask_spec) list" where
  "mask_index_from get i [] = []"
| "mask_index_from get i (col # cols) =
     (case get (bare_column_name (col_name col)) of
        Some spec \<Rightarrow> (i, spec) # mask_index_from get (Suc i) cols
      | None \<Rightarrow> mask_index_from get (Suc i) cols)"

definition build_mask_index :: "column list \<Rightarrow> mask_spec list \<Rightarrow> (nat \<times> mask_spec) list" where
  "build_mask_index columns masks = mask_index_from (map_of (masks_by_name masks)) 0 columns"

definition mask_row ::
  "(64 word \<Rightarrow> str) \<Rightarrow> (nat \<times> mask_spec) list \<Rightarrow> row \<Rightarrow> row" where
  "mask_row f64_display mask_idx row0 =
     foldl (\<lambda>row (i, spec).
         if i < length row then row[i := mask_gateway_value f64_display (row ! i) spec] else row)
       row0 mask_idx"

definition apply_masks_to_rows ::
  "(64 word \<Rightarrow> str) \<Rightarrow> (nat \<times> mask_spec) list \<Rightarrow> row list \<Rightarrow> row list" where
  "apply_masks_to_rows f64_display mask_idx rows =
     (if mask_idx = [] then rows else map (mask_row f64_display mask_idx) rows)"

text \<open>The loop of the suffix mode over one row: the first string cell gets the marker.\<close>

fun suffix_cells :: "str \<Rightarrow> row \<Rightarrow> row option" where
  "suffix_cells marker [] = None"
| "suffix_cells marker (cell # cells) =
     (case cell of
        GvString s \<Rightarrow> Some ((if contains '' |wm='' s then cell else GvString (s @ marker)) # cells)
      | _ \<Rightarrow> map_option ((#) cell) (suffix_cells marker cells))"

definition suffix_row :: "(64 word \<Rightarrow> str) \<Rightarrow> str \<Rightarrow> row \<Rightarrow> row" where
  "suffix_row f64_display marker row =
     (case suffix_cells marker row of
        Some row' \<Rightarrow> row'
      | None \<Rightarrow>
          if row = [] then []
          else butlast row @ [GvString (value_as_display f64_display (last row) @ marker)])"

definition apply_watermark_to_resultset ::
  "(64 word \<Rightarrow> str) \<Rightarrow> watermark_spec \<Rightarrow> column list \<times> row list \<Rightarrow> column list \<times> row list" where
  "apply_watermark_to_resultset f64_display wm cr =
     (case wm_mode wm of
        WmColumn \<Rightarrow>
          (let name = (if trim (wm_column wm) = [] then ''_dn_wm'' else wm_column wm)
           in if \<exists>c \<in> set (fst cr). eq_ignore_ascii_case (col_name c) name then cr
              else (fst cr @ [\<lparr>col_name = name, data_type = ''varchar''\<rparr>],
                    map (\<lambda>row. row @ [GvString (wm_token wm)]) (snd cr)))
      | WmSuffix \<Rightarrow> (fst cr, map (suffix_row f64_display ('' |wm='' @ wm_token wm)) (snd cr)))"

definition watermark_opt ::
  "(64 word \<Rightarrow> str) \<Rightarrow> watermark_spec option \<Rightarrow> column list \<times> row list \<Rightarrow> column list \<times> row list" where
  "watermark_opt f64_display wm cr =
     (case wm of None \<Rightarrow> cr | Some w \<Rightarrow> apply_watermark_to_resultset f64_display w cr)"

definition truncate_rows :: "nat option \<Rightarrow> row list \<Rightarrow> row list" where
  "truncate_rows mx rows = (case mx of None \<Rightarrow> rows | Some m \<Rightarrow> take m rows)"

text \<open>The body of \<open>apply_obligations_to_response\<close> on the columns and rows of a result set.\<close>

definition oblige_resultset ::
  "(64 word \<Rightarrow> str) \<Rightarrow> obligations \<Rightarrow> column list \<times> row list \<Rightarrow> column list \<times> row list" where
  "oblige_resultset f64_display ob cr =
     watermark_opt f64_display (watermark ob)
       (fst cr,
        truncate_rows (max_rows ob)
          (apply_masks_to_rows f64_display (build_mask_index (fst cr) (column_masks ob)) (snd cr)))"

definition apply_obligations_to_response ::
  "(64 word \<Rightarrow> str) \<Rightarrow> gateway_response \<Rightarrow> obligations \<Rightarrow> gateway_response" where
  "apply_obligations_to_response f64_display response ob =
     (if \<not> has_result_obligations ob then response
      else case response of
          RspResultSet columns rows \<Rightarrow>
            (case oblige_resultset f64_display ob (columns, rows) of (c, r) \<Rightarrow> RspResultSet c r)
        | RspTaggedResultSet columns rows tag \<Rightarrow>
            (case oblige_resultset f64_display ob (columns, rows) of
               (c, r) \<Rightarrow> RspTaggedResultSet c r tag)
        | other \<Rightarrow> other)"

text \<open>The loop that drains \<open>rows\<close> window by window; a window of 0 counts as 1.\<close>

function mask_windows ::
  "(64 word \<Rightarrow> str) \<Rightarrow> (nat \<times> mask_spec) list \<Rightarrow> nat \<Rightarrow> row list \<Rightarrow> row list" where
  "mask_windows f64_display mask_idx window rows =
     (if rows = [] then []
      else apply_masks_to_rows f64_display mask_idx (take (max window 1) rows)
           @ mask_windows f64_display mask_idx window (drop (max window 1) rows))"
  by pat_completeness auto
termination
  by (relation "measure (\<lambda>(f, m, w, rows). length rows)") auto

declare mask_windows.simps [simp del]

definition apply_obligations_windowed ::
  "(64 word \<Rightarrow> str) \<Rightarrow> column list \<Rightarrow> row list \<Rightarrow> obligations \<Rightarrow> nat \<Rightarrow> gateway_response" where
  "apply_obligations_windowed f64_display columns rows ob window_rows =
     (if \<not> has_result_obligations ob then RspResultSet columns rows
      else let rows1 = truncate_rows (max_rows ob) rows;
               mask_idx = build_mask_index columns (column_masks ob);
               rows2 = (if mask_idx = [] then rows1
                        else mask_windows f64_display mask_idx window_rows rows1)
           in (case watermark_opt f64_display (watermark ob) (columns, rows2) of
                 (c, r) \<Rightarrow> RspResultSet c r))"

section \<open>Processing a result set window by window\<close>

text \<open>
  The contract between a per-row stage of the result path and a loop that feeds it windows of
  rows: a stage that distributes over concatenation gives the same rows however they are cut.
\<close>

locale windowed_stage =
  fixes stage :: "'r list \<Rightarrow> 'r list"
    and windows :: "nat \<Rightarrow> 'r list \<Rightarrow> 'r list"
  assumes stage_append: "stage (xs @ ys) = stage xs @ stage ys"
    and windows_Nil: "windows w [] = []"
    and windows_unfold:
      "rows \<noteq> [] \<Longrightarrow>
         windows w rows = stage (take (max w 1) rows) @ windows w (drop (max w 1) rows)"
begin

lemma stage_Nil: "stage [] = []"
  using stage_append [of "[]" "[]"] by simp

lemma windows_eq_stage: "windows w rows = stage rows"
proof (induction rows rule: length_induct)
  case (1 rows)
  show ?case
  proof (cases "rows = []")
    case True
    then show ?thesis by (simp add: windows_Nil stage_Nil)
  next
    case False
    then have "length (drop (max w 1) rows) < length rows" by simp
    with 1 have "windows w (drop (max w 1) rows) = stage (drop (max w 1) rows)" by blast
    with False have "windows w rows = stage (take (max w 1) rows @ drop (max w 1) rows)"
      using windows_unfold [of rows w] by (simp add: stage_append del: append_take_drop_id)
    then show ?thesis by simp
  qed
qed

end

interpretation mask_stage: windowed_stage "apply_masks_to_rows f idx" "mask_windows f idx"
  for f :: "64 word \<Rightarrow> str" and idx :: "(nat \<times> mask_spec) list"
  by unfold_locales (auto simp: apply_masks_to_rows_def mask_windows.simps [of f idx])

lemma truncate_apply_masks:
  "truncate_rows m (apply_masks_to_rows f idx rows) = apply_masks_to_rows f idx (truncate_rows m rows)"
  by (cases m) (simp_all add: truncate_rows_def apply_masks_to_rows_def take_map)

lemma windowed_eq_response:
  "apply_obligations_windowed f columns rows ob w =
     apply_obligations_to_response f (RspResultSet columns rows) ob"
proof (cases "has_result_obligations ob")
  case True
  let ?idx = "build_mask_index columns (column_masks ob)"
  have "(if ?idx = [] then truncate_rows (max_rows ob) rows
         else mask_windows f ?idx w (truncate_rows (max_rows ob) rows)) =
      truncate_rows (max_rows ob) (apply_masks_to_rows f ?idx rows)"
    by (simp add: mask_stage.windows_eq_stage truncate_apply_masks) (simp add: apply_masks_to_rows_def)
  with True show ?thesis
    by (simp add: apply_obligations_windowed_def apply_obligations_to_response_def
        oblige_resultset_def Let_def)
qed (simp add: apply_obligations_windowed_def apply_obligations_to_response_def)

section \<open>Which cell is masked, and how\<close>

definition mask_for :: "column list \<Rightarrow> mask_spec list \<Rightarrow> nat \<Rightarrow> mask_spec option" where
  "mask_for columns masks i =
     (if i < length columns
      then find (\<lambda>s. to_ascii_lowercase (ms_column s) = bare_column_name (col_name (columns ! i)))
             (rev masks)
      else None)"

lemma map_of_foldl_al_insert:
  "map_of (foldl (\<lambda>m s. al_insert (g s) s m) m0 xs) n =
     (case find (\<lambda>s. g s = n) (rev xs) of Some s \<Rightarrow> Some s | None \<Rightarrow> map_of m0 n)"
  by (induction xs rule: rev_induct) auto

lemma map_of_masks_by_name:
  "map_of (masks_by_name masks) n = find (\<lambda>s. to_ascii_lowercase (ms_column s) = n) (rev masks)"
  unfolding masks_by_name_def
  by (subst map_of_foldl_al_insert [where g = "\<lambda>s. to_ascii_lowercase (ms_column s)"])
    (simp split: option.split)

lemma mask_index_from_keys:
  "fst ` set (mask_index_from get i cols) \<subseteq> {i..<i + length cols}"
  by (induction get i cols rule: mask_index_from.induct) (fastforce split: option.splits)+

lemma distinct_mask_index_from: "distinct (map fst (mask_index_from get i cols))"
proof (induction get i cols rule: mask_index_from.induct)
  case (2 get i col cols)
  have "i \<notin> fst ` set (mask_index_from get (Suc i) cols)"
    using mask_index_from_keys [of get "Suc i" cols] by auto
  with 2 show ?case by (auto split: option.splits)
qed simp

lemma map_of_mask_index_from:
  "map_of (mask_index_from get i cols) j =
     (if i \<le> j \<and> j < i + length cols
      then get (bare_column_name (col_name (cols ! (j - i)))) else None)"
proof (induction get i cols rule: mask_index_from.induct)
  case (2 get i col cols)
  show ?case
  proof (cases "j = i")
    case True
    have "map_of (mask_index_from get (Suc i) cols) i = None"
      using mask_index_from_keys [of get "Suc i" cols] by (auto simp: map_of_eq_None_iff)
    with True show ?thesis by (auto split: option.splits)
  next
    case False
    then have "Suc i \<le> j \<Longrightarrow> (col # cols) ! (j - i) = cols ! (j - Suc i)"
      by (simp add: nth_Cons' )
    with False 2 show ?thesis by (auto split: option.splits)
  qed
qed auto

lemma map_of_build_mask_index: "map_of (build_mask_index columns masks) i = mask_for columns masks i"
  by (simp add: build_mask_index_def map_of_mask_index_from mask_for_def map_of_masks_by_name)

lemma mask_row_length [simp]: "length (mask_row f idx row) = length row"
  unfolding mask_row_def by (induction idx arbitrary: row) (auto split: prod.split)

lemma mask_row_Cons:
  "mask_row f ((i, spec) # idx) row =
     mask_row f idx (if i < length row then row[i := mask_gateway_value f (row ! i) spec] else row)"
  by (simp add: mask_row_def)

lemma mask_row_nth:
  assumes "distinct (map fst idx)" and "j < length row"
  shows "mask_row f idx row ! j =
    (case map_of idx j of None \<Rightarrow> row ! j | Some spec \<Rightarrow> mask_gateway_value f (row ! j) spec)"
  using assms
proof (induction idx arbitrary: row)
  case Nil
  then show ?case by (simp add: mask_row_def)
next
  case (Cons p idx)
  obtain i spec where p: "p = (i, spec)" by (cases p)
  from Cons.prems p have "i = j \<Longrightarrow> map_of idx j = None"
    by (auto simp: map_of_eq_None_iff image_iff)
  with Cons p show ?case by (cases "i = j") (auto simp: mask_row_Cons split: option.split)
qed

text \<open>The masked result, cell by cell.\<close>

lemma masked_cell:
  assumes "r < length rows" and "j < length (rows ! r)"
  shows "apply_masks_to_rows f (build_mask_index columns masks) rows ! r ! j =
    (case mask_for columns masks j of
       None \<Rightarrow> rows ! r ! j
     | Some spec \<Rightarrow> mask_gateway_value f (rows ! r ! j) spec)"
proof -
  let ?idx = "build_mask_index columns masks"
  have d: "distinct (map fst ?idx)" by (simp add: build_mask_index_def distinct_mask_index_from)
  have "apply_masks_to_rows f ?idx rows ! r = mask_row f ?idx (rows ! r)"
    using assms by (simp add: apply_masks_to_rows_def mask_row_def)
  then show ?thesis
    using mask_row_nth [OF d assms(2)] by (simp add: map_of_build_mask_index)
qed

lemma length_apply_masks [simp]: "length (apply_masks_to_rows f idx rows) = length rows"
  by (simp add: apply_masks_to_rows_def)

lemma row_length_apply_masks:
  "r < length rows \<Longrightarrow> length (apply_masks_to_rows f idx rows ! r) = length (rows ! r)"
  by (simp add: apply_masks_to_rows_def)

section \<open>Shape of the result\<close>

definition rectangular :: "column list \<times> row list \<Rightarrow> bool" where
  "rectangular cr \<longleftrightarrow> (\<forall>row \<in> set (snd cr). length row = length (fst cr))"

lemma suffix_cells_length: "suffix_cells marker row = Some row' \<Longrightarrow> length row' = length row"
  by (induction marker row arbitrary: row' rule: suffix_cells.induct)
    (auto split: gateway_value.splits if_splits)

lemma suffix_row_length [simp]: "length (suffix_row f marker row) = length row"
  by (cases row rule: rev_cases)
    (auto simp: suffix_row_def split: option.split dest: suffix_cells_length)

lemma rectangular_watermark:
  "rectangular cr \<Longrightarrow> rectangular (watermark_opt f wm cr)"
  by (cases wm)
    (auto simp: watermark_opt_def apply_watermark_to_resultset_def rectangular_def Let_def
      split: watermark_mode.splits)

lemma rectangular_masks:
  "rectangular (c, rows) \<Longrightarrow> rectangular (c, truncate_rows m (apply_masks_to_rows f idx rows))"
  by (fastforce simp: rectangular_def truncate_rows_def apply_masks_to_rows_def
      split: option.splits if_splits dest: in_set_takeD)

lemma rectangular_oblige: "rectangular cr \<Longrightarrow> rectangular (oblige_resultset f ob cr)"
  unfolding oblige_resultset_def
  by (intro rectangular_watermark rectangular_masks) simp

lemma length_watermark_rows [simp]: "length (snd (watermark_opt f wm cr)) = length (snd cr)"
  by (auto simp: watermark_opt_def apply_watermark_to_resultset_def Let_def
      split: option.split watermark_mode.split)

section \<open>Masks reveal what they promise\<close>

definition opaque_mask :: "mask_spec \<Rightarrow> bool" where
  "opaque_mask spec \<longleftrightarrow> ms_algorithm spec = Nullify \<or> ms_algorithm spec = Replace"

lemma opaque_mask_constant:
  "opaque_mask spec \<Longrightarrow> mask_gateway_value f v spec = mask_gateway_value f w spec"
  by (auto simp: opaque_mask_def mask_gateway_value_def)

text \<open>Two result sets that differ only in cells under an opaque mask.\<close>

definition low_equivalent ::
  "column list \<Rightarrow> mask_spec list \<Rightarrow> row list \<Rightarrow> row list \<Rightarrow> bool" where
  "low_equivalent columns masks rows rows' \<longleftrightarrow>
     length rows = length rows' \<and>
     (\<forall>r < length rows. length (rows ! r) = length (rows' ! r) \<and>
        (\<forall>j < length (rows ! r). rows ! r ! j = rows' ! r ! j \<or>
           (\<exists>spec. mask_for columns masks j = Some spec \<and> opaque_mask spec)))"

lemma low_equivalent_masks:
  assumes "low_equivalent columns masks rows rows'"
  shows "apply_masks_to_rows f (build_mask_index columns masks) rows =
         apply_masks_to_rows f (build_mask_index columns masks) rows'"
proof (rule nth_equalityI, goal_cases)
  case 1
  from assms show ?case by (simp add: low_equivalent_def)
next
  case (2 r)
  then have r: "r < length rows" "r < length rows'" "length (rows ! r) = length (rows' ! r)"
    using assms by (auto simp: low_equivalent_def)
  show ?case
  proof (rule nth_equalityI, goal_cases)
    case 1
    from r show ?case by (simp add: row_length_apply_masks)
  next
    case (2 j)
    then have j: "j < length (rows ! r)" "j < length (rows' ! r)"
      using r by (simp_all add: row_length_apply_masks)
    from assms r(1) j(1) have "rows ! r ! j = rows' ! r ! j \<or>
        (\<exists>spec. mask_for columns masks j = Some spec \<and> opaque_mask spec)"
      by (auto simp: low_equivalent_def)
    then show ?case
      unfolding masked_cell [OF r(1) j(1)] masked_cell [OF r(2) j(2)]
      by (auto intro: opaque_mask_constant split: option.split)
  qed
qed

lemma utf8_chars_concat: "concat (utf8_chars s) = s"
  by (induction s rule: utf8_chars.induct) auto

definition char_like :: "str \<Rightarrow> bool" where
  "char_like x \<longleftrightarrow> x \<noteq> [] \<and> \<not> is_continuation (hd x) \<and> list_all is_continuation (tl x)"

definition str_start :: "str \<Rightarrow> bool" where
  "str_start s \<longleftrightarrow> s = [] \<or> \<not> is_continuation (hd s)"

lemma utf8_chars_char_like: "str_start s \<Longrightarrow> list_all char_like (utf8_chars s)"
proof (induction s rule: utf8_chars.induct)
  case (2 c s)
  have "str_start (dropWhile is_continuation s)"
    by (cases "dropWhile is_continuation s = []") (simp_all add: str_start_def hd_dropWhile)
  with "2.IH" have "list_all char_like (utf8_chars (dropWhile is_continuation s))" .
  moreover have "list_all is_continuation (takeWhile is_continuation s)"
    by (auto simp: list_all_iff dest: set_takeWhileD)
  ultimately show ?case
    using "2.prems" by (simp add: char_like_def [of "c # _"] str_start_def)
qed simp

lemma takeWhile_continuation_append:
  "list_all is_continuation x \<Longrightarrow> str_start y \<Longrightarrow>
     takeWhile is_continuation (x @ y) = x \<and> dropWhile is_continuation (x @ y) = y"
  by (induction x) (cases y; auto simp: str_start_def)+

lemma str_start_concat: "list_all char_like cs \<Longrightarrow> str_start (concat cs)"
  by (cases cs) (auto simp: char_like_def str_start_def)

lemma utf8_chars_of_concat: "list_all char_like cs \<Longrightarrow> utf8_chars (concat cs) = cs"
proof (induction cs)
  case (Cons x cs)
  then obtain c y where x: "x = c # y" "list_all is_continuation y"
    by (cases x) (auto simp: char_like_def)
  have "str_start (concat cs)" using Cons.prems by (simp add: str_start_concat)
  with x Cons show ?case by (simp add: takeWhile_continuation_append)
qed simp

lemma partial_mask_chars:
  assumes "str_start s"
  shows "utf8_chars (partial_mask s pre suf) =
    (let cs = utf8_chars s; n = length cs
     in if pre + suf \<ge> n then replicate n ''*''
        else take pre cs @ replicate (n - pre - suf) ''*'' @ drop (n - suf) cs)"
proof -
  let ?cs = "utf8_chars s"
  have cl: "list_all char_like ?cs" using assms by (rule utf8_chars_char_like)
  have star: "char_like ''*''" by (simp add: char_like_def is_continuation_def)
  then have st: "list_all char_like (replicate k ''*'')" for k by (simp add: list_all_iff)
  have rep: "concat (replicate k ''*'') = replicate k (CHR ''*'')" for k
    by (induction k) auto
  have "utf8_chars (replicate k (CHR ''*'')) = replicate k ''*''" for k
    using utf8_chars_of_concat [OF st [of k]] by (simp add: rep)
  moreover have "utf8_chars (concat (take pre ?cs) @ replicate k (CHR ''*'') @ concat (drop m ?cs))
      = take pre ?cs @ replicate k ''*'' @ drop m ?cs" for k m
  proof -
    have "list_all char_like (take pre ?cs @ replicate k ''*'' @ drop m ?cs)"
      using cl star by (auto simp: list_all_iff dest: in_set_takeD in_set_dropD)
    from utf8_chars_of_concat [OF this] show ?thesis by (simp add: rep)
  qed
  ultimately show ?thesis
    by (cases "utf8_chars s") (simp_all add: partial_mask_def Let_def max_def)
qed

section \<open>Merging obligations\<close>

lemma merge_masks_mono: "set ms \<subseteq> set (merge_masks ms other)"
  by (induction ms other rule: merge_masks.induct) (auto split: if_splits)

lemma merge_masks_covers:
  "m \<in> set ms \<union> set other \<Longrightarrow>
     \<exists>x \<in> set (merge_masks ms other). eq_ignore_ascii_case (ms_column x) (ms_column m)"
proof (induction ms other rule: merge_masks.induct)
  case (1 ms)
  then show ?case by (auto intro: bexI [of _ m])
next
  case (2 ms n other)
  let ?ms = "if \<exists>x \<in> set ms. eq_ignore_ascii_case (ms_column x) (ms_column n) then ms else ms @ [n]"
  have n: "\<exists>x \<in> set ?ms. eq_ignore_ascii_case (ms_column x) (ms_column n)" by auto
  show ?case
  proof (cases "m = n")
    case True
    with n merge_masks_mono [of ?ms other] show ?thesis
      by (simp only: merge_masks.simps) blast
  next
    case False
    with 2 show ?thesis by auto
  qed
qed

lemma merge_masks_subset: "set (merge_masks ms other) \<subseteq> set ms \<union> set other"
  by (induction ms other rule: merge_masks.induct) (auto split: if_splits)

section \<open>Row filters on ASCII text\<close>

lemma ws_count_le: "ws_count s \<le> length s"
proof (induction s rule: ws_count.induct)
  case (1 s)
  show ?case
  proof (cases "0 < ws_prefix s")
    case True
    then have "s \<noteq> []" by (rule ws_prefix_pos_nonempty)
    then have "0 < length s" by simp
    moreover have "ws_count (drop (ws_prefix s) s) \<le> length s - ws_prefix s"
      using 1 True by simp
    ultimately have "Suc (ws_count (drop (ws_prefix s) s)) \<le> length s" using True by linarith
    with True show ?thesis by (simp add: ws_count.simps [of s])
  qed (simp add: ws_count.simps)
qed

lemma is_ascii_drop: "is_ascii_str s \<Longrightarrow> is_ascii_str (drop n s)"
  by (auto simp: is_ascii_str_def list_all_iff dest: in_set_dropD)

lemma is_ascii_trim_start: "is_ascii_str s \<Longrightarrow> is_ascii_str (trim_start s)"
  by (metis trim_start_suffix is_ascii_str_def list_all_append)

lemma slice_from_ascii: "is_ascii_str s \<Longrightarrow> i \<le> length s \<Longrightarrow> slice_from s i = Done (drop i s)"
  by (simp add: slice_from_def ascii_char_boundary)

lemma inject_row_filter_ascii_total:
  assumes "is_ascii_str sql"
  shows "\<exists>r. inject_row_filter sql pred = Done r"
proof -
  let ?t = "trim_start sql"
  have slice: "\<exists>rest. slice_from ?t (w + 5 + ws_count (drop (w + 5) ?t)) = Done rest"
    if "find_top_level_keyword ?t ''WHERE'' = Some w" for w
  proof -
    have "w + 5 \<le> length ?t" using find_top_level_keyword_bound [OF that] by simp
    then have "w + 5 + ws_count (drop (w + 5) ?t) \<le> length ?t"
      using ws_count_le [of "drop (w + 5) ?t"] by simp
    with is_ascii_trim_start [OF assms] show ?thesis by (simp add: slice_from_ascii)
  qed
  then show ?thesis
    by (auto simp: inject_row_filter_def Let_def split: option.split)
qed

lemma oblige_row_count:
  "length (snd (oblige_resultset f ob cr)) =
     (case max_rows ob of None \<Rightarrow> length (snd cr) | Some m \<Rightarrow> min (length (snd cr)) m)"
  by (simp add: oblige_resultset_def truncate_rows_def min.commute split: option.split)

lemma mask_for_covered:
  assumes "m \<in> set masks" and "eq_ignore_ascii_case (ms_column m) col"
    and "j < length columns" and "bare_column_name (col_name (columns ! j)) = to_ascii_lowercase col"
  shows "\<exists>spec \<in> set masks. mask_for columns masks j = Some spec \<and> eq_ignore_ascii_case (ms_column spec) col"
proof -
  let ?P = "\<lambda>s. to_ascii_lowercase (ms_column s) = to_ascii_lowercase col"
  have "find ?P (rev masks) \<noteq> None"
    using assms(1,2) by (auto simp: find_None_iff eq_ignore_ascii_case_def)
  then obtain spec where "find ?P (rev masks) = Some spec" by blast
  moreover from this have "spec \<in> set masks \<and> ?P spec"
    by (auto simp: find_Some_iff rev_nth)
  ultimately show ?thesis using assms(3,4) by (auto simp: mask_for_def eq_ignore_ascii_case_def)
qed

text \<open>
  Merging obligations is restrictive on both sides: the row limit is the smaller
  one, every column masked on either side is masked, and a filter of either side is kept.
\<close>

lemma merge_is_restrictive:
  "(\<forall>a b. max_rows o1 = Some a \<and> max_rows o2 = Some b \<longrightarrow> max_rows (obligations_merge o1 o2) = Some (min a b)) \<and>
   (\<forall>m \<in> set (column_masks o1) \<union> set (column_masks o2).
      \<exists>x \<in> set (column_masks (obligations_merge o1 o2)). eq_ignore_ascii_case (ms_column x) (ms_column m)) \<and>
   (row_filter (obligations_merge o1 o2) = None \<longleftrightarrow> row_filter o1 = None \<and> row_filter o2 = None)"
  using merge_masks_covers [of _ "column_masks o1" "column_masks o2"]
  by (auto simp: obligations_merge_def split: option.split)

end
