(* ===== verification/Time_Rules.thy ===== *)
theory Time_Rules
  imports Sql_Scan
begin

text \<open>
  Time-window policy rules (\<open>gateway/core/src/time_rules.rs\<close>): parsing of times, weekdays and
  offsets, the half-open daily window, and when a rule fires.

  Two inputs come from the \<open>chrono\<close> package and are parameters: \<open>local_offset\<close>, the seconds
  east of UTC of the process's zone, and \<open>civil\<close>, the weekday and minute of day of an instant
  at an offset (\<open>civil_parts\<close> calls \<open>FixedOffset::timestamp_opt\<close>).
\<close>

datatype weekday = Mon | Tue | Wed | Thu | Fri | Sat | Sun

type_synonym civil = "int \<Rightarrow> int \<Rightarrow> weekday \<times> nat"

record time_rule =
  tr_name :: str
  tr_effect :: str
  tr_outside :: bool
  tr_days :: "str list"
  tr_start :: str
  tr_end :: str
  tr_timezone :: str
  tr_actions :: "str list"
  tr_subjects :: "str list"
  tr_tables :: "str list"
  tr_ticket_type :: str
  tr_message :: str

definition time_rule_default :: time_rule where
  "time_rule_default =
     \<lparr>tr_name = [], tr_effect = ''deny'', tr_outside = True, tr_days = [], tr_start = ''09:00'',
      tr_end = ''18:00'', tr_timezone = ''UTC'', tr_actions = [], tr_subjects = [], tr_tables = [],
      tr_ticket_type = ''high_risk'', tr_message = []\<rparr>"

section \<open>Parsing\<close>

definition quoted :: "str \<Rightarrow> str" where
  "quoted s = [squote] @ s @ [squote]"

definition parse_hhmm :: "str \<Rightarrow> str + nat" where
  "parse_hhmm s0 =
     (let s = trim s0
      in case split_on (CHR '':'') s of
           [ph, pm] \<Rightarrow>
             (case parse_unsigned u32_max ph of
                None \<Rightarrow> Inl (''bad hour in '' @ quoted s)
              | Some h \<Rightarrow>
                  (case parse_unsigned u32_max pm of
                     None \<Rightarrow> Inl (''bad minute in '' @ quoted s)
                   | Some m \<Rightarrow>
                       if h > 23 \<or> m > 59 then Inl (''out of range HH:MM '' @ quoted s)
                       else Inr (h * 60 + m)))
         | _ \<Rightarrow> Inl (''expected HH:MM, got '' @ quoted s))"

definition parse_weekday :: "str \<Rightarrow> weekday option" where
  "parse_weekday s =
     (let d = to_ascii_lowercase (trim s)
      in if d \<in> set [''mon'', ''monday''] then Some Mon
         else if d \<in> set [''tue'', ''tues'', ''tuesday''] then Some Tue
         else if d \<in> set [''wed'', ''wednesday''] then Some Wed
         else if d \<in> set [''thu'', ''thur'', ''thurs'', ''thursday''] then Some Thu
         else if d \<in> set [''fri'', ''friday''] then Some Fri
         else if d \<in> set [''sat'', ''saturday''] then Some Sat
         else if d \<in> set [''sun'', ''sunday''] then Some Sun
         else None)"

text \<open>\<open>i32\<close> division truncates towards zero.\<close>

definition trunc_div :: "int \<Rightarrow> int \<Rightarrow> int" where
  "trunc_div a b = sgn a * sgn b * (\<bar>a\<bar> div \<bar>b\<bar>)"

definition or_zero :: "int option \<Rightarrow> int" where
  "or_zero v = (case v of None \<Rightarrow> 0 | Some i \<Rightarrow> i)"

text \<open>The hour and minute fields after the sign; \<open>Inl\<close> carries the error.\<close>

definition parse_offset_fields :: "str \<Rightarrow> str \<Rightarrow> str + int \<times> int" where
  "parse_offset_fields tz rest =
     (if contains '':'' rest then
        (case split_on (CHR '':'') rest of
           [ph, pm] \<Rightarrow>
             (case parse_i32 ph of
                None \<Rightarrow> Inl (''bad offset hour '' @ quoted tz)
              | Some h \<Rightarrow>
                  (case parse_i32 pm of
                     None \<Rightarrow> Inl (''bad offset min '' @ quoted tz)
                   | Some m \<Rightarrow> Inr (h, m)))
         | _ \<Rightarrow> Inl (''bad offset '' @ quoted tz))
      else if length rest = 4 \<and> list_all is_ascii_digit rest then
        Inr (or_zero (parse_i32 (take 2 rest)), or_zero (parse_i32 (drop 2 rest)))
      else if length rest = 2 \<and> list_all is_ascii_digit rest then
        Inr (or_zero (parse_i32 rest), 0)
      else Inl (''bad offset '' @ quoted tz))"

definition parse_timezone_offset_minutes :: "int \<Rightarrow> str \<Rightarrow> str + int" where
  "parse_timezone_offset_minutes local_offset tz =
     (let t = trim tz;
          signed = (\<lambda>sgn0 r.
            case parse_offset_fields tz (trim r) of
              Inl e \<Rightarrow> Inl e
            | Inr (h, m) \<Rightarrow>
                if \<not> (0 \<le> h \<and> h \<le> 14) \<or> \<not> (0 \<le> m \<and> m \<le> 59)
                then Inl (''offset out of range '' @ quoted tz)
                else Inr (sgn0 * (h * 60 + m)))
      in if t = [] \<or> eq_ignore_ascii_case t ''utc'' \<or> eq_ignore_ascii_case t ''z'' then Inr 0
         else if eq_ignore_ascii_case t ''local'' then Inr (trunc_div local_offset 60)
         else case strip_prefix ''+'' t of
             Some r \<Rightarrow> signed 1 r
           | None \<Rightarrow>
               (case strip_prefix ''-'' t of
                  Some r \<Rightarrow> signed (- 1) r
                | None \<Rightarrow> Inl (''expected UTC, local, or '' @ [CHR 0xC2, CHR 0xB1] @ ''HH:MM, got ''
                           @ quoted tz)))"

section \<open>When a rule fires\<close>

definition is_inside_window :: "nat \<Rightarrow> nat \<Rightarrow> nat \<Rightarrow> bool" where
  "is_inside_window minute_of_day start fin =
     (if start = fin then False
      else if start < fin then minute_of_day \<ge> start \<and> minute_of_day < fin
      else minute_of_day \<ge> start \<or> minute_of_day < fin)"

definition matches_now :: "int \<Rightarrow> civil \<Rightarrow> time_rule \<Rightarrow> int \<Rightarrow> bool" where
  "matches_now local_offset civil tr now_unix_secs =
     (case parse_timezone_offset_minutes local_offset (tr_timezone tr) of
        Inl _ \<Rightarrow> False
      | Inr offset_mins \<Rightarrow>
          (case parse_hhmm (tr_start tr) of
             Inl _ \<Rightarrow> False
           | Inr start_m \<Rightarrow>
               (case parse_hhmm (tr_end tr) of
                  Inl _ \<Rightarrow> False
                | Inr end_m \<Rightarrow>
                    (case civil now_unix_secs offset_mins of (wd, minute) \<Rightarrow>
                       if tr_days tr \<noteq> [] \<and>
                          \<not> (\<exists>d \<in> set (tr_days tr). parse_weekday d = Some wd)
                       then tr_outside tr
                       else if tr_outside tr then \<not> is_inside_window minute start_m end_m
                       else is_inside_window minute start_m end_m))))"

definition time_rule_path :: "nat \<Rightarrow> str" where
  "time_rule_path idx = ''security.time_rules['' @ show_nat idx @ '']''"

definition time_rule_validate :: "int \<Rightarrow> time_rule \<Rightarrow> nat \<Rightarrow> str + unit" where
  "time_rule_validate local_offset tr idx =
     (if trim (tr_name tr) = [] then Inl (time_rule_path idx @ ''.name must not be empty'')
      else if to_ascii_lowercase (tr_effect tr) \<notin> set [''deny'', ''require_ticket''] then
        Inl (time_rule_path idx @ ''.effect must be deny or require_ticket, got ''
             @ quoted (to_ascii_lowercase (tr_effect tr)))
      else if eq_ignore_ascii_case (tr_effect tr) ''require_ticket'' \<and> trim (tr_ticket_type tr) = []
      then Inl (time_rule_path idx @ ''.ticket_type must not be empty when effect=require_ticket'')
      else case parse_hhmm (tr_start tr) of
          Inl e \<Rightarrow> Inl (time_rule_path idx @ ''.start invalid: '' @ e)
        | Inr _ \<Rightarrow>
            (case parse_hhmm (tr_end tr) of
               Inl e \<Rightarrow> Inl (time_rule_path idx @ ''.end invalid: '' @ e)
             | Inr _ \<Rightarrow>
                 (case find (\<lambda>d. parse_weekday d = None) (tr_days tr) of
                    Some d \<Rightarrow> Inl (time_rule_path idx @ ''.days entry '' @ quoted d @ '' must be mon..sun'')
                  | None \<Rightarrow>
                      (case parse_timezone_offset_minutes local_offset (tr_timezone tr) of
                         Inl e \<Rightarrow> Inl (time_rule_path idx @ ''.timezone invalid: '' @ e)
                       | Inr _ \<Rightarrow> Inr ()))))"

section \<open>Lemmas\<close>

lemma parse_hhmm_bound: "parse_hhmm s = Inr m \<Longrightarrow> m < 1440"
  by (auto simp: parse_hhmm_def Let_def split: list.splits option.splits if_splits)

lemma inside_window_complement:
  "start \<noteq> fin \<Longrightarrow> is_inside_window m fin start \<longleftrightarrow> \<not> is_inside_window m start fin"
  by (auto simp: is_inside_window_def)

lemma inside_window_card:
  assumes "start < 1440" and "fin < 1440"
  shows "card {m. m < 1440 \<and> is_inside_window m start fin} =
    (if start \<le> fin then fin - start else 1440 - (start - fin))"
proof -
  consider (eq) "start = fin" | (lt) "start < fin" | (gt) "fin < start" by linarith
  then show ?thesis
  proof cases
    case eq
    then show ?thesis by (simp add: is_inside_window_def)
  next
    case lt
    then have "{m. m < 1440 \<and> is_inside_window m start fin} = {start..<fin}"
      using assms by (auto simp: is_inside_window_def)
    with lt show ?thesis by simp
  next
    case gt
    then have "{m. m < 1440 \<and> is_inside_window m start fin} = {start..<1440} \<union> {..<fin}"
      using assms by (auto simp: is_inside_window_def)
    moreover have "card ({start..<1440} \<union> {..<fin}) = (1440 - start) + fin"
      using gt by (subst card_Un_disjoint) auto
    ultimately show ?thesis using gt assms by simp
  qed
qed

lemma validate_parses:
  assumes "time_rule_validate loc tr idx = Inr ()"
  obtains off s e where "parse_timezone_offset_minutes loc (tr_timezone tr) = Inr off"
    and "parse_hhmm (tr_start tr) = Inr s" and "parse_hhmm (tr_end tr) = Inr e"
  using assms
  by (auto simp: time_rule_validate_def split: if_splits sum.splits option.splits)

lemma matches_now_flip:
  assumes "time_rule_validate loc tr idx = Inr ()"
  shows "matches_now loc civil (tr\<lparr>tr_outside := \<not> tr_outside tr\<rparr>) now \<longleftrightarrow>
     \<not> matches_now loc civil tr now"
  using assms
  by (rule validate_parses) (auto simp: matches_now_def split: prod.split)

lemma parse_offset_bound:
  "parse_timezone_offset_minutes loc tz = Inr off \<Longrightarrow> \<not> eq_ignore_ascii_case (trim tz) ''local'' \<Longrightarrow>
     \<bar>off\<bar> \<le> 14 * 60 + 59"
  by (auto simp: parse_timezone_offset_minutes_def Let_def
      split: if_splits option.splits sum.splits)

end
