(* ===== verification/Security_Config.thy ===== *)
theory Security_Config
  imports Obligations Time_Rules
begin

text \<open>
  The security section of the gateway configuration (\<open>gateway/core/src/security.rs\<close>) and its
  validation.  Building with the \<open>security-cedar\<close> feature is the flag \<open>cedar_feature\<close>.
\<close>

section \<open>The configuration records\<close>

record security_rule =
  sr_name :: str
  sr_effect :: str
  sr_actions :: "str list"
  sr_tables :: "str list"
  sr_columns :: "str list"
  sr_subjects :: "str list"
  sr_row_filter :: "str option"

record mask_rule =
  mr_name :: str
  mr_algorithm :: str
  mr_replace_with :: str
  mr_prefix_len :: nat
  mr_suffix_len :: nat

record column_tag =
  ct_column :: str
  ct_tables :: "str list"
  ct_subjects :: "str list"
  ct_mask_rule :: str
  ct_label :: str

record watermark_config =
  wc_enabled :: bool
  wc_mode :: str
  wc_column :: str
  wc_token :: str

record high_risk_rule =
  hr_name :: str
  hr_kind :: str
  hr_ticket_type :: str
  hr_actions :: "str list"
  hr_tables :: "str list"
  hr_subjects :: "str list"
  hr_message :: str

record subject_attr =
  sa_subject_id :: str
  sa_tenant :: str
  sa_clearance :: str
  sa_roles :: "str list"

record table_attr =
  ta_table :: str
  ta_tenant :: str
  ta_clearance :: str
  ta_classification :: str

record pdp_config =
  pc_backend :: str
  pc_policy_dir :: str
  pc_cache_epoch_reload :: bool
  pc_subject_attrs :: "subject_attr list"
  pc_table_attrs :: "table_attr list"
  pc_remote_url :: str
  pc_remote_timeout_ms :: nat
  pc_remote_token :: str
  pc_remote_fail_closed :: bool

record streaming_config =
  st_window_rows :: nat
  st_max_rows :: "nat option"
  st_max_bytes :: "nat option"
  st_passthrough :: bool
  st_backend_sql_with_hold :: bool

text \<open>The audit settings that validation reads.\<close>

record audit_config =
  au_queue_capacity :: nat
  au_overflow :: str
  au_sample_enabled :: bool
  au_sample_max_rows :: nat
  au_sample_max_bytes :: nat

record state_config =
  sc_backend :: str
  sc_ticket_path :: str
  sc_vault_path :: str
  sc_vault_encrypt_key :: str
  sc_ticket_encrypt_key :: str
  sc_policy_path :: str
  sc_policy_poll_ms :: nat

record security_config =
  cfg_enabled :: bool
  cfg_fail_closed :: bool
  cfg_star_policy :: str
  cfg_default_audit_level :: str
  cfg_subject_sources :: "str list"
  cfg_pdp :: pdp_config
  cfg_streaming :: streaming_config
  cfg_audit :: audit_config
  cfg_rules :: "security_rule list"
  cfg_mask_rules :: "mask_rule list"
  cfg_column_tags :: "column_tag list"
  cfg_high_risk_rules :: "high_risk_rule list"
  cfg_time_rules :: "time_rule list"
  cfg_watermark :: watermark_config
  cfg_state :: state_config

section \<open>Validation\<close>

text \<open>A list of checks; the first that fails is the result.\<close>

fun first_error :: "(str + unit) list \<Rightarrow> str + unit" where
  "first_error [] = Inr ()"
| "first_error (c # cs) = (case c of Inl e \<Rightarrow> Inl e | Inr _ \<Rightarrow> first_error cs)"

definition check :: "bool \<Rightarrow> str \<Rightarrow> str + unit" where
  "check ok msg = (if ok then Inr () else Inl msg)"

definition check_each :: "(nat \<Rightarrow> 'a \<Rightarrow> str + unit) \<Rightarrow> 'a list \<Rightarrow> str + unit" where
  "check_each f xs = first_error (map (\<lambda>(i, x). f i x) (enumerate 0 xs))"

definition indexed :: "str \<Rightarrow> nat \<Rightarrow> str \<Rightarrow> str" where
  "indexed section_name idx rest = ''security.'' @ section_name @ ''['' @ show_nat idx @ ''].'' @ rest"

definition validate_pdp :: "bool \<Rightarrow> pdp_config \<Rightarrow> str + unit" where
  "validate_pdp cedar_feature pdp =
     (if pc_backend pdp = ''local'' then Inr ()
      else if pc_backend pdp = ''cedar'' then
        (if \<not> cedar_feature
         then Inl (''security.pdp.backend=cedar requires building with --features security-cedar (and rustc ''
                @ [CHR 0xE2, CHR 0x89, CHR 0xA5] @ ''1.88)'')
         else check (trim (pc_policy_dir pdp) \<noteq> [])
                ''security.pdp.backend=cedar requires non-empty security.pdp.policy_dir'')
      else if pc_backend pdp = ''remote'' then
        (let url = trim (pc_remote_url pdp)
         in first_error
           [check (url \<noteq> []) ''security.pdp.backend=remote requires non-empty security.pdp.remote_url'',
            check (starts_with ''http://'' url \<or> starts_with ''https://'' url)
              (''security.pdp.remote_url must be http(s) URL, got '' @ quoted url),
            check (\<not> (pc_remote_timeout_ms pdp = 0 \<or> pc_remote_timeout_ms pdp > 30000))
              ''security.pdp.remote_timeout_ms must be 1..=30000''])
      else Inl (''security.pdp.backend must be local, cedar, or remote, got '' @ quoted (pc_backend pdp)))"

definition validate_audit :: "str \<Rightarrow> audit_config \<Rightarrow> str + unit" where
  "validate_audit level au =
     first_error
       (check (au_queue_capacity au \<noteq> 0) ''security.audit.queue_capacity must be >= 1'' #
        (if au_sample_enabled au then
          [check (eq_ignore_ascii_case level ''L2'')
             ''security.audit.sample_enabled=true requires security.default_audit_level=L2 (samples never attach at L0/L1)'',
           check (au_sample_max_rows au \<noteq> 0)
             ''security.audit.sample_max_rows must be >= 1 when sample_enabled=true'',
           check (au_sample_max_bytes au \<noteq> 0)
             ''security.audit.sample_max_bytes must be >= 1 when sample_enabled=true'',
           check (au_sample_max_bytes au \<le> 1048576)
             ''security.audit.sample_max_bytes must be <= 1048576 (1 MiB hard cap)'',
           check (au_sample_max_rows au \<le> 10000) ''security.audit.sample_max_rows must be <= 10000'']
         else []))"

definition validate_rule :: "nat \<Rightarrow> security_rule \<Rightarrow> str + unit" where
  "validate_rule idx rule =
     first_error
       [check (trim (sr_name rule) \<noteq> []) (indexed ''rules'' idx ''name must not be empty''),
        check (sr_effect rule = ''allow'' \<or> sr_effect rule = ''deny'')
          (indexed ''rules'' idx ''effect must be allow or deny, got '' @ quoted (sr_effect rule))]"

definition validate_mask_rule :: "nat \<Rightarrow> mask_rule \<Rightarrow> str + unit" where
  "validate_mask_rule idx m =
     first_error
       [check (trim (mr_name m) \<noteq> []) (indexed ''mask_rules'' idx ''name must not be empty''),
        check (mask_algorithm_parse (mr_algorithm m) \<noteq> None)
          (indexed ''mask_rules'' idx
             ''algorithm must be nullify|partial|hash|replace|keep_prefix, got '' @ quoted (mr_algorithm m))]"

definition validate_column_tag :: "mask_rule list \<Rightarrow> nat \<Rightarrow> column_tag \<Rightarrow> str + unit" where
  "validate_column_tag masks idx tag =
     first_error
       [check (trim (ct_column tag) \<noteq> []) (indexed ''column_tags'' idx ''column must not be empty''),
        check (trim (ct_mask_rule tag) \<noteq> [])
          (indexed ''column_tags'' idx ''mask_rule must not be empty''),
        check (\<exists>m \<in> set masks. eq_ignore_ascii_case (mr_name m) (ct_mask_rule tag))
          (indexed ''column_tags'' idx ''mask_rule '' @ quoted (ct_mask_rule tag)
           @ '' not found in mask_rules'')]"

definition high_risk_kinds :: "str list" where
  "high_risk_kinds = [''ddl'', ''write_no_where'', ''action'', ''table_write'', ''export'']"

definition validate_high_risk :: "nat \<Rightarrow> high_risk_rule \<Rightarrow> str + unit" where
  "validate_high_risk idx hr =
     first_error
       [check (trim (hr_name hr) \<noteq> []) (indexed ''high_risk_rules'' idx ''name must not be empty''),
        check (trim (hr_ticket_type hr) \<noteq> [])
          (indexed ''high_risk_rules'' idx ''ticket_type must not be empty''),
        check (to_ascii_lowercase (hr_kind hr) \<in> set high_risk_kinds)
          (indexed ''high_risk_rules'' idx
             ''kind must be ddl|write_no_where|action|table_write|export, got ''
           @ quoted (to_ascii_lowercase (hr_kind hr)))]"

definition is_ascii_hexdigit :: "char \<Rightarrow> bool" where
  "is_ascii_hexdigit c \<longleftrightarrow>
     is_ascii_digit c \<or> (65 \<le> byte c \<and> byte c \<le> 70) \<or> (97 \<le> byte c \<and> byte c \<le> 102)"

definition validate_key :: "str \<Rightarrow> str \<Rightarrow> str + unit" where
  "validate_key name key =
     check (\<not> (key \<noteq> [] \<and> (length key \<noteq> 64 \<or> \<not> list_all is_ascii_hexdigit key)))
       (''security.state.'' @ name @ '' must be empty or 64 hex characters (AES-256 key)'')"

definition validate_state :: "state_config \<Rightarrow> str + unit" where
  "validate_state sc =
     (let backend = to_ascii_lowercase (trim (sc_backend sc))
      in first_error
        [(if backend = ''memory'' \<or> backend = [] then Inr ()
          else if backend = ''file'' then first_error
            [check (trim (sc_ticket_path sc) \<noteq> [])
               ''security.state.backend=file requires non-empty security.state.ticket_path'',
             check (trim (sc_vault_path sc) \<noteq> [])
               ''security.state.backend=file requires non-empty security.state.vault_path'']
          else if backend = ''redis'' \<or> backend = ''remote'' then
            Inl (''security.state.backend='' @ quoted (sc_backend sc)
                 @ '' is not implemented yet (H05); use memory or file'')
          else Inl (''security.state.backend must be memory or file, got '' @ quoted backend)),
         validate_key ''vault_encrypt_key'' (trim (sc_vault_encrypt_key sc)),
         validate_key ''ticket_encrypt_key'' (trim (sc_ticket_encrypt_key sc))])"

definition validate :: "bool \<Rightarrow> int \<Rightarrow> security_config \<Rightarrow> str + unit" where
  "validate cedar_feature local_offset cfg =
     (let star = to_ascii_lowercase (cfg_star_policy cfg);
          level = cfg_default_audit_level cfg;
          overflow = au_overflow (cfg_audit cfg);
          mode = to_ascii_lowercase (wc_mode (cfg_watermark cfg))
      in first_error
        [check (star = ''deny'' \<or> star = ''allow'')
           (''security.star_policy must be deny or allow, got '' @ quoted star),
         check (level \<in> set [''L0'', ''L1'', ''L2'', ''l0'', ''l1'', ''l2''])
           (''security.default_audit_level must be L0, L1, or L2, got '' @ quoted level),
         validate_pdp cedar_feature (cfg_pdp cfg),
         check (overflow \<in> set [''drop_new'', ''drop_old'', ''sample'', ''block''])
           (''security.audit.overflow must be drop_new, drop_old, sample, or block, got '' @ quoted overflow),
         check (st_window_rows (cfg_streaming cfg) \<noteq> 0) ''security.streaming.window_rows must be >= 1'',
         check (\<not> st_backend_sql_with_hold (cfg_streaming cfg))
           (''security.streaming.backend_sql_with_hold=true is not implemented ''
            @ ''(process-local DECLARE/FETCH/CLOSE only; Admin remainders.backend_sql_with_hold=false). ''
            @ ''Leave false or see docs/a10-backend-sql-with-hold-design.md''),
         validate_audit level (cfg_audit cfg),
         check_each validate_rule (cfg_rules cfg),
         check_each validate_mask_rule (cfg_mask_rules cfg),
         check_each (validate_column_tag (cfg_mask_rules cfg)) (cfg_column_tags cfg),
         check_each validate_high_risk (cfg_high_risk_rules cfg),
         check_each (\<lambda>idx tr. time_rule_validate local_offset tr idx) (cfg_time_rules cfg),
         check (mode \<in> set [''column'', ''suffix'', []])
           (''security.watermark.mode must be column or suffix, got '' @ quoted mode),
         validate_state (cfg_state cfg)])"

section \<open>What a validated configuration satisfies\<close>

lemma first_error_ok: "first_error cs = Inr u \<longleftrightarrow> (\<forall>c \<in> set cs. c = Inr ())"
  by (induction cs) (auto split: sum.splits)

declare first_error.simps [simp del]

lemma check_ok [simp]: "check ok msg = Inr u \<longleftrightarrow> ok"
  by (simp add: check_def)

lemma check_each_ok: "check_each f xs = Inr u \<longleftrightarrow> (\<forall>i < length xs. f i (xs ! i) = Inr ())"
  by (simp add: check_each_def first_error_ok all_set_conv_all_nth nth_enumerate_eq del: set_map)

lemma validate_sections:
  assumes "validate cf loc cfg = Inr ()"
  shows "check_each validate_rule (cfg_rules cfg) = Inr ()"
    and "check_each validate_mask_rule (cfg_mask_rules cfg) = Inr ()"
    and "check_each (validate_column_tag (cfg_mask_rules cfg)) (cfg_column_tags cfg) = Inr ()"
    and "check_each validate_high_risk (cfg_high_risk_rules cfg) = Inr ()"
    and "check_each (\<lambda>idx tr. time_rule_validate loc tr idx) (cfg_time_rules cfg) = Inr ()"
  using assms by (simp_all add: validate_def Let_def first_error_ok)

lemma validated_rule_effect:
  assumes "validate cf loc cfg = Inr ()" and "rule \<in> set (cfg_rules cfg)"
  shows "sr_effect rule = ''allow'' \<or> sr_effect rule = ''deny''"
  using validate_sections(1) [OF assms(1)] assms(2)
  by (auto simp: check_each_ok validate_rule_def first_error_ok in_set_conv_nth)

lemma validated_mask_algorithm:
  assumes "validate cf loc cfg = Inr ()" and "m \<in> set (cfg_mask_rules cfg)"
  shows "mask_algorithm_parse (mr_algorithm m) \<noteq> None"
  using validate_sections(2) [OF assms(1)] assms(2)
  by (auto simp: check_each_ok validate_mask_rule_def first_error_ok in_set_conv_nth)

lemma validated_tag_rule:
  assumes "validate cf loc cfg = Inr ()" and "tag \<in> set (cfg_column_tags cfg)"
  shows "\<exists>m \<in> set (cfg_mask_rules cfg). eq_ignore_ascii_case (mr_name m) (ct_mask_rule tag)"
  using validate_sections(3) [OF assms(1)] assms(2)
  by (auto simp: check_each_ok validate_column_tag_def first_error_ok in_set_conv_nth)

end
