(* ===== verification/Glob.thy ===== *)
theory Glob
  imports Nexus_Prelude "HOL-Library.While_Combinator"
begin

text \<open>
  The pattern matcher of the policy engine (\<open>glob_match\<close> and \<open>glob_match_bytes\<close> of
  \<open>gateway/core/src/pdp.rs\<close>): a loop that remembers the last \<open>*\<close> and backtracks to it.
  The loop is kept as a loop; a recursive reference definition says what a glob means, and the
  theorems are that the loop ends on every input and agrees with the reference on every value
  without a literal \<open>*\<close>.
\<close>

section \<open>The loop\<close>

record glob_state =
  pi :: nat
  vi :: nat
  star_p :: "nat option"
  star_v :: nat
  rejected :: bool

abbreviation star :: char where "star \<equiv> CHR ''*''"
abbreviation qmark :: char where "qmark \<equiv> CHR ''?''"

definition glob_init :: glob_state where
  "glob_init = \<lparr>pi = 0, vi = 0, star_p = None, star_v = 0, rejected = False\<rparr>"

text \<open>One iteration; \<open>rejected\<close> stands for the early \<open>return false\<close>.\<close>

definition glob_step :: "str \<Rightarrow> str \<Rightarrow> glob_state \<Rightarrow> glob_state" where
  "glob_step p v s =
     (if pi s < length p \<and> (p ! pi s = qmark \<or> p ! pi s = v ! vi s)
      then s\<lparr>pi := pi s + 1, vi := vi s + 1\<rparr>
      else if pi s < length p \<and> p ! pi s = star
      then s\<lparr>star_p := Some (pi s), star_v := vi s, pi := pi s + 1\<rparr>
      else case star_p s of
          Some sp \<Rightarrow> s\<lparr>pi := sp + 1, star_v := star_v s + 1, vi := star_v s + 1\<rparr>
        | None \<Rightarrow> s\<lparr>rejected := True\<rparr>)"

definition glob_loop :: "str \<Rightarrow> str \<Rightarrow> glob_state option" where
  "glob_loop p v = while_option (\<lambda>s. vi s < length v \<and> \<not> rejected s) (glob_step p v) glob_init"

function skip_stars :: "str \<Rightarrow> nat \<Rightarrow> nat" where
  "skip_stars p i = (if i < length p \<and> p ! i = star then skip_stars p (i + 1) else i)"
  by pat_completeness auto
termination
  by (relation "measure (\<lambda>(p, i). length p - i)") auto

declare skip_stars.simps [simp del]

definition glob_match_bytes :: "str \<Rightarrow> str \<Rightarrow> bool" where
  "glob_match_bytes p v =
     (case glob_loop p v of
        None \<Rightarrow> False
      | Some s \<Rightarrow> \<not> rejected s \<and> skip_stars p (pi s) = length p)"

definition glob_match :: "str \<Rightarrow> str \<Rightarrow> bool" where
  "glob_match p v = glob_match_bytes (to_ascii_lowercase p) (to_ascii_lowercase v)"

section \<open>What a glob means\<close>

function glob_spec :: "str \<Rightarrow> str \<Rightarrow> bool" where
  "glob_spec [] v = (v = [])"
| "glob_spec (c # p) v =
     (if c = star
      then glob_spec p v \<or> (case v of [] \<Rightarrow> False | _ # v' \<Rightarrow> glob_spec (c # p) v')
      else (case v of [] \<Rightarrow> False | x # v' \<Rightarrow> (c = qmark \<or> c = x) \<and> glob_spec p v'))"
  by pat_completeness auto
termination
  by (relation "measures [length \<circ> fst, length \<circ> snd]") auto

declare glob_spec.simps(2) [simp del]

definition seg_match :: "str \<Rightarrow> str \<Rightarrow> bool" where
  "seg_match seg w = list_all2 (\<lambda>c x. c \<noteq> star \<and> (c = qmark \<or> c = x)) seg w"

lemma glob_spec_star:
  "glob_spec (star # p) v = (glob_spec p v \<or> (v \<noteq> [] \<and> glob_spec (star # p) (tl v)))"
  by (cases v) (subst glob_spec.simps(2), simp)+

lemma glob_spec_char:
  "c \<noteq> star \<Longrightarrow> glob_spec (c # p) v = (v \<noteq> [] \<and> (c = qmark \<or> c = hd v) \<and> glob_spec p (tl v))"
  by (subst glob_spec.simps(2)) (simp split: list.split)

lemma glob_spec_star_iff:
  "glob_spec (star # q) w \<longleftrightarrow> (\<exists>a b. w = a @ b \<and> glob_spec q b)"
proof (induction w)
  case Nil
  show ?case by (subst glob_spec_star) simp
next
  case (Cons x w)
  show ?case
    by (subst glob_spec_star) (auto simp: Cons Cons_eq_append_conv)
qed

lemma glob_spec_seg: "seg_match seg segv \<Longrightarrow> glob_spec (seg @ q) (segv @ w) = glob_spec q w"
  unfolding seg_match_def by (induction rule: list_all2_induct) (auto simp: glob_spec_char)

lemma seg_match_length: "seg_match seg segv \<Longrightarrow> length seg = length segv"
  by (auto simp: seg_match_def dest: list_all2_lengthD)

lemma seg_match_nostar: "seg_match seg segv \<Longrightarrow> star \<notin> set seg"
  unfolding seg_match_def by (induction rule: list_all2_induct) auto

lemma glob_spec_prefix:
  "star \<notin> set seg \<Longrightarrow> glob_spec (seg @ q) w \<Longrightarrow>
     \<exists>a b. w = a @ b \<and> length a = length seg \<and> glob_spec q b"
proof (induction seg arbitrary: w)
  case (Cons c seg)
  then have "w \<noteq> []" and "glob_spec (seg @ q) (tl w)"
    by (auto simp: glob_spec_char)
  moreover from Cons.prems have "star \<notin> set seg" by simp
  ultimately obtain a b where "tl w = a @ b" "length a = length seg" "glob_spec q b"
    using Cons.IH [of "tl w"] by blast
  with \<open>w \<noteq> []\<close> show ?case
    by (intro exI [of _ "hd w # a"] exI [of _ b]) (auto simp: neq_Nil_conv)
qed simp

text \<open>A new \<open>*\<close> makes the previous one irrelevant: the earliest match of a segment is enough.\<close>

lemma glob_spec_new_star:
  assumes m: "seg_match seg segv"
  shows "glob_spec (star # seg @ star # q) (segv @ w) = glob_spec (star # q) w"
proof
  assume "glob_spec (star # seg @ star # q) (segv @ w)"
  then obtain a b where ab: "segv @ w = a @ b" and "glob_spec (seg @ star # q) b"
    by (auto simp: glob_spec_star_iff)
  with seg_match_nostar [OF m] obtain c d where cd: "b = c @ d" "length c = length seg"
    and d: "glob_spec (star # q) d"
    by (blast dest: glob_spec_prefix)
  have "suffix d (segv @ w)" using ab cd by (simp add: suffix_def)
  moreover have "suffix w (segv @ w)" by (simp add: suffix_def)
  moreover have "length d \<le> length w"
    using arg_cong [OF ab, of length] cd seg_match_length [OF m] by simp
  ultimately have "suffix d w" by (rule suffix_length_suffix)
  then obtain e where "w = e @ d" by (auto simp: suffix_def)
  with d show "glob_spec (star # q) w"
    by (auto simp: glob_spec_star_iff) (metis append.assoc)
next
  assume "glob_spec (star # q) w"
  then have "glob_spec (seg @ star # q) (segv @ w)" by (simp add: glob_spec_seg [OF m])
  then show "glob_spec (star # seg @ star # q) (segv @ w)"
    by (subst glob_spec_star) simp
qed

lemma glob_spec_at_end:
  assumes m: "seg_match seg segv"
  shows "glob_spec (star # seg @ q) segv = glob_spec q []"
proof
  assume "glob_spec (star # seg @ q) segv"
  then obtain a b where ab: "segv = a @ b" and "glob_spec (seg @ q) b"
    by (auto simp: glob_spec_star_iff)
  with seg_match_nostar [OF m] obtain c d where cd: "b = c @ d" "length c = length seg"
    and d: "glob_spec q d"
    by (blast dest: glob_spec_prefix)
  from ab cd seg_match_length [OF m] have "d = []" by simp
  with d show "glob_spec q []" by simp
next
  assume "glob_spec q []"
  then have "glob_spec (seg @ q) (segv @ [])" by (simp only: glob_spec_seg [OF m])
  then show "glob_spec (star # seg @ q) segv" by (subst glob_spec_star) simp
qed

section \<open>The loop's invariant\<close>

definition glob_inv :: "str \<Rightarrow> str \<Rightarrow> glob_state \<Rightarrow> bool" where
  "glob_inv p v s \<longleftrightarrow> pi s \<le> length p \<and> vi s \<le> length v \<and>
     (if rejected s then \<not> glob_spec p v
      else case star_p s of
          None \<Rightarrow> glob_spec p v = glob_spec (drop (pi s) p) (drop (vi s) v)
        | Some sp \<Rightarrow> sp < pi s \<and> star_v s \<le> vi s \<and>
            glob_spec p v = glob_spec (drop sp p) (drop (star_v s) v) \<and>
            (\<exists>seg segv. drop sp p = star # seg @ drop (pi s) p \<and>
               drop (star_v s) v = segv @ drop (vi s) v \<and> seg_match seg segv))"

lemma glob_inv_init: "glob_inv p v glob_init"
  by (simp add: glob_inv_def glob_init_def)

lemma glob_inv_match:
  assumes inv: "glob_inv p v s" and "\<not> rejected s" "vi s < length v" "star \<notin> set v"
    and m: "pi s < length p" "p ! pi s = qmark \<or> p ! pi s = v ! vi s"
  shows "glob_inv p v (s\<lparr>pi := pi s + 1, vi := vi s + 1\<rparr>)"
proof -
  have dp: "drop (pi s) p = p ! pi s # drop (Suc (pi s)) p"
    using m by (simp add: Cons_nth_drop_Suc)
  have dv: "drop (vi s) v = v ! vi s # drop (Suc (vi s)) v"
    using assms by (simp add: Cons_nth_drop_Suc)
  have "v ! vi s \<noteq> star" using assms by (metis nth_mem)
  with m have ns: "p ! pi s \<noteq> star" by auto
  show ?thesis
  proof (cases "star_p s")
    case None
    then show ?thesis using assms dp dv ns
      by (simp add: glob_inv_def glob_spec_char)
  next
    case (Some sp)
    with inv \<open>\<not> rejected s\<close> obtain seg segv where sg:
      "drop sp p = star # seg @ drop (pi s) p"
      "drop (star_v s) v = segv @ drop (vi s) v" "seg_match seg segv"
      by (auto simp: glob_inv_def)
    let ?seg = "seg @ [p ! pi s]" and ?segv = "segv @ [v ! vi s]"
    have "seg_match ?seg ?segv"
      using sg ns m by (simp add: seg_match_def list_all2_appendI)
    moreover have "drop sp p = star # ?seg @ drop (Suc (pi s)) p"
      "drop (star_v s) v = ?segv @ drop (Suc (vi s)) v"
      using sg dp dv by simp_all
    ultimately show ?thesis using assms Some
      unfolding glob_inv_def by (auto simp: less_SucI le_SucI)
  qed
qed

lemma glob_inv_star:
  assumes inv: "glob_inv p v s" and "\<not> rejected s" "vi s < length v"
    and m: "pi s < length p" "p ! pi s = star"
  shows "glob_inv p v (s\<lparr>star_p := Some (pi s), star_v := vi s, pi := pi s + 1\<rparr>)"
proof -
  have dp: "drop (pi s) p = star # drop (Suc (pi s)) p"
    using m by (metis Cons_nth_drop_Suc)
  have "glob_spec p v = glob_spec (drop (pi s) p) (drop (vi s) v)"
  proof (cases "star_p s")
    case None
    with inv \<open>\<not> rejected s\<close> show ?thesis by (simp add: glob_inv_def)
  next
    case (Some sp)
    with inv \<open>\<not> rejected s\<close> obtain seg segv where sg:
      "glob_spec p v = glob_spec (drop sp p) (drop (star_v s) v)"
      "drop sp p = star # seg @ drop (pi s) p"
      "drop (star_v s) v = segv @ drop (vi s) v" "seg_match seg segv"
      by (auto simp: glob_inv_def)
    with dp show ?thesis by (simp add: glob_spec_new_star)
  qed
  moreover have "seg_match [] []" by (simp add: seg_match_def)
  ultimately show ?thesis using assms dp
    by (auto simp: glob_inv_def intro!: exI [of _ "[]"])
qed

lemma mismatch_no_spec:
  assumes "\<not> (pi s < length p \<and> (p ! pi s = qmark \<or> p ! pi s = v ! vi s))"
    and "\<not> (pi s < length p \<and> p ! pi s = star)" and "vi s < length v"
  shows "\<not> glob_spec (drop (pi s) p) (drop (vi s) v)"
proof (cases "pi s < length p")
  case True
  then have "drop (pi s) p = p ! pi s # drop (Suc (pi s)) p"
    by (simp add: Cons_nth_drop_Suc)
  with True assms show ?thesis by (simp add: glob_spec_char hd_drop_conv_nth)
next
  case False
  with assms show ?thesis by simp
qed

lemma glob_inv_backtrack:
  assumes inv: "glob_inv p v s" and "\<not> rejected s" "vi s < length v"
    and no: "\<not> (pi s < length p \<and> (p ! pi s = qmark \<or> p ! pi s = v ! vi s))"
      "\<not> (pi s < length p \<and> p ! pi s = star)"
    and sp: "star_p s = Some sp"
  shows "glob_inv p v (s\<lparr>pi := sp + 1, star_v := star_v s + 1, vi := star_v s + 1\<rparr>)"
proof -
  from inv \<open>\<not> rejected s\<close> sp obtain seg segv where sg:
    "glob_spec p v = glob_spec (drop sp p) (drop (star_v s) v)"
    "drop sp p = star # seg @ drop (pi s) p"
    "drop (star_v s) v = segv @ drop (vi s) v" "seg_match seg segv"
    and le: "sp < pi s" "star_v s \<le> vi s" "pi s \<le> length p"
    by (auto simp: glob_inv_def)
  have dsp: "drop sp p = star # drop (Suc sp) p"
    using sg(2) by (metis drop_Suc list.sel(3) tl_drop)
  have "\<not> glob_spec (seg @ drop (pi s) p) (segv @ drop (vi s) v)"
    using mismatch_no_spec [OF no \<open>vi s < length v\<close>] sg(4) by (simp add: glob_spec_seg)
  moreover have "seg @ drop (pi s) p = drop (Suc sp) p" using sg(2) dsp by simp
  moreover have "drop (star_v s) v \<noteq> []" using le \<open>vi s < length v\<close> by simp
  ultimately have "glob_spec (drop sp p) (drop (star_v s) v) =
      glob_spec (drop sp p) (tl (drop (star_v s) v))"
    unfolding dsp by (subst glob_spec_star) (simp add: sg(3))
  then have "glob_spec p v = glob_spec (drop sp p) (drop (Suc (star_v s)) v)"
    using sg(1) by (simp add: drop_Suc tl_drop)
  moreover have "seg_match [] []" by (simp add: seg_match_def)
  ultimately show ?thesis using assms le dsp
    by (auto simp: glob_inv_def intro!: exI [of _ "[]"])
qed

lemma glob_inv_reject:
  assumes "glob_inv p v s" "\<not> rejected s" "vi s < length v"
    and no: "\<not> (pi s < length p \<and> (p ! pi s = qmark \<or> p ! pi s = v ! vi s))"
      "\<not> (pi s < length p \<and> p ! pi s = star)" "star_p s = None"
  shows "glob_inv p v (s\<lparr>rejected := True\<rparr>)"
  using assms mismatch_no_spec [OF no(1,2) assms(3)] by (simp add: glob_inv_def)

lemma glob_inv_step:
  assumes "glob_inv p v s" "vi s < length v" "\<not> rejected s" "star \<notin> set v"
  shows "glob_inv p v (glob_step p v s)"
proof -
  consider (m) "pi s < length p \<and> (p ! pi s = qmark \<or> p ! pi s = v ! vi s)"
    | (st) "\<not> (pi s < length p \<and> (p ! pi s = qmark \<or> p ! pi s = v ! vi s))"
        "pi s < length p \<and> p ! pi s = star"
    | (no) "\<not> (pi s < length p \<and> (p ! pi s = qmark \<or> p ! pi s = v ! vi s))"
        "\<not> (pi s < length p \<and> p ! pi s = star)"
    by blast
  then show ?thesis
  proof cases
    case m
    with assms glob_inv_match [of p v s] show ?thesis by (simp add: glob_step_def)
  next
    case st
    with assms glob_inv_star [of p v s] show ?thesis by (simp add: glob_step_def)
  next
    case no
    note step = glob_step_def if_not_P [OF no(1)] if_not_P [OF no(2)]
    show ?thesis
      using glob_inv_backtrack [OF assms(1,3,2) no] glob_inv_reject [OF assms(1,3,2) no]
      unfolding step by (cases "star_p s") simp_all
  qed
qed

section \<open>Termination and correctness\<close>

text \<open>
  Termination needs no hypothesis on the value: only that the indices stay in order.
\<close>

definition glob_ord :: "str \<Rightarrow> str \<Rightarrow> glob_state \<Rightarrow> bool" where
  "glob_ord p v s \<longleftrightarrow>
     (case star_p s of None \<Rightarrow> True | Some sp \<Rightarrow> sp < pi s \<and> sp < length p \<and> star_v s \<le> vi s)"

definition glob_measures :: "str \<Rightarrow> str \<Rightarrow> (glob_state \<Rightarrow> nat) list" where
  "glob_measures p v =
     [\<lambda>s. if rejected s then 0 else 1,
      \<lambda>s. case star_p s of None \<Rightarrow> length v + 1 | Some _ \<Rightarrow> length v - star_v s,
      \<lambda>s. case star_p s of None \<Rightarrow> 0 | Some sp \<Rightarrow> length p - sp,
      \<lambda>s. length v - vi s]"

lemma glob_step_progress:
  assumes "glob_ord p v s" "vi s < length v" "\<not> rejected s"
  shows "glob_ord p v (glob_step p v s) \<and> (glob_step p v s, s) \<in> measures (glob_measures p v)"
proof -
  consider (m) "pi s < length p \<and> (p ! pi s = qmark \<or> p ! pi s = v ! vi s)"
    | (st) "\<not> (pi s < length p \<and> (p ! pi s = qmark \<or> p ! pi s = v ! vi s))"
        "pi s < length p \<and> p ! pi s = star"
    | (no) "\<not> (pi s < length p \<and> (p ! pi s = qmark \<or> p ! pi s = v ! vi s))"
        "\<not> (pi s < length p \<and> p ! pi s = star)"
    by blast
  then show ?thesis
  proof cases
    case m
    show ?thesis unfolding glob_step_def if_P [OF m]
      using assms m by (cases "star_p s") (simp_all add: glob_ord_def glob_measures_def)
  next
    case st
    show ?thesis unfolding glob_step_def if_not_P [OF st(1)] if_P [OF st(2)]
      using assms st(2) by (cases "star_p s") (auto simp: glob_ord_def glob_measures_def)
  next
    case no
    show ?thesis unfolding glob_step_def if_not_P [OF no(1)] if_not_P [OF no(2)]
      using assms by (cases "star_p s") (auto simp: glob_ord_def glob_measures_def)
  qed
qed

lemma glob_loop_terminates: "\<exists>s. glob_loop p v = Some s"
  unfolding glob_loop_def
proof (rule wf_while_option_Some [where P = "glob_ord p v"])
  show "wf {(t, s). (glob_ord p v s \<and> vi s < length v \<and> \<not> rejected s) \<and> t = glob_step p v s}"
    by (rule wf_subset [of "measures (glob_measures p v)"])
      (use glob_step_progress [of p v] in auto)
qed (use glob_step_progress [of p v] in \<open>auto simp: glob_ord_def glob_init_def\<close>)

lemma glob_spec_skip_stars: "i \<le> length p \<Longrightarrow> glob_spec (drop i p) [] = (skip_stars p i = length p)"
proof (induction p i rule: skip_stars.induct)
  case (1 p i)
  show ?case
  proof (cases "i < length p \<and> p ! i = star")
    case True
    then have "drop i p = star # drop (i + 1) p"
      by (metis Cons_nth_drop_Suc Suc_eq_plus1)
    then have "glob_spec (drop i p) [] = glob_spec (drop (i + 1) p) []"
      by (simp add: glob_spec_star_iff)
    with True 1 show ?thesis
      by (simp add: skip_stars.simps [of p i])
  next
    case False
    then have "skip_stars p i = i" by (simp only: skip_stars.simps [of p i] if_False)
    moreover have "i < length p \<Longrightarrow> \<not> glob_spec (p ! i # drop (Suc i) p) []"
      using False by (simp add: glob_spec_char)
    ultimately show ?thesis using "1.prems" False
      by (cases "i < length p") (auto simp: Cons_nth_drop_Suc)
  qed
qed

lemma glob_match_bytes_spec:
  assumes "star \<notin> set v"
  shows "glob_match_bytes p v = glob_spec p v"
proof -
  obtain s where s: "glob_loop p v = Some s" using glob_loop_terminates by blast
  have inv: "glob_inv p v s"
    using s unfolding glob_loop_def
    by (rule while_option_rule [rotated]) (use assms in \<open>auto simp: glob_inv_init glob_inv_step\<close>)
  have stop: "\<not> (vi s < length v \<and> \<not> rejected s)"
    using s unfolding glob_loop_def by (rule while_option_stop)
  show ?thesis
  proof (cases "rejected s")
    case True
    with s inv show ?thesis by (simp add: glob_match_bytes_def glob_inv_def)
  next
    case False
    with stop inv have vi: "drop (vi s) v = []" and pi: "pi s \<le> length p"
      by (auto simp: glob_inv_def)
    have "glob_spec p v = glob_spec (drop (pi s) p) []"
      using inv False vi
      by (cases "star_p s") (auto simp: glob_inv_def glob_spec_at_end)
    with s False pi show ?thesis
      by (simp add: glob_match_bytes_def glob_spec_skip_stars)
  qed
qed

lemma star_in_lower: "star \<in> set (to_ascii_lowercase v) \<longleftrightarrow> star \<in> set v"
proof -
  have "lower_byte c = star \<longleftrightarrow> c = star" for c
    by (rule lower_byte_eq_iff) (simp_all add: is_ascii_uppercase_def is_ascii_lowercase_def)
  then have "star = lower_byte c \<longleftrightarrow> c = star" for c by metis
  then show ?thesis by (simp add: to_ascii_lowercase_def image_iff)
qed

lemma glob_match_eq_spec:
  "star \<notin> set v \<Longrightarrow> glob_match p v = glob_spec (to_ascii_lowercase p) (to_ascii_lowercase v)"
  by (simp add: glob_match_def glob_match_bytes_spec star_in_lower)

end
