(* ===== verification/Policy.thy ===== *)
theory Policy
  imports Security_Config Glob
begin

text \<open>
  The matching half of the policy decision point (\<open>gateway/core/src/pdp.rs\<close> and
  \<open>object_set.rs\<close>): subjects, statement classes, the objects a statement touches, how a rule
  matches a request, the table/statement rules (\<open>evaluate\<close>), and the collection of row filters
  and column masks.
\<close>

section \<open>Requests\<close>

record subject =
  subject_id :: str
  db_user :: "str option"
  sub_database :: "str option"

definition from_protocol_user :: "str option \<Rightarrow> str option \<Rightarrow> subject" where
  "from_protocol_user user database =
     \<lparr>subject_id = (case user of
          None \<Rightarrow> ''anonymous''
        | Some u \<Rightarrow> if u = [] then ''anonymous'' else u),
      db_user = user, sub_database = database\<rparr>"

datatype statement_action = ASelect | AInsert | AUpdate | ADelete | ADdl | ATcl | AOther

definition action_as_str :: "statement_action \<Rightarrow> str" where
  "action_as_str a =
     (case a of ASelect \<Rightarrow> ''select'' | AInsert \<Rightarrow> ''insert'' | AUpdate \<Rightarrow> ''update''
      | ADelete \<Rightarrow> ''delete'' | ADdl \<Rightarrow> ''ddl'' | ATcl \<Rightarrow> ''tcl'' | AOther \<Rightarrow> ''other'')"

definition from_keyword :: "str \<Rightarrow> statement_action" where
  "from_keyword keyword =
     (let k = to_ascii_uppercase (trim keyword)
      in if k \<in> set [''SELECT'', ''WITH'', ''VALUES'', ''TABLE'', ''SHOW'', ''EXPLAIN'', ''DESCRIBE'',
                       ''DESC''] then ASelect
         else if k \<in> set [''INSERT'', ''REPLACE''] then AInsert
         else if k = ''UPDATE'' then AUpdate
         else if k = ''DELETE'' then ADelete
         else if k \<in> set [''CREATE'', ''ALTER'', ''DROP'', ''TRUNCATE'', ''RENAME'', ''COMMENT''] then ADdl
         else if k \<in> set [''BEGIN'', ''START'', ''COMMIT'', ''ROLLBACK'', ''SAVEPOINT'', ''RELEASE'']
           then ATcl
         else AOther)"

datatype star_policy = StarDeny | StarAllow

definition star_policy_from_config :: "str \<Rightarrow> star_policy" where
  "star_policy_from_config raw =
     (if to_ascii_lowercase (trim raw) = ''allow'' then StarAllow else StarDeny)"

record object_access =
  oa_schema :: "str option"
  oa_table :: str
  oa_columns :: "str list"
  oa_op :: statement_action
  oa_has_wildcard :: bool

definition qualified_table :: "object_access \<Rightarrow> str" where
  "qualified_table obj =
     (case oa_schema obj of
        Some s \<Rightarrow> if s = [] then oa_table obj else s @ ''.'' @ oa_table obj
      | None \<Rightarrow> oa_table obj)"

definition bare_columns :: "object_access \<Rightarrow> str list" where
  "bare_columns obj = map bare_column_name (oa_columns obj)"

record object_set =
  os_objects :: "object_access list"
  os_parse_failed :: bool
  os_heuristic :: bool

definition push_unique :: "str list \<Rightarrow> str \<Rightarrow> str list" where
  "push_unique tables name =
     (if \<exists>t \<in> set tables. eq_ignore_ascii_case t name then tables else tables @ [name])"

definition object_tables :: "object_set \<Rightarrow> str list" where
  "object_tables os =
     foldl (\<lambda>out obj. push_unique (push_unique out (qualified_table obj)) (oa_table obj))
       [] (os_objects os)"

definition set_has_wildcard :: "object_set \<Rightarrow> bool" where
  "set_has_wildcard os \<longleftrightarrow> (\<exists>ob \<in> set (os_objects os). oa_has_wildcard ob)"

record access_request =
  ar_subject :: subject
  ar_service :: str
  ar_action :: statement_action
  ar_tables :: "str list"
  ar_columns :: "str list"
  ar_sql :: "str option"

section \<open>Matching\<close>

definition glob_any :: "str list \<Rightarrow> str \<Rightarrow> bool" where
  "glob_any patterns value \<longleftrightarrow> (\<exists>p \<in> set patterns. glob_match p value)"

definition subject_matches :: "security_rule \<Rightarrow> subject \<Rightarrow> bool" where
  "subject_matches rule subject \<longleftrightarrow>
     sr_subjects rule = [] \<or> glob_any (sr_subjects rule) (subject_id subject)"

definition action_token_matches :: "statement_action \<Rightarrow> str \<Rightarrow> bool" where
  "action_token_matches action a0 \<longleftrightarrow>
     (let a = to_ascii_lowercase a0
      in a = action_as_str action \<or> a = ''*''
         \<or> (a = ''write'' \<and> action \<in> {AInsert, AUpdate, ADelete, ADdl})
         \<or> (a = ''read'' \<and> action = ASelect)
         \<or> (a = ''dml'' \<and> action \<in> {AInsert, AUpdate, ADelete}))"

definition action_matches_actions :: "str list \<Rightarrow> statement_action \<Rightarrow> bool" where
  "action_matches_actions actions action \<longleftrightarrow>
     actions = [] \<or> (\<exists>a \<in> set actions. action_token_matches action a)"

definition action_matches :: "security_rule \<Rightarrow> statement_action \<Rightarrow> bool" where
  "action_matches rule action \<longleftrightarrow>
     sr_actions rule = [] \<or> (\<exists>a \<in> set (sr_actions rule). action_token_matches action a)"

definition table_glob_match :: "str \<Rightarrow> str \<Rightarrow> bool" where
  "table_glob_match pattern table0 =
     (let table = trim_matches squote (trim_matches dquote (trim_matches bquote table0));
          base = rsplit_next dot table; leaf = rsplit_next dot pattern
      in if glob_match pattern table then True
         else if base \<noteq> table \<and> glob_match pattern base then True
         else if leaf \<noteq> pattern then glob_match leaf base
         else False)"

definition table_matches_rule :: "security_rule \<Rightarrow> object_access \<Rightarrow> bool" where
  "table_matches_rule rule obj \<longleftrightarrow>
     sr_tables rule = [] \<or>
     (\<exists>p \<in> set (sr_tables rule). table_glob_match p (qualified_table obj) \<or> table_glob_match p (oa_table obj))"

text \<open>The pattern test that \<open>column_matches_rule\<close> and \<open>column_tag_matches\<close> share.\<close>

definition column_pattern_matches :: "str \<Rightarrow> str \<Rightarrow> str \<Rightarrow> bool" where
  "column_pattern_matches pattern bare_col table =
     (let p = trim pattern
      in if contains ''.'' p
         then let col_pat = rsplit_next dot p;
                  tbl_pat = (case rsplit_before dot p of None \<Rightarrow> ''*'' | Some t \<Rightarrow> t)
              in glob_match col_pat bare_col \<and> (tbl_pat = ''*'' \<or> glob_match tbl_pat table)
         else glob_match p bare_col)"

definition column_matches_rule :: "security_rule \<Rightarrow> str \<Rightarrow> str \<Rightarrow> bool" where
  "column_matches_rule rule bare_col table \<longleftrightarrow>
     (\<exists>p \<in> set (sr_columns rule). column_pattern_matches p bare_col table)"

definition column_tag_matches :: "column_tag \<Rightarrow> str \<Rightarrow> str \<Rightarrow> bool" where
  "column_tag_matches tag bare_col table \<longleftrightarrow> column_pattern_matches (ct_column tag) bare_col table"

definition rule_matches :: "security_rule \<Rightarrow> access_request \<Rightarrow> bool" where
  "rule_matches rule rq =
     (if \<not> subject_matches rule (ar_subject rq) then False
      else if \<not> action_matches rule (ar_action rq) then False
      else if sr_tables rule \<noteq> [] then
        (if ar_tables rq = [] then False
         else \<exists>t \<in> set (ar_tables rq). \<exists>p \<in> set (sr_tables rule). table_glob_match p t)
      else True)"

section \<open>Decisions\<close>

datatype security_decision =
    Allow obligations
  | AllowRewrite str obligations
  | RequireTicket str str str
  | Deny str str

fun is_deny :: "security_decision \<Rightarrow> bool" where
  "is_deny (Deny _ _) = True"
| "is_deny (RequireTicket _ _ _) = True"
| "is_deny _ = False"

fun decision_obligations :: "security_decision \<Rightarrow> obligations" where
  "decision_obligations (Allow ob) = ob"
| "decision_obligations (AllowRewrite _ ob) = ob"
| "decision_obligations _ = obligations_default"

definition deny_message :: "security_rule \<Rightarrow> access_request \<Rightarrow> str" where
  "deny_message rule rq =
     ''security policy '' @ quoted (sr_name rule) @ '' denied '' @ action_as_str (ar_action rq)
     @ '' on service '' @ quoted (ar_service rq)"

text \<open>\<open>LocalPdp::evaluate\<close>: the first matching rule with a known effect decides.\<close>

fun evaluate :: "security_rule list \<Rightarrow> access_request \<Rightarrow> security_decision" where
  "evaluate [] rq = Allow obligations_default"
| "evaluate (rule # rules) rq =
     (if sr_columns rule \<noteq> [] then evaluate rules rq
      else if \<not> rule_matches rule rq then evaluate rules rq
      else if to_ascii_lowercase (sr_effect rule) = ''deny''
        then Deny (sr_name rule) (deny_message rule rq)
      else if to_ascii_lowercase (sr_effect rule) = ''allow'' then Allow obligations_default
      else evaluate rules rq)"

section \<open>Table names from SQL text\<close>

definition ident_char :: "char \<Rightarrow> bool" where
  "ident_char c \<longleftrightarrow> is_ascii_alphanumeric c \<or> c = CHR ''_'' \<or> c = CHR ''$''"

definition reserved_idents :: "str list" where
  "reserved_idents =
     [''SELECT'', ''WHERE'', ''SET'', ''VALUES'', ''ON'', ''AS'', ''LEFT'', ''RIGHT'', ''INNER'',
      ''OUTER'', ''CROSS'', ''ONLY'']"

definition next_sql_ident :: "str \<Rightarrow> str option" where
  "next_sql_ident input =
     (case trim_start input of
        [] \<Rightarrow> None
      | c # r \<Rightarrow>
          let out = (if c = bquote \<or> c = dquote \<or> c = squote then Some (takeWhile (\<lambda>x. x \<noteq> c) r)
                     else if ident_char c then Some (c # takeWhile (\<lambda>x. ident_char x \<or> x = dot) r)
                     else None)
          in case out of
               None \<Rightarrow> None
             | Some w \<Rightarrow>
                 let name = trim_matches dot (trim w)
                 in if name = [] \<or> to_ascii_uppercase name \<in> set reserved_idents then None
                    else Some name)"

text \<open>The identifiers after each occurrence of a keyword; \<open>start\<close> moves past the occurrence.\<close>

function keyword_idents :: "str \<Rightarrow> str \<Rightarrow> str list" where
  "keyword_idents key sql =
     (case find_sub key (to_ascii_uppercase sql) of
        None \<Rightarrow> []
      | Some rel \<Rightarrow>
          if key = [] then []
          else (case next_sql_ident (drop (rel + length key) sql) of None \<Rightarrow> [] | Some n \<Rightarrow> [n])
               @ keyword_idents key (drop (rel + length key) sql))"
  by pat_completeness auto
termination
proof (relation "measure (\<lambda>(key, sql). length sql)", goal_cases)
  case (2 key sql rel)
  then obtain a b where "to_ascii_uppercase sql = a @ key @ b" "length a = rel"
    using find_sub_Some by blast
  then have "length sql = rel + length key + length b"
    by (metis length_append length_to_ascii_uppercase add.assoc)
  with 2 show ?case by simp
qed simp

declare keyword_idents.simps [simp del]

definition table_keywords :: "str list" where
  "table_keywords =
     ['' FROM '', '' JOIN '', '' INTO '', '' UPDATE '', '' TABLE '',
      CHR 0x0A # ''FROM '', CHR 0x0A # ''JOIN '', CHR 0x0A # ''INTO '', CHR 0x0A # ''UPDATE '',
      CHR 0x0A # ''TABLE '']"

definition table_prefixes :: "str list" where
  "table_prefixes = [''UPDATE '', ''INSERT INTO '', ''DELETE FROM '', ''TRUNCATE TABLE '', ''TRUNCATE '']"

definition prefix_idents :: "str \<Rightarrow> str list" where
  "prefix_idents trimmed =
     concat (map (\<lambda>p.
         if starts_with p (to_ascii_uppercase trimmed)
         then (case next_sql_ident (drop (length p) trimmed) of None \<Rightarrow> [] | Some n \<Rightarrow> [n])
         else []) table_prefixes)"

definition extract_table_names :: "str \<Rightarrow> str list" where
  "extract_table_names sql =
     foldl push_unique []
       (concat (map (\<lambda>key. keyword_idents key sql) table_keywords) @ prefix_idents (trim_start sql))"

section \<open>Row filters and masks\<close>

text \<open>
  Whether the table list of a time rule, a high-risk rule or a row-filter rule hits: through the
  object set when there is one, through the table names otherwise.
\<close>

definition tables_hit :: "str list \<Rightarrow> object_set option \<Rightarrow> str list \<Rightarrow> bool" where
  "tables_hit patterns objects tables =
     (case objects of
        Some os \<Rightarrow>
          (\<exists>obj \<in> set (os_objects os). \<exists>p \<in> set patterns.
             table_glob_match p (qualified_table obj) \<or> table_glob_match p (oa_table obj))
      | None \<Rightarrow> (\<exists>t \<in> set tables. \<exists>p \<in> set patterns. table_glob_match p t))"

definition filter_rule_applies ::
  "subject \<Rightarrow> statement_action \<Rightarrow> object_set option \<Rightarrow> str list \<Rightarrow> security_rule \<Rightarrow> bool" where
  "filter_rule_applies subject action objects tables rule \<longleftrightarrow>
     (case sr_row_filter rule of None \<Rightarrow> False | Some f \<Rightarrow> trim f \<noteq> []) \<and>
     \<not> (sr_columns rule \<noteq> [] \<and> eq_ignore_ascii_case (sr_effect rule) ''deny'') \<and>
     subject_matches rule subject \<and> action_matches rule action \<and>
     (sr_tables rule \<noteq> [] \<longrightarrow> tables_hit (sr_tables rule) objects tables)"

definition add_filter :: "str list \<Rightarrow> str \<Rightarrow> str list" where
  "add_filter filters f = (if f \<in> set filters then filters else filters @ [f])"

definition collect_row_filter ::
  "security_rule list \<Rightarrow> subject \<Rightarrow> statement_action \<Rightarrow> object_set option \<Rightarrow> str list \<Rightarrow> str option" where
  "collect_row_filter rules subject action objects tables =
     (let filters = foldl add_filter []
            (map (\<lambda>r. the (sr_row_filter r))
               (filter (filter_rule_applies subject action objects tables) rules))
      in case filters of
           [] \<Rightarrow> None
         | [f] \<Rightarrow> Some f
         | _ \<Rightarrow> Some (join '' AND '' (map (\<lambda>f. ''('' @ f @ '')'') filters)))"

definition tag_bare :: "column_tag \<Rightarrow> str" where
  "tag_bare tag = to_ascii_lowercase (rsplit_next dot (ct_column tag))"

definition first_table :: "str list \<Rightarrow> str" where
  "first_table tables = (case tables of [] \<Rightarrow> [] | t # _ \<Rightarrow> t)"

definition candidate_columns ::
  "column_tag list \<Rightarrow> object_set option \<Rightarrow> str list \<Rightarrow> str list \<Rightarrow> (str \<times> str) list" where
  "candidate_columns tags objects tables columns =
     (case objects of
        Some os \<Rightarrow>
          (let pairs = concat (map (\<lambda>obj.
                 map (Pair (oa_table obj)) (bare_columns obj)
                 @ (if oa_has_wildcard obj then map (\<lambda>tag. (oa_table obj, tag_bare tag)) tags else []))
                 (os_objects os))
           in if pairs = [] then map (\<lambda>tag. (first_table tables, tag_bare tag)) tags else pairs)
      | None \<Rightarrow> map (\<lambda>c. (first_table tables, to_ascii_lowercase c)) columns)"

definition masks_by_rule :: "mask_rule list \<Rightarrow> (str \<times> mask_rule) list" where
  "masks_by_rule masks = foldl (\<lambda>m r. al_insert (to_ascii_lowercase (mr_name r)) r m) [] masks"

definition tag_applies :: "subject \<Rightarrow> str \<Rightarrow> str \<Rightarrow> column_tag \<Rightarrow> bool" where
  "tag_applies subject table col tag \<longleftrightarrow>
     \<not> (ct_subjects tag \<noteq> [] \<and> \<not> glob_any (ct_subjects tag) (subject_id subject)) \<and>
     \<not> (ct_tables tag \<noteq> [] \<and> \<not> (\<exists>p \<in> set (ct_tables tag). table_glob_match p table \<or> table = [])) \<and>
     column_tag_matches tag col table"

definition mask_spec_of :: "str \<Rightarrow> column_tag \<Rightarrow> mask_rule \<Rightarrow> mask_algorithm \<Rightarrow> mask_spec" where
  "mask_spec_of col tag cfg algo =
     (let spec = mask_spec_new col algo (ct_mask_rule tag)
      in spec\<lparr>ms_replace_with := (if mr_replace_with cfg = [] then ms_replace_with spec
                                  else mr_replace_with cfg),
              ms_prefix_len := mr_prefix_len cfg, ms_suffix_len := mr_suffix_len cfg\<rparr>)"

definition mask_step ::
  "mask_rule list \<Rightarrow> subject \<Rightarrow> str \<Rightarrow> str \<Rightarrow> mask_spec list \<Rightarrow> column_tag \<Rightarrow> mask_spec list" where
  "mask_step masks subject table col out tag =
     (if \<not> tag_applies subject table col tag then out
      else case map_of (masks_by_rule masks) (to_ascii_lowercase (ct_mask_rule tag)) of
          None \<Rightarrow> out
        | Some cfg \<Rightarrow>
            (case mask_algorithm_parse (mr_algorithm cfg) of
               None \<Rightarrow> out
             | Some algo \<Rightarrow>
                 if \<exists>m \<in> set out. eq_ignore_ascii_case (ms_column m) col then out
                 else out @ [mask_spec_of col tag cfg algo]))"

definition collect_mask_specs ::
  "mask_rule list \<Rightarrow> column_tag list \<Rightarrow> subject \<Rightarrow> object_set option \<Rightarrow> str list \<Rightarrow> str list
   \<Rightarrow> mask_spec list" where
  "collect_mask_specs masks tags subject objects tables columns =
     (if tags = [] \<or> masks = [] then []
      else foldl (\<lambda>out (table, col). foldl (mask_step masks subject table col) out tags)
             [] (candidate_columns tags objects tables columns))"

definition collect_bare_columns :: "object_set \<Rightarrow> str list" where
  "collect_bare_columns os =
     foldl (\<lambda>out c. if c \<in> set out then out else out @ [c]) []
       (concat (map bare_columns (os_objects os)))"

section \<open>Statement classes and dialects\<close>

text \<open>
  What the decision point relies on from the \<open>DialectParser\<close> of a service: a statement that the
  router may send to a read-only replica is classified, and its leading keyword is a read.
\<close>

locale dialect_parser =
  fixes leading :: "str \<Rightarrow> str option"
    and read_only :: "str \<Rightarrow> bool"
  assumes read_only_keyword: "read_only sql \<Longrightarrow> \<exists>k. leading sql = Some k \<and> from_keyword k = ASelect"
begin

definition statement_class :: "str \<Rightarrow> statement_action" where
  "statement_class sql = (case leading sql of None \<Rightarrow> AOther | Some k \<Rightarrow> from_keyword k)"

lemma read_only_class: "read_only sql \<Longrightarrow> statement_class sql = ASelect"
  using read_only_keyword [of sql] by (auto simp: statement_class_def)

lemma read_only_not_written:
  assumes "read_only sql" and "\<forall>a \<in> set actions. to_ascii_lowercase a \<in> {''write'', ''dml'', ''ddl''}"
    and "actions \<noteq> []"
  shows "\<not> action_matches_actions actions (statement_class sql)"
  using assms read_only_class [OF assms(1)]
  by (auto simp: action_matches_actions_def action_token_matches_def action_as_str_def)

end

lemma read_keywords_select:
  "k \<in> set mysql_read_keywords \<union> set postgresql_read_keywords \<Longrightarrow> from_keyword k = ASelect"
proof -
  have "list_all (\<lambda>k. from_keyword k = ASelect) (mysql_read_keywords @ postgresql_read_keywords)"
    by code_simp
  then show "k \<in> set mysql_read_keywords \<union> set postgresql_read_keywords \<Longrightarrow> from_keyword k = ASelect"
    by (auto simp: list_all_iff)
qed

interpretation heuristic: dialect_parser leading_keyword "heuristic_is_read_only d"
  for d :: protocol_kind
  by unfold_locales (metis read_only_leading_keyword read_keywords_select)

section \<open>The first deciding rule\<close>

definition rule_decides :: "access_request \<Rightarrow> security_rule \<Rightarrow> bool" where
  "rule_decides rq rule \<longleftrightarrow>
     sr_columns rule = [] \<and> rule_matches rule rq \<and>
     to_ascii_lowercase (sr_effect rule) \<in> {''deny'', ''allow''}"

lemma evaluate_first_match:
  "evaluate rules rq =
     (case find (rule_decides rq) rules of
        None \<Rightarrow> Allow obligations_default
      | Some rule \<Rightarrow>
          if to_ascii_lowercase (sr_effect rule) = ''deny''
          then Deny (sr_name rule) (deny_message rule rq) else Allow obligations_default)"
  by (induction rules) (auto simp: rule_decides_def)

lemma evaluate_cases:
  "evaluate rules rq = Allow obligations_default \<or>
   (\<exists>rule \<in> set rules. evaluate rules rq = Deny (sr_name rule) (deny_message rule rq))"
  by (induction rules) auto

lemma evaluate_deny_iff:
  "is_deny (evaluate rules rq) \<longleftrightarrow>
     (\<exists>rule. find (rule_decides rq) rules = Some rule \<and> to_ascii_lowercase (sr_effect rule) = ''deny'')"
  unfolding evaluate_first_match by (simp split: option.split)

section \<open>Coverage of masks and row filters\<close>

lemma mask_step_keeps: "set out \<subseteq> set (mask_step masks subject table col out tag)"
  by (auto simp: mask_step_def split: option.splits)

lemma foldl_grows:
  assumes "\<And>out x. set out \<subseteq> set (g out x)"
  shows "set out \<subseteq> set (foldl g out xs)"
proof (induction xs arbitrary: out)
  case (Cons x xs)
  have "set out \<subseteq> set (g out x)" by (rule assms)
  also have "\<dots> \<subseteq> set (foldl g (g out x) xs)" by (rule Cons.IH)
  finally show ?case by simp
qed simp

text \<open>A step that establishes a fact about an element of the result is never undone.\<close>

lemma foldl_reaches:
  assumes keep: "\<And>out x. set out \<subseteq> set (g out x)"
    and step: "\<And>out. \<exists>m \<in> set (g out x). P m" and "x \<in> set xs"
  shows "\<exists>m \<in> set (foldl g out xs). P m"
  using \<open>x \<in> set xs\<close>
proof (induction xs arbitrary: out)
  case (Cons y ys)
  show ?case
  proof (cases "x = y")
    case True
    with step [of out] foldl_grows [of g "g out y" ys, OF keep] show ?thesis by auto
  next
    case False
    with Cons show ?thesis by simp
  qed
qed simp

text \<open>A tag whose mask rule exists and names a known algorithm.\<close>

definition tag_resolves :: "mask_rule list \<Rightarrow> column_tag \<Rightarrow> bool" where
  "tag_resolves masks tag \<longleftrightarrow>
     (\<exists>cfg algo. map_of (masks_by_rule masks) (to_ascii_lowercase (ct_mask_rule tag)) = Some cfg \<and>
        mask_algorithm_parse (mr_algorithm cfg) = Some algo)"

lemma map_of_masks_by_rule:
  "map_of (masks_by_rule masks) n = find (\<lambda>m. to_ascii_lowercase (mr_name m) = n) (rev masks)"
  unfolding masks_by_rule_def
  by (subst map_of_foldl_al_insert [where g = "\<lambda>m. to_ascii_lowercase (mr_name m)"])
    (simp split: option.split)

lemma validated_tag_resolves:
  assumes "validate cf loc cfg = Inr ()" and "tag \<in> set (cfg_column_tags cfg)"
  shows "tag_resolves (cfg_mask_rules cfg) tag"
proof -
  let ?n = "to_ascii_lowercase (ct_mask_rule tag)" and ?ms = "cfg_mask_rules cfg"
  obtain m where "m \<in> set ?ms" "to_ascii_lowercase (mr_name m) = ?n"
    using validated_tag_rule [OF assms] by (auto simp: eq_ignore_ascii_case_def)
  then have "find (\<lambda>m. to_ascii_lowercase (mr_name m) = ?n) (rev ?ms) \<noteq> None"
    by (auto simp: find_None_iff)
  then obtain c where c: "find (\<lambda>m. to_ascii_lowercase (mr_name m) = ?n) (rev ?ms) = Some c" by blast
  then have "c \<in> set ?ms" by (auto simp: find_Some_iff rev_nth)
  then obtain algo where "mask_algorithm_parse (mr_algorithm c) = Some algo"
    using validated_mask_algorithm [OF assms(1)] by blast
  with c show ?thesis by (auto simp: tag_resolves_def map_of_masks_by_rule)
qed

lemma mask_step_covers:
  assumes "tag_applies subject table col tag" and "tag_resolves masks tag"
  shows "\<exists>m \<in> set (mask_step masks subject table col out tag). eq_ignore_ascii_case (ms_column m) col"
  using assms
  by (auto simp: mask_step_def tag_resolves_def mask_spec_of_def mask_spec_new_def Let_def)

lemma collect_mask_specs_covers:
  assumes "(table, col) \<in> set (candidate_columns tags objects tables columns)"
    and "tag \<in> set tags" and "tag_applies subject table col tag" and "tag_resolves masks tag"
  shows "\<exists>m \<in> set (collect_mask_specs masks tags subject objects tables columns).
           eq_ignore_ascii_case (ms_column m) col"
proof -
  have "masks \<noteq> []" using assms(4) by (auto simp: tag_resolves_def masks_by_rule_def)
  let ?g = "\<lambda>out (table, col). foldl (mask_step masks subject table col) out tags"
  have keep: "set out \<subseteq> set (?g out p)" for out p
    by (cases p) (simp add: foldl_grows mask_step_keeps)
  have "\<exists>m \<in> set (?g out (table, col)). eq_ignore_ascii_case (ms_column m) col" for out
    using foldl_reaches [of "mask_step masks subject table col" tag
        "\<lambda>m. eq_ignore_ascii_case (ms_column m) col" tags out]
      mask_step_keeps mask_step_covers [OF assms(3,4)] assms(2) by simp
  from foldl_reaches [of ?g, OF keep this assms(1), of "[]"] show ?thesis
    using assms(2) \<open>masks \<noteq> []\<close> by (auto simp: collect_mask_specs_def)
qed

lemma mask_step_distinct:
  assumes "distinct (map (\<lambda>m. to_ascii_lowercase (ms_column m)) out)"
  shows "distinct (map (\<lambda>m. to_ascii_lowercase (ms_column m)) (mask_step masks subject table col out tag))"
  using assms
  by (auto simp: mask_step_def mask_spec_of_def mask_spec_new_def Let_def eq_ignore_ascii_case_def
      split: option.split)

lemma foldl_invariant:
  "P out \<Longrightarrow> (\<And>out x. P out \<Longrightarrow> P (g out x)) \<Longrightarrow> P (foldl g out xs)"
  by (induction xs arbitrary: out) auto

lemma collect_mask_specs_distinct:
  "distinct (map (\<lambda>m. to_ascii_lowercase (ms_column m))
     (collect_mask_specs masks tags subject objects tables columns))"
  unfolding collect_mask_specs_def
  by (auto intro!: foldl_invariant [where P = "\<lambda>ms. distinct (map (\<lambda>m. to_ascii_lowercase (ms_column m)) ms)"]
      mask_step_distinct simp del: distinct_map split: prod.split)

lemma add_filter_set: "set (foldl add_filter out fs) = set out \<union> set fs"
  by (induction fs arbitrary: out) (auto simp: add_filter_def)

lemma add_filter_distinct: "distinct out \<Longrightarrow> distinct (foldl add_filter out fs)"
  by (induction fs arbitrary: out) (auto simp: add_filter_def)

text \<open>The conjunction that is injected: one filter alone, or each in parentheses.\<close>

definition conjoin :: "str list \<Rightarrow> str" where
  "conjoin fs = (case fs of [f] \<Rightarrow> f | _ \<Rightarrow> join '' AND '' (map (\<lambda>f. ''('' @ f @ '')'') fs))"

lemma collect_row_filter_spec:
  "\<exists>fs. distinct fs \<and>
     set fs = {f. \<exists>rule \<in> set rules. filter_rule_applies subject action objects tables rule \<and>
                   sr_row_filter rule = Some f} \<and>
     collect_row_filter rules subject action objects tables = (if fs = [] then None else Some (conjoin fs))"
proof -
  let ?fs = "foldl add_filter []
    (map (\<lambda>r. the (sr_row_filter r)) (filter (filter_rule_applies subject action objects tables) rules))"
  have some: "\<exists>f. sr_row_filter r = Some f" if "filter_rule_applies subject action objects tables r" for r
    using that by (simp add: filter_rule_applies_def split: option.splits)
  have "set ?fs = {f. \<exists>rule \<in> set rules. filter_rule_applies subject action objects tables rule \<and>
                   sr_row_filter rule = Some f}"
    using some unfolding add_filter_set by (auto simp: image_iff) (metis option.sel)+
  moreover have "distinct ?fs" by (simp add: add_filter_distinct)
  moreover have "collect_row_filter rules subject action objects tables =
      (if ?fs = [] then None else Some (conjoin ?fs))"
    by (simp add: collect_row_filter_def conjoin_def Let_def split: list.split)
  ultimately show ?thesis by blast
qed

text \<open>
  A statement that the dialect helper would route to a read replica is classified as
  \<open>SELECT\<close>, and no rule written for \<open>write\<close>, \<open>dml\<close> or \<open>ddl\<close> actions covers it.
\<close>

lemma read_only_is_select:
  assumes "heuristic_is_read_only dialect sql"
  shows "(\<exists>k. leading_keyword sql = Some k \<and> from_keyword k = ASelect) \<and>
    (actions \<noteq> [] \<and> (\<forall>a \<in> set actions. to_ascii_lowercase a \<in> {''write'', ''dml'', ''ddl''}) \<longrightarrow>
       \<not> action_matches_actions actions ASelect)"
  using heuristic.read_only_keyword [OF assms] heuristic.read_only_not_written [OF assms, of actions]
    heuristic.read_only_class [OF assms] by auto

end
