(* ===== verification/Select_Rewrite.thy ===== *)
theory Select_Rewrite
  imports Policy
begin

text \<open>
  Column access control of \<open>gateway/core/src/pdp.rs\<close>: the rewriting that strips denied columns
  from \<open>SELECT\<close> lists (\<open>rewrite_select_strip_columns\<close> and its helpers) and
  \<open>evaluate_column_acl\<close>.  String slices that the source takes at a computed byte offset can
  panic; they return \<open>Panic\<close> here.
\<close>

section \<open>One select list\<close>

definition select_item_expr :: "str \<Rightarrow> str" where
  "select_item_expr item =
     (case find_top_level_keyword item ''AS'' of
        Some idx \<Rightarrow> trim (take idx item)
      | None \<Rightarrow>
          (case split_whitespace item of
             t0 # t1 # _ \<Rightarrow> if \<not> contains ''('' t0 then t0 else trim item
           | _ \<Rightarrow> trim item))"

definition select_item_bare_name :: "str \<Rightarrow> str" where
  "select_item_bare_name item =
     to_ascii_lowercase
       (trim_matches squote (trim_matches dquote (trim_matches bquote
         (rsplit_next dot (select_item_expr item)))))"

type_synonym denied_list = "(str \<times> str) list"

definition item_denied :: "denied_list \<Rightarrow> str \<Rightarrow> bool" where
  "item_denied denied part \<longleftrightarrow>
     select_item_bare_name part \<in> set (map (\<lambda>d. to_ascii_lowercase (snd d)) denied)"

definition has_distinct :: "str \<Rightarrow> bool" where
  "has_distinct after_select \<longleftrightarrow> starts_with ''DISTINCT'' (to_ascii_uppercase after_select)"

definition rewrite_one_select_list :: "str \<Rightarrow> denied_list \<Rightarrow> str option" where
  "rewrite_one_select_list sql denied =
     (if denied = [] then Some sql
      else let trimmed = trim_start sql
      in if \<not> starts_with ''SELECT'' (to_ascii_uppercase trimmed) then None
      else let after0 = trim_start (drop 6 trimmed);
               after_select = (if has_distinct after0 then trim_start (drop 8 after0) else after0)
      in case find_top_level_keyword after_select ''FROM'' of
           None \<Rightarrow> None
         | Some from_idx \<Rightarrow>
             let select_list = trim (take from_idx after_select);
                 rest = drop from_idx after_select;
                 parts = split_select_list select_list;
                 kept = filter (\<lambda>part. \<not> item_denied denied part) parts
             in if select_list = ''*'' \<or> ends_with ''.*'' select_list then None
                else if parts = [] then None
                else if kept = [] then Some (''SELECT '' @ rest)
                else Some (take (length sql - length trimmed) sql @ ''SELECT ''
                       @ (if has_distinct after0 then ''DISTINCT '' else [])
                       @ join '', '' kept @ '' '' @ trim_start rest))"

section \<open>Rewriting only removes text\<close>

text \<open>
  \<open>rewrite_nested_select_lists\<close> recurses on rewritten text.  It terminates because rewriting a
  list never adds an opening parenthesis: what is kept is a subsequence of what was there.
\<close>

lemma subseq_count_le: "subseq a b \<Longrightarrow> count_list a c \<le> count_list b c"
  by (induction rule: list_emb.induct) auto

lemma subseq_set_le: "subseq a b \<Longrightarrow> set a \<subseteq> set b"
  by (induction rule: list_emb.induct) auto

lemma subseq_take: "subseq (take n s) s"
  by (metis append_take_drop_id list_emb_append_mono subseq_order.refl list_emb_Nil append_Nil2)

lemma subseq_drop: "subseq (drop n s) s"
  by (metis append_take_drop_id list_emb_append2 subseq_order.refl)

lemma subseq_trim_start: "subseq (trim_start s) s"
  by (metis trim_start_suffix list_emb_append2 subseq_order.refl)

lemma subseq_trim_rev: "subseq (trim_rev s) s"
proof (induction s rule: trim_rev.induct)
  case (1 s)
  then show ?case
    by (subst trim_rev.simps) (auto intro: subseq_order.trans [OF _ subseq_drop])
qed

lemma subseq_revI: "subseq a b \<Longrightarrow> subseq (rev a) (rev b)"
proof (induction rule: list_emb.induct)
  case (list_emb_Cons xs ys y)
  then show ?case using list_emb_append_mono [of "(=)" "rev xs" "rev ys" "[]" "[y]"] by simp
next
  case (list_emb_Cons2 x y xs ys)
  then show ?case using list_emb_append_mono [of "(=)" "rev xs" "rev ys" "[x]" "[y]"] by simp
qed simp

lemma subseq_trim: "subseq (trim s) s"
proof -
  have "subseq (trim_end t) t" for t
    using subseq_revI [OF subseq_trim_rev [of "rev t"]] by (simp add: trim_end_def)
  then show ?thesis unfolding trim_def using subseq_trim_start subseq_order.trans by blast
qed

lemma subseq_concat_filter: "subseq (concat (filter P xs)) (concat xs)"
  by (induction xs) (auto intro: list_emb_append_mono list_emb_append2)

lemma subseq_concat_parts: "subseq (concat (concat (map push_part xs))) (concat xs)"
proof (induction xs)
  case (Cons x xs)
  have "subseq (concat (push_part x)) x" by (simp add: push_part_def subseq_trim)
  with Cons show ?case by (simp add: list_emb_append_mono)
qed simp

lemma subseq_concat_join: "subseq (concat xs) (join sep xs)"
proof (induction sep xs rule: join.induct)
  case (3 sep x y xs)
  then have "subseq (x @ concat (y # xs)) (x @ sep @ join sep (y # xs))"
    by (intro list_emb_append_mono list_emb_append2) simp_all
  then show ?case by simp
qed simp_all

lemma subseq_split_select_list: "subseq (concat (filter P (split_select_list l))) l"
proof -
  let ?segs = "segments (NoQuote, 0) [] l"
  have "subseq (concat (filter P (split_select_list l))) (concat (split_select_list l))"
    by (rule subseq_concat_filter)
  also have "subseq \<dots> (concat ?segs)"
    unfolding split_select_list_def ssl_loop_segments by (rule subseq_concat_parts)
  also have "subseq \<dots> (join [comma] ?segs)" by (rule subseq_concat_join)
  also have "\<dots> = l" by (simp add: join_segments)
  finally show ?thesis .
qed

lemma count_join: "c \<notin> set sep \<Longrightarrow> count_list (join sep xs) c = count_list (concat xs) c"
  by (induction sep xs rule: join.induct) (simp_all add: count_notin)

lemma set_join: "set (join sep xs) \<subseteq> set sep \<union> set (concat xs)"
  by (induction sep xs rule: join.induct) auto

text \<open>The shape of a rewritten statement.\<close>

lemma rewrite_one_shape:
  assumes "rewrite_one_select_list sql denied = Some out" and "denied \<noteq> []"
  obtains lead body l rest ds where "sql = lead @ body" and "subseq (l @ rest) body"
    and "scan_to (NoQuote, 0) l = (NoQuote, 0)"
    and "ds = [] \<or> ds = ''DISTINCT ''"
    and "let kept = filter (\<lambda>p. \<not> item_denied denied p) (split_select_list (trim l))
         in out = (if kept = [] then ''SELECT '' @ rest
                   else lead @ ''SELECT '' @ ds @ join '', '' kept @ '' '' @ trim_start rest)"
proof -
  let ?t = "trim_start sql"
  let ?body = "trim_start (drop 6 ?t)"
  let ?a = "if has_distinct ?body then trim_start (drop 8 ?body) else ?body"
  obtain i where i: "find_top_level_keyword ?a ''FROM'' = Some i"
    using assms by (auto simp: rewrite_one_select_list_def Let_def split: if_splits option.splits)
  have "sql = take (length sql - length ?t) sql @ ?t"
    by (metis trim_start_suffix append_eq_conv_conj diff_diff_cancel length_append
        diff_add_inverse2)
  moreover have "subseq (take i ?a @ drop i ?a) ?t"
  proof -
    have td: "subseq (trim_start (drop n s)) s" for n s
      by (rule subseq_order.trans [OF subseq_trim_start subseq_drop])
    have "subseq ?a ?body" using td by (simp split: if_split)
    then have "subseq ?a ?t" by (rule subseq_order.trans [OF _ td])
    then show ?thesis by (simp only: append_take_drop_id)
  qed
  moreover have "scan_to (NoQuote, 0) (take i ?a) = (NoQuote, 0)"
    using find_top_level_keyword_Some(1) [OF i] scan_to_upper [of "(NoQuote, 0)" "take i ?a"]
    by (simp add: hit_from_def to_ascii_uppercase_def take_map)
  moreover have "let kept = filter (\<lambda>p. \<not> item_denied denied p) (split_select_list (trim (take i ?a)))
         in out = (if kept = [] then ''SELECT '' @ drop i ?a
                   else take (length sql - length ?t) sql @ ''SELECT ''
                     @ (if has_distinct ?body then ''DISTINCT '' else []) @ join '', '' kept @ '' ''
                     @ trim_start (drop i ?a))"
    using assms i unfolding rewrite_one_select_list_def Let_def by (simp split: if_splits)
  ultimately show thesis using that [of "take (length sql - length ?t) sql" ?t "take i ?a" "drop i ?a"
      "if has_distinct ?body then ''DISTINCT '' else []"] by auto
qed

lemma rewrite_one_count:
  assumes "rewrite_one_select_list sql denied = Some out"
  shows "count_list out lparen \<le> count_list sql lparen"
proof (cases "denied = []")
  case True
  with assms show ?thesis by (simp add: rewrite_one_select_list_def)
next
  case False
  from assms False show ?thesis
  proof (rule rewrite_one_shape)
    fix lead body l rest ds
    assume sql: "sql = lead @ body" and sub: "subseq (l @ rest) body"
      and "scan_to (NoQuote, 0) l = (NoQuote, 0)" and ds: "ds = [] \<or> ds = ''DISTINCT ''"
      and out: "let kept = filter (\<lambda>p. \<not> item_denied denied p) (split_select_list (trim l))
         in out = (if kept = [] then ''SELECT '' @ rest
                   else lead @ ''SELECT '' @ ds @ join '', '' kept @ '' '' @ trim_start rest)"
    let ?kept = "filter (\<lambda>p. \<not> item_denied denied p) (split_select_list (trim l))"
    have "count_list (l @ rest) lparen \<le> count_list body lparen" by (rule subseq_count_le [OF sub])
    moreover have "count_list (concat ?kept) lparen \<le> count_list l lparen"
      by (rule subseq_count_le, rule subseq_order.trans [OF subseq_split_select_list subseq_trim])
    moreover have "count_list (join '', '' ?kept) lparen = count_list (concat ?kept) lparen"
      by (rule count_join) simp
    moreover have "count_list (trim_start rest) lparen \<le> count_list rest lparen"
      by (rule subseq_count_le [OF subseq_trim_start])
    moreover have "count_list ds lparen = 0" using ds by auto
    ultimately show ?thesis using out sql by (auto simp: Let_def split: if_splits)
  qed
qed

lemma rewrite_one_ascii:
  assumes "rewrite_one_select_list sql denied = Some out" and "is_ascii_str sql"
  shows "is_ascii_str out"
proof (cases "denied = []")
  case True
  with assms show ?thesis by (simp add: rewrite_one_select_list_def)
next
  case False
  from assms(1) False show ?thesis
  proof (rule rewrite_one_shape)
    fix lead body l rest ds
    assume sql: "sql = lead @ body" and sub: "subseq (l @ rest) body"
      and "scan_to (NoQuote, 0) l = (NoQuote, 0)" and ds: "ds = [] \<or> ds = ''DISTINCT ''"
      and out: "let kept = filter (\<lambda>p. \<not> item_denied denied p) (split_select_list (trim l))
         in out = (if kept = [] then ''SELECT '' @ rest
                   else lead @ ''SELECT '' @ ds @ join '', '' kept @ '' '' @ trim_start rest)"
    let ?kept = "filter (\<lambda>p. \<not> item_denied denied p) (split_select_list (trim l))"
    have ascii_sub: "is_ascii_str a" if "set a \<subseteq> set sql" for a
      using assms(2) that by (auto simp: is_ascii_str_def list_all_iff)
    have "set (l @ rest) \<subseteq> set sql" using subseq_set_le [OF sub] sql by auto
    moreover have "set (concat ?kept) \<subseteq> set l"
      by (rule subseq_set_le, rule subseq_order.trans [OF subseq_split_select_list subseq_trim])
    moreover have "set (trim_start rest) \<subseteq> set rest" by (rule subseq_set_le [OF subseq_trim_start])
    ultimately have "is_ascii_str (concat ?kept)" "is_ascii_str rest" "is_ascii_str (trim_start rest)"
        "is_ascii_str lead"
      using sql by (auto intro!: ascii_sub simp del: set_concat set_filter) 
    moreover have "is_ascii_str (join '', '' ?kept)"
      using set_join [of "'', ''" ?kept] \<open>is_ascii_str (concat ?kept)\<close>
      by (auto simp: is_ascii_str_def list_all_iff simp del: set_concat)
    ultimately show ?thesis
      using out ds by (auto simp: Let_def is_ascii_str_def split: if_splits)
  qed
qed

section \<open>Nested select lists\<close>

text \<open>
  \<open>out.push(c as char)\<close> for a byte \<open>c\<close>: a byte from 128 on is pushed as the character with
  that code point, which is two bytes of UTF-8.
\<close>

definition push_byte :: "char \<Rightarrow> str" where
  "push_byte c =
     (if byte c < 128 then [c] else [char_of (192 + byte c div 64), char_of (128 + byte c mod 64)])"

definition nested_select :: "str \<Rightarrow> nat option run" where
  "nested_select after =
     (let trimmed = trim_start after
      in if length trimmed < 6 then Done None
         else run_bind (slice_to trimmed 6) (\<lambda>head.
           Done (if eq_ignore_ascii_case head ''SELECT'' then find_matching_paren after else None)))"

definition rewrite_inner :: "denied_list \<Rightarrow> str \<Rightarrow> str" where
  "rewrite_inner denied inner =
     (case rewrite_one_select_list inner denied of Some s \<Rightarrow> s | None \<Rightarrow> inner)"

function rewrite_nested :: "denied_list \<Rightarrow> quote_state \<Rightarrow> str \<Rightarrow> str run" where
  "rewrite_nested denied q [] = Done []"
| "rewrite_nested denied q (c # after) =
     (if q \<noteq> NoQuote \<or> c \<noteq> lparen
      then run_bind (rewrite_nested denied (fst (scan_step (q, 0) c)) after)
             (\<lambda>out. Done (push_byte c @ out))
      else case nested_select after of
          Panic \<Rightarrow> Panic
        | Done None \<Rightarrow>
            run_bind (rewrite_nested denied NoQuote after) (\<lambda>out. Done (lparen # out))
        | Done (Some close_rel) \<Rightarrow>
            run_bind (rewrite_nested denied NoQuote (rewrite_inner denied (take close_rel after)))
              (\<lambda>inner.
                run_bind (rewrite_nested denied NoQuote (drop (close_rel + 1) after)) (\<lambda>out.
                  Done (lparen # take (length after - length (trim_start after)) after
                        @ trim_start inner @ rparen # out))))"
  by pat_completeness auto
termination
proof (relation "measures [\<lambda>(d, q, s). count_list s lparen, \<lambda>(d, q, s). length s]", goal_cases)
  case (4 denied q c after r close_rel)
  have "count_list (rewrite_inner denied (take close_rel after)) lparen \<le> count_list after lparen"
    unfolding rewrite_inner_def
    by (auto split: option.split intro: le_trans [OF rewrite_one_count] subseq_count_le [OF subseq_take])
  with 4 show ?case by simp
next
  case (5 denied q c after r close_rel inner)
  have "count_list (drop (close_rel + 1) after) lparen \<le> count_list after lparen"
    by (rule subseq_count_le [OF subseq_drop])
  with 5 show ?case by simp
qed auto

definition rewrite_nested_select_lists :: "str \<Rightarrow> denied_list \<Rightarrow> str run" where
  "rewrite_nested_select_lists sql denied =
     (if denied = [] then Done sql else rewrite_nested denied NoQuote sql)"

definition rewrite_select_strip_columns :: "str \<Rightarrow> denied_list \<Rightarrow> str option run" where
  "rewrite_select_strip_columns sql denied =
     (if denied = [] then Done (Some sql)
      else case rewrite_one_select_list sql denied of
          None \<Rightarrow> Done None
        | Some outer \<Rightarrow>
            run_bind (rewrite_nested_select_lists outer denied) (\<lambda>s. Done (Some s)))"

section \<open>The column rules\<close>

datatype column_acl_outcome =
    AclUnchanged
  | AclRewrite str
  | AclDeny str str

lemma acl_case_eq_iff:
  "(case a of AclUnchanged \<Rightarrow> f | AclRewrite s \<Rightarrow> g s | AclDeny r m \<Rightarrow> h r m) = y \<longleftrightarrow>
     (a = AclUnchanged \<and> f = y) \<or> (\<exists>s. a = AclRewrite s \<and> g s = y) \<or>
     (\<exists>r m. a = AclDeny r m \<and> h r m = y)"
  by (cases a) auto

text \<open>The scan of one rule over the objects: a wildcard denial ends it, else columns are added.\<close>

fun acl_objects ::
  "star_policy \<Rightarrow> security_rule \<Rightarrow> object_access list \<Rightarrow> denied_list \<Rightarrow> (str \<times> str) + denied_list"
where
  "acl_objects sp rule [] denied = Inr denied"
| "acl_objects sp rule (obj # objs) denied =
     (if \<not> table_matches_rule rule obj then acl_objects sp rule objs denied
      else if oa_has_wildcard obj \<and> sp = StarDeny \<and> eq_ignore_ascii_case (sr_effect rule) ''deny''
      then Inl (sr_name rule,
             ''security policy '' @ quoted (sr_name rule) @ '' denies wildcard projection on table ''
             @ quoted (qualified_table obj) @ '' (star_policy=deny); list columns explicitly'')
      else acl_objects sp rule objs
             (denied @ map (Pair (sr_name rule))
                (filter (\<lambda>col. column_matches_rule rule col (oa_table obj)
                            \<and> to_ascii_lowercase (sr_effect rule) = ''deny'') (bare_columns obj))))"

fun acl_rules ::
  "star_policy \<Rightarrow> subject \<Rightarrow> statement_action \<Rightarrow> object_access list \<Rightarrow> security_rule list
   \<Rightarrow> denied_list \<Rightarrow> (str \<times> str) + denied_list" where
  "acl_rules sp subject action objs [] denied = Inr denied"
| "acl_rules sp subject action objs (rule # rules) denied =
     (if sr_columns rule = [] \<or> \<not> subject_matches rule subject \<or> \<not> action_matches rule action
      then acl_rules sp subject action objs rules denied
      else case acl_objects sp rule objs denied of
          Inl e \<Rightarrow> Inl e
        | Inr denied' \<Rightarrow> acl_rules sp subject action objs rules denied')"

definition acl_deny :: "str \<times> str \<Rightarrow> str \<Rightarrow> str \<Rightarrow> str \<Rightarrow> column_acl_outcome" where
  "acl_deny d middle service tail =
     AclDeny (fst d)
       (''security policy '' @ quoted (fst d) @ '' denied column '' @ quoted (snd d) @ middle
        @ '' on service '' @ quoted service @ tail)"

definition evaluate_column_acl ::
  "star_policy \<Rightarrow> security_rule list \<Rightarrow> subject \<Rightarrow> str \<Rightarrow> statement_action \<Rightarrow> object_set \<Rightarrow> str
   \<Rightarrow> column_acl_outcome run" where
  "evaluate_column_acl sp rules subject service action objects sql =
     (case acl_rules sp subject action (os_objects objects) rules [] of
        Inl (rule, message) \<Rightarrow> Done (AclDeny rule message)
      | Inr [] \<Rightarrow> Done AclUnchanged
      | Inr (d # ds) \<Rightarrow>
          if action = ASelect \<and> \<not> set_has_wildcard objects
          then run_bind (rewrite_select_strip_columns sql (d # ds)) (\<lambda>r.
                 Done (case r of
                     Some rewritten \<Rightarrow>
                       if rewritten \<noteq> sql then AclRewrite rewritten
                       else acl_deny d [] service '' (empty projection after strip)''
                   | None \<Rightarrow> acl_deny d [] service '' (rewrite not possible)''))
          else Done (acl_deny d ('' for '' @ action_as_str action) service []))"

section \<open>Properties\<close>

lemma push_byte_ascii: "byte c < 128 \<Longrightarrow> push_byte c = [c]"
  by (simp add: push_byte_def)

lemma is_ascii_Cons: "is_ascii_str (c # s) \<longleftrightarrow> byte c < 128 \<and> is_ascii_str s"
  by (simp add: is_ascii_str_def)

lemma is_ascii_append: "is_ascii_str (a @ b) \<longleftrightarrow> is_ascii_str a \<and> is_ascii_str b"
  by (simp add: is_ascii_str_def)

lemma is_ascii_subseq: "subseq a b \<Longrightarrow> is_ascii_str b \<Longrightarrow> is_ascii_str a"
  using subseq_set_le [of a b] by (auto simp: is_ascii_str_def list_all_iff)

lemma rewrite_inner_ascii: "is_ascii_str s \<Longrightarrow> is_ascii_str (rewrite_inner denied s)"
  by (auto simp: rewrite_inner_def rewrite_one_ascii split: option.split)

lemma nested_select_ascii:
  assumes "is_ascii_str after"
  shows "\<exists>r. nested_select after = Done r"
proof -
  have "is_ascii_str (trim_start after)" by (rule is_ascii_subseq [OF subseq_trim_start assms])
  then have "6 \<le> length (trim_start after) \<Longrightarrow> slice_to (trim_start after) 6 = Done (take 6 (trim_start after))"
    by (simp add: slice_to_def ascii_char_boundary)
  then show ?thesis by (auto simp: nested_select_def Let_def)
qed

lemma rewrite_nested_total: "is_ascii_str s \<Longrightarrow> \<exists>out. rewrite_nested denied q s = Done out"
proof (induction denied q s rule: rewrite_nested.induct)
  case (2 denied q c after)
  then have asc: "is_ascii_str after" by (simp add: is_ascii_Cons)
  show ?case
  proof (cases "q \<noteq> NoQuote \<or> c \<noteq> lparen")
    case True
    with 2 asc show ?thesis by (auto simp del: de_Morgan_conj)
  next
    case False
    obtain r where r: "nested_select after = Done r" using nested_select_ascii [OF asc] by blast
    show ?thesis
    proof (cases r)
      case None
      with 2 False r asc show ?thesis by auto
    next
      case (Some k)
      have "is_ascii_str (rewrite_inner denied (take k after))"
        using asc by (simp add: rewrite_inner_ascii is_ascii_subseq [OF subseq_take])
      moreover have "is_ascii_str (drop (k + 1) after)"
        by (rule is_ascii_subseq [OF subseq_drop asc])
      ultimately show ?thesis using 2 False r Some by auto
    qed
  qed
qed simp

lemma rewrite_nested_ascii:
  "rewrite_nested denied q s = Done out \<Longrightarrow> is_ascii_str s \<Longrightarrow> is_ascii_str out"
proof (induction denied q s arbitrary: out rule: rewrite_nested.induct)
  case (2 denied q c after)
  then have asc: "is_ascii_str after" "byte c < 128" by (simp_all add: is_ascii_Cons)
  have paren: "byte lparen < 128" "byte rparen < 128" by simp_all
  show ?case
  proof (cases "q \<noteq> NoQuote \<or> c \<noteq> lparen")
    case True
    then obtain r where "rewrite_nested denied (fst (scan_step (q, 0) c)) after = Done r"
      and "out = push_byte c @ r"
      using "2.prems" by auto
    with 2 True asc show ?thesis by (simp add: push_byte_ascii is_ascii_Cons)
  next
    case False
    obtain r where r: "nested_select after = Done r" using nested_select_ascii [OF asc(1)] by blast
    show ?thesis
    proof (cases r)
      case None
      with False r "2.prems" obtain o1 where "rewrite_nested denied NoQuote after = Done o1"
        and "out = lparen # o1" by auto
      with 2 False r None asc show ?thesis by (simp add: is_ascii_Cons)
    next
      case (Some k)
      with False r "2.prems" obtain w o1
        where w: "rewrite_nested denied NoQuote (rewrite_inner denied (take k after)) = Done w"
          and o1: "rewrite_nested denied NoQuote (drop (k + 1) after) = Done o1"
          and out: "out = lparen # take (length after - length (trim_start after)) after
                @ trim_start w @ rparen # o1"
        by auto
      have "is_ascii_str w"
        using 2(3) [OF _ r Some w] False asc
        by (simp add: rewrite_inner_ascii is_ascii_subseq [OF subseq_take])
      moreover have "is_ascii_str o1"
        using 2(4) [OF _ r Some o1] False asc by (simp add: is_ascii_subseq [OF subseq_drop])
      moreover have "is_ascii_str (take n after)" for n by (rule is_ascii_subseq [OF subseq_take asc(1)])
      ultimately show ?thesis
        unfolding out using is_ascii_subseq [OF subseq_trim_start]
        by (simp add: is_ascii_Cons is_ascii_append)
    qed
  qed
qed (simp add: is_ascii_str_def)

lemma rewrite_nested_id:
  "is_ascii_str s \<Longrightarrow> lparen \<notin> set s \<Longrightarrow> rewrite_nested denied q s = Done s"
  by (induction s arbitrary: q) (auto simp: is_ascii_Cons push_byte_ascii)

lemma strip_columns_total:
  "is_ascii_str sql \<Longrightarrow> \<exists>r. rewrite_select_strip_columns sql denied = Done r"
  using rewrite_nested_total [of "the (rewrite_one_select_list sql denied)" denied NoQuote]
  by (auto simp: rewrite_select_strip_columns_def rewrite_nested_select_lists_def rewrite_one_ascii
      split: option.split)

lemma column_acl_total:
  assumes "is_ascii_str sql"
  shows "\<exists>r. evaluate_column_acl sp rules subject service action objects sql = Done r"
  using strip_columns_total [OF assms]
  by (auto simp: evaluate_column_acl_def split: sum.split list.split)

lemma column_acl_rewrite_ascii:
  assumes "evaluate_column_acl sp rules subject service action objects sql = Done (AclRewrite w)"
    and "is_ascii_str sql"
  shows "is_ascii_str w"
proof -
  obtain ds where "rewrite_select_strip_columns sql ds = Done (Some w)"
    using assms(1)
    by (auto simp: evaluate_column_acl_def acl_deny_def split: sum.splits list.splits if_splits option.splits)
  then show ?thesis
    using assms(2) rewrite_one_ascii rewrite_nested_ascii
    by (auto simp: rewrite_select_strip_columns_def rewrite_nested_select_lists_def
        split: if_splits option.splits)
qed

text \<open>
  The projection of a rewritten statement, split the way the proxy splits it, is the original
  items without the denied ones.
\<close>

lemma rewrite_one_projection:
  assumes "rewrite_one_select_list sql denied = Some out" and "denied \<noteq> []"
  obtains lead l rest ds items where "subseq (l @ rest) sql"
    and "items = filter (\<lambda>p. \<not> item_denied denied p) (split_select_list (trim l))"
    and "items = [] \<and> out = ''SELECT '' @ rest \<or>
         items \<noteq> [] \<and> split_select_list (join '', '' items) = items \<and>
         out = lead @ ''SELECT '' @ ds @ join '', '' items @ '' '' @ trim_start rest"
proof (rule rewrite_one_shape [OF assms])
  fix lead body l rest ds
  assume sql: "sql = lead @ body" and sub: "subseq (l @ rest) body"
    and closed: "scan_to (NoQuote, 0) l = (NoQuote, 0)"
    and out: "let kept = filter (\<lambda>p. \<not> item_denied denied p) (split_select_list (trim l))
       in out = (if kept = [] then ''SELECT '' @ rest
                 else lead @ ''SELECT '' @ ds @ join '', '' kept @ '' '' @ trim_start rest)"
  let ?items = "filter (\<lambda>p. \<not> item_denied denied p) (split_select_list (trim l))"
  have "scan_to (NoQuote, 0) (trim l) = (NoQuote, 0)"
    using closed by (rule scan_to_trim)
  then have "list_all list_item ?items"
    using split_select_list_items by (auto simp: list_all_iff)
  then have "?items \<noteq> [] \<Longrightarrow> split_select_list (join '', '' ?items) = ?items"
    by (rule split_join_items)
  then show thesis
    using that [of l rest ?items lead ds] sql sub out by (auto simp: Let_def list_emb_append2)
qed

text \<open>Which columns the rules deny, and when a wildcard is denied outright.\<close>

definition acl_rule :: "subject \<Rightarrow> statement_action \<Rightarrow> security_rule \<Rightarrow> bool" where
  "acl_rule subject action rule \<longleftrightarrow>
     sr_columns rule \<noteq> [] \<and> subject_matches rule subject \<and> action_matches rule action \<and>
     to_ascii_lowercase (sr_effect rule) = ''deny''"

definition rule_hits :: "security_rule \<Rightarrow> object_access list \<Rightarrow> str \<Rightarrow> bool" where
  "rule_hits rule objs col \<longleftrightarrow>
     (\<exists>obj \<in> set objs. table_matches_rule rule obj \<and> col \<in> set (bare_columns obj) \<and>
        column_matches_rule rule col (oa_table obj))"

definition denied_column ::
  "subject \<Rightarrow> statement_action \<Rightarrow> security_rule list \<Rightarrow> object_access list \<Rightarrow> str \<Rightarrow> bool" where
  "denied_column subject action rules objs col \<longleftrightarrow>
     (\<exists>rule \<in> set rules. acl_rule subject action rule \<and> rule_hits rule objs col)"

definition denied_wildcard ::
  "star_policy \<Rightarrow> subject \<Rightarrow> statement_action \<Rightarrow> security_rule list \<Rightarrow> object_access list \<Rightarrow> bool" where
  "denied_wildcard sp subject action rules objs \<longleftrightarrow>
     sp = StarDeny \<and> (\<exists>rule \<in> set rules. acl_rule subject action rule \<and>
       (\<exists>obj \<in> set objs. table_matches_rule rule obj \<and> oa_has_wildcard obj))"

lemma lower_deny: "to_ascii_lowercase ''deny'' = ''deny''"
  by code_simp

lemma acl_objects_Inl:
  "(\<exists>e. acl_objects sp rule objs denied = Inl e) \<longleftrightarrow>
     sp = StarDeny \<and> to_ascii_lowercase (sr_effect rule) = ''deny'' \<and>
     (\<exists>obj \<in> set objs. table_matches_rule rule obj \<and> oa_has_wildcard obj)"
  by (induction objs arbitrary: denied) (auto simp: eq_ignore_ascii_case_def lower_deny)

lemma acl_objects_Inr:
  "acl_objects sp rule objs denied = Inr d' \<Longrightarrow>
     snd ` set d' = snd ` set denied \<union>
       {col. to_ascii_lowercase (sr_effect rule) = ''deny'' \<and> rule_hits rule objs col}"
proof (induction objs arbitrary: denied)
  case (Cons obj objs)
  have hits: "rule_hits rule (obj # objs) col \<longleftrightarrow>
      rule_hits rule objs col \<or> (table_matches_rule rule obj \<and> col \<in> set (bare_columns obj) \<and>
        column_matches_rule rule col (oa_table obj))" for col
    by (auto simp: rule_hits_def)
  show ?case
  proof (cases "table_matches_rule rule obj")
    case False
    with Cons hits show ?thesis by simp
  next
    case True
    let ?new = "map (Pair (sr_name rule)) (filter (\<lambda>col. column_matches_rule rule col (oa_table obj)
                  \<and> to_ascii_lowercase (sr_effect rule) = ''deny'') (bare_columns obj))"
    from True Cons.prems have "acl_objects sp rule objs (denied @ ?new) = Inr d'"
      by (auto split: if_splits)
    from Cons.IH [OF this] True show ?thesis by (auto simp: hits image_Un image_image)
  qed
qed (simp add: rule_hits_def)

lemma acl_rules_Inl:
  "(\<exists>e. acl_rules sp subject action objs rules denied = Inl e) \<longleftrightarrow>
     denied_wildcard sp subject action rules objs"
proof (induction rules arbitrary: denied)
  case (Cons rule rules)
  show ?case
    using acl_objects_Inl [of sp rule objs denied] Cons.IH
    by (cases "acl_objects sp rule objs denied") (auto simp: denied_wildcard_def acl_rule_def)
qed (simp add: denied_wildcard_def)

lemma acl_rules_Inr:
  "acl_rules sp subject action objs rules denied = Inr d' \<Longrightarrow>
     snd ` set d' = snd ` set denied \<union> {col. denied_column subject action rules objs col}"
proof (induction rules arbitrary: denied)
  case (Cons rule rules)
  let ?skip = "sr_columns rule = [] \<or> \<not> subject_matches rule subject \<or> \<not> action_matches rule action"
  have head: "denied_column subject action (rule # rules) objs col \<longleftrightarrow>
      denied_column subject action rules objs col \<or>
      (\<not> ?skip \<and> to_ascii_lowercase (sr_effect rule) = ''deny'' \<and> rule_hits rule objs col)" for col
    by (auto simp: denied_column_def acl_rule_def)
  show ?case
  proof (cases ?skip)
    case True
    with Cons.prems have "acl_rules sp subject action objs rules denied = Inr d'" by simp
    from Cons.IH [OF this] True show ?thesis unfolding head by blast
  next
    case False
    with Cons.prems obtain d1 where d1: "acl_objects sp rule objs denied = Inr d1"
      and d': "acl_rules sp subject action objs rules d1 = Inr d'"
      by (simp split: sum.splits)
    show ?thesis
      unfolding Cons.IH [OF d'] acl_objects_Inr [OF d1] head using False by auto
  qed
qed (auto simp: denied_column_def)

lemma column_acl_Unchanged:
  "evaluate_column_acl sp rules subject service action objects sql = Done AclUnchanged \<longleftrightarrow>
     \<not> denied_wildcard sp subject action rules (os_objects objects) \<and>
     (\<forall>col. \<not> denied_column subject action rules (os_objects objects) col)"
proof (cases "acl_rules sp subject action (os_objects objects) rules []")
  case (Inl e)
  then have "denied_wildcard sp subject action rules (os_objects objects)"
    using acl_rules_Inl by blast
  with Inl show ?thesis by (cases e) (simp add: evaluate_column_acl_def)
next
  case (Inr d)
  then have "\<not> denied_wildcard sp subject action rules (os_objects objects)"
    using acl_rules_Inl by (metis Inl_Inr_False)
  moreover have "snd ` set d = {col. denied_column subject action rules (os_objects objects) col}"
    using acl_rules_Inr [OF Inr] by simp
  then have "(\<forall>col. \<not> denied_column subject action rules (os_objects objects) col) \<longleftrightarrow> d = []"
    by auto
  ultimately show ?thesis
    using Inr by (cases d) (auto simp: evaluate_column_acl_def acl_deny_def split: option.splits)
qed

lemma column_acl_non_select:
  assumes "action \<noteq> ASelect \<or> set_has_wildcard objects"
  shows "evaluate_column_acl sp rules subject service action objects sql = Done AclUnchanged \<or>
    (\<exists>rule message. evaluate_column_acl sp rules subject service action objects sql =
       Done (AclDeny rule message))"
  using assms by (auto simp: evaluate_column_acl_def acl_deny_def split: sum.splits list.splits)

end
