(* ===== verification/Remote_Pdp.thy ===== *)
theory Remote_Pdp
  imports Policy
begin

text \<open>
  The remote decision point client (\<open>gateway/core/src/remote_pdp.rs\<close>).  The HTTP exchange is
  the parameter \<open>http\<close>: the response of the service to a request, or the text of a transport,
  status or decoding error.  \<open>debug_list\<close> is the standard library's debug rendering of a list of
  strings, used only in a message.
\<close>

record remote_request =
  rr_subject_id :: str
  rr_service :: str
  rr_action :: str
  rr_tables :: "str list"
  rr_fingerprint :: "str option"

record remote_response =
  rs_allow :: bool
  rs_rule :: "str option"
  rs_message :: "str option"

datatype remote_transport = Http | Fixed "str + remote_response"

record remote_client =
  rc_url :: str
  rc_timeout_ms :: nat
  rc_token :: "str option"
  rc_fail_closed :: bool
  rc_transport :: remote_transport

type_synonym http_exchange = "remote_client \<Rightarrow> remote_request \<Rightarrow> str + remote_response"

definition remote_from_config :: "pdp_config \<Rightarrow> str + remote_client" where
  "remote_from_config pc =
     (let url = trim (pc_remote_url pc); token = trim (pc_remote_token pc)
      in if url = [] then Inl ''security.pdp.remote_url is required for backend=remote''
         else Inr \<lparr>rc_url = url, rc_timeout_ms = max 1 (min (pc_remote_timeout_ms pc) 30000),
                    rc_token = (if token = [] then None else Some token),
                    rc_fail_closed = pc_remote_fail_closed pc, rc_transport = Http\<rparr>)"

definition transport_error_client :: "str \<Rightarrow> bool \<Rightarrow> remote_client" where
  "transport_error_client msg fail_closed =
     \<lparr>rc_url = ''http://test.local/pdp'', rc_timeout_ms = 50, rc_token = None,
      rc_fail_closed = fail_closed, rc_transport = Fixed (Inl msg)\<rparr>"

definition post_authorize :: "http_exchange \<Rightarrow> remote_client \<Rightarrow> remote_request \<Rightarrow> str + remote_response" where
  "post_authorize http client req =
     (case rc_transport client of Fixed r \<Rightarrow> r | Http \<Rightarrow> http client req)"

definition remote_authorize_tables ::
  "http_exchange \<Rightarrow> (str list \<Rightarrow> str) \<Rightarrow> remote_client \<Rightarrow> str \<Rightarrow> str \<Rightarrow> statement_action \<Rightarrow> str list
   \<Rightarrow> str option \<Rightarrow> str + unit" where
  "remote_authorize_tables http debug_list client sid service action tables fp =
     (case post_authorize http client
             \<lparr>rr_subject_id = sid, rr_service = service, rr_action = action_as_str action,
              rr_tables = tables, rr_fingerprint = fp\<rparr> of
        Inl e \<Rightarrow> Inl e
      | Inr resp \<Rightarrow>
          if rs_allow resp then Inr ()
          else Inl ((case rs_rule resp of None \<Rightarrow> ''remote'' | Some r \<Rightarrow> r) @ '': ''
                 @ (case rs_message resp of
                      None \<Rightarrow> ''remote PDP deny: subject '' @ quoted sid @ '' action ''
                               @ quoted (action_as_str action) @ '' tables='' @ debug_list tables
                    | Some m \<Rightarrow> m)))"

lemma remote_authorize_Inr_iff:
  "remote_authorize_tables http dbg client sid service action tables fp = Inr () \<longleftrightarrow>
     (\<exists>resp. post_authorize http client
        \<lparr>rr_subject_id = sid, rr_service = service, rr_action = action_as_str action,
         rr_tables = tables, rr_fingerprint = fp\<rparr> = Inr resp \<and> rs_allow resp)"
  by (auto simp: remote_authorize_tables_def split: sum.split)

lemma remote_timeout_bounds:
  "remote_from_config pc = Inr client \<Longrightarrow> 1 \<le> rc_timeout_ms client \<and> rc_timeout_ms client \<le> 30000"
  by (auto simp: remote_from_config_def Let_def split: if_splits)

end
