(* ===== verification/State_File.thy ===== *)
theory State_File
  imports Nexus_Prelude
begin

text \<open>
  Loading a state file: the ticket store and the vault both fold the rows of their file into a map by
  identifier, and recover the next sequence number from the identifiers' last part.  The locale
  \<open>state_file\<close> is the shape of that loop; each store interprets it on its own step function.
\<close>

definition seq_id :: "str \<Rightarrow> nat \<Rightarrow> str" where
  "seq_id stem n = stem @ ''-'' @ show_nat n"

definition next_seq :: "str \<Rightarrow> nat \<Rightarrow> nat" where
  "next_seq k n =
     (case parse_unsigned u64_max (rsplit_next (CHR ''-'') k) of
        None \<Rightarrow> n
      | Some m \<Rightarrow> max n ((m + 1) mod 2 ^ 64))"

lemma digit_not_dash: "is_ascii_digit c \<Longrightarrow> c \<noteq> CHR ''-''"
  by (auto simp: is_ascii_digit_def)

lemma rsplit_next_seq_id: "rsplit_next (CHR ''-'') (seq_id stem n) = show_nat n"
proof -
  have "\<forall>c \<in> set (rev (show_nat n)). c \<noteq> CHR ''-''"
    using show_nat_digits [of n] by (auto simp: list_all_iff dest: digit_not_dash)
  then have "takeWhile (\<lambda>x. x \<noteq> CHR ''-'') (rev (show_nat n) @ CHR ''-'' # rest) = rev (show_nat n)"
    for rest by (subst takeWhile_append2) simp_all
  then show ?thesis by (simp add: rsplit_next_def seq_id_def)
qed

lemma seq_id_inj: "seq_id a m = seq_id b n \<Longrightarrow> m = n"
  by (metis rsplit_next_seq_id show_nat_inj)

lemma next_seq_mono: "n \<le> next_seq k n"
  by (auto simp: next_seq_def split: option.split)

lemma next_seq_bound: "m < u64_max \<Longrightarrow> m < next_seq (seq_id stem m) n"
  by (auto simp: next_seq_def rsplit_next_seq_id parse_unsigned_show_nat u64_max_def)

text \<open>Every key carries a sequence number below the next one.\<close>

definition keys_below :: "str set \<Rightarrow> nat \<Rightarrow> bool" where
  "keys_below ks n \<longleftrightarrow> (\<forall>k \<in> ks. \<exists>stem m. k = seq_id stem m \<and> m < n)"

lemma keys_below_fresh: "keys_below ks n \<Longrightarrow> seq_id stem n \<notin> ks"
  by (auto simp: keys_below_def dest!: seq_id_inj)

lemma keys_below_insert: "keys_below ks n \<Longrightarrow> keys_below (insert (seq_id stem n) ks) (Suc n)"
  unfolding keys_below_def by (metis insert_iff less_Suc_eq)

lemma keys_below_mono: "keys_below ks n \<Longrightarrow> ks' \<subseteq> ks \<Longrightarrow> n \<le> n' \<Longrightarrow> keys_below ks' n'"
  unfolding keys_below_def by (meson order_less_le_trans subsetD)

locale state_file =
  fixes key :: "'a \<Rightarrow> str" and entry :: "'a \<Rightarrow> 'r"
    and step :: "(str \<times> 'r) list \<times> nat \<Rightarrow> 'a \<Rightarrow> (str \<times> 'r) list \<times> nat"
  assumes step_eq: "step acc t = (al_insert (key t) (entry t) (fst acc), next_seq (key t) (snd acc))"
begin

lemma load_map:
  "map_of (fst (foldl step acc ts)) k =
     (case find (\<lambda>t. key t = k) (rev ts) of Some t \<Rightarrow> Some (entry t) | None \<Rightarrow> map_of (fst acc) k)"
  by (induction ts arbitrary: acc rule: rev_induct) (auto simp: step_eq)

lemma load_seq_mono: "snd acc \<le> snd (foldl step acc ts)"
proof (induction ts arbitrary: acc)
  case (Cons t ts)
  have "snd acc \<le> snd (step acc t)" by (simp add: step_eq next_seq_mono)
  also have "\<dots> \<le> snd (foldl step (step acc t) ts)" by (rule Cons.IH)
  finally show ?case by simp
qed simp

lemma load_seq_bound:
  "t \<in> set ts \<Longrightarrow> key t = seq_id stem n \<Longrightarrow> n < u64_max \<Longrightarrow> n < snd (foldl step acc ts)"
proof (induction ts arbitrary: acc)
  case (Cons x ts)
  show ?case
  proof (cases "t = x")
    case True
    then have "n < snd (step acc x)" using Cons.prems by (simp add: step_eq next_seq_bound)
    then show ?thesis using load_seq_mono [of "step acc x" ts] by simp
  next
    case False
    with Cons show ?thesis by simp
  qed
qed simp

lemma find_unique:
  "t \<in> set ts \<Longrightarrow> key t = k \<Longrightarrow> distinct (map key ts) \<Longrightarrow> find (\<lambda>t. key t = k) ts = Some t"
  by (induction ts) (auto simp: image_iff)

text \<open>A file with one row per identifier loads to a map with exactly these rows.\<close>

lemma load_row:
  assumes "distinct (map key ts)"
  shows "map_of (fst (foldl step ([], n) ts)) k = Some r \<longleftrightarrow> (\<exists>t \<in> set ts. key t = k \<and> r = entry t)"
proof (cases "\<exists>t \<in> set ts. key t = k")
  case True
  then obtain t where t: "t \<in> set ts" "key t = k" by blast
  then have "find (\<lambda>t. key t = k) (rev ts) = Some t"
    using assms find_unique [of t "rev ts"] by (simp add: rev_map [symmetric])
  then have "map_of (fst (foldl step ([], n) ts)) k = Some (entry t)" by (simp add: load_map)
  moreover have "t' = t" if "t' \<in> set ts" "key t' = k" for t'
    using that t assms by (auto simp: distinct_map inj_on_def)
  ultimately show ?thesis using t by (metis option.inject)
next
  case False
  then have "find (\<lambda>t. key t = k) (rev ts) = None" by (simp add: find_None_iff)
  with False show ?thesis by (auto simp: load_map)
qed

lemma load_keys_below:
  assumes "distinct (map key ts)" "keys_below (key ` set ts) m" "m \<le> u64_max"
  shows "keys_below (fst ` set (fst (foldl step ([], n) ts))) (snd (foldl step ([], n) ts))"
  unfolding keys_below_def
proof
  fix k assume "k \<in> fst ` set (fst (foldl step ([], n) ts))"
  then obtain r where "map_of (fst (foldl step ([], n) ts)) k = Some r"
    using map_of_eq_None_iff [of "fst (foldl step ([], n) ts)" k] by auto
  then obtain t where t: "t \<in> set ts" "key t = k" using assms(1) by (auto simp: load_row)
  then obtain stem j where "k = seq_id stem j" "j < m" using assms(2) by (auto simp: keys_below_def)
  moreover then have "j < snd (foldl step ([], n) ts)" using load_seq_bound [of t ts stem j] t assms(3) by simp
  ultimately show "\<exists>stem j. k = seq_id stem j \<and> j < snd (foldl step ([], n) ts)" by blast
qed

end

end
