(* ===== verification/Ticket.thy ===== *)
theory Ticket
  imports Sql_Scan State_File
begin

text \<open>
  Approval tickets for high-risk SQL (\<open>gateway/core/src/ticket.rs\<close>): the ticket life cycle
  (issue, second-person approval, rejection, consumption, pruning), the normalisation that binds
  a ticket to a statement, and the comment syntax that carries a ticket in the SQL text.

  The clock is an argument (\<open>now\<close>, milliseconds).  Reading and writing the JSON state file,
  its encryption and its lock are not modelled; what is written to it and how a decoded file
  becomes a store are (\<open>ticket_file\<close>, \<open>load_tickets\<close>).
\<close>

named_theorems ticket_defs \<open>the store operations\<close>

section \<open>Tickets\<close>

datatype ticket_status = TPending | TActive | TRejected

record ticket =
  tk_id :: str
  tk_type :: str
  tk_subject :: str
  tk_fingerprint :: str
  tk_sample :: "str option"
  issued_at :: nat
  expires_at :: nat
  max_uses :: nat
  uses :: nat
  issued_by :: "str option"
  tk_note :: "str option"
  dual_control :: bool
  tk_status :: ticket_status
  approved_by :: "str option"
  approved_at :: "nat option"
  rejected_by :: "str option"
  reject_reason :: "str option"

definition is_expired :: "ticket \<Rightarrow> nat \<Rightarrow> bool" where
  "is_expired t now_ms \<longleftrightarrow> now_ms > expires_at t"

text \<open>\<open>saturating_sub\<close> on \<open>u32\<close> is subtraction on \<open>nat\<close>.\<close>

definition remaining_uses :: "ticket \<Rightarrow> nat" where
  "remaining_uses t = max_uses t - uses t"

definition is_consumable :: "ticket \<Rightarrow> nat \<Rightarrow> str + unit" where
  "is_consumable t now_ms =
     (if is_expired t now_ms then Inl (''ticket '' @ [squote] @ tk_id t @ [squote] @ '' expired'')
      else case tk_status t of
          TPending \<Rightarrow> Inl (''ticket '' @ [squote] @ tk_id t @ [squote]
            @ '' is pending dual-control approval (POST /admin/tickets/'' @ tk_id t @ ''/approve)'')
        | TRejected \<Rightarrow> Inl (''ticket '' @ [squote] @ tk_id t @ [squote] @ '' was rejected'')
        | TActive \<Rightarrow>
            if remaining_uses t = 0
            then Inl (''ticket '' @ [squote] @ tk_id t @ [squote] @ '' has no remaining uses'')
            else Inr ())"

record issue_request =
  rq_subject :: str
  rq_sql :: str
  rq_type :: str
  rq_ttl_secs :: nat
  rq_max_uses :: nat
  rq_note :: "str option"
  rq_issued_by :: "str option"
  rq_dual_control :: bool

record ticket_store =
  tickets :: "(str \<times> ticket) list"
  seq :: nat

definition store_new :: ticket_store where
  "store_new = \<lparr>tickets = [], seq = 1\<rparr>"

section \<open>Statement normalisation and ticket comments\<close>

definition strip_ticket_comment :: "str \<Rightarrow> str run" where
  "strip_ticket_comment sql =
     (let s = trim_start sql
      in if starts_with ''/*'' s
         then (case find_sub ''*/'' s of
             None \<Rightarrow> Done sql
           | Some e \<Rightarrow> run_bind (slice_range s 2 e) (\<lambda>b.
               let body = to_ascii_lowercase b
               in if contains ''dn_ticket'' body \<or> contains ''data_nexus_ticket'' body
                  then Done (trim_start (drop (e + 2) s)) else Done sql))
         else Done sql)"

text \<open>The character loop of \<open>sql_fingerprint\<close>.\<close>

function fingerprint_loop :: "str \<Rightarrow> bool \<Rightarrow> str \<Rightarrow> str" where
  "fingerprint_loop out prev_space s =
     (if s = [] then out
      else if 0 < ws_prefix s then
        (if \<not> prev_space \<and> out \<noteq> []
         then fingerprint_loop (out @ '' '') True (drop (ws_prefix s) s)
         else fingerprint_loop out prev_space (drop (ws_prefix s) s))
      else fingerprint_loop (out @ [lower_byte (hd s)]) False (tl s))"
  by pat_completeness auto
termination
  by (relation "measure (\<lambda>(out, p, s). length s)") (simp_all add: diff_less)

declare fingerprint_loop.simps [simp del]

definition normalize_sql :: "str \<Rightarrow> str" where
  "normalize_sql stripped =
     trim (trim_end_matches (\<lambda>c. c = CHR '';'') (trim (fingerprint_loop [] False stripped)))"

definition sql_fingerprint :: "str \<Rightarrow> str run" where
  "sql_fingerprint sql = run_bind (strip_ticket_comment sql) (\<lambda>stripped. Done (normalize_sql stripped))"

definition ticket_prefixes :: "str list" where
  "ticket_prefixes = [''dn_ticket:'', ''data_nexus_ticket:'', ''dn_ticket='']"

text \<open>
  The loop over the prefixes: a matching prefix decides the result, because a word produced by
  \<open>split_whitespace\<close> is never empty and \<open>?\<close> leaves the function when there is none.
\<close>

fun try_prefixes :: "str list \<Rightarrow> str \<Rightarrow> str option option" where
  "try_prefixes [] body = None"
| "try_prefixes (p # ps) body =
     (if starts_with p (to_ascii_lowercase body)
      then Some (first_word (trim (drop (length p) body)))
      else try_prefixes ps body)"

definition extract_ticket_id :: "str \<Rightarrow> str option run" where
  "extract_ticket_id sql =
     (let s = trim_start sql
      in if \<not> starts_with ''/*'' s then Done None
         else case find_sub ''*/'' s of
             None \<Rightarrow> Done None
           | Some e \<Rightarrow> run_bind (slice_range s 2 e) (\<lambda>b.
               let body = trim (trim_start_matches (\<lambda>c. c = CHR ''+'') (trim b))
               in case try_prefixes ticket_prefixes body of
                    Some r \<Rightarrow> Done r
                  | None \<Rightarrow>
                      (case find_sub ''dn_ticket'' (to_ascii_lowercase body) of
                         None \<Rightarrow> Done None
                       | Some pos \<Rightarrow>
                           Done (first_word (trim_start (trim_start_matches
                             (\<lambda>c. c = CHR '':'' \<or> c = CHR ''='')
                             (trim_start (drop (pos + length ''dn_ticket'') body))))))))"

definition is_write_without_where :: "str \<Rightarrow> bool run" where
  "is_write_without_where sql =
     run_bind (strip_ticket_comment sql) (\<lambda>s.
       let upper = to_ascii_uppercase (trim_start s)
       in if \<not> (starts_with ''UPDATE'' upper \<or> starts_with ''DELETE'' upper) then Done False
          else Done (\<not> contains_top_level_keyword s ''WHERE''))"

section \<open>The store\<close>

definition ticket_id :: "nat \<Rightarrow> nat \<Rightarrow> str" where
  "ticket_id now n = ''tkt-'' @ show_nat now @ ''-'' @ show_nat n"

definition default_ticket_type :: str where
  "default_ticket_type = ''high_risk''"

definition issue :: "nat \<Rightarrow> issue_request \<Rightarrow> ticket_store \<Rightarrow> (ticket \<times> ticket_store) run" where
  "issue now req st =
     (let tid = ticket_id now (seq st)
      in run_bind (sql_fingerprint (rq_sql req)) (\<lambda>fp.
         run_bind (strip_ticket_comment (rq_sql req)) (\<lambda>sample.
           let t = \<lparr>tk_id = tid,
                    tk_type = (if trim (rq_type req) = [] then default_ticket_type else rq_type req),
                    tk_subject = rq_subject req,
                    tk_fingerprint = fp,
                    tk_sample = Some sample,
                    issued_at = now,
                    expires_at = saturating_add64 now (saturating_mul64 (rq_ttl_secs req) 1000),
                    max_uses = max (rq_max_uses req) 1,
                    uses = 0,
                    issued_by = rq_issued_by req,
                    tk_note = rq_note req,
                    dual_control = rq_dual_control req,
                    tk_status = (if rq_dual_control req then TPending else TActive),
                    approved_by = None, approved_at = None,
                    rejected_by = None, reject_reason = None\<rparr>
           in Done (t, \<lparr>tickets = al_insert tid t (tickets st), seq = (seq st + 1) mod 2 ^ 64\<rparr>))))"

definition get_ticket :: "ticket_store \<Rightarrow> str \<Rightarrow> ticket option" where
  "get_ticket st tid = map_of (tickets st) tid"

definition list_tickets :: "nat \<Rightarrow> ticket_store \<Rightarrow> ticket list" where
  "list_tickets limit st =
     take (max 1 (min limit 500)) (sort_key (\<lambda>t. - int (issued_at t)) (map snd (tickets st)))"

definition not_found :: "str \<Rightarrow> str" where
  "not_found tid = ''ticket '' @ [squote] @ tid @ [squote] @ '' not found''"

definition store_put :: "ticket_store \<Rightarrow> str \<Rightarrow> ticket \<Rightarrow> ticket_store" where
  "store_put st tid t = st\<lparr>tickets := al_insert tid t (tickets st)\<rparr>"

definition approve ::
  "nat \<Rightarrow> str \<Rightarrow> str \<Rightarrow> ticket_store \<Rightarrow> str + ticket \<times> ticket_store" where
  "approve now tid who st =
     (let approver = trim who; name = ''ticket '' @ [squote] @ tid @ [squote]
      in if approver = [] then Inl ''approved_by is required''
         else case get_ticket st tid of
             None \<Rightarrow> Inl (not_found tid)
           | Some t \<Rightarrow>
               if is_expired t now then Inl (name @ '' expired'')
               else if \<not> dual_control t
                 then Inl (name @ '' is not dual-control (already active on issue)'')
               else (case tk_status t of
                   TActive \<Rightarrow> Inl (name @ '' is already active'')
                 | TRejected \<Rightarrow> Inl (name @ '' was rejected'')
                 | TPending \<Rightarrow>
                     if (case issued_by t of None \<Rightarrow> False
                           | Some issuer \<Rightarrow> eq_ignore_ascii_case issuer approver)
                     then Inl (name @ '' dual-control: approver must differ from issuer '' @ [squote]
                            @ (case issued_by t of None \<Rightarrow> [] | Some issuer \<Rightarrow> issuer) @ [squote])
                     else let t' = t\<lparr>tk_status := TActive, approved_by := Some approver,
                                     approved_at := Some now\<rparr>
                          in Inr (t', store_put st tid t')))"

definition reject ::
  "str \<Rightarrow> str \<Rightarrow> str option \<Rightarrow> ticket_store \<Rightarrow> str + ticket \<times> ticket_store" where
  "reject tid who reason st =
     (let rejector = trim who; name = ''ticket '' @ [squote] @ tid @ [squote]
      in if rejector = [] then Inl ''rejected_by is required''
         else case get_ticket st tid of
             None \<Rightarrow> Inl (not_found tid)
           | Some t \<Rightarrow>
               if uses t > 0 then Inl (name @ '' already consumed and cannot be rejected'')
               else if tk_status t = TRejected then Inl (name @ '' already rejected'')
               else let t' = t\<lparr>tk_status := TRejected, rejected_by := Some rejector,
                               reject_reason := reason\<rparr>
                    in Inr (t', store_put st tid t'))"

definition revoke ::
  "str \<Rightarrow> str \<Rightarrow> str option \<Rightarrow> ticket_store \<Rightarrow> str + ticket \<times> ticket_store" where
  "revoke tid who reason st = reject tid who reason st"

definition prune_expired :: "nat \<Rightarrow> ticket_store \<Rightarrow> nat \<times> ticket_store" where
  "prune_expired now st =
     (let kept = filter (\<lambda>p. \<not> is_expired (snd p) now) (tickets st)
      in (length (tickets st) - length kept, st\<lparr>tickets := kept\<rparr>))"

definition consume ::
  "nat \<Rightarrow> str \<Rightarrow> str \<Rightarrow> str \<Rightarrow> str option \<Rightarrow> ticket_store \<Rightarrow> (str + ticket \<times> ticket_store) run" where
  "consume now tid subject sql expected_type st =
     run_bind (sql_fingerprint sql) (\<lambda>fp.
       let name = ''ticket '' @ [squote] @ tid @ [squote]
       in Done (case get_ticket st tid of
           None \<Rightarrow> Inl (not_found tid)
         | Some t \<Rightarrow>
             (case is_consumable t now of
                Inl e \<Rightarrow> Inl e
              | Inr _ \<Rightarrow>
                  if \<not> eq_ignore_ascii_case (tk_subject t) subject
                  then Inl (name @ '' subject mismatch (expected '' @ tk_subject t @ '', got ''
                         @ subject @ '')'')
                  else if (case expected_type of None \<Rightarrow> False
                             | Some tt \<Rightarrow> tt \<noteq> [] \<and> \<not> eq_ignore_ascii_case (tk_type t) tt)
                  then Inl (name @ '' type mismatch (expected ''
                         @ (case expected_type of None \<Rightarrow> [] | Some tt \<Rightarrow> tt) @ '', got ''
                         @ tk_type t @ '')'')
                  else if tk_fingerprint t \<noteq> fp
                  then Inl (name @ '' SQL fingerprint mismatch (re-issue for this statement)'')
                  else let t' = t\<lparr>uses := uses t + 1\<rparr> in Inr (t', store_put st tid t'))))"

text \<open>What \<open>write_file_locked\<close> serialises, and what \<open>load_from_disk\<close> makes of it.\<close>

definition ticket_file :: "ticket_store \<Rightarrow> ticket list" where
  "ticket_file st = sort_key (\<lambda>t. - int (issued_at t)) (map snd (tickets st))"

definition load_step :: "(str \<times> ticket) list \<times> nat \<Rightarrow> ticket \<Rightarrow> (str \<times> ticket) list \<times> nat" where
  "load_step acc t =
     (al_insert (tk_id t) t (fst acc),
      (case parse_unsigned u64_max (rsplit_next (CHR ''-'') (tk_id t)) of
         None \<Rightarrow> snd acc
       | Some n \<Rightarrow> max (snd acc) ((n + 1) mod 2 ^ 64)))"

definition load_tickets :: "ticket list \<Rightarrow> ticket_store" where
  "load_tickets ts =
     (case foldl load_step ([], 1) ts of (m, n) \<Rightarrow> \<lparr>tickets = m, seq = n\<rparr>)"

lemmas [ticket_defs] =
  issue_def approve_def reject_def revoke_def prune_expired_def consume_def get_ticket_def store_put_def

section \<open>What the operations do\<close>

definition type_ok :: "str option \<Rightarrow> ticket \<Rightarrow> bool" where
  "type_ok expected_type t \<longleftrightarrow>
     (case expected_type of None \<Rightarrow> True | Some tt \<Rightarrow> tt = [] \<or> eq_ignore_ascii_case (tk_type t) tt)"

definition consumable :: "nat \<Rightarrow> str \<Rightarrow> str \<Rightarrow> str option \<Rightarrow> ticket \<Rightarrow> bool" where
  "consumable now subject fp expected_type t \<longleftrightarrow>
     now \<le> expires_at t \<and> tk_status t = TActive \<and> uses t < max_uses t \<and>
     eq_ignore_ascii_case (tk_subject t) subject \<and> type_ok expected_type t \<and> tk_fingerprint t = fp"

lemma is_consumable_iff:
  "is_consumable t now = Inr u \<longleftrightarrow>
     now \<le> expires_at t \<and> tk_status t = TActive \<and> uses t < max_uses t"
  by (auto simp: is_consumable_def is_expired_def remaining_uses_def split: ticket_status.splits)

lemma consume_Inr_iff:
  "consume now tid subject sql et st = Done (Inr (t', st')) \<longleftrightarrow>
     (\<exists>t fp. get_ticket st tid = Some t \<and> sql_fingerprint sql = Done fp \<and>
        consumable now subject fp et t \<and> t' = t\<lparr>uses := uses t + 1\<rparr> \<and> st' = store_put st tid t')"
proof (cases "sql_fingerprint sql")
  case Panic
  then show ?thesis by (simp add: consume_def)
next
  case (Done fp)
  show ?thesis
  proof (cases "get_ticket st tid")
    case None
    with Done show ?thesis by (simp add: consume_def)
  next
    case (Some t)
    show ?thesis
    proof (cases "is_consumable t now")
      case (Inl e)
      then have "\<not> consumable now subject fp et t"
        using is_consumable_iff [of t now "()"] by (auto simp: consumable_def)
      with Done Some Inl show ?thesis by (simp add: consume_def)
    next
      case (Inr u)
      then have "now \<le> expires_at t \<and> tk_status t = TActive \<and> uses t < max_uses t"
        by (simp add: is_consumable_iff)
      with Done Some Inr show ?thesis
        by (auto simp: consume_def consumable_def type_ok_def Let_def split: option.splits if_splits)
    qed
  qed
qed

lemma approve_Inr_iff:
  "approve now tid who st = Inr (t', st') \<longleftrightarrow>
     (\<exists>t. get_ticket st tid = Some t \<and> trim who \<noteq> [] \<and> now \<le> expires_at t \<and> dual_control t \<and>
        tk_status t = TPending \<and>
        (case issued_by t of None \<Rightarrow> True | Some i \<Rightarrow> \<not> eq_ignore_ascii_case i (trim who)) \<and>
        t' = t\<lparr>tk_status := TActive, approved_by := Some (trim who), approved_at := Some now\<rparr> \<and>
        st' = store_put st tid t')"
  by (auto simp: approve_def is_expired_def Let_def
      split: option.splits ticket_status.splits if_splits)

lemma reject_Inr_iff:
  "reject tid who reason st = Inr (t', st') \<longleftrightarrow>
     (\<exists>t. get_ticket st tid = Some t \<and> trim who \<noteq> [] \<and> uses t = 0 \<and> tk_status t \<noteq> TRejected \<and>
        t' = t\<lparr>tk_status := TRejected, rejected_by := Some (trim who), reject_reason := reason\<rparr> \<and>
        st' = store_put st tid t')"
  by (auto simp: reject_def Let_def split: option.splits if_splits)

section \<open>Invariant and reachable stores\<close>

definition second_person :: "ticket \<Rightarrow> bool" where
  "second_person t \<longleftrightarrow>
     (\<exists>a. approved_by t = Some a \<and> a \<noteq> [] \<and>
        (case issued_by t of None \<Rightarrow> True | Some i \<Rightarrow> \<not> eq_ignore_ascii_case i a))"

definition ticket_ok :: "ticket \<Rightarrow> bool" where
  "ticket_ok t \<longleftrightarrow>
     uses t \<le> max_uses t \<and> 1 \<le> max_uses t \<and> max_uses t \<le> u32_max \<and>
     (tk_status t \<noteq> TActive \<longrightarrow> uses t = 0) \<and>
     (dual_control t \<and> tk_status t = TActive \<longrightarrow> second_person t)"

definition store_ok :: "ticket_store \<Rightarrow> bool" where
  "store_ok st \<longleftrightarrow>
     distinct (map fst (tickets st)) \<and> (\<forall>p \<in> set (tickets st). fst p = tk_id (snd p) \<and> ticket_ok (snd p))"

inductive ticket_step :: "ticket_store \<Rightarrow> ticket_store \<Rightarrow> bool" where
  step_issue: "issue now req st = Done (t, st') \<Longrightarrow> rq_max_uses req \<le> u32_max \<Longrightarrow> ticket_step st st'"
| step_approve: "approve now tid who st = Inr (t, st') \<Longrightarrow> ticket_step st st'"
| step_reject: "reject tid who reason st = Inr (t, st') \<Longrightarrow> ticket_step st st'"
| step_prune: "prune_expired now st = (n, st') \<Longrightarrow> ticket_step st st'"
| step_consume: "consume now tid subject sql et st = Done (Inr (t, st')) \<Longrightarrow> ticket_step st st'"

inductive reachable_store :: "ticket_store \<Rightarrow> bool" where
  reach_new: "reachable_store store_new"
| reach_step: "reachable_store st \<Longrightarrow> ticket_step st st' \<Longrightarrow> reachable_store st'"

lemma store_ok_get:
  "store_ok st \<Longrightarrow> get_ticket st tid = Some t \<Longrightarrow> tk_id t = tid \<and> ticket_ok t"
  by (auto simp: store_ok_def get_ticket_def dest: map_of_SomeD)

lemma store_ok_put:
  "store_ok st \<Longrightarrow> tk_id t = tid \<Longrightarrow> ticket_ok t \<Longrightarrow> store_ok (store_put st tid t)"
  using al_insert_forall [of "tickets st" "\<lambda>p. fst p = tk_id (snd p) \<and> ticket_ok (snd p)" tid t]
  by (simp add: store_ok_def store_put_def distinct_al_insert)

lemma store_ok_issue:
  assumes "store_ok st" and "issue now req st = Done (t, st')" and "rq_max_uses req \<le> u32_max"
  shows "store_ok st'"
proof -
  from assms(2) have t: "tk_id t = ticket_id now (seq st)" "uses t = 0"
      "max_uses t = max (rq_max_uses req) 1" "dual_control t = rq_dual_control req"
      "tk_status t = (if rq_dual_control req then TPending else TActive)"
    and st': "st' = (store_put st (tk_id t) t)\<lparr>seq := (seq st + 1) mod 2 ^ 64\<rparr>"
    by (auto simp: issue_def Let_def store_put_def)
  have "ticket_ok t" using t assms(3) by (simp add: ticket_ok_def u32_max_def)
  then have "store_ok (store_put st (tk_id t) t)"
    using assms(1) by (simp add: store_ok_put)
  then show ?thesis unfolding st' by (simp add: store_ok_def)
qed

lemma store_ok_step: "ticket_step st st' \<Longrightarrow> store_ok st \<Longrightarrow> store_ok st'"
proof (induction rule: ticket_step.induct)
  case (step_issue now req st t st')
  then show ?case by (blast intro: store_ok_issue)
next
  case (step_approve now tid who st t st')
  then obtain t0 where "get_ticket st tid = Some t0" "trim who \<noteq> []" "tk_status t0 = TPending"
      "case issued_by t0 of None \<Rightarrow> True | Some i \<Rightarrow> \<not> eq_ignore_ascii_case i (trim who)"
      "t = t0\<lparr>tk_status := TActive, approved_by := Some (trim who), approved_at := Some now\<rparr>"
      "st' = store_put st tid t"
    by (auto simp: approve_Inr_iff)
  moreover from this store_ok_get [OF step_approve.prems, of tid t0]
  have "tk_id t = tid \<and> ticket_ok t" by (auto simp: ticket_ok_def second_person_def)
  ultimately show ?case using step_approve.prems store_ok_put by simp
next
  case (step_reject tid who reason st t st')
  then obtain t0 where "get_ticket st tid = Some t0" "uses t0 = 0"
      "t = t0\<lparr>tk_status := TRejected, rejected_by := Some (trim who), reject_reason := reason\<rparr>"
      "st' = store_put st tid t"
    by (auto simp: reject_Inr_iff)
  moreover from this store_ok_get [OF step_reject.prems, of tid t0]
  have "tk_id t = tid \<and> ticket_ok t" by (auto simp: ticket_ok_def)
  ultimately show ?case using step_reject.prems store_ok_put by simp
next
  case (step_prune now st n st')
  then show ?case
    by (auto simp: prune_expired_def store_ok_def Let_def distinct_map_filter)
next
  case (step_consume now tid subject sql et st t st')
  then obtain t0 fp where "get_ticket st tid = Some t0" "consumable now subject fp et t0"
      "t = t0\<lparr>uses := uses t0 + 1\<rparr>" "st' = store_put st tid t"
    by (auto simp: consume_Inr_iff)
  moreover from this store_ok_get [OF step_consume.prems, of tid t0]
  have "tk_id t = tid \<and> ticket_ok t"
    by (auto simp: ticket_ok_def consumable_def second_person_def)
  ultimately show ?case using step_consume.prems store_ok_put by simp
qed

lemma reachable_store_ok: "reachable_store st \<Longrightarrow> store_ok st"
proof (induction rule: reachable_store.induct)
  case reach_new
  show ?case by (simp add: store_ok_def store_new_def)
next
  case (reach_step st st')
  then show ?case by (blast intro: store_ok_step)
qed

section \<open>Ticket identifiers\<close>

lemma ticket_id_seq: "ticket_id now n = seq_id (''tkt-'' @ show_nat now) n"
  by (simp add: ticket_id_def seq_id_def)

lemma ticket_id_inj: "ticket_id a m = ticket_id b n \<Longrightarrow> m = n"
  unfolding ticket_id_seq by (rule seq_id_inj)

text \<open>Every stored ticket was issued with a sequence number below the next one.\<close>

definition ids_below_seq :: "ticket_store \<Rightarrow> bool" where
  "ids_below_seq st \<longleftrightarrow>
     (\<forall>k \<in> fst ` set (tickets st). \<exists>now n. k = ticket_id now n \<and> n < seq st)"

lemma issue_fresh:
  assumes "ids_below_seq st" and "issue now req st = Done (t, st')"
  shows "get_ticket st (tk_id t) = None"
proof -
  have "tk_id t = ticket_id now (seq st)" using assms(2) by (auto simp: issue_def Let_def)
  moreover have "ticket_id now (seq st) \<notin> fst ` set (tickets st)"
  proof
    assume "ticket_id now (seq st) \<in> fst ` set (tickets st)"
    with assms(1) obtain m n where "ticket_id now (seq st) = ticket_id m n" "n < seq st"
      unfolding ids_below_seq_def by blast
    then show False using ticket_id_inj by blast
  qed
  ultimately have "tk_id t \<notin> fst ` set (tickets st)" by simp
  then show ?thesis by (simp add: get_ticket_def map_of_eq_None_iff)
qed

lemma ids_below_seq_issue:
  assumes "ids_below_seq st" and "issue now req st = Done (t, st')" and "seq st < u64_max"
  shows "ids_below_seq st'"
proof -
  have "tickets st' = al_insert (ticket_id now (seq st)) t (tickets st)" and "seq st' = seq st + 1"
    using assms(2,3) by (auto simp: issue_def Let_def u64_max_def)
  then show ?thesis
    using assms(1) unfolding ids_below_seq_def
    by (metis (no_types, lifting) keys_al_insert insert_iff less_Suc_eq Suc_eq_plus1)
qed

section \<open>Persisted stores\<close>

interpretation tf: state_file tk_id "\<lambda>t. t" load_step
  by unfold_locales (simp add: load_step_def next_seq_def)

lemma load_tickets_simps:
  "tickets (load_tickets ts) = fst (foldl load_step ([], 1) ts)"
  "seq (load_tickets ts) = snd (foldl load_step ([], 1) ts)"
  by (simp_all add: load_tickets_def split: prod.split)

lemma store_ok_ids:
  assumes "store_ok st"
  shows "map fst (tickets st) = map (tk_id \<circ> snd) (tickets st)"
  using assms by (auto simp: store_ok_def)

lemma load_ticket_file_get:
  assumes "store_ok st"
  shows "get_ticket (load_tickets (ticket_file st)) k = get_ticket st k"
proof -
  let ?ts = "ticket_file st"
  have set_ts: "set ?ts = snd ` set (tickets st)" by (simp add: ticket_file_def)
  have "distinct (map (tk_id \<circ> snd) (tickets st))"
    using assms unfolding store_ok_def by (metis store_ok_ids [OF assms])
  then have d: "distinct (map tk_id ?ts)"
    by (simp add: ticket_file_def distinct_map) (auto simp: inj_on_def distinct_map)
  have "get_ticket (load_tickets ?ts) k = Some t \<longleftrightarrow> get_ticket st k = Some t" for t
  proof -
    have "get_ticket (load_tickets ?ts) k = Some t \<longleftrightarrow> t \<in> set ?ts \<and> tk_id t = k"
      using tf.load_row [OF d, of 1 k t] by (auto simp: get_ticket_def load_tickets_simps)
    also have "\<dots> \<longleftrightarrow> get_ticket st k = Some t"
      using assms set_ts by (auto simp: get_ticket_def store_ok_def map_of_eq_Some_iff image_iff) force
    finally show ?thesis .
  qed
  then show ?thesis by (metis not_None_eq)
qed

section \<open>Presenting a ticket in the SQL text\<close>

definition ticket_comment :: "str \<Rightarrow> str" where
  "ticket_comment tid = ''/*dn_ticket:'' @ tid @ ''*/''"

definition ticket_token :: "str \<Rightarrow> bool" where
  "ticket_token tid \<longleftrightarrow> tid \<noteq> [] \<and> list_all (\<lambda>c. plain c \<and> c \<noteq> CHR ''*'') tid"

lemma find_sub_no_star:
  "CHR ''*'' \<notin> set a \<Longrightarrow> find_sub ''*/'' (a @ ''*/'' @ b) = Some (length a)"
  by (induction a) (auto simp: starts_with_def)

lemma find_comment_end:
  assumes "ticket_token tid"
  shows "find_sub ''*/'' (ticket_comment tid @ sql) = Some (12 + length tid)"
proof -
  have "CHR ''*'' \<notin> set (''dn_ticket:'' @ tid)"
    using assms by (auto simp: ticket_token_def list_all_iff)
  from find_sub_no_star [OF this, of sql] show ?thesis
    by (simp add: ticket_comment_def starts_with_def)
qed

lemma slice_comment:
  assumes "ticket_token tid"
  shows "slice_range (ticket_comment tid @ sql) 2 (12 + length tid) = Done (''dn_ticket:'' @ tid)"
proof -
  have "(ticket_comment tid @ sql) ! (12 + length tid) = CHR ''*''"
    by (simp add: ticket_comment_def nth_append)
  moreover have "(ticket_comment tid @ sql) ! 2 = CHR ''d''"
    by (simp add: ticket_comment_def)
  moreover have "take (10 + length tid) (drop 2 (ticket_comment tid @ sql)) = ''dn_ticket:'' @ tid"
  proof -
    have "drop 2 (ticket_comment tid @ sql) = (''dn_ticket:'' @ tid) @ ''*/'' @ sql"
      by (simp add: ticket_comment_def)
    moreover have "10 + length tid = length (''dn_ticket:'' @ tid)" by simp
    ultimately show ?thesis by (metis append_eq_conv_conj)
  qed
  moreover have "12 + length tid < length (ticket_comment tid @ sql)"
    by (simp add: ticket_comment_def)
  ultimately show ?thesis
    by (simp add: slice_range_def is_char_boundary_def is_continuation_def)
qed

lemma trim_start_comment: "trim_start (ticket_comment tid @ sql) = ticket_comment tid @ sql"
  unfolding ticket_comment_def by (simp add: trim_start_plain plain_def)

lemma comment_body_trim:
  assumes "ticket_token tid"
  shows "trim (''dn_ticket:'' @ tid) = ''dn_ticket:'' @ tid"
proof (rule trim_plain)
  have "last (''dn_ticket:'' @ tid) = last tid" "last tid \<in> set tid"
    using assms by (auto simp: ticket_token_def)
  then show "plain (last (''dn_ticket:'' @ tid))"
    using assms by (auto simp: ticket_token_def list_all_iff)
qed (simp_all add: plain_def)

lemma lower_dn_ticket: "to_ascii_lowercase ''dn_ticket:'' = ''dn_ticket:''"
  by code_simp

lemma extract_from_comment:
  assumes "ticket_token tid"
  shows "extract_ticket_id (ticket_comment tid @ sql) = Done (Some tid)"
proof -
  have plain_tid: "list_all plain tid" "tid \<noteq> []"
    using assms by (auto simp: ticket_token_def list_all_iff)
  then have "trim tid = tid"
    by (intro trim_plain) (auto simp: list_all_iff)
  then have "try_prefixes ticket_prefixes (''dn_ticket:'' @ tid) = Some (Some tid)"
    using plain_tid by (simp add: ticket_prefixes_def lower_dn_ticket first_word_plain
        del: append_Cons)
  moreover have "starts_with ''/*'' (ticket_comment tid @ sql)"
    by (simp add: ticket_comment_def starts_with_def)
  moreover have "trim_start_matches (\<lambda>c. c = CHR ''+'') (''dn_ticket:'' @ tid) = ''dn_ticket:'' @ tid"
    by (simp add: trim_start_matches_def)
  ultimately show ?thesis
    by (simp add: extract_ticket_id_def trim_start_comment find_comment_end [OF assms]
        slice_comment [OF assms] comment_body_trim [OF assms] Let_def del: append_Cons)
qed

lemma strip_comment:
  assumes "ticket_token tid"
  shows "strip_ticket_comment (ticket_comment tid @ sql) = Done (trim_start sql)"
proof -
  have "to_ascii_lowercase (''dn_ticket:'' @ tid) = ''dn_ticket:'' @ to_ascii_lowercase tid"
    by (simp only: to_ascii_lowercase_append lower_dn_ticket)
  also have "\<dots> = [] @ ''dn_ticket'' @ ('':'' @ to_ascii_lowercase tid)" by simp
  finally have "contains ''dn_ticket'' (to_ascii_lowercase (''dn_ticket:'' @ tid))"
    unfolding contains_iff by blast
  moreover have "drop (12 + length tid + 2) (ticket_comment tid @ sql) = sql"
  proof -
    have "12 + length tid + 2 = length (ticket_comment tid)" by (simp add: ticket_comment_def)
    then show ?thesis by (simp only: append_eq_conv_conj [symmetric] drop_append) simp
  qed
  moreover have "starts_with ''/*'' (ticket_comment tid @ sql)"
    by (simp add: ticket_comment_def starts_with_def)
  ultimately show ?thesis
    by (simp add: strip_ticket_comment_def trim_start_comment find_comment_end [OF assms]
        slice_comment [OF assms] Let_def del: append_Cons to_ascii_lowercase_append)
qed

lemma fingerprint_loop_trim_start:
  "fingerprint_loop [] p (trim_start s) = fingerprint_loop [] p s"
proof (induction s rule: trim_start.induct)
  case (1 s)
  show ?case
  proof (cases "0 < ws_prefix s")
    case True
    then have "s \<noteq> []" by (rule ws_prefix_pos_nonempty)
    with True have "fingerprint_loop [] p s = fingerprint_loop [] p (drop (ws_prefix s) s)"
      by (subst fingerprint_loop.simps) simp
    moreover have "trim_start s = trim_start (drop (ws_prefix s) s)"
      using True by (subst trim_start.simps) simp
    ultimately show ?thesis using 1 True by simp
  next
    case False
    then show ?thesis by (simp add: trim_start_id)
  qed
qed

lemma fingerprint_with_comment:
  assumes "ticket_token tid"
  shows "sql_fingerprint (ticket_comment tid @ sql) = Done (normalize_sql sql)"
  by (simp add: sql_fingerprint_def strip_comment [OF assms] normalize_sql_def
      fingerprint_loop_trim_start)

lemma issued_id_token: "ticket_token (ticket_id now n)"
proof -
  have "list_all (\<lambda>c. plain c \<and> c \<noteq> CHR ''*'') (show_nat m)" for m
    using show_nat_digits [of m]
    by (auto simp: list_all_iff is_ascii_digit_def plain_def)
  then show ?thesis by (simp add: ticket_token_def ticket_id_def plain_def)
qed

section \<open>How often a ticket can be used\<close>

text \<open>The number of successes among \<open>k\<close> consecutive attempts.\<close>

fun consume_count :: "nat \<Rightarrow> nat \<Rightarrow> str \<Rightarrow> str \<Rightarrow> str \<Rightarrow> str option \<Rightarrow> ticket_store \<Rightarrow> nat" where
  "consume_count 0 now tid subject sql et st = 0"
| "consume_count (Suc k) now tid subject sql et st =
     (case consume now tid subject sql et st of
        Done (Inr (_, st')) \<Rightarrow> Suc (consume_count k now tid subject sql et st')
      | _ \<Rightarrow> consume_count k now tid subject sql et st)"

lemma get_store_put [simp]: "get_ticket (store_put st tid t) tid = Some t"
  by (simp add: get_ticket_def store_put_def)

lemma consume_count_eq:
  assumes "sql_fingerprint sql = Done fp"
    and "get_ticket st tid = Some t" and "now \<le> expires_at t" and "tk_status t = TActive"
    and "eq_ignore_ascii_case (tk_subject t) subject" and "type_ok et t" and "tk_fingerprint t = fp"
    and "uses t \<le> max_uses t"
  shows "consume_count k now tid subject sql et st = min k (max_uses t - uses t)"
  using assms
proof (induction k arbitrary: st t)
  case (Suc k)
  show ?case
  proof (cases "uses t < max_uses t")
    case True
    let ?t = "t\<lparr>uses := uses t + 1\<rparr>"
    have "consume now tid subject sql et st = Done (Inr (?t, store_put st tid ?t))"
      using Suc.prems True by (auto simp: consume_Inr_iff consumable_def)
    moreover have "consume_count k now tid subject sql et (store_put st tid ?t) =
        min k (max_uses ?t - uses ?t)"
      by (rule Suc.IH) (use Suc.prems True in \<open>simp_all add: type_ok_def split: option.splits\<close>)
    ultimately show ?thesis using True by simp
  next
    case False
    have "consume now tid subject sql et st \<noteq> Done (Inr r)" for r
      using Suc.prems False by (cases r) (auto simp: consume_Inr_iff consumable_def)
    then have "consume_count (Suc k) now tid subject sql et st =
        consume_count k now tid subject sql et st"
      by (auto split: run.splits sum.splits)
    with Suc False show ?thesis by simp
  qed
qed simp

section \<open>Replay\<close>

text \<open>
  A sequence of attempts, by any sessions in any order: each attempt that succeeds changes the store
  and is recorded.
\<close>

definition attempt_step ::
  "('q \<Rightarrow> 'k \<Rightarrow> 's \<Rightarrow> 's option) \<Rightarrow> 'k list \<times> 's \<Rightarrow> 'q \<times> 'k \<Rightarrow> 'k list \<times> 's" where
  "attempt_step spend acc a =
     (case spend (fst a) (snd a) (snd acc) of
        None \<Rightarrow> acc
      | Some st' \<Rightarrow> (fst acc @ [snd a], st'))"

text \<open>
  The contract a store of use-limited grants keeps: a successful use costs one of the uses left of
  its own grant and none of another's.
\<close>

locale use_budget =
  fixes spend :: "'q \<Rightarrow> 'k \<Rightarrow> 's \<Rightarrow> 's option"
    and uses_left :: "'s \<Rightarrow> 'k \<Rightarrow> nat"
  assumes spend_own: "spend q k st = Some st' \<Longrightarrow> uses_left st k = Suc (uses_left st' k)"
    and spend_other: "spend q k st = Some st' \<Longrightarrow> k' \<noteq> k \<Longrightarrow> uses_left st' k' = uses_left st k'"
begin

lemma attempts_balance:
  "count_list (fst (foldl (attempt_step spend) acc as)) k + uses_left (snd (foldl (attempt_step spend) acc as)) k
   = count_list (fst acc) k + uses_left (snd acc) k"
proof (induction as arbitrary: acc)
  case (Cons a as)
  show ?case
  proof (cases "spend (fst a) (snd a) (snd acc)")
    case None
    then show ?thesis using Cons [of acc] by (simp add: attempt_step_def)
  next
    case (Some st')
    then show ?thesis
      using Cons [of "(fst acc @ [snd a], st')"] spend_own [OF Some] spend_other [OF Some, of k]
      by (cases "k = snd a") (simp_all add: attempt_step_def)
  qed
qed simp

lemma attempts_bounded:
  "count_list (fst (foldl (attempt_step spend) ([], st) as)) k \<le> uses_left st k"
  using attempts_balance [of "([], st)" as k] by simp

end

record use_request =
  ur_now :: nat
  ur_subject :: str
  ur_sql :: str
  ur_type :: "str option"

definition spend_ticket :: "use_request \<Rightarrow> str \<Rightarrow> ticket_store \<Rightarrow> ticket_store option" where
  "spend_ticket q tid st =
     (case consume (ur_now q) tid (ur_subject q) (ur_sql q) (ur_type q) st of
        Done (Inr (_, st')) \<Rightarrow> Some st'
      | _ \<Rightarrow> None)"

definition ticket_uses_left :: "ticket_store \<Rightarrow> str \<Rightarrow> nat" where
  "ticket_uses_left st tid = (case get_ticket st tid of None \<Rightarrow> 0 | Some t \<Rightarrow> remaining_uses t)"

lemma spend_ticket_Some:
  assumes "spend_ticket q tid st = Some st'"
  obtains t where "get_ticket st tid = Some t" and "uses t < max_uses t"
    and "st' = store_put st tid (t\<lparr>uses := uses t + 1\<rparr>)"
proof -
  obtain t' where "consume (ur_now q) tid (ur_subject q) (ur_sql q) (ur_type q) st = Done (Inr (t', st'))"
    using assms by (auto simp: spend_ticket_def split: run.splits sum.splits)
  then show thesis using that by (auto simp: consume_Inr_iff consumable_def)
qed

interpretation ticket_budget: use_budget spend_ticket ticket_uses_left
proof
  fix q k st st'
  assume "spend_ticket q k st = Some st'"
  then show "ticket_uses_left st k = Suc (ticket_uses_left st' k)"
    by (rule spend_ticket_Some) (simp add: ticket_uses_left_def remaining_uses_def)
next
  fix q k st st' k'
  assume "spend_ticket q k st = Some st'" and "k' \<noteq> k"
  then show "ticket_uses_left st' k' = ticket_uses_left st k'"
    by (elim spend_ticket_Some) (simp add: ticket_uses_left_def get_ticket_def store_put_def)
qed

lemma reload_ids_below_seq:
  assumes "store_ok st" and "ids_below_seq st" and "seq st \<le> u64_max"
  shows "ids_below_seq (load_tickets (ticket_file st))"
proof -
  have "\<exists>now n. k = ticket_id now n \<and> n < seq (load_tickets (ticket_file st))"
    if "k \<in> fst ` set (tickets (load_tickets (ticket_file st)))" for k
  proof -
    have "get_ticket (load_tickets (ticket_file st)) k \<noteq> None"
      using that by (auto simp: get_ticket_def map_of_eq_None_iff)
    then obtain t where t: "get_ticket st k = Some t"
      using load_ticket_file_get [OF assms(1)] by auto
    then have "(k, t) \<in> set (tickets st)" by (auto simp: get_ticket_def dest: map_of_SomeD)
    moreover from this have "t \<in> set (ticket_file st)" "tk_id t = k"
      using assms(1) by (force simp: ticket_file_def store_ok_def)+
    moreover obtain now n where "k = ticket_id now n" "n < seq st"
      using assms(2) \<open>(k, t) \<in> set (tickets st)\<close> unfolding ids_below_seq_def by force
    ultimately show ?thesis
      using tf.load_seq_bound [of t "ticket_file st" _ n "([], 1)"] assms(3)
      by (auto simp: load_tickets_simps ticket_id_seq)
  qed
  then show ?thesis unfolding ids_below_seq_def by blast
qed

lemma issued_ticket_consumed:
  assumes "issue now req st = Done (t, st')" and "\<not> rq_dual_control req" and "now \<le> later"
    and "later \<le> expires_at t" and "\<not> starts_with ''/*'' (trim_start (rq_sql req))"
  shows "consume later (tk_id t) (rq_subject req) (ticket_comment (tk_id t) @ rq_sql req) (Some (tk_type t)) st' =
    Done (Inr (t\<lparr>uses := 1\<rparr>, store_put st' (tk_id t) (t\<lparr>uses := 1\<rparr>)))"
proof -
  have fp: "sql_fingerprint (rq_sql req) = Done (normalize_sql (rq_sql req))"
    using assms(5) by (simp add: sql_fingerprint_def strip_ticket_comment_def Let_def)
  have t: "tk_id t = ticket_id now (seq st)" "get_ticket st' (tk_id t) = Some t" "uses t = 0" "1 \<le> max_uses t"
    "tk_status t = TActive" "tk_subject t = rq_subject req" "tk_fingerprint t = normalize_sql (rq_sql req)"
    using assms(1,2) fp
    by (auto simp: issue_def Let_def get_ticket_def)
  moreover have "ticket_token (tk_id t)" using t(1) issued_id_token by simp
  ultimately show ?thesis
    using assms(4) by (auto simp: consume_Inr_iff fingerprint_with_comment consumable_def type_ok_def
        eq_ignore_ascii_case_def)
qed

text \<open>
  Consuming succeeds exactly when the ticket exists, has not expired, is active,
  has a use left, and is bound to this subject, this type and this normalised statement; the store
  changes by one use of that ticket.
\<close>

lemma consume_succeeds_iff:
  "consume now tid subject sql et st = Done (Inr (t', st')) \<longleftrightarrow>
     (\<exists>t. get_ticket st tid = Some t \<and> sql_fingerprint sql = Done (tk_fingerprint t) \<and>
        now \<le> expires_at t \<and> tk_status t = TActive \<and> uses t < max_uses t \<and>
        eq_ignore_ascii_case (tk_subject t) subject \<and>
        (\<forall>ty. et = Some ty \<and> ty \<noteq> [] \<longrightarrow> eq_ignore_ascii_case (tk_type t) ty) \<and>
        t' = t\<lparr>uses := uses t + 1\<rparr> \<and> st' = store_put st tid t')"
  by (auto simp: consume_Inr_iff consumable_def type_ok_def split: option.splits)

end
