(* ===== verification/Pdp.thy ===== *)
theory Pdp
  imports Select_Rewrite Remote_Pdp Ticket
begin

text \<open>
  The local policy decision point of \<open>gateway/core/src/pdp.rs\<close>: its snapshot
  (\<open>LocalPdpInner\<close>), the gates a statement passes (table rules, Cedar, remote, time windows,
  high-risk tickets), and \<open>authorize_command_with_objects\<close>, which threads the ticket store.

  Every helper of the source loads the snapshot again (\<open>self.inner()\<close>), and a policy reload may
  happen between two loads.  \<open>view\<close> gives the snapshot each load sees; a call during which no
  reload happens has a constant \<open>view\<close>.

  Outside the sources: the Cedar engine (a function to \<open>Ok\<close> or an error text), the HTTP exchange
  of the remote client, the wall clock and the civil-time conversion.  They are in \<open>pdp_env\<close> and in
  the snapshot.
\<close>

section \<open>State and environment\<close>

type_synonym cedar_engine = "str \<Rightarrow> statement_action \<Rightarrow> str list \<Rightarrow> str + unit"

record local_pdp =
  p_fail_closed :: bool
  p_star_policy :: star_policy
  p_rules :: "security_rule list"
  p_mask_rules :: "mask_rule list"
  p_column_tags :: "column_tag list"
  p_high_risk_rules :: "high_risk_rule list"
  p_time_rules :: "time_rule list"
  p_default_max_rows :: "nat option"
  p_watermark :: watermark_config
  p_cedar :: "cedar_engine option"
  p_cedar_required :: bool
  p_remote :: "remote_client option"

datatype load_point =
    LEntry | LRules | LCedar | LRemote | LTime | LHighRisk | LHasColumns | LColumnAcl | LRowFilter
  | LMasks | LWatermark

type_synonym pdp_view = "load_point \<Rightarrow> local_pdp"

record pdp_env =
  env_now :: int
  env_now_ms :: nat
  env_local_offset :: int
  env_civil :: civil
  env_http :: http_exchange
  env_debug_list :: "str list \<Rightarrow> str"

definition has_column_rules :: "local_pdp \<Rightarrow> bool" where
  "has_column_rules p \<longleftrightarrow> (\<exists>r \<in> set (p_rules p). sr_columns r \<noteq> [])"

definition has_mask_config :: "local_pdp \<Rightarrow> bool" where
  "has_mask_config p \<longleftrightarrow> p_column_tags p \<noteq> [] \<and> p_mask_rules p \<noteq> []"

section \<open>The gates\<close>

definition evaluate_cedar :: "local_pdp \<Rightarrow> subject \<Rightarrow> statement_action \<Rightarrow> str list \<Rightarrow> security_decision option" where
  "evaluate_cedar p subject action tables =
     (if \<not> p_cedar_required p then None
      else case p_cedar p of
          None \<Rightarrow> Some (Deny ''cedar'' ''cedar PDP failed to load; deny (fail closed)'')
        | Some engine \<Rightarrow>
            (case engine (subject_id subject) action tables of
               Inr _ \<Rightarrow> None
             | Inl message \<Rightarrow> Some (Deny ''cedar'' message)))"

definition evaluate_remote ::
  "pdp_env \<Rightarrow> local_pdp \<Rightarrow> subject \<Rightarrow> str \<Rightarrow> statement_action \<Rightarrow> str list \<Rightarrow> str
   \<Rightarrow> security_decision option run" where
  "evaluate_remote env p subject service action tables sql =
     (case p_remote p of
        None \<Rightarrow> Done None
      | Some client \<Rightarrow>
          run_bind (sql_fingerprint sql) (\<lambda>fp. Done (
            case remote_authorize_tables (env_http env) (env_debug_list env) client
                   (subject_id subject) service action tables (Some fp) of
              Inr _ \<Rightarrow> None
            | Inl message \<Rightarrow> if rc_fail_closed client then Some (Deny ''remote'' message) else None)))"

definition default_time_actions :: "str list" where
  "default_time_actions = [''insert'', ''update'', ''delete'', ''ddl'']"

definition time_rule_hits ::
  "pdp_env \<Rightarrow> subject \<Rightarrow> statement_action \<Rightarrow> object_set option \<Rightarrow> str list \<Rightarrow> time_rule \<Rightarrow> bool" where
  "time_rule_hits env subject action objects tables tr \<longleftrightarrow>
     \<not> (tr_subjects tr \<noteq> [] \<and> \<not> glob_any (tr_subjects tr) (subject_id subject)) \<and>
     action_matches_actions (if tr_actions tr = [] then default_time_actions else tr_actions tr) action \<and>
     \<not> (tr_tables tr \<noteq> [] \<and> \<not> tables_hit (tr_tables tr) objects tables) \<and>
     matches_now (env_local_offset env) (env_civil env) tr (env_now env)"

definition en_dash :: str where
  "en_dash = [CHR 0xE2, CHR 0x80, CHR 0x93]"

definition time_message :: "time_rule \<Rightarrow> statement_action \<Rightarrow> str" where
  "time_message tr action =
     (if trim (tr_message tr) = []
      then ''security time policy '' @ quoted (tr_name tr) @ '' blocked '' @ action_as_str action
           @ '' outside allowed window ('' @ tr_start tr @ en_dash @ tr_end tr @ '' '' @ tr_timezone tr @ '')''
      else ''security time policy '' @ quoted (tr_name tr) @ '': '' @ tr_message tr)"

text \<open>Both ticket paths: no comment gives the hint, a refused ticket gives the store's reason.\<close>

definition present_ticket ::
  "nat \<Rightarrow> subject \<Rightarrow> str \<Rightarrow> str \<Rightarrow> str \<Rightarrow> str \<Rightarrow> ticket_store \<Rightarrow> ((str + str) \<times> ticket_store) run" where
  "present_ticket now subject sql ttype hint refusal st =
     run_bind (extract_ticket_id sql) (\<lambda>tid.
       case tid of
         None \<Rightarrow> Done (Inl hint, st)
       | Some t0 \<Rightarrow>
           run_bind (consume now t0 (subject_id subject) sql (Some ttype) st) (\<lambda>r. Done (
             case r of
               Inl e \<Rightarrow> (Inl (refusal @ e), st)
             | Inr (t, st') \<Rightarrow> (Inr (tk_id t), st'))))"

definition try_consume_time_ticket ::
  "nat \<Rightarrow> subject \<Rightarrow> str \<Rightarrow> time_rule \<Rightarrow> ticket_store \<Rightarrow> ((str + str) \<times> ticket_store) run" where
  "try_consume_time_ticket now subject sql tr st =
     present_ticket now subject sql (tr_ticket_type tr)
       (''security time policy '' @ quoted (tr_name tr) @ '': ''
        @ (if trim (tr_message tr) = [] then ''outside allowed time window; ticket required''
           else tr_message tr)
        @ '' (ticket type '' @ quoted (tr_ticket_type tr) @ ''; prefix SQL with /*dn_ticket:<id>*/)'')
       (''security time policy '' @ quoted (tr_name tr) @ '' ticket rejected: '') st"

definition try_consume_ticket ::
  "nat \<Rightarrow> subject \<Rightarrow> str \<Rightarrow> high_risk_rule \<Rightarrow> ticket_store \<Rightarrow> ((str + str) \<times> ticket_store) run" where
  "try_consume_ticket now subject sql hr st =
     present_ticket now subject sql (hr_ticket_type hr)
       (if trim (hr_message hr) = []
        then ''security policy '' @ quoted (hr_name hr) @ '' requires ticket type ''
             @ quoted (hr_ticket_type hr)
             @ ''; re-issue via POST /admin/tickets and prefix SQL with /*dn_ticket:<id>*/''
        else ''security policy '' @ quoted (hr_name hr) @ '': '' @ hr_message hr @ '' (ticket type ''
             @ quoted (hr_ticket_type hr) @ ''; prefix SQL with /*dn_ticket:<id>*/)'')
       (''security policy '' @ quoted (hr_name hr) @ '' ticket rejected: '') st"

definition evaluate_time_rules ::
  "pdp_env \<Rightarrow> local_pdp \<Rightarrow> subject \<Rightarrow> statement_action \<Rightarrow> str \<Rightarrow> object_set option \<Rightarrow> str list
   \<Rightarrow> ticket_store \<Rightarrow> (security_decision option \<times> ticket_store) run" where
  "evaluate_time_rules env p subject action sql objects tables st =
     (case find (time_rule_hits env subject action objects tables) (p_time_rules p) of
        None \<Rightarrow> Done (None, st)
      | Some tr \<Rightarrow>
          if to_ascii_lowercase (tr_effect tr) = ''require_ticket''
          then run_bind (try_consume_time_ticket (env_now_ms env) subject sql tr st) (\<lambda>(r, st'). Done (
                 case r of
                   Inr _ \<Rightarrow> (None, st')
                 | Inl message \<Rightarrow> (Some (RequireTicket (tr_name tr) (tr_ticket_type tr) message), st')))
          else Done (Some (Deny (tr_name tr) (time_message tr action)), st))"

definition export_hit :: "str \<Rightarrow> bool run" where
  "export_hit sql =
     run_bind (strip_ticket_comment sql) (\<lambda>s.
       let u = to_ascii_uppercase s
       in Done (contains '' INTO OUTFILE'' u \<or> contains ''DUMPFILE'' u \<or> starts_with ''COPY '' u
                \<or> contains '' COPY '' u))"

definition high_risk_hit ::
  "statement_action \<Rightarrow> str \<Rightarrow> object_set option \<Rightarrow> str list \<Rightarrow> high_risk_rule \<Rightarrow> bool run" where
  "high_risk_hit action sql objects tables hr =
     (let kind = to_ascii_lowercase (hr_kind hr)
      in if kind = ''ddl'' then Done (action = ADdl)
         else if kind = ''write_no_where'' then is_write_without_where sql
         else if kind = ''export'' then export_hit sql
         else if kind = ''action''
           then Done (hr_actions hr \<noteq> [] \<and> action_matches_actions (hr_actions hr) action)
         else if kind = ''table_write''
           then Done (action \<in> {AInsert, AUpdate, ADelete, ADdl} \<and>
                      (hr_tables hr = [] \<or> tables_hit (hr_tables hr) objects tables))
         else Done False)"

fun match_high_risk ::
  "high_risk_rule list \<Rightarrow> subject \<Rightarrow> statement_action \<Rightarrow> str \<Rightarrow> object_set option \<Rightarrow> str list
   \<Rightarrow> high_risk_rule option run" where
  "match_high_risk [] subject action sql objects tables = Done None"
| "match_high_risk (hr # hrs) subject action sql objects tables =
     (if hr_subjects hr \<noteq> [] \<and> \<not> glob_any (hr_subjects hr) (subject_id subject)
      then match_high_risk hrs subject action sql objects tables
      else run_bind (high_risk_hit action sql objects tables hr) (\<lambda>hit.
        if hit then Done (Some hr) else match_high_risk hrs subject action sql objects tables))"

definition high_risk_gate ::
  "pdp_env \<Rightarrow> local_pdp \<Rightarrow> subject \<Rightarrow> statement_action \<Rightarrow> str \<Rightarrow> object_set option \<Rightarrow> str list
   \<Rightarrow> ticket_store \<Rightarrow> (security_decision option \<times> ticket_store) run" where
  "high_risk_gate env p subject action sql objects tables st =
     run_bind (match_high_risk (p_high_risk_rules p) subject action sql objects tables) (\<lambda>m.
       case m of
         None \<Rightarrow> Done (None, st)
       | Some hr \<Rightarrow>
           run_bind (try_consume_ticket (env_now_ms env) subject sql hr st) (\<lambda>(r, st'). Done (
             case r of
               Inr _ \<Rightarrow> (None, st')
             | Inl message \<Rightarrow> (Some (RequireTicket (hr_name hr) (hr_ticket_type hr) message), st'))))"

section \<open>The watermark token\<close>

fun show_hex :: "nat \<Rightarrow> str" where
  "show_hex n = (if n < 16 then [hex_digit n] else show_hex (n div 16) @ [hex_digit (n mod 16)])"

declare show_hex.simps [simp del]

definition build_watermark :: "pdp_env \<Rightarrow> local_pdp \<Rightarrow> subject \<Rightarrow> str \<Rightarrow> watermark_spec option" where
  "build_watermark env p subject service =
     (let w = p_watermark p
      in if \<not> wc_enabled w then None
         else Some \<lparr>wm_mode = watermark_mode_parse (wc_mode w),
                     wm_column = (if trim (wc_column w) = [] then ''_dn_wm'' else wc_column w),
                     wm_token = (if trim (wc_token w) = []
                       then subject_id subject @ ''|'' @ service @ ''|'' @ show_hex (env_now_ms env)
                       else wc_token w)\<rparr>)"

section \<open>Authorizing a command\<close>

definition fail_closed_deny :: "str \<Rightarrow> security_decision" where
  "fail_closed_deny why =
     Deny ''fail_closed'' (''security policy deny: '' @ why @ '' (fail_closed)'')"

definition objects_unusable :: "object_set option \<Rightarrow> bool" where
  "objects_unusable objects \<longleftrightarrow>
     (case objects of Some os \<Rightarrow> os_parse_failed os \<and> os_objects os = [] | None \<Rightarrow> False)"

text \<open>The statement class, or the denial of an unclassified statement.\<close>

definition classify :: "local_pdp \<Rightarrow> (str \<Rightarrow> str option) \<Rightarrow> str \<Rightarrow> security_decision + statement_action" where
  "classify p leading sql =
     (case leading sql of
        Some k \<Rightarrow> Inr (from_keyword k)
      | None \<Rightarrow>
          if p_fail_closed p then Inl (fail_closed_deny ''empty or unparseable SQL'') else Inr AOther)"

definition request_objects :: "object_set option \<Rightarrow> str \<Rightarrow> str list \<times> str list" where
  "request_objects objects sql =
     (case objects of
        Some os \<Rightarrow>
          if os_parse_failed os \<and> os_objects os \<noteq> [] then (object_tables os, collect_bare_columns os)
          else if os_parse_failed os then (extract_table_names sql, [])
          else (object_tables os, collect_bare_columns os)
      | None \<Rightarrow> (extract_table_names sql, []))"

text \<open>
  The gates in order; \<open>None\<close> lets the statement through.  The ticket store changes when a time
  rule or a high-risk rule consumes a ticket.
\<close>

definition run_gates ::
  "pdp_view \<Rightarrow> pdp_env \<Rightarrow> subject \<Rightarrow> str \<Rightarrow> statement_action \<Rightarrow> str \<Rightarrow> object_set option \<Rightarrow> str list
   \<Rightarrow> str list \<Rightarrow> ticket_store \<Rightarrow> (security_decision option \<times> ticket_store) run" where
  "run_gates view env subject service action sql objects tables columns st =
     (let table_decision = evaluate (p_rules (view LRules))
            \<lparr>ar_subject = subject, ar_service = service, ar_action = action, ar_tables = tables,
         ar_columns = columns, ar_sql = Some sql\<rparr>
      in if is_deny table_decision then Done (Some table_decision, st)
      else case evaluate_cedar (view LCedar) subject action tables of
        Some d \<Rightarrow> Done (Some d, st)
      | None \<Rightarrow>
          run_bind (evaluate_remote env (view LRemote) subject service action tables sql) (\<lambda>r.
            case r of
              Some d \<Rightarrow> Done (Some d, st)
            | None \<Rightarrow>
                run_bind (evaluate_time_rules env (view LTime) subject action sql objects tables st)
                  (\<lambda>(t, st1).
                    case t of
                      Some d \<Rightarrow> Done (Some d, st1)
                    | None \<Rightarrow>
                        high_risk_gate env (view LHighRisk) subject action sql objects tables st1)))"

text \<open>The column rules of the SQL path: the rewritten text if any, or the decision that ends it.\<close>

definition column_stage ::
  "pdp_view \<Rightarrow> subject \<Rightarrow> str \<Rightarrow> statement_action \<Rightarrow> object_set option \<Rightarrow> str
   \<Rightarrow> (security_decision + str option) run" where
  "column_stage view subject service action objects sql =
     (if \<not> has_column_rules (view LHasColumns) then Done (Inr None)
      else case objects of
          None \<Rightarrow> Done (Inr None)
        | Some os \<Rightarrow>
            if \<not> os_parse_failed os \<or> os_objects os \<noteq> []
            then run_bind (evaluate_column_acl (p_star_policy (view LColumnAcl)) (p_rules (view LColumnAcl))
                             subject service action os sql) (\<lambda>r. Done (
                   case r of
                     AclUnchanged \<Rightarrow> Inr None
                   | AclRewrite s \<Rightarrow> Inr (Some s)
                   | AclDeny rule message \<Rightarrow> Inl (Deny rule message)))
            else if p_fail_closed (view LEntry)
            then Done (Inl (fail_closed_deny ''column ACL requires parseable SQL''))
            else Done (Inr None))"

text \<open>The row filter of the SQL path: text and recorded filter, or the denial.\<close>

definition row_filter_stage ::
  "pdp_view \<Rightarrow> subject \<Rightarrow> statement_action \<Rightarrow> object_set option \<Rightarrow> str list \<Rightarrow> str \<Rightarrow> str option
   \<Rightarrow> (security_decision + (str option \<times> str option)) run" where
  "row_filter_stage view subject action objects tables sql rewritten =
     (if action \<noteq> ASelect then Done (Inr (rewritten, None))
      else case collect_row_filter (p_rules (view LRowFilter)) subject action objects tables of
          None \<Rightarrow> Done (Inr (rewritten, None))
        | Some f \<Rightarrow>
            run_bind (inject_row_filter (case rewritten of None \<Rightarrow> sql | Some w \<Rightarrow> w) f) (\<lambda>r. Done (
              case r of
                Some next \<Rightarrow> Inr (Some next, Some f)
              | None \<Rightarrow>
                  if p_fail_closed (view LEntry)
                  then Inl (Deny ''row_filter'' (''security policy deny: cannot inject row_filter ''
                         @ quoted f @ '' into SQL''))
                  else Inr (rewritten, None))))"

definition select_obligations ::
  "pdp_view \<Rightarrow> pdp_env \<Rightarrow> subject \<Rightarrow> str \<Rightarrow> statement_action \<Rightarrow> object_set option \<Rightarrow> str list \<Rightarrow> str list
   \<Rightarrow> str option \<Rightarrow> obligations" where
  "select_obligations view env subject service action objects tables columns rf =
     \<lparr>column_masks =
        (if action = ASelect
         then collect_mask_specs (p_mask_rules (view LMasks)) (p_column_tags (view LMasks)) subject
                objects tables columns
         else []),
      row_filter = rf, max_rows = p_default_max_rows (view LEntry), audit_level = None,
      watermark = (if action = ASelect then build_watermark env (view LWatermark) subject service
                   else None)\<rparr>"

definition shape_statement ::
  "pdp_view \<Rightarrow> pdp_env \<Rightarrow> subject \<Rightarrow> str \<Rightarrow> statement_action \<Rightarrow> object_set option \<Rightarrow> str list \<Rightarrow> str list
   \<Rightarrow> str \<Rightarrow> security_decision run" where
  "shape_statement view env subject service action objects tables columns sql =
     run_bind (column_stage view subject service action objects sql) (\<lambda>c.
       case c of
         Inl d \<Rightarrow> Done d
       | Inr rewritten \<Rightarrow>
           run_bind (row_filter_stage view subject action objects tables sql rewritten) (\<lambda>r. Done (
             case r of
               Inl d \<Rightarrow> d
             | Inr (text, rf) \<Rightarrow>
                 let ob = select_obligations view env subject service action objects tables columns rf
                 in (case text of Some s \<Rightarrow> AllowRewrite s ob | None \<Rightarrow> Allow ob))))"

definition authorize_sql ::
  "pdp_view \<Rightarrow> pdp_env \<Rightarrow> (str \<Rightarrow> str option) \<Rightarrow> subject \<Rightarrow> str \<Rightarrow> str \<Rightarrow> object_set option
   \<Rightarrow> ticket_store \<Rightarrow> (security_decision \<times> ticket_store) run" where
  "authorize_sql view env leading subject service sql objects st =
     (if objects_unusable objects \<and> p_fail_closed (view LEntry)
      then Done (fail_closed_deny ''SQL object extraction failed'', st)
      else case classify (view LEntry) leading sql of
          Inl d \<Rightarrow> Done (d, st)
        | Inr action \<Rightarrow>
            (case request_objects objects sql of (tables, columns) \<Rightarrow>
              run_bind (run_gates view env subject service action sql objects tables columns st) (\<lambda>(g, st').
                case g of
                  Some d \<Rightarrow> Done (d, st')
                | None \<Rightarrow>
                    run_bind (shape_statement view env subject service action objects tables columns sql)
                      (\<lambda>d. Done (d, st')))))"

definition authorize_command_with_objects ::
  "pdp_view \<Rightarrow> pdp_env \<Rightarrow> (str \<Rightarrow> str option) \<Rightarrow> subject \<Rightarrow> str \<Rightarrow> gateway_command \<Rightarrow> object_set option
   \<Rightarrow> ticket_store \<Rightarrow> (security_decision \<times> ticket_store) run" where
  "authorize_command_with_objects view env leading subject service command objects st =
     (case command of
        Ping \<Rightarrow> Done (Allow obligations_default, st)
      | Quit \<Rightarrow> Done (Allow obligations_default, st)
      | CloseStatement _ \<Rightarrow> Done (Allow obligations_default, st)
      | ClientWire _ \<Rightarrow> Done (Allow obligations_default, st)
      | PgBackendSync \<Rightarrow> Done (Allow obligations_default, st)
      | UseDatabase db \<Rightarrow>
          Done (evaluate (p_rules (view LRules))
                  \<lparr>ar_subject = subject, ar_service = service, ar_action = AOther, ar_tables = [db],
                   ar_columns = [], ar_sql = None\<rparr>, st)
      | Execute _ _ \<Rightarrow>
          Done (if p_fail_closed (view LEntry)
                then fail_closed_deny ''prepared EXECUTE not classified''
                else Allow (obligations_default\<lparr>max_rows := p_default_max_rows (view LEntry)\<rparr>), st)
      | Query sql \<Rightarrow> authorize_sql view env leading subject service sql objects st
      | QueryParams sql _ \<Rightarrow> authorize_sql view env leading subject service sql objects st
      | Prepare sql \<Rightarrow> authorize_sql view env leading subject service sql objects st
      | DescribeSql sql \<Rightarrow> authorize_sql view env leading subject service sql objects st
      | _ \<Rightarrow>
          Done (evaluate (p_rules (view LRules))
                  \<lparr>ar_subject = subject, ar_service = service, ar_action = ATcl, ar_tables = [],
                   ar_columns = [], ar_sql = None\<rparr>, st))"

definition authorize_command ::
  "pdp_view \<Rightarrow> pdp_env \<Rightarrow> (str \<Rightarrow> str option) \<Rightarrow> subject \<Rightarrow> str \<Rightarrow> gateway_command \<Rightarrow> ticket_store
   \<Rightarrow> (security_decision \<times> ticket_store) run" where
  "authorize_command view env leading subject service command st =
     authorize_command_with_objects view env leading subject service command None st"

definition sql_from_command :: "gateway_command \<Rightarrow> str option" where
  "sql_from_command command =
     (case command of
        Query sql \<Rightarrow> Some sql | QueryParams sql _ \<Rightarrow> Some sql | Prepare sql \<Rightarrow> Some sql | _ \<Rightarrow> None)"

definition action_from_command :: "(str \<Rightarrow> str option) \<Rightarrow> gateway_command \<Rightarrow> statement_action" where
  "action_from_command leading command =
     (case command of
        Begin \<Rightarrow> ATcl | Commit \<Rightarrow> ATcl | Rollback \<Rightarrow> ATcl
      | UseDatabase _ \<Rightarrow> AOther
      | _ \<Rightarrow> (case sql_from_command command of
                None \<Rightarrow> AOther
              | Some sql \<Rightarrow> (case leading sql of None \<Rightarrow> AOther | Some k \<Rightarrow> from_keyword k)))"

section \<open>What an allowed statement has passed\<close>

lemma gate_never_allows:
  "evaluate_cedar p subject action tables = Some d \<Longrightarrow> is_deny d"
  "evaluate_remote env p subject service action tables sql = Done (Some d) \<Longrightarrow> is_deny d"
  "evaluate_time_rules env p subject action sql objects tables st = Done (Some d, st') \<Longrightarrow> is_deny d"
  "high_risk_gate env p subject action sql objects tables st = Done (Some d, st') \<Longrightarrow> is_deny d"
  by (auto simp: evaluate_cedar_def evaluate_remote_def evaluate_time_rules_def high_risk_gate_def
      sum_case_eq_iff option_case_eq_iff split: if_splits)

lemma run_gates_pass:
  "run_gates view env subject service action sql objects tables columns st = Done (None, st') \<longleftrightarrow>
     \<not> is_deny (evaluate (p_rules (view LRules))
        \<lparr>ar_subject = subject, ar_service = service, ar_action = action, ar_tables = tables,
         ar_columns = columns, ar_sql = Some sql\<rparr>) \<and>
     evaluate_cedar (view LCedar) subject action tables = None \<and>
     evaluate_remote env (view LRemote) subject service action tables sql = Done None \<and>
     (\<exists>st1. evaluate_time_rules env (view LTime) subject action sql objects tables st = Done (None, st1) \<and>
        high_risk_gate env (view LHighRisk) subject action sql objects tables st1 = Done (None, st'))"
  by (auto simp: run_gates_def Let_def split: option.splits prod.splits)

lemma run_gates_stop:
  assumes "run_gates view env subject service action sql objects tables columns st = Done (Some d, st')"
  shows "is_deny d"
  using assms
  by (auto simp: run_gates_def Let_def dest: gate_never_allows split: option.splits if_splits prod.splits)

lemma authorize_sql_allows:
  assumes "authorize_sql view env leading subject service sql objects st = Done (d, st')"
    and "\<not> is_deny d"
  obtains action tables columns where
    "\<not> (objects_unusable objects \<and> p_fail_closed (view LEntry))"
    and "classify (view LEntry) leading sql = Inr action"
    and "request_objects objects sql = (tables, columns)"
    and "run_gates view env subject service action sql objects tables columns st = Done (None, st')"
    and "shape_statement view env subject service action objects tables columns sql = Done d"
  using assms
  by (auto simp: authorize_sql_def fail_closed_deny_def classify_def dest: run_gates_stop
      split: if_splits sum.splits prod.splits option.splits)

lemma present_ticket_Inr:
  assumes "present_ticket now subject sql ttype hint refusal st = Done (Inr k, st')" and "store_ok st"
  obtains t fp where "extract_ticket_id sql = Done (Some k)" and "sql_fingerprint sql = Done fp"
    and "get_ticket st k = Some t" and "consumable now (subject_id subject) fp (Some ttype) t"
    and "st' = store_put st k (t\<lparr>uses := uses t + 1\<rparr>)"
proof -
  obtain tid t' where tid: "extract_ticket_id sql = Done (Some tid)" and k: "k = tk_id t'"
    and "consume now tid (subject_id subject) sql (Some ttype) st = Done (Inr (t', st'))"
    using assms(1) by (auto simp: present_ticket_def sum_case_eq_iff option_case_eq_iff split: prod.splits)
  then obtain t fp where t: "get_ticket st tid = Some t" "sql_fingerprint sql = Done fp"
      "consumable now (subject_id subject) fp (Some ttype) t" "t' = t\<lparr>uses := uses t + 1\<rparr>"
      "st' = store_put st tid t'"
    by (auto simp: consume_Inr_iff)
  moreover have "k = tid" using k t store_ok_get [OF assms(2) t(1)] by simp
  ultimately show thesis using tid that by blast
qed

lemma present_ticket_Inl:
  "present_ticket now subject sql ttype hint refusal st = Done (Inl e, st') \<Longrightarrow> st' = st"
  by (auto simp: present_ticket_def sum_case_eq_iff option_case_eq_iff split: prod.splits)

lemma present_ticket_store_ok:
  assumes "present_ticket now subject sql ttype hint refusal st = Done (r, st')" and "store_ok st"
  shows "store_ok st'"
proof -
  have "st' = st \<or> (\<exists>tid t'. consume now tid (subject_id subject) sql (Some ttype) st = Done (Inr (t', st')))"
    using assms(1) by (auto simp: present_ticket_def sum_case_eq_iff option_case_eq_iff split: prod.splits)
  then show ?thesis using assms(2) store_ok_step step_consume by blast
qed

text \<open>The ticket that a passed gate has used.\<close>

definition ticket_spent :: "nat \<Rightarrow> subject \<Rightarrow> str \<Rightarrow> str \<Rightarrow> ticket_store \<Rightarrow> ticket_store \<Rightarrow> bool" where
  "ticket_spent now subject sql ttype st st' \<longleftrightarrow>
     (\<exists>k t fp. extract_ticket_id sql = Done (Some k) \<and> sql_fingerprint sql = Done fp \<and>
        get_ticket st k = Some t \<and> consumable now (subject_id subject) fp (Some ttype) t \<and>
        st' = store_put st k (t\<lparr>uses := uses t + 1\<rparr>))"

lemma high_risk_gate_pass:
  assumes "high_risk_gate env p subject action sql objects tables st = Done (None, st')" and "store_ok st"
  shows "case match_high_risk (p_high_risk_rules p) subject action sql objects tables of
     Done None \<Rightarrow> st' = st
   | Done (Some hr) \<Rightarrow> ticket_spent (env_now_ms env) subject sql (hr_ticket_type hr) st st'
   | Panic \<Rightarrow> False"
  using assms(1) unfolding high_risk_gate_def try_consume_ticket_def ticket_spent_def
  by (auto simp: sum_case_eq_iff option_case_eq_iff split: prod.splits
      elim!: present_ticket_Inr [OF _ assms(2)])

lemma time_gate_pass:
  assumes "evaluate_time_rules env p subject action sql objects tables st = Done (None, st')" and "store_ok st"
  shows "case find (time_rule_hits env subject action objects tables) (p_time_rules p) of
     None \<Rightarrow> st' = st
   | Some tr \<Rightarrow> to_ascii_lowercase (tr_effect tr) = ''require_ticket'' \<and>
       ticket_spent (env_now_ms env) subject sql (tr_ticket_type tr) st st'"
  using assms(1) unfolding evaluate_time_rules_def try_consume_time_ticket_def ticket_spent_def
  by (auto simp: sum_case_eq_iff option_case_eq_iff split: prod.splits if_splits
      elim!: present_ticket_Inr [OF _ assms(2)])

section \<open>What an allowed statement carries\<close>

lemma shape_statement_allows:
  assumes "shape_statement view env subject service action objects tables columns sql = Done d"
    and "\<not> is_deny d"
  obtains rewritten out rf where
    "column_stage view subject service action objects sql = Done (Inr rewritten)"
    and "row_filter_stage view subject action objects tables sql rewritten = Done (Inr (out, rf))"
    and "d = (case out of
           Some s \<Rightarrow> AllowRewrite s (select_obligations view env subject service action objects tables columns rf)
         | None \<Rightarrow> Allow (select_obligations view env subject service action objects tables columns rf))"
proof -
  have "is_deny d'" if "column_stage view subject service action objects sql = Done (Inl d')" for d'
    using that by (auto simp: column_stage_def fail_closed_deny_def option_case_eq_iff
        acl_case_eq_iff split: if_splits)
  moreover have "is_deny d'"
    if "row_filter_stage view subject action objects tables sql rw = Done (Inl d')" for d' rw
    using that by (auto simp: row_filter_stage_def option_case_eq_iff split: if_splits)
  ultimately show thesis
    using assms unfolding shape_statement_def
    by (auto simp: sum_case_eq_iff Let_def split: prod.splits intro: that)
qed

lemma shape_obligations:
  assumes "shape_statement view env subject service action objects tables columns sql = Done d"
    and "\<not> is_deny d"
  shows "\<exists>rf. decision_obligations d =
     select_obligations view env subject service action objects tables columns rf"
  using assms by (rule shape_statement_allows) (auto split: option.splits)

lemma row_filter_enforced:
  assumes "row_filter_stage view subject ASelect objects tables sql rewritten = Done (Inr (text, rf))"
    and "p_fail_closed (view LEntry)"
    and "collect_row_filter (p_rules (view LRowFilter)) subject ASelect objects tables = Some f"
  shows "rf = Some f \<and>
    (\<exists>s. text = Some s \<and> inject_row_filter (case rewritten of None \<Rightarrow> sql | Some w \<Rightarrow> w) f = Done (Some s))"
  using assms by (auto simp: row_filter_stage_def option_case_eq_iff)

lemma column_stage_denies:
  assumes "column_stage view subject service action (Some os) sql = Done (Inr rewritten)"
    and "\<not> os_parse_failed os \<or> os_objects os \<noteq> []"
    and "has_column_rules (view LHasColumns)"
    and "action \<noteq> ASelect \<or> set_has_wildcard os"
  shows "\<not> denied_column subject action (p_rules (view LColumnAcl)) (os_objects os) col"
    and "\<not> denied_wildcard (p_star_policy (view LColumnAcl)) subject action
           (p_rules (view LColumnAcl)) (os_objects os)"
proof -
  let ?acl = "evaluate_column_acl (p_star_policy (view LColumnAcl)) (p_rules (view LColumnAcl))
      subject service action os sql"
  from column_acl_non_select [OF assms(4)] have "?acl = Done AclUnchanged"
    using assms(1-3)
    by (fastforce simp: column_stage_def split: column_acl_outcome.splits)
  then show "\<not> denied_column subject action (p_rules (view LColumnAcl)) (os_objects os) col"
    and "\<not> denied_wildcard (p_star_policy (view LColumnAcl)) subject action
           (p_rules (view LColumnAcl)) (os_objects os)"
    by (simp_all add: column_acl_Unchanged)
qed

lemma column_wildcard_denied:
  assumes "column_stage view subject service action (Some os) sql = Done (Inr rewritten)"
    and "\<not> os_parse_failed os \<or> os_objects os \<noteq> []"
    and "has_column_rules (view LHasColumns)"
  shows "\<not> denied_wildcard (p_star_policy (view LColumnAcl)) subject action
           (p_rules (view LColumnAcl)) (os_objects os)"
proof
  assume w: "denied_wildcard (p_star_policy (view LColumnAcl)) subject action
           (p_rules (view LColumnAcl)) (os_objects os)"
  then have "set_has_wildcard os" by (auto simp: denied_wildcard_def set_has_wildcard_def)
  with column_stage_denies(2) [OF assms] w show False by blast
qed

section \<open>Statements that cannot panic\<close>

definition safe_text :: "str \<Rightarrow> bool" where
  "safe_text sql \<longleftrightarrow> is_ascii_str sql \<and> \<not> starts_with ''/*/'' (trim_start sql)"

lemma comment_end_ge2:
  assumes "starts_with ''/*'' s" and "\<not> starts_with ''/*/'' s" and "find_sub ''*/'' s = Some e"
  shows "2 \<le> e \<and> e \<le> length s"
proof -
  obtain r where s: "s = CHR ''/'' # CHR ''*'' # r" using assms(1) by (auto simp: starts_with_iff)
  then have "\<not> starts_with ''/'' r" using assms(2) by (auto simp: starts_with_iff)
  then have "2 \<le> e" using assms(3) s by (cases r) (auto simp: starts_with_def split: if_splits)
  moreover obtain a b where "s = a @ ''*/'' @ b" "length a = e" using find_sub_Some [OF assms(3)] by blast
  ultimately show ?thesis by simp
qed

lemma comment_slice_returns:
  assumes "safe_text sql" and "starts_with ''/*'' (trim_start sql)"
    and "find_sub ''*/'' (trim_start sql) = Some e"
  shows "returns (slice_range (trim_start sql) 2 e)"
proof -
  have "is_ascii_str (trim_start sql)" using assms(1) is_ascii_trim_start by (simp add: safe_text_def)
  moreover have "2 \<le> e \<and> e \<le> length (trim_start sql)"
    using comment_end_ge2 assms by (simp add: safe_text_def)
  ultimately show ?thesis by (simp add: slice_range_def ascii_char_boundary returns_def)
qed

lemma strip_ticket_comment_returns [returns_intros]:
  "safe_text sql \<Longrightarrow> returns (strip_ticket_comment sql)"
  unfolding strip_ticket_comment_def by (intro returns_intros) (simp add: comment_slice_returns)

lemma extract_ticket_id_returns [returns_intros]:
  "safe_text sql \<Longrightarrow> returns (extract_ticket_id sql)"
  unfolding extract_ticket_id_def by (intro returns_intros) (simp add: comment_slice_returns)

lemma sql_fingerprint_returns [returns_intros]: "safe_text sql \<Longrightarrow> returns (sql_fingerprint sql)"
  unfolding sql_fingerprint_def by (intro returns_intros)

lemma consume_returns [returns_intros]: "safe_text sql \<Longrightarrow> returns (consume now tid sid sql et st)"
  unfolding consume_def by (intro returns_intros)

lemma present_ticket_returns [returns_intros]:
  "safe_text sql \<Longrightarrow> returns (present_ticket now subject sql tt hint refusal st)"
  unfolding present_ticket_def by (intro returns_intros)

lemma high_risk_hit_returns [returns_intros]:
  "safe_text sql \<Longrightarrow> returns (high_risk_hit action sql objects tables hr)"
  unfolding high_risk_hit_def is_write_without_where_def export_hit_def by (intro returns_intros)

lemma match_high_risk_returns [returns_intros]:
  "safe_text sql \<Longrightarrow> returns (match_high_risk hrs subject action sql objects tables)"
  by (induction hrs) (auto intro!: returns_intros)

lemma run_gates_returns [returns_intros]:
  "safe_text sql \<Longrightarrow> returns (run_gates view env subject service action sql objects tables columns st)"
  unfolding run_gates_def evaluate_remote_def evaluate_time_rules_def try_consume_time_ticket_def
    high_risk_gate_def try_consume_ticket_def
  by (intro returns_intros)

lemma column_stage_ascii:
  assumes "column_stage view subject service action objects sql = Done (Inr (Some w))"
    and "is_ascii_str sql"
  shows "is_ascii_str w"
  using assms column_acl_rewrite_ascii
  by (auto simp: column_stage_def option_case_eq_iff acl_case_eq_iff split: if_splits)

lemma shape_statement_returns [returns_intros]:
  assumes "safe_text sql"
  shows "returns (shape_statement view env subject service action objects tables columns sql)"
proof -
  have asc: "is_ascii_str sql" using assms by (simp add: safe_text_def)
  have "returns (column_stage view subject service action objects sql)"
    unfolding column_stage_def
    by (intro returns_intros) (simp add: returns_Ex column_acl_total [OF asc])
  moreover have "returns (row_filter_stage view subject action objects tables sql rw)"
    if "column_stage view subject service action objects sql = Done (Inr rw)" for rw
    unfolding row_filter_stage_def using that asc
    by (intro returns_intros)
      (auto simp: returns_Ex intro!: inject_row_filter_ascii_total dest: column_stage_ascii
        split: option.split)
  ultimately show ?thesis
    unfolding shape_statement_def by (intro returns_intros) simp_all
qed

lemma authorize_sql_returns:
  "safe_text sql \<Longrightarrow> returns (authorize_sql view env leading subject service sql objects st)"
  unfolding authorize_sql_def by (intro returns_intros)

text \<open>A snapshot without the optional gates: the table rules alone decide.\<close>

lemma no_gates:
  assumes "view LCedar = p" "view LRemote = p" "view LTime = p" "view LHighRisk = p"
    and "p_cedar_required p = False" "p_remote p = None" "p_time_rules p = []" "p_high_risk_rules p = []"
  shows "run_gates view env subject service action sql objects tables columns st =
    (let d = evaluate (p_rules (view LRules))
            \<lparr>ar_subject = subject, ar_service = service, ar_action = action, ar_tables = tables,
             ar_columns = columns, ar_sql = Some sql\<rparr>
     in Done (if is_deny d then Some d else None, st))"
  using assms
  by (simp add: run_gates_def evaluate_cedar_def evaluate_remote_def evaluate_time_rules_def
      high_risk_gate_def Let_def)

lemma time_gate_store_ok:
  assumes "evaluate_time_rules env p subject action sql objects tables st = Done (r, st')" and "store_ok st"
  shows "store_ok st'"
proof -
  have "st' = st \<or> (\<exists>tr x. try_consume_time_ticket (env_now_ms env) subject sql tr st = Done (x, st'))"
    using assms(1)
    by (auto simp: evaluate_time_rules_def sum_case_eq_iff option_case_eq_iff split: prod.splits if_splits)
  then show ?thesis
    using assms(2) present_ticket_store_ok by (auto simp: try_consume_time_ticket_def)
qed

end
