(* ===== verification/Pdp_Store.thy ===== *)
theory Pdp_Store
  imports Pdp
begin

text \<open>
  The process-wide policy store of \<open>gateway/core/src/pdp.rs\<close> (\<open>LocalPdpStore\<close>: install, reload,
  throttled refresh) and the shared policy file of \<open>gateway/core/src/policy_file.rs\<close>.

  A disk maps a path to the decoded content of the file and its modification time.  The JSON text
  itself is not modelled: \<open>policy_json\<close> is the object with the fields that are present, so the
  \<open>serde\<close> defaults are visible.  Parameters: the Cedar loader and whether the feature is compiled
  in, the clock, the modification time the file system stamps, and an I/O error of a save.
\<close>

section \<open>The policy file\<close>

record policy_file =
  pf_fail_closed :: bool
  pf_star_policy :: str
  pf_rules :: "security_rule list"
  pf_mask_rules :: "mask_rule list"
  pf_column_tags :: "column_tag list"
  pf_high_risk_rules :: "high_risk_rule list"
  pf_time_rules :: "time_rule list"
  pf_watermark :: watermark_config
  pf_default_max_rows :: "nat option"

definition watermark_default :: watermark_config where
  "watermark_default =
     \<lparr>wc_enabled = False, wc_mode = ''column'', wc_column = ''_dn_wm'', wc_token = []\<rparr>"

record policy_json =
  pj_fail_closed :: "bool option"
  pj_star_policy :: "str option"
  pj_rules :: "security_rule list option"
  pj_mask_rules :: "mask_rule list option"
  pj_column_tags :: "column_tag list option"
  pj_high_risk_rules :: "high_risk_rule list option"
  pj_time_rules :: "time_rule list option"
  pj_watermark :: "watermark_config option"
  pj_default_max_rows :: "nat option"

definition default_to :: "'a \<Rightarrow> 'a option \<Rightarrow> 'a" where
  "default_to d x = (case x of None \<Rightarrow> d | Some v \<Rightarrow> v)"

definition decode_policy :: "policy_json \<Rightarrow> policy_file" where
  "decode_policy j =
     \<lparr>pf_fail_closed = default_to False (pj_fail_closed j),
      pf_star_policy = default_to ''deny'' (pj_star_policy j),
      pf_rules = default_to [] (pj_rules j), pf_mask_rules = default_to [] (pj_mask_rules j),
      pf_column_tags = default_to [] (pj_column_tags j),
      pf_high_risk_rules = default_to [] (pj_high_risk_rules j),
      pf_time_rules = default_to [] (pj_time_rules j),
      pf_watermark = default_to watermark_default (pj_watermark j),
      pf_default_max_rows = pj_default_max_rows j\<rparr>"

definition encode_policy :: "policy_file \<Rightarrow> policy_json" where
  "encode_policy f =
     \<lparr>pj_fail_closed = Some (pf_fail_closed f), pj_star_policy = Some (pf_star_policy f),
      pj_rules = Some (pf_rules f), pj_mask_rules = Some (pf_mask_rules f),
      pj_column_tags = Some (pf_column_tags f), pj_high_risk_rules = Some (pf_high_risk_rules f),
      pj_time_rules = Some (pf_time_rules f), pj_watermark = Some (pf_watermark f),
      pj_default_max_rows = pf_default_max_rows f\<rparr>"

definition from_security :: "security_config \<Rightarrow> policy_file" where
  "from_security cfg =
     \<lparr>pf_fail_closed = cfg_fail_closed cfg, pf_star_policy = cfg_star_policy cfg,
      pf_rules = cfg_rules cfg, pf_mask_rules = cfg_mask_rules cfg,
      pf_column_tags = cfg_column_tags cfg, pf_high_risk_rules = cfg_high_risk_rules cfg,
      pf_time_rules = cfg_time_rules cfg, pf_watermark = cfg_watermark cfg,
      pf_default_max_rows = st_max_rows (cfg_streaming cfg)\<rparr>"

definition apply_to :: "policy_file \<Rightarrow> security_config \<Rightarrow> security_config" where
  "apply_to f cfg =
     cfg\<lparr>cfg_fail_closed := pf_fail_closed f, cfg_star_policy := pf_star_policy f,
         cfg_rules := pf_rules f, cfg_mask_rules := pf_mask_rules f,
         cfg_column_tags := pf_column_tags f, cfg_high_risk_rules := pf_high_risk_rules f,
         cfg_time_rules := pf_time_rules f, cfg_watermark := pf_watermark f,
         cfg_streaming := (cfg_streaming cfg)\<lparr>st_max_rows := pf_default_max_rows f\<rparr>\<rparr>"

datatype file_content = Blank | Json policy_json | Unreadable str

type_synonym disk = "str \<Rightarrow> (file_content \<times> nat) option"

definition policy_file_mtime_ns :: "disk \<Rightarrow> str \<Rightarrow> nat option" where
  "policy_file_mtime_ns dsk path0 =
     (let path = trim path0 in if path = [] then None else map_option snd (dsk path))"

definition load_local_pdp_policy_file :: "disk \<Rightarrow> str \<Rightarrow> str + policy_file option" where
  "load_local_pdp_policy_file dsk path0 =
     (let path = trim path0
      in if path = [] then Inr None
         else case dsk path of
             None \<Rightarrow> Inr None
           | Some (Blank, _) \<Rightarrow> Inr None
           | Some (Json j, _) \<Rightarrow> Inr (Some (decode_policy j))
           | Some (Unreadable e, _) \<Rightarrow> Inl e)"

record save_io =
  io_mtime :: nat
  io_error :: "str option"

definition save_local_pdp_policy_file :: "save_io \<Rightarrow> disk \<Rightarrow> str \<Rightarrow> policy_file \<Rightarrow> (str + unit) \<times> disk" where
  "save_local_pdp_policy_file io dsk path0 f =
     (let path = trim path0
      in if path = [] then (Inr (), dsk)
         else case io_error io of
             Some e \<Rightarrow> (Inl e, dsk)
           | None \<Rightarrow> (Inr (), dsk(path \<mapsto> (Json (encode_policy f), io_mtime io))))"

definition merge_local_pdp_from_file ::
  "save_io \<Rightarrow> disk \<Rightarrow> security_config \<Rightarrow> (str + security_config) \<times> disk" where
  "merge_local_pdp_from_file io dsk cfg =
     (let path = trim (sc_policy_path (cfg_state cfg))
      in if path = [] then (Inr cfg, dsk)
         else case load_local_pdp_policy_file dsk path of
             Inl e \<Rightarrow> (Inl e, dsk)
           | Inr (Some snap) \<Rightarrow> (Inr (apply_to snap cfg), dsk)
           | Inr None \<Rightarrow>
               (case save_local_pdp_policy_file io dsk path (from_security cfg) of
                  (Inl e, dsk') \<Rightarrow> (Inl e, dsk')
                | (Inr _, dsk') \<Rightarrow> (Inr cfg, dsk')))"

definition persist_local_pdp_to_file :: "save_io \<Rightarrow> disk \<Rightarrow> security_config \<Rightarrow> (str + unit) \<times> disk" where
  "persist_local_pdp_to_file io dsk cfg =
     (let path = trim (sc_policy_path (cfg_state cfg))
      in if path = [] then (Inr (), dsk)
         else save_local_pdp_policy_file io dsk path (from_security cfg))"

section \<open>Building a snapshot\<close>

type_synonym cedar_loader = "pdp_config \<Rightarrow> str + cedar_engine option"

text \<open>\<open>cedar_feature\<close> is \<open>None\<close> when the Cedar feature is not compiled in.\<close>

definition pdp_from_config :: "cedar_loader option \<Rightarrow> security_config \<Rightarrow> local_pdp" where
  "pdp_from_config cedar_feature cfg =
     (let pc = cfg_pdp cfg;
          use_cedar = (cedar_feature \<noteq> None \<and> eq_ignore_ascii_case (pc_backend pc) ''cedar'')
      in \<lparr>p_fail_closed = cfg_fail_closed cfg,
          p_star_policy = star_policy_from_config (cfg_star_policy cfg),
          p_rules = cfg_rules cfg, p_mask_rules = cfg_mask_rules cfg,
          p_column_tags = cfg_column_tags cfg, p_high_risk_rules = cfg_high_risk_rules cfg,
          p_time_rules = cfg_time_rules cfg, p_default_max_rows = st_max_rows (cfg_streaming cfg),
          p_watermark = cfg_watermark cfg,
          p_cedar = (if use_cedar
                     then (case the cedar_feature pc of Inr eng \<Rightarrow> eng | Inl _ \<Rightarrow> None) else None),
          p_cedar_required = use_cedar,
          p_remote = (if eq_ignore_ascii_case (pc_backend pc) ''remote''
                      then Some (case remote_from_config pc of
                             Inr c \<Rightarrow> c
                           | Inl e \<Rightarrow> transport_error_client e (pc_remote_fail_closed pc))
                      else None)\<rparr>)"

definition from_config_preserving_cedar ::
  "cedar_loader option \<Rightarrow> security_config \<Rightarrow> local_pdp \<Rightarrow> local_pdp" where
  "from_config_preserving_cedar cedar_feature cfg previous =
     (let next = pdp_from_config cedar_feature cfg
      in if cedar_feature \<noteq> None \<and> p_cedar_required next \<and> p_cedar_required previous \<and> p_cedar next = None
         then next\<lparr>p_cedar := p_cedar previous\<rparr> else next)"

definition apply_policy_file :: "policy_file \<Rightarrow> local_pdp \<Rightarrow> local_pdp" where
  "apply_policy_file f p =
     p\<lparr>p_fail_closed := pf_fail_closed f, p_star_policy := star_policy_from_config (pf_star_policy f),
       p_rules := pf_rules f, p_mask_rules := pf_mask_rules f, p_column_tags := pf_column_tags f,
       p_high_risk_rules := pf_high_risk_rules f, p_time_rules := pf_time_rules f,
       p_watermark := pf_watermark f, p_default_max_rows := pf_default_max_rows f\<rparr>"

section \<open>The store\<close>

record pdp_store =
  ps_epoch :: nat
  ps_current :: local_pdp
  ps_policy_path :: str
  ps_policy_mtime_ns :: nat
  ps_policy_last_check_ms :: nat
  ps_policy_poll_ms :: nat

definition empty_pdp :: local_pdp where
  "empty_pdp =
     \<lparr>p_fail_closed = True, p_star_policy = StarDeny, p_rules = [], p_mask_rules = [],
      p_column_tags = [], p_high_risk_rules = [], p_time_rules = [], p_default_max_rows = None,
      p_watermark = watermark_default, p_cedar = None, p_cedar_required = False, p_remote = None\<rparr>"

definition pdp_store_new :: pdp_store where
  "pdp_store_new =
     \<lparr>ps_epoch = 0, ps_current = empty_pdp, ps_policy_path = [], ps_policy_mtime_ns = 0,
      ps_policy_last_check_ms = 0, ps_policy_poll_ms = 1000\<rparr>"

record reload_info =
  ri_epoch :: nat
  ri_swapped :: bool
  ri_previous_rule_count :: nat
  ri_rule_count :: nat

definition swap_pdp :: "local_pdp \<Rightarrow> pdp_store \<Rightarrow> reload_info \<times> pdp_store" where
  "swap_pdp inner s =
     (let e = (ps_epoch s + 1) mod 2 ^ 64
      in (\<lparr>ri_epoch = e, ri_swapped = True,
            ri_previous_rule_count = length (p_rules (ps_current s)),
            ri_rule_count = length (p_rules inner)\<rparr>,
          s\<lparr>ps_epoch := e, ps_current := inner\<rparr>))"

definition configure_policy_poll :: "nat \<Rightarrow> str \<Rightarrow> nat \<Rightarrow> nat \<Rightarrow> pdp_store \<Rightarrow> pdp_store" where
  "configure_policy_poll now_ms path poll_ms mtime_ns s =
     s\<lparr>ps_policy_path := trim path, ps_policy_poll_ms := poll_ms, ps_policy_mtime_ns := mtime_ns,
       ps_policy_last_check_ms := now_ms\<rparr>"

text \<open>
  \<open>won\<close> is the outcome of the compare-and-exchange on the time of the last check: the losers of a
  race return at once.
\<close>

definition maybe_refresh_from_policy_file :: "nat \<Rightarrow> bool \<Rightarrow> disk \<Rightarrow> pdp_store \<Rightarrow> pdp_store" where
  "maybe_refresh_from_policy_file now_ms won dsk s =
     (if ps_policy_poll_ms s = 0 then s
      else if ps_policy_path s = [] then s
      else if now_ms - ps_policy_last_check_ms s < ps_policy_poll_ms s then s
      else if \<not> won then s
      else let s1 = s\<lparr>ps_policy_last_check_ms := now_ms\<rparr>
      in case policy_file_mtime_ns dsk (ps_policy_path s) of
           None \<Rightarrow> s1
         | Some mtime \<Rightarrow>
             if mtime = ps_policy_mtime_ns s then s1
             else case load_local_pdp_policy_file dsk (ps_policy_path s) of
                 Inr (Some f) \<Rightarrow>
                   (snd (swap_pdp (apply_policy_file f (ps_current s)) s1))\<lparr>ps_policy_mtime_ns := mtime\<rparr>
               | Inr None \<Rightarrow> s1
               | Inl _ \<Rightarrow> s1)"

definition load_pdp :: "nat \<Rightarrow> bool \<Rightarrow> disk \<Rightarrow> pdp_store \<Rightarrow> local_pdp \<times> pdp_store" where
  "load_pdp now_ms won dsk s =
     (let s' = maybe_refresh_from_policy_file now_ms won dsk s in (ps_current s', s'))"

definition install_local_pdp ::
  "cedar_loader option \<Rightarrow> nat \<Rightarrow> save_io \<Rightarrow> security_config \<Rightarrow> disk \<Rightarrow> pdp_store \<Rightarrow> (disk \<times> pdp_store) option"
where
  "install_local_pdp cedar_feature now_ms io cfg dsk s =
     (if \<not> cfg_enabled cfg then None
      else case merge_local_pdp_from_file io dsk cfg of (r, dsk') \<Rightarrow>
        let effective = (case r of Inr c \<Rightarrow> c | Inl _ \<Rightarrow> cfg);
            s1 = snd (swap_pdp (pdp_from_config cedar_feature effective) s);
            path = sc_policy_path (cfg_state effective);
            mtime = default_to 0 (policy_file_mtime_ns dsk' path)
        in Some (dsk', configure_policy_poll now_ms path (sc_policy_poll_ms (cfg_state effective)) mtime s1))"

definition reload_global_local_pdp ::
  "cedar_loader option \<Rightarrow> nat \<Rightarrow> save_io \<Rightarrow> security_config \<Rightarrow> disk \<Rightarrow> pdp_store
   \<Rightarrow> (reload_info \<times> disk \<times> pdp_store) option" where
  "reload_global_local_pdp cedar_feature now_ms io cfg dsk s =
     (if \<not> cfg_enabled cfg then None
      else case swap_pdp (from_config_preserving_cedar cedar_feature cfg (ps_current s)) s of (info, s1) \<Rightarrow>
        let dsk' = snd (persist_local_pdp_to_file io dsk cfg);
            path = sc_policy_path (cfg_state cfg);
            mtime = default_to 0 (policy_file_mtime_ns dsk' path)
        in Some (info, dsk',
             configure_policy_poll now_ms path (sc_policy_poll_ms (cfg_state cfg)) mtime s1))"

definition security_requires_listener_rebuild :: "security_config \<Rightarrow> security_config \<Rightarrow> bool" where
  "security_requires_listener_rebuild cur nxt =
     (if cur = nxt then False
      else cfg_enabled cur \<noteq> cfg_enabled nxt
         \<or> cfg_subject_sources cur \<noteq> cfg_subject_sources nxt
         \<or> cfg_pdp cur \<noteq> cfg_pdp nxt
         \<or> st_window_rows (cfg_streaming cur) \<noteq> st_window_rows (cfg_streaming nxt)
         \<or> st_passthrough (cfg_streaming cur) \<noteq> st_passthrough (cfg_streaming nxt)
         \<or> st_max_bytes (cfg_streaming cur) \<noteq> st_max_bytes (cfg_streaming nxt))"

section \<open>Properties\<close>

lemma decode_encode: "decode_policy (encode_policy f) = f"
  by (simp add: decode_policy_def encode_policy_def default_to_def)

lemma apply_from_security: "apply_to (from_security cfg) cfg = cfg"
  by (simp add: apply_to_def from_security_def)

text \<open>The fields that peers share, as a snapshot sees them.\<close>

definition hot_fields :: "local_pdp \<Rightarrow> policy_file \<times> star_policy" where
  "hot_fields p =
     (\<lparr>pf_fail_closed = p_fail_closed p, pf_star_policy = [], pf_rules = p_rules p,
       pf_mask_rules = p_mask_rules p, pf_column_tags = p_column_tags p,
       pf_high_risk_rules = p_high_risk_rules p, pf_time_rules = p_time_rules p,
       pf_watermark = p_watermark p, pf_default_max_rows = p_default_max_rows p\<rparr>, p_star_policy p)"

lemma hot_fields_apply:
  "hot_fields (apply_policy_file (from_security cfg) p) = hot_fields (pdp_from_config cf cfg)"
  by (simp add: hot_fields_def apply_policy_file_def from_security_def pdp_from_config_def Let_def)

lemma hot_fields_preserving:
  "hot_fields (from_config_preserving_cedar cf cfg prev) = hot_fields (pdp_from_config cf cfg)"
  by (simp add: from_config_preserving_cedar_def hot_fields_def Let_def)

text \<open>A refresh keeps everything but the check time, or swaps in the file once and keeps the engines.\<close>

lemma refresh_cases:
  obtains (kept) t where "maybe_refresh_from_policy_file now won dsk s = s\<lparr>ps_policy_last_check_ms := t\<rparr>"
  | (swapped) f m where "policy_file_mtime_ns dsk (ps_policy_path s) = Some m"
      and "m \<noteq> ps_policy_mtime_ns s"
      and "load_local_pdp_policy_file dsk (ps_policy_path s) = Inr (Some f)"
      and "maybe_refresh_from_policy_file now won dsk s =
         s\<lparr>ps_policy_last_check_ms := now, ps_epoch := (ps_epoch s + 1) mod 2 ^ 64,
           ps_current := apply_policy_file f (ps_current s), ps_policy_mtime_ns := m\<rparr>"
proof (cases "ps_policy_poll_ms s = 0 \<or> ps_policy_path s = [] \<or>
    now - ps_policy_last_check_ms s < ps_policy_poll_ms s \<or> \<not> won")
  case True
  then have "maybe_refresh_from_policy_file now won dsk s = s"
    by (auto simp: maybe_refresh_from_policy_file_def)
  then show thesis using kept [of "ps_policy_last_check_ms s"] by simp
next
  case due: False
  show thesis
  proof (cases "policy_file_mtime_ns dsk (ps_policy_path s)")
    case None
    with due show thesis using kept [of now] by (simp add: maybe_refresh_from_policy_file_def)
  next
    case (Some m)
    show thesis
    proof (cases "\<exists>f. m \<noteq> ps_policy_mtime_ns s \<and>
        load_local_pdp_policy_file dsk (ps_policy_path s) = Inr (Some f)")
      case True
      then obtain f where "m \<noteq> ps_policy_mtime_ns s"
        and "load_local_pdp_policy_file dsk (ps_policy_path s) = Inr (Some f)" by blast
      with due Some show thesis
        by (intro swapped [of m f]) (simp_all add: maybe_refresh_from_policy_file_def swap_pdp_def Let_def)
    next
      case False
      with due Some have "maybe_refresh_from_policy_file now won dsk s = s\<lparr>ps_policy_last_check_ms := now\<rparr>"
        by (auto simp: maybe_refresh_from_policy_file_def Let_def split: sum.splits option.splits)
      then show thesis by (rule kept)
    qed
  qed
qed

lemma refresh_keeps_engines:
  "p_cedar (ps_current (maybe_refresh_from_policy_file now won dsk s)) = p_cedar (ps_current s)"
  "p_cedar_required (ps_current (maybe_refresh_from_policy_file now won dsk s)) =
     p_cedar_required (ps_current s)"
  "p_remote (ps_current (maybe_refresh_from_policy_file now won dsk s)) = p_remote (ps_current s)"
  by (rule refresh_cases [of now won dsk s]; simp add: apply_policy_file_def)+

text \<open>Two loads within the poll interval stat the file at most once.\<close>

lemma refresh_throttled:
  assumes "now' - now < ps_policy_poll_ms s" and "ps_policy_last_check_ms s = now"
  shows "maybe_refresh_from_policy_file now' won dsk s = s"
  using assms by (simp add: maybe_refresh_from_policy_file_def)

text \<open>A due refresh of an unchanged file settles: a second one changes only the check time.\<close>

lemma refresh_settles:
  assumes "maybe_refresh_from_policy_file now won dsk s = s'"
    and "ps_policy_mtime_ns s' = m" and "policy_file_mtime_ns dsk (ps_policy_path s') = Some m"
  shows "\<exists>t. maybe_refresh_from_policy_file now' won' dsk s' = s'\<lparr>ps_policy_last_check_ms := t\<rparr>"
  by (rule refresh_cases [of now' won' dsk s']) (use assms in auto)

text \<open>
  What one process writes on reload, a peer with the same path takes over at its next due check.
\<close>

lemma peer_takes_over:
  assumes "reload_global_local_pdp cf now io cfg dsk a = Some (info, dsk', a')"
    and "io_error io = None" and "trim (sc_policy_path (cfg_state cfg)) = path" and "path \<noteq> []"
    and "ps_policy_path b = path" and "0 < ps_policy_poll_ms b"
    and "ps_policy_poll_ms b \<le> now' - ps_policy_last_check_ms b"
    and "ps_policy_mtime_ns b \<noteq> io_mtime io"
  shows "hot_fields (ps_current (maybe_refresh_from_policy_file now' True dsk' b)) = hot_fields (ps_current a')"
proof -
  have path: "trim path = path" using assms(3) by auto
  have dsk': "dsk' path = Some (Json (encode_policy (from_security cfg)), io_mtime io)"
    and a': "ps_current a' = from_config_preserving_cedar cf cfg (ps_current a)"
    using assms(1-4) path
    by (auto simp: reload_global_local_pdp_def persist_local_pdp_to_file_def Let_def swap_pdp_def
        save_local_pdp_policy_file_def configure_policy_poll_def split: if_splits)
  have "policy_file_mtime_ns dsk' path = Some (io_mtime io)"
    and "load_local_pdp_policy_file dsk' path = Inr (Some (from_security cfg))"
    using dsk' assms(4) path
    by (simp_all add: policy_file_mtime_ns_def load_local_pdp_policy_file_def decode_encode)
  then have "ps_current (maybe_refresh_from_policy_file now' True dsk' b) =
      apply_policy_file (from_security cfg) (ps_current b)"
    using assms(4-8) by (simp add: maybe_refresh_from_policy_file_def swap_pdp_def Let_def)
  then show ?thesis by (simp add: a' hot_fields_apply hot_fields_preserving)
qed

lemma hot_reload_keeps_gates:
  assumes "\<not> security_requires_listener_rebuild cur nxt"
  shows "p_remote (pdp_from_config cf nxt) = p_remote (pdp_from_config cf cur)"
    and "p_cedar_required (pdp_from_config cf nxt) = p_cedar_required (pdp_from_config cf cur)"
proof -
  have "cfg_pdp nxt = cfg_pdp cur"
    using assms by (auto simp: security_requires_listener_rebuild_def split: if_splits)
  then show "p_remote (pdp_from_config cf nxt) = p_remote (pdp_from_config cf cur)"
    and "p_cedar_required (pdp_from_config cf nxt) = p_cedar_required (pdp_from_config cf cur)"
    by (simp_all add: pdp_from_config_def Let_def)
qed

text \<open>
  A check of the policy file keeps the installed snapshot unless the file's time
  stamp is new and its content decodes; then the epoch grows by one, the snapshot is the old one with
  the file's fields, and the Cedar engine and the remote service stay as they were.
\<close>

lemma refresh_swaps_or_keeps:
  "ps_current (maybe_refresh_from_policy_file now won dsk s) = ps_current s \<and>
     ps_epoch (maybe_refresh_from_policy_file now won dsk s) = ps_epoch s \<and>
     ps_policy_mtime_ns (maybe_refresh_from_policy_file now won dsk s) = ps_policy_mtime_ns s
   \<or> (\<exists>f m. policy_file_mtime_ns dsk (ps_policy_path s) = Some m \<and> m \<noteq> ps_policy_mtime_ns s \<and>
       load_local_pdp_policy_file dsk (ps_policy_path s) = Inr (Some f) \<and>
       ps_epoch (maybe_refresh_from_policy_file now won dsk s) = (ps_epoch s + 1) mod 2 ^ 64 \<and>
       ps_current (maybe_refresh_from_policy_file now won dsk s) = apply_policy_file f (ps_current s) \<and>
       p_cedar (apply_policy_file f (ps_current s)) = p_cedar (ps_current s) \<and>
       p_cedar_required (apply_policy_file f (ps_current s)) = p_cedar_required (ps_current s) \<and>
       p_remote (apply_policy_file f (ps_current s)) = p_remote (ps_current s))"
  by (rule refresh_cases [of now won dsk s]) (auto simp: apply_policy_file_def)

end
