(* ===== verification/Findings.thy ===== *)
theory Findings
  imports Pdp_Store
begin

text \<open>
  Concrete runs of the model on inputs where the code does something its comments or its purpose
  do not suggest.  Every lemma is a closed evaluation, or follows from the component lemmas.
\<close>

section \<open>A small configuration\<close>

definition alice :: subject where
  "alice = \<lparr>subject_id = ''alice'', db_user = Some ''alice'', sub_database = None\<rparr>"

definition plain_rule :: "str \<Rightarrow> str \<Rightarrow> security_rule" where
  "plain_rule name effect =
     \<lparr>sr_name = name, sr_effect = effect, sr_actions = [], sr_tables = [], sr_columns = [],
      sr_subjects = [], sr_row_filter = None\<rparr>"

definition secret_column_rule :: security_rule where
  "secret_column_rule = (plain_rule ''hide-secret'' ''deny'')\<lparr>sr_columns := [''secret'']\<rparr>"

definition secret_table_rule :: security_rule where
  "secret_table_rule = (plain_rule ''hide-t'' ''deny'')\<lparr>sr_tables := [''t'']\<rparr>"

definition secret_objects :: object_set where
  "secret_objects =
     \<lparr>os_objects = [\<lparr>oa_schema = None, oa_table = ''t'', oa_columns = [''secret''], oa_op = ASelect,
                    oa_has_wildcard = False\<rparr>],
      os_parse_failed = False, os_heuristic = False\<rparr>"

definition plain_env :: pdp_env where
  "plain_env =
     \<lparr>env_now = 0, env_now_ms = 0, env_local_offset = 0, env_civil = (\<lambda>_ _. (Mon, 0)),
      env_http = (\<lambda>_ _. Inl ''unreachable''), env_debug_list = (\<lambda>_. [])\<rparr>"

definition nbsp :: str where "nbsp = [CHR 0xC2, CHR 0xA0]"
definition newline :: str where "newline = [CHR 0x0A]"
definition kanji :: str where "kanji = [CHR 0xE6, CHR 0x97, CHR 0xA5]"

section \<open>Matching\<close>

text \<open>The pattern \<open>*\<close> does not match a name that starts with a literal star.\<close>

lemma glob_star_misses_star: "\<not> glob_match ''*'' ''*x''"
  by code_simp

section \<open>Ticket comments\<close>

text \<open>A statement that starts with \<open>/*/\<close> makes the ticket parser slice a reversed range.\<close>

lemma ticket_comment_panics: "strip_ticket_comment ''/*/ SELECT 1'' = Panic"
  by code_simp

section \<open>Row filters\<close>

lemma row_filter_panics_on_wide_space:
  "inject_row_filter (''SELECT a FROM t WHERE'' @ nbsp @ ''a = 1'') ''p = 1'' = Panic"
  by code_simp

lemma row_filter_inside_comment:
  "inject_row_filter ''SELECT a FROM t -- x'' ''p = 1'' = Done (Some ''SELECT a FROM t -- x WHERE (p = 1)'')"
  by code_simp

lemma row_filter_unbalanced_where:
  "inject_row_filter ''SELECT a FROM t WHERE 1=1) OR (1=1'' ''p = 1'' =
     Done (Some ''SELECT a FROM t WHERE (1=1) OR (1=1) AND (p = 1)'')"
  by code_simp

lemma row_filter_union_on_lines:
  "inject_row_filter (''SELECT a FROM t'' @ newline @ ''UNION'' @ newline @ ''SELECT b FROM u'') ''p = 1'' =
     Done (Some (''SELECT a FROM t'' @ newline @ ''UNION'' @ newline @ ''SELECT b FROM u WHERE (p = 1)''))"
  by code_simp

section \<open>Column rules\<close>

lemma column_acl_leaks_expression:
  "evaluate_column_acl StarDeny [secret_column_rule] alice ''svc'' ASelect secret_objects
     ''select concat(secret,0) from t'' = Done (AclRewrite ''SELECT concat(secret,0) from t'')"
  by code_simp

lemma column_acl_empty_projection:
  "evaluate_column_acl StarDeny [secret_column_rule] alice ''svc'' ASelect secret_objects
     ''SELECT secret FROM t'' = Done (AclRewrite ''SELECT FROM t'')"
  by code_simp

lemma distinct_prefix_mangled:
  "rewrite_select_strip_columns ''SELECT distinct_id, x FROM t'' [(''r'', ''x'')] =
     Done (Some ''SELECT DISTINCT _id FROM t'')"
  by code_simp

lemma nested_rewrite_panics:
  "rewrite_select_strip_columns
     (''SELECT a FROM t WHERE b IN ('' @ ''x'' @ kanji @ kanji @ kanji @ '')'') [(''r'', ''x'')] = Panic"
  by code_simp

lemma nested_rewrite_corrupts:
  "rewrite_select_strip_columns (''SELECT a FROM t WHERE b = '' @ kanji) [(''r'', ''x'')] =
     Done (Some (''SELECT a FROM t WHERE b = ''
       @ [CHR 0xC3, CHR 0xA6, CHR 0xC2, CHR 0x97, CHR 0xC2, CHR 0xA5]))"
  by code_simp

section \<open>The remote decision point\<close>

text \<open>
  With \<open>remote_fail_closed = false\<close> an answer that denies is treated like a transport error: the
  statement goes on.
\<close>

lemma remote_denial_ignored:
  assumes "p_remote p = Some client" and "\<not> rc_fail_closed client" and "sql_fingerprint sql = Done fp"
  shows "evaluate_remote env p subject service action tables sql = Done None"
  using assms by (simp add: evaluate_remote_def split: sum.split)

section \<open>Reloading during a request\<close>

definition column_only_pdp :: local_pdp where
  "column_only_pdp = empty_pdp\<lparr>p_rules := [secret_column_rule]\<rparr>"

definition table_only_pdp :: local_pdp where
  "table_only_pdp = empty_pdp\<lparr>p_rules := [secret_table_rule]\<rparr>"

definition reload_after_rules :: pdp_view where
  "reload_after_rules lp = (if lp = LEntry \<or> lp = LRules then column_only_pdp else table_only_pdp)"

fun decision_of :: "(security_decision \<times> ticket_store) run \<Rightarrow> security_decision option" where
  "decision_of (Done (d, _)) = Some d"
| "decision_of Panic = None"

lemma secret_request:
  "objects_unusable (Some secret_objects) = False"
  "classify p leading_keyword ''SELECT secret FROM t'' = Inr ASelect"
  "request_objects (Some secret_objects) ''SELECT secret FROM t'' = ([''t''], [''secret''])"
proof -
  have "leading_keyword ''SELECT secret FROM t'' = Some ''SELECT''" by code_simp
  moreover have "from_keyword ''SELECT'' = ASelect" by code_simp
  ultimately show "classify p leading_keyword ''SELECT secret FROM t'' = Inr ASelect"
    by (simp add: classify_def)
qed (code_simp, code_simp)

lemma secret_parsed: "os_parse_failed secret_objects = False"
  by (simp add: secret_objects_def)

lemmas snapshot_defs =
  column_only_pdp_def table_only_pdp_def empty_pdp_def watermark_default_def

lemmas stage_defs =
  authorize_sql_def shape_statement_def column_stage_def row_filter_stage_def select_obligations_def
  collect_mask_specs_def build_watermark_def obligations_default_def

lemma secret_rules_pass:
  "is_deny (evaluate (p_rules column_only_pdp)
      \<lparr>ar_subject = alice, ar_service = ''svc'', ar_action = ASelect, ar_tables = [''t''],
       ar_columns = [''secret''], ar_sql = Some ''SELECT secret FROM t''\<rparr>) = False"
  by code_simp

lemma secret_no_filter:
  "\<not> has_column_rules table_only_pdp" "has_column_rules column_only_pdp"
  "collect_row_filter (p_rules table_only_pdp) alice ASelect (Some secret_objects) [''t''] = None"
  "collect_row_filter (p_rules column_only_pdp) alice ASelect (Some secret_objects) [''t''] = None"
  by code_simp+

text \<open>
  A reload between the table rules and the column rules lets a statement through unchanged from
  which the policy before the reload strips the column and which the policy after it denies.
\<close>

lemma reload_window_allows:
  "decision_of (authorize_sql reload_after_rules plain_env leading_keyword alice ''svc''
     ''SELECT secret FROM t'' (Some secret_objects) store_new) = Some (Allow obligations_default)"
  using secret_rules_pass secret_no_filter
  by (simp add: stage_defs secret_request no_gates [where p = table_only_pdp] reload_after_rules_def
      snapshot_defs Let_def)

lemma reload_window_before_strips:
  "decision_of (authorize_sql (\<lambda>_. column_only_pdp) plain_env leading_keyword alice ''svc''
     ''SELECT secret FROM t'' (Some secret_objects) store_new) =
   Some (AllowRewrite ''SELECT FROM t'' obligations_default)"
  using secret_rules_pass secret_no_filter column_acl_empty_projection
  by (simp add: stage_defs secret_request no_gates [where p = column_only_pdp] snapshot_defs Let_def
      secret_parsed)

lemma reload_window_after_denies:
  "map_option is_deny (decision_of (authorize_sql (\<lambda>_. table_only_pdp) plain_env leading_keyword alice
     ''svc'' ''SELECT secret FROM t'' (Some secret_objects) store_new)) = Some True"
proof -
  have "is_deny (evaluate (p_rules table_only_pdp)
      \<lparr>ar_subject = alice, ar_service = ''svc'', ar_action = ASelect, ar_tables = [''t''],
       ar_columns = [''secret''], ar_sql = Some ''SELECT secret FROM t''\<rparr>)"
    by code_simp
  then show ?thesis
    by (simp add: authorize_sql_def secret_request no_gates [where p = table_only_pdp] snapshot_defs Let_def)
qed

section \<open>The policy file\<close>

text \<open>A policy file without \<open>fail_closed\<close> turns it off, although the configuration's default is on.\<close>

definition empty_policy_json :: policy_json where
  "empty_policy_json =
     \<lparr>pj_fail_closed = None, pj_star_policy = None, pj_rules = None, pj_mask_rules = None,
      pj_column_tags = None, pj_high_risk_rules = None, pj_time_rules = None, pj_watermark = None,
      pj_default_max_rows = None\<rparr>"

lemma policy_file_fails_open: "\<not> pf_fail_closed (decode_policy empty_policy_json)"
  by (simp add: decode_policy_def empty_policy_json_def default_to_def)

section \<open>Two rules, two uses\<close>

text \<open>A statement that a time rule and a high-risk rule both gate costs its ticket two uses.\<close>

lemma both_rules_cost_two_uses:
  assumes "ticket_spent now subject sql tt1 st st1" and "ticket_spent now subject sql tt2 st1 st2"
    and "extract_ticket_id sql = Done (Some k)"
  shows "2 \<le> ticket_uses_left st k"
  using assms by (auto simp: ticket_spent_def ticket_uses_left_def consumable_def remaining_uses_def)

end
