(* ===== verification/Load_Balance.thy ===== *)
theory Load_Balance
  imports Nexus_Prelude "HOL-Library.Signed_Division"
begin

text \<open>
  Weighted load balancing over backend endpoints (\<open>proxy/loadbalance/src\<close>, \<open>proxy/endpoint/src\<close>).
  Counters and weights are \<open>i64\<close> in the code and \<open>int\<close> here: the code only takes remainders of a
  counter and subtracts the common divisor from a weight, so no value leaves the range of the weights.
  Indexing outside the item list and \<open>unwrap\<close> of a missing position panic, as in the code.  The random
  generator is a parameter: the value a draw returns.
\<close>

section \<open>Endpoints\<close>

record endpoint =
  ep_node_type :: str
  ep_weight :: int
  ep_name :: str
  ep_db :: str
  ep_user :: str
  ep_password :: str
  ep_addr :: str

definition name_listed :: "endpoint \<Rightarrow> endpoint list \<Rightarrow> bool" where
  "name_listed ep items = (\<exists>x \<in> set items. ep_name x = ep_name ep)"

text \<open>\<open>Vec::remove\<close> at the position of the first item of that name.\<close>

fun remove_named :: "str \<Rightarrow> endpoint list \<Rightarrow> endpoint list run" where
  "remove_named name [] = Panic"
| "remove_named name (x # xs) =
     (if ep_name x = name then Done xs else run_bind (remove_named name xs) (\<lambda>ys. Done (x # ys)))"

section \<open>Weighted round robin\<close>

record round_robin =
  rr_items :: "endpoint list"
  rr_n :: int
  rr_gcd :: int
  rr_max_weight :: int
  rr_i :: int
  rr_cw :: int

definition rr_default :: round_robin where
  "rr_default = \<lparr>rr_items = [], rr_n = 0, rr_gcd = 0, rr_max_weight = 0, rr_i = 0, rr_cw = 0\<rparr>"

text \<open>Euclid's loop; a remainder by zero panics.\<close>

function gcd_loop :: "int \<Rightarrow> int \<Rightarrow> int run" where
  "gcd_loop x y =
     (if y = 0 then Panic
      else if 0 < x smod y then gcd_loop y (x smod y) else Done y)"
  by pat_completeness auto
termination
proof (relation "measure (\<lambda>(x, y). nat \<bar>y\<bar>)")
  fix x y :: int
  assume "y \<noteq> 0" and "0 < x smod y"
  then show "((y, x smod y), x, y) \<in> measure (\<lambda>(x, y). nat \<bar>y\<bar>)"
    using smod_int_range [of y x] by simp
qed simp

definition rr_add :: "endpoint \<Rightarrow> round_robin \<Rightarrow> round_robin run" where
  "rr_add ep s =
     (if name_listed ep (rr_items s) then Done s
      else let weight = ep_weight ep in
      run_bind
        (if 0 < weight then
           if rr_gcd s = 0
           then Done (s\<lparr>rr_gcd := weight, rr_max_weight := weight, rr_i := -1, rr_cw := 0\<rparr>)
           else run_bind (gcd_loop (rr_gcd s) weight) (\<lambda>g.
                  Done (s\<lparr>rr_gcd := g,
                          rr_max_weight := (if rr_max_weight s < weight then weight else rr_max_weight s)\<rparr>))
         else Done s)
        (\<lambda>s1. Done (s1\<lparr>rr_items := rr_items s1 @ [ep], rr_n := rr_n s1 + 1\<rparr>)))"

text \<open>One turn of the \<open>loop\<close> in \<open>next\<close>: either the function returns or panics, or the loop goes on.\<close>

type_synonym 's pick = "(endpoint option \<times> 's) run"

definition rr_turn :: "round_robin \<Rightarrow> round_robin pick + round_robin" where
  "rr_turn s =
     (let s1 = s\<lparr>rr_i := (rr_i s + 1) smod rr_n s\<rparr>;
          s2 = (if rr_i s1 = 0 then
                  let cw = rr_cw s1 - rr_gcd s1
                  in s1\<lparr>rr_cw := (if cw \<le> 0 then rr_max_weight s1 else cw)\<rparr>
                else s1)
      in if rr_i s1 = 0 \<and> rr_cw s1 - rr_gcd s1 \<le> 0 \<and> rr_cw s2 = 0 then Inl (Done (None, s2))
         else if rr_i s2 < 0 \<or> int (length (rr_items s2)) \<le> rr_i s2 then Inl Panic
         else let ep = rr_items s2 ! nat (rr_i s2)
              in if rr_cw s2 \<le> ep_weight ep then Inl (Done (Some ep, s2)) else Inr s2)"

partial_function (option) rr_loop :: "round_robin \<Rightarrow> round_robin pick option" where
  "rr_loop s = (case rr_turn s of Inl r \<Rightarrow> Some r | Inr s' \<Rightarrow> rr_loop s')"

declare rr_loop.simps [code]

definition rr_next :: "round_robin \<Rightarrow> round_robin pick option" where
  "rr_next s =
     (if rr_n s = 0 then Some (Done (None, s))
      else if rr_n s = 1
      then Some (Done (case rr_items s of [] \<Rightarrow> None | ep # _ \<Rightarrow> Some ep, s))
      else rr_loop s)"

definition rr_item_exists :: "endpoint \<Rightarrow> round_robin \<Rightarrow> bool" where
  "rr_item_exists ep s = name_listed ep (rr_items s)"

definition rr_remove_item :: "endpoint \<Rightarrow> round_robin \<Rightarrow> round_robin run" where
  "rr_remove_item ep s =
     run_bind (remove_named (ep_name ep) (rr_items s)) (\<lambda>items. Done (s\<lparr>rr_items := items\<rparr>))"

definition rr_remove_all :: "round_robin \<Rightarrow> round_robin" where
  "rr_remove_all s =
     s\<lparr>rr_items := [], rr_n := 0, rr_gcd := 0, rr_max_weight := 0, rr_i := -1, rr_cw := 0\<rparr>"

section \<open>Weighted random choice\<close>

record random_weighted =
  rw_items :: "endpoint list"
  rw_n :: int
  rw_sum_of_weights :: int

definition rw_default :: random_weighted where
  "rw_default = \<lparr>rw_items = [], rw_n = 0, rw_sum_of_weights = 0\<rparr>"

fun rw_pick :: "int \<Rightarrow> endpoint list \<Rightarrow> endpoint option" where
  "rw_pick r [] = None"
| "rw_pick r (x # xs) = (if r - ep_weight x \<le> 0 then Some x else rw_pick (r - ep_weight x) xs)"

text \<open>\<open>draw\<close> is what \<open>gen_range(0..sum_of_weights)\<close> returns.\<close>

definition rw_next :: "int \<Rightarrow> random_weighted \<Rightarrow> random_weighted pick" where
  "rw_next draw s =
     (if rw_n s = 0 then Done (None, s)
      else if rw_sum_of_weights s \<le> 0 then Done (None, s)
      else case rw_pick (draw + 1) (rw_items s) of
          Some ep \<Rightarrow> Done (Some ep, s)
        | None \<Rightarrow> if rw_items s = [] then Panic else Done (Some (last (rw_items s)), s))"

definition rw_add :: "endpoint \<Rightarrow> random_weighted \<Rightarrow> random_weighted" where
  "rw_add ep s =
     (if \<not> name_listed ep (rw_items s)
      then s\<lparr>rw_sum_of_weights := rw_sum_of_weights s + ep_weight ep, rw_n := rw_n s + 1,
             rw_items := rw_items s @ [ep]\<rparr>
      else s)"

definition rw_remove_item :: "endpoint \<Rightarrow> random_weighted \<Rightarrow> random_weighted run" where
  "rw_remove_item ep s =
     run_bind (remove_named (ep_name ep) (rw_items s)) (\<lambda>items. Done (s\<lparr>rw_items := items\<rparr>))"

definition rw_remove_all :: "random_weighted \<Rightarrow> random_weighted" where
  "rw_remove_all s = s\<lparr>rw_items := []\<rparr>"

section \<open>The balancer a service uses\<close>

datatype algorithm_name = AlgRandom | AlgRoundRobin

datatype balance_type = BalRandom random_weighted | BalRoundRobin round_robin

fun build_balance :: "algorithm_name \<Rightarrow> balance_type" where
  "build_balance AlgRandom = BalRandom rw_default"
| "build_balance AlgRoundRobin = BalRoundRobin rr_default"

fun balance_next :: "int \<Rightarrow> balance_type \<Rightarrow> balance_type pick option" where
  "balance_next draw (BalRandom s) =
     Some (case rw_next draw s of Panic \<Rightarrow> Panic | Done (e, s') \<Rightarrow> Done (e, BalRandom s'))"
| "balance_next draw (BalRoundRobin s) =
     (case rr_next s of None \<Rightarrow> None
      | Some Panic \<Rightarrow> Some Panic
      | Some (Done (e, s')) \<Rightarrow> Some (Done (e, BalRoundRobin s')))"

fun balance_add :: "endpoint \<Rightarrow> balance_type \<Rightarrow> balance_type run" where
  "balance_add ep (BalRandom s) = Done (BalRandom (rw_add ep s))"
| "balance_add ep (BalRoundRobin s) = run_bind (rr_add ep s) (\<lambda>s'. Done (BalRoundRobin s'))"

fun balance_items :: "balance_type \<Rightarrow> endpoint list" where
  "balance_items (BalRandom s) = rw_items s"
| "balance_items (BalRoundRobin s) = rr_items s"

fun balance_remove_item :: "endpoint \<Rightarrow> balance_type \<Rightarrow> balance_type run" where
  "balance_remove_item ep (BalRandom s) = run_bind (rw_remove_item ep s) (\<lambda>s'. Done (BalRandom s'))"
| "balance_remove_item ep (BalRoundRobin s) = run_bind (rr_remove_item ep s) (\<lambda>s'. Done (BalRoundRobin s'))"

fun balance_remove_all :: "balance_type \<Rightarrow> balance_type" where
  "balance_remove_all (BalRandom s) = BalRandom (rw_remove_all s)"
| "balance_remove_all (BalRoundRobin s) = BalRoundRobin (rr_remove_all s)"

section \<open>Euclid's loop\<close>

declare gcd_loop.simps [simp del]

lemma gcd_loop_gcd: "0 < x \<Longrightarrow> 0 < y \<Longrightarrow> gcd_loop x y = Done (gcd x y)"
proof (induction x y rule: gcd_loop.induct)
  case (1 x y)
  have m: "x smod y = x mod y" using "1.prems" by (simp add: smod_int_alt_def)
  show ?case
  proof (cases "0 < x mod y")
    case True
    then have "gcd_loop y (x smod y) = Done (gcd y (x smod y))"
      using 1 m by simp
    with True m "1.prems" show ?thesis
      by (subst gcd_loop.simps) (simp add: gcd_red_int [symmetric])
  next
    case False
    moreover have "0 \<le> x mod y" using "1.prems" by simp
    ultimately have "x mod y = 0" by linarith
    then have "y dvd x" by (simp add: dvd_eq_mod_eq_0)
    then have "gcd x y = y" using "1.prems" by simp
    with \<open>x mod y = 0\<close> m "1.prems" show ?thesis by (subst gcd_loop.simps) simp
  qed
qed


section \<open>The turns of one cycle\<close>

text \<open>
  A cycle visits the weight levels \<open>g * K, \<dots>, g * 2, g\<close>, each level once over all items; a turn serves
  its item when the item's weight reaches the level.  \<open>k\<close> is the level and \<open>c\<close> the number of items
  already visited on it.
\<close>

fun levels :: "int \<Rightarrow> endpoint list \<Rightarrow> nat \<Rightarrow> (endpoint \<times> int) list" where
  "levels g es 0 = []"
| "levels g es (Suc k) = map (\<lambda>e. (e, g * int (Suc k))) es @ levels g es k"

definition turns_left :: "round_robin \<Rightarrow> nat \<Rightarrow> nat \<Rightarrow> (endpoint \<times> int) list" where
  "turns_left s k c =
     (if k = 0 then []
      else map (\<lambda>e. (e, rr_gcd s * int k)) (drop c (rr_items s)) @ levels (rr_gcd s) (rr_items s) (k - 1))"

definition served :: "(endpoint \<times> int) list \<Rightarrow> endpoint list" where
  "served ts = map fst (filter (\<lambda>(e, w). w \<le> ep_weight e) ts)"

definition cycle :: "round_robin \<Rightarrow> endpoint list" where
  "cycle s = served (levels (rr_gcd s) (rr_items s) (nat (rr_max_weight s div rr_gcd s)))"

definition rr_shape :: "round_robin \<Rightarrow> nat \<Rightarrow> bool" where
  "rr_shape s K \<longleftrightarrow>
     rr_n s = int (length (rr_items s)) \<and> 0 < rr_gcd s \<and> rr_max_weight s = rr_gcd s * int K \<and> 1 \<le> K \<and>
     (\<exists>e \<in> set (rr_items s). ep_weight e = rr_max_weight s) \<and>
     (\<forall>e \<in> set (rr_items s). ep_weight e \<le> rr_max_weight s \<and> (0 < ep_weight e \<longrightarrow> rr_gcd s dvd ep_weight e))"

definition rr_at :: "round_robin \<Rightarrow> nat \<Rightarrow> nat \<Rightarrow> nat \<Rightarrow> bool" where
  "rr_at s K k c \<longleftrightarrow>
     rr_shape s K \<and> rr_cw s = rr_gcd s * int k \<and> k \<le> K \<and> rr_i s = int c - 1 \<and>
     c \<le> length (rr_items s) \<and> (k = 0 \<longleftrightarrow> c = 0)"

definition same_ring :: "round_robin \<Rightarrow> round_robin \<Rightarrow> bool" where
  "same_ring s s' \<longleftrightarrow>
     rr_items s' = rr_items s \<and> rr_n s' = rr_n s \<and> rr_gcd s' = rr_gcd s \<and> rr_max_weight s' = rr_max_weight s"

lemma served_simps [simp]:
  "served [] = []"
  "served ((e, w) # ts) = (if w \<le> ep_weight e then e # served ts else served ts)"
  "served (xs @ ys) = served xs @ served ys"
  by (simp_all add: served_def)

lemma rr_shape_level:
  assumes "rr_shape s K"
  shows "nat (rr_max_weight s div rr_gcd s) = K"
  using assms by (simp add: rr_shape_def)

lemma rr_turn_wrap:
  assumes "(rr_i s + 1) smod rr_n s = 0"
    and "(if rr_cw s - rr_gcd s \<le> 0 then rr_max_weight s else rr_cw s - rr_gcd s) = w"
    and "w \<noteq> 0" and "rr_items s \<noteq> []"
  shows "rr_turn s =
    (if w \<le> ep_weight (rr_items s ! 0)
     then Inl (Done (Some (rr_items s ! 0), s\<lparr>rr_i := 0, rr_cw := w\<rparr>)) else Inr (s\<lparr>rr_i := 0, rr_cw := w\<rparr>))"
  unfolding rr_turn_def using assms by (cases "rr_cw s \<le> rr_gcd s") (simp_all add: Let_def)

text \<open>The level and the number of visited items after one turn.\<close>

definition level_after :: "nat \<Rightarrow> nat \<Rightarrow> nat \<Rightarrow> nat \<Rightarrow> nat" where
  "level_after n K k c = (if c = 0 \<or> c = n then (if k \<le> 1 then K else k - 1) else k)"

definition visited_after :: "nat \<Rightarrow> nat \<Rightarrow> nat" where
  "visited_after n c = (if c = 0 \<or> c = n then 1 else Suc c)"

definition turned :: "round_robin \<Rightarrow> nat \<Rightarrow> nat \<Rightarrow> nat \<Rightarrow> round_robin" where
  "turned s K k c =
     s\<lparr>rr_i := int (visited_after (length (rr_items s)) c) - 1,
       rr_cw := rr_gcd s * int (level_after (length (rr_items s)) K k c)\<rparr>"

lemma pending_turns:
  assumes "rr_at s K k c" and "2 \<le> length (rr_items s)"
  defines "n \<equiv> length (rr_items s)"
  shows "(if turns_left s k c = [] then levels (rr_gcd s) (rr_items s) K else turns_left s k c) =
    map (\<lambda>e. (e, rr_gcd s * int (level_after n K k c))) (drop (visited_after n c - 1) (rr_items s))
    @ levels (rr_gcd s) (rr_items s) (level_after n K k c - 1)"
proof -
  have c: "c \<le> n" "k = 0 \<longleftrightarrow> c = 0" and K: "1 \<le> K" and ne: "rr_items s \<noteq> []"
    using assms by (auto simp: rr_at_def rr_shape_def)
  consider (again) "c = 0 \<or> c = n" "k \<le> 1" | (lower) "c = n" "2 \<le> k" | (same) "c \<noteq> 0" "c < n" "k \<noteq> 0"
    using c by linarith
  then show ?thesis
  proof cases
    case again
    then have "turns_left s k c = []" using c by (auto simp: turns_left_def n_def)
    moreover obtain j where "K = Suc j" using K by (cases K) auto
    ultimately show ?thesis using again by (simp add: level_after_def visited_after_def)
  next
    case lower
    then obtain j where j: "k = Suc (Suc j)" by (metis One_nat_def Suc_1 Suc_le_D Suc_le_mono)
    then have "turns_left s k c = levels (rr_gcd s) (rr_items s) (Suc j)"
      using lower by (simp add: turns_left_def n_def)
    then show ?thesis using lower j ne by (simp add: level_after_def visited_after_def)
  next
    case same
    then have "turns_left s k c \<noteq> []" by (auto simp: turns_left_def n_def)
    with same show ?thesis by (simp add: turns_left_def level_after_def visited_after_def n_def)
  qed
qed

lemma level_after_pos: "rr_at s K k c \<Longrightarrow> 1 \<le> level_after (length (rr_items s)) K k c"
  by (auto simp: rr_at_def rr_shape_def level_after_def)

lemma rr_turn_eq:
  assumes "rr_at s K k c" and "2 \<le> length (rr_items s)"
  defines "n \<equiv> length (rr_items s)"
  shows "rr_turn s =
    (let e = rr_items s ! (visited_after n c - 1)
     in if rr_gcd s * int (level_after n K k c) \<le> ep_weight e
        then Inl (Done (Some e, turned s K k c)) else Inr (turned s K k c))"
proof -
  let ?g = "rr_gcd s"
  have i: "rr_i s = int c - 1" and cw: "rr_cw s = ?g * int k" and c: "c \<le> n" "k = 0 \<longleftrightarrow> c = 0"
    and n: "rr_n s = int n" and g: "0 < ?g" and mw: "rr_max_weight s = ?g * int K" and ne: "rr_items s \<noteq> []"
    using assms by (auto simp: rr_at_def rr_shape_def)
  have "int c smod int n = int c mod int n"
    using assms(2) by (cases "c = 0") (simp_all add: smod_int_alt_def n_def)
  then have i': "(rr_i s + 1) smod rr_n s = int (visited_after n c) - 1"
    using i n c assms(2) by (auto simp: visited_after_def n_def)
  show ?thesis
  proof (cases "c = 0 \<or> c = n")
    case True
    then have z: "(rr_i s + 1) smod rr_n s = 0" using i' by (simp add: visited_after_def)
    have pos: "?g * int (level_after n K k c) \<noteq> 0" using g level_after_pos [OF assms(1)] by (simp add: n_def)
    have "rr_cw s - ?g \<le> 0 \<longleftrightarrow> k \<le> 1"
      using g by (cases k) (auto simp: cw algebra_simps mult_le_0_iff)
    then have cw': "(if rr_cw s - ?g \<le> 0 then rr_max_weight s else rr_cw s - ?g) = ?g * int (level_after n K k c)"
      using True mw cw by (auto simp: level_after_def algebra_simps of_nat_diff)
    show ?thesis
      using True rr_turn_wrap [OF z cw' pos ne]
      by (simp add: turned_def visited_after_def n_def Let_def)
  next
    case False
    then have "level_after n K k c = k" "visited_after n c = Suc c" "0 < c" "c < n"
      using c by (auto simp: level_after_def visited_after_def)
    then show ?thesis using i' cw unfolding rr_turn_def n_def by (simp add: Let_def turned_def)
  qed
qed

lemma rr_turn_step:
  assumes "rr_at s K k c" and "2 \<le> length (rr_items s)"
    and "(if turns_left s k c = [] then levels (rr_gcd s) (rr_items s) K else turns_left s k c) = (e, w) # ts"
  obtains s' k' c' where "rr_at s' K k' c'" and "same_ring s s'" and "turns_left s' k' c' = ts"
    and "rr_turn s = (if w \<le> ep_weight e then Inl (Done (Some e, s')) else Inr s')"
proof -
  let ?n = "length (rr_items s)"
  let ?k = "level_after ?n K k c" and ?c = "visited_after ?n c"
  have c: "?c \<le> ?n" "1 \<le> ?c" using assms(1,2) by (auto simp: visited_after_def rr_at_def)
  have at': "rr_at (turned s K k c) K ?k ?c"
    using assms(1) c level_after_pos [OF assms(1)]
    by (auto simp: rr_at_def rr_shape_def turned_def level_after_def)
  have d: "drop (?c - 1) (rr_items s) = rr_items s ! (?c - 1) # drop ?c (rr_items s)"
    using Cons_nth_drop_Suc [of "?c - 1" "rr_items s"] c by simp
  have "(e, w) # ts = map (\<lambda>e. (e, rr_gcd s * int ?k)) (rr_items s ! (?c - 1) # drop ?c (rr_items s))
      @ levels (rr_gcd s) (rr_items s) (?k - 1)"
    using pending_turns [OF assms(1,2)] assms(3) unfolding d by simp
  then have "e = rr_items s ! (?c - 1)" "w = rr_gcd s * int ?k" "ts = turns_left (turned s K k c) ?k ?c"
    using level_after_pos [OF assms(1)] by (auto simp: turns_left_def turned_def)
  moreover have "same_ring s (turned s K k c)" by (simp add: same_ring_def turned_def)
  ultimately show thesis
    using that [OF at'] rr_turn_eq [OF assms(1,2)] by (simp add: Let_def)
qed

lemma rr_loop_served:
  assumes "rr_at s K k c" and "2 \<le> length (rr_items s)"
    and "(if turns_left s k c = [] then levels (rr_gcd s) (rr_items s) K else turns_left s k c) = ts"
    and "served ts = e # rest"
  obtains s' k' c' where "rr_loop s = Some (Done (Some e, s'))" and "rr_at s' K k' c'"
    and "same_ring s s'" and "served (turns_left s' k' c') = rest"
  using assms
proof (induction ts arbitrary: s k c thesis)
  case (Cons t ts)
  obtain x w where t: "t = (x, w)" by (cases t)
  from Cons.prems(4) obtain s1 k1 c1 where s1: "rr_at s1 K k1 c1" "same_ring s s1" "turns_left s1 k1 c1 = ts"
      "rr_turn s = (if w \<le> ep_weight x then Inl (Done (Some x, s1)) else Inr s1)"
    unfolding t by (rule rr_turn_step [OF Cons.prems(2,3)])
  show ?case
  proof (cases "w \<le> ep_weight x")
    case True
    then show ?thesis
      using Cons.prems(1) [of s1 k1 c1] Cons.prems(5) s1 by (simp add: t rr_loop.simps [of s])
  next
    case False
    then have rest: "served ts = e # rest" using Cons.prems(5) by (simp add: t)
    have two: "2 \<le> length (rr_items s1)" using s1(2) Cons.prems(3) by (simp add: same_ring_def)
    have pend: "(if turns_left s1 k1 c1 = [] then levels (rr_gcd s1) (rr_items s1) K
        else turns_left s1 k1 c1) = ts"
      using rest s1(3) by (cases ts) auto
    obtain s' k' c' where "rr_loop s1 = Some (Done (Some e, s'))" "rr_at s' K k' c'" "same_ring s1 s'"
        "served (turns_left s' k' c') = rest"
      by (rule Cons.IH [OF _ s1(1) two pend rest])
    then show ?thesis
      using Cons.prems(1) [of s' k' c'] s1(2,4) False by (simp add: same_ring_def rr_loop.simps [of s])
  qed
qed simp

lemma rr_loop_drained:
  assumes "rr_at s K k c" and "2 \<le> length (rr_items s)"
    and "turns_left s k c = ts" and "served ts = []"
    and "served (levels (rr_gcd s) (rr_items s) K) = e # rest"
  obtains s' k' c' where "rr_loop s = Some (Done (Some e, s'))" and "rr_at s' K k' c'"
    and "same_ring s s'" and "served (turns_left s' k' c') = rest"
  using assms
proof (induction ts arbitrary: s k c thesis)
  case Nil
  then show ?case by (elim rr_loop_served [of s K k c]) auto
next
  case (Cons t ts)
  obtain x w where t: "t = (x, w)" by (cases t)
  have "(if turns_left s k c = [] then levels (rr_gcd s) (rr_items s) K else turns_left s k c) = (x, w) # ts"
    using Cons.prems(4) by (simp add: t)
  then obtain s1 k1 c1 where s1: "rr_at s1 K k1 c1" "same_ring s s1" "turns_left s1 k1 c1 = ts"
      "rr_turn s = (if w \<le> ep_weight x then Inl (Done (Some x, s1)) else Inr s1)"
    by (rule rr_turn_step [OF Cons.prems(2,3)])
  have skip: "\<not> w \<le> ep_weight x" "served ts = []" using Cons.prems(5) by (auto simp: t split: if_splits)
  obtain s' k' c' where "rr_loop s1 = Some (Done (Some e, s'))" "rr_at s' K k' c'" "same_ring s1 s'"
      "served (turns_left s' k' c') = rest"
    by (rule Cons.IH [OF _ s1(1) _ s1(3) skip(2), of thesis]) (use Cons.prems s1(2) in \<open>auto simp: same_ring_def\<close>)
  then show ?case
    using Cons.prems(1) [of s' k' c'] s1(2,4) skip(1) by (simp add: same_ring_def rr_loop.simps [of s])
qed

lemma cycle_not_empty:
  assumes "rr_shape s K"
  shows "served (levels (rr_gcd s) (rr_items s) K) \<noteq> []"
proof -
  obtain e where "e \<in> set (rr_items s)" "ep_weight e = rr_gcd s * int K" and "1 \<le> K"
    using assms by (auto simp: rr_shape_def)
  then have "e \<in> set (served (levels (rr_gcd s) (rr_items s) K))"
    by (cases K) (auto simp: served_def image_iff)
  then show ?thesis by auto
qed

text \<open>
  The specification of \<open>next\<close>: it serves the items of the cycle in order, and starts the cycle again
  when it is used up.
\<close>

lemma rr_loop_spec:
  assumes "rr_at s K k c" and "2 \<le> length (rr_items s)"
  obtains e s' k' c' where "rr_loop s = Some (Done (Some e, s'))" and "rr_at s' K k' c'"
    and "same_ring s s'"
    and "e # served (turns_left s' k' c') =
      (if served (turns_left s k c) = [] then cycle s else served (turns_left s k c))"
proof (cases "served (turns_left s k c)")
  case Nil
  have shape: "rr_shape s K" using assms(1) by (simp add: rr_at_def)
  obtain e rest where er: "served (levels (rr_gcd s) (rr_items s) K) = e # rest"
    using cycle_not_empty [OF shape] by (meson list.exhaust)
  obtain s' k' c' where "rr_loop s = Some (Done (Some e, s'))" "rr_at s' K k' c'" "same_ring s s'"
      "served (turns_left s' k' c') = rest"
    by (rule rr_loop_drained [OF assms refl Nil er])
  then show ?thesis
    using that [of e s' k' c'] Nil er by (simp add: cycle_def rr_shape_level [OF shape])
next
  case (Cons e rest)
  then have pend: "(if turns_left s k c = [] then levels (rr_gcd s) (rr_items s) K else turns_left s k c) =
      turns_left s k c"
    by auto
  obtain s' k' c' where "rr_loop s = Some (Done (Some e, s'))" "rr_at s' K k' c'" "same_ring s s'"
      "served (turns_left s' k' c') = rest"
    by (rule rr_loop_served [OF assms pend Cons])
  then show ?thesis using that [of e s' k' c'] Cons by simp
qed

section \<open>Invariant\<close>

text \<open>
  What holds of every balancer built by \<open>add\<close>, \<open>next\<close> and \<open>remove_all\<close>: either no item has a positive
  weight, or the divisor and the maximum fit the items and the cursor stands in the cycle.
\<close>

definition rr_idle :: "round_robin \<Rightarrow> bool" where
  "rr_idle s \<longleftrightarrow>
     rr_n s = int (length (rr_items s)) \<and> rr_gcd s = 0 \<and> rr_max_weight s = 0 \<and> rr_cw s = 0 \<and>
     (\<forall>e \<in> set (rr_items s). ep_weight e \<le> 0) \<and> -1 \<le> rr_i s \<and> rr_i s \<le> max 0 (rr_n s - 1)"

definition rr_ok :: "round_robin \<Rightarrow> bool" where
  "rr_ok s \<longleftrightarrow> rr_idle s \<or> (\<exists>K k c. rr_at s K k c)"

lemma rr_ok_default: "rr_ok rr_default"
  by (simp add: rr_ok_def rr_idle_def rr_default_def)

lemma rr_ok_remove_all: "rr_ok (rr_remove_all s)"
  by (simp add: rr_ok_def rr_idle_def rr_remove_all_def)

lemma rr_at_add:
  assumes "rr_at s K k c" and "0 < ep_weight ep" and "\<not> name_listed ep (rr_items s)"
  obtains s' K' k' where "rr_add ep s = Done s'" and "rr_at s' K' k' c" and "rr_items s' = rr_items s @ [ep]"
proof -
  let ?g = "rr_gcd s" and ?w = "ep_weight ep" and ?m = "max (rr_max_weight s) (ep_weight ep)"
  define g' where "g' = gcd ?g ?w"
  have g: "0 < ?g" and mw: "rr_max_weight s = ?g * int K" and K: "1 \<le> K"
    using assms(1) by (auto simp: rr_at_def rr_shape_def)
  have g': "0 < g'" "g' dvd ?g" "g' dvd ?w" using g by (auto simp: g'_def)
  obtain q where q: "?g = g' * q" using g'(2) by auto
  then have "0 < q" using g g'(1) by (simp add: zero_less_mult_iff)
  obtain p where p: "?w = g' * p" using g'(3) by auto
  then have "0 < p" using assms(2) g'(1) by (simp add: zero_less_mult_iff)
  define K' where "K' = nat (max (q * int K) p)"
  define k' where "k' = nat (q * int k)"
  define s' where "s' = s\<lparr>rr_gcd := g', rr_max_weight := ?m, rr_items := rr_items s @ [ep], rr_n := rr_n s + 1\<rparr>"
  have m: "?m = g' * int K'"
    using \<open>0 < q\<close> \<open>0 < p\<close> g' by (simp add: mw q p K'_def max_mult_distrib_left le_max_iff_disj algebra_simps)
  have "1 \<le> K'" using \<open>0 < p\<close> by (simp add: K'_def)
  have "q * int k \<le> q * int K" using assms(1) \<open>0 < q\<close> by (simp add: rr_at_def)
  then have "k' \<le> K'" unfolding k'_def K'_def by (intro nat_mono max.coboundedI1)
  have "k' = 0 \<longleftrightarrow> k = 0" using \<open>0 < q\<close> by (simp add: k'_def mult_le_0_iff)
  have "rr_cw s = g' * int k'" using assms(1) \<open>0 < q\<close> by (simp add: rr_at_def q k'_def)
  have shape: "rr_shape s K" using assms(1) by (simp add: rr_at_def)
  have "ep_weight e \<le> ?m \<and> (0 < ep_weight e \<longrightarrow> g' dvd ep_weight e)" if "e \<in> set (rr_items s @ [ep])" for e
    using that shape g'(2,3) by (auto simp: rr_shape_def intro: dvd_trans max.coboundedI1)
  moreover have "\<exists>e \<in> set (rr_items s @ [ep]). ep_weight e = ?m"
    using shape by (cases "ep_weight ep \<le> rr_max_weight s") (auto simp: rr_shape_def max_def)
  ultimately have "rr_shape s' K'"
    using shape g'(1) m \<open>1 \<le> K'\<close> by (auto simp: rr_shape_def s'_def)
  then have "rr_at s' K' k' c"
    using assms(1) \<open>k' \<le> K'\<close> \<open>k' = 0 \<longleftrightarrow> k = 0\<close> \<open>rr_cw s = g' * int k'\<close> by (auto simp: rr_at_def s'_def)
  moreover have "rr_add ep s = Done s'"
    using assms(2,3) g by (simp add: rr_add_def gcd_loop_gcd s'_def g'_def Let_def max_def)
  ultimately show thesis using that by (simp add: s'_def)
qed


lemma rr_at_add_light:
  assumes "rr_at s K k c" and "ep_weight ep \<le> 0" and "\<not> name_listed ep (rr_items s)"
  shows "\<exists>s'. rr_add ep s = Done s' \<and> rr_at s' K k c \<and> rr_items s' = rr_items s @ [ep]"
proof -
  have "0 \<le> rr_max_weight s" using assms(1) by (simp add: rr_at_def rr_shape_def)
  then have "ep_weight ep \<le> rr_max_weight s" using assms(2) by simp
  then show ?thesis
    using assms by (auto simp: rr_add_def rr_at_def rr_shape_def)
qed

lemma rr_idle_add:
  assumes "rr_idle s" and "\<not> name_listed ep (rr_items s)"
  shows "\<exists>s'. rr_add ep s = Done s' \<and> rr_ok s' \<and> rr_items s' = rr_items s @ [ep]"
proof (cases "0 < ep_weight ep")
  case True
  let ?s = "s\<lparr>rr_gcd := ep_weight ep, rr_max_weight := ep_weight ep, rr_i := -1, rr_cw := 0,
     rr_items := rr_items s @ [ep], rr_n := rr_n s + 1\<rparr>"
  have "rr_at ?s 1 0 0" using assms(1) True by (auto simp: rr_at_def rr_shape_def rr_idle_def)
  moreover have "rr_add ep s = Done ?s" using assms True by (simp add: rr_add_def rr_idle_def Let_def)
  ultimately show ?thesis by (auto simp: rr_ok_def)
next
  case False
  then show ?thesis using assms by (auto simp: rr_add_def rr_ok_def rr_idle_def Let_def)
qed

lemma rr_ok_add:
  assumes "rr_ok s"
  shows "\<exists>s'. rr_add ep s = Done s' \<and> rr_ok s' \<and>
    rr_items s' = (if name_listed ep (rr_items s) then rr_items s else rr_items s @ [ep])"
proof (cases "name_listed ep (rr_items s)")
  case True
  then show ?thesis using assms by (simp add: rr_add_def)
next
  case False
  consider (idle) "rr_idle s" | (at) K k c where "rr_at s K k c" using assms by (auto simp: rr_ok_def)
  then show ?thesis
  proof cases
    case idle
    then show ?thesis using rr_idle_add False by simp
  next
    case at
    show ?thesis
    proof (cases "0 < ep_weight ep")
      case True
      obtain s' K' k' where "rr_add ep s = Done s'" "rr_at s' K' k' c" "rr_items s' = rr_items s @ [ep]"
        by (rule rr_at_add [OF at True False])
      then show ?thesis using False by (auto simp: rr_ok_def)
    next
      case False
      with at \<open>\<not> name_listed ep (rr_items s)\<close> show ?thesis
        using rr_at_add_light [of s K k c ep] by (auto simp: rr_ok_def)
    qed
  qed
qed

lemma rr_idle_loop:
  assumes "rr_idle s" and "2 \<le> length (rr_items s)"
  shows "\<exists>e s'. rr_loop s = Some (Done (e, s')) \<and> rr_idle s' \<and> rr_items s' = rr_items s \<and>
    (\<forall>x. e = Some x \<longrightarrow> x \<in> set (rr_items s))"
  using assms
proof (induction "nat (rr_n s - rr_i s)" arbitrary: s rule: less_induct)
  case less
  let ?i = "(rr_i s + 1) smod rr_n s" and ?n = "rr_n s"
  have n: "?n = int (length (rr_items s))" "2 \<le> ?n" and i: "-1 \<le> rr_i s" "rr_i s \<le> ?n - 1"
    using less.prems by (auto simp: rr_idle_def)
  have i': "?i = (if rr_i s = ?n - 1 then 0 else rr_i s + 1)"
    using n i by (cases "rr_i s + 1 = 0") (auto simp: smod_int_alt_def)
  show ?case
  proof (cases "?i = 0")
    case True
    then have "rr_turn s = Inl (Done (None, s\<lparr>rr_i := 0, rr_cw := 0\<rparr>))"
      using less.prems by (simp add: rr_turn_def rr_idle_def Let_def)
    then show ?thesis using less.prems by (auto simp: rr_loop.simps [of s] rr_idle_def)
  next
    case False
    let ?s = "s\<lparr>rr_i := rr_i s + 1\<rparr>" and ?e = "rr_items s ! nat (rr_i s + 1)"
    have lt: "0 \<le> rr_i s + 1" "rr_i s + 1 < ?n" using False i i' by (auto split: if_splits)
    have turn: "rr_turn s = (if 0 \<le> ep_weight ?e then Inl (Done (Some ?e, ?s)) else Inr ?s)"
      using less.prems(1) False i' lt n by (simp add: rr_turn_def rr_idle_def Let_def)
    have idle: "rr_idle ?s" using less.prems(1) lt by (simp add: rr_idle_def)
    show ?thesis
    proof (cases "0 \<le> ep_weight ?e")
      case True
      moreover have "?e \<in> set (rr_items s)" using lt n by simp
      ultimately show ?thesis using turn idle by (auto simp: rr_loop.simps [of s])
    next
      case False
      have "nat (rr_n ?s - rr_i ?s) < nat (rr_n s - rr_i s)" using lt by simp
      from less.hyps [OF this idle] less.prems(2) turn False show ?thesis
        by (simp add: rr_loop.simps [of s])
    qed
  qed
qed

lemma served_subset: "set (served ts) \<subseteq> fst ` set ts"
  by (auto simp: served_def)

lemma levels_items: "fst ` set (levels g es k) \<subseteq> set es"
  by (induction k) auto

lemma turns_left_items: "fst ` set (turns_left s k c) \<subseteq> set (rr_items s)"
  using levels_items [of "rr_gcd s" "rr_items s" "k - 1"] by (auto simp: turns_left_def dest: in_set_dropD)

lemma cycle_items: "set (cycle s) \<subseteq> set (rr_items s)"
  unfolding cycle_def using served_subset levels_items by fastforce

text \<open>\<open>next\<close> always returns, keeps the invariant and the items, and answers with one of the items.\<close>

lemma rr_next_total:
  assumes "rr_ok s"
  shows "\<exists>e s'. rr_next s = Some (Done (e, s')) \<and> rr_ok s' \<and> rr_items s' = rr_items s \<and>
    (\<forall>x. e = Some x \<longrightarrow> x \<in> set (rr_items s))"
proof -
  have n: "rr_n s = int (length (rr_items s))"
    using assms by (auto simp: rr_ok_def rr_idle_def rr_at_def rr_shape_def)
  consider (empty) "rr_items s = []" | (one) x where "rr_items s = [x]" | (many) "2 \<le> length (rr_items s)"
    by (cases "rr_items s" rule: remdups_adj.cases) auto
  then show ?thesis
  proof cases
    case many
    then have "rr_n s \<noteq> 0 \<and> rr_n s \<noteq> 1" using n by auto
    then have next_loop: "rr_next s = rr_loop s" by (simp add: rr_next_def)
    consider (idle) "rr_idle s" | (at) K k c where "rr_at s K k c" using assms by (auto simp: rr_ok_def)
    then show ?thesis
    proof cases
      case idle
      from rr_idle_loop [OF idle many] next_loop show ?thesis by (auto simp: rr_ok_def)
    next
      case at
      from rr_loop_spec [OF at many] obtain e s' k' c' where
        *: "rr_loop s = Some (Done (Some e, s'))" "rr_at s' K k' c'" "same_ring s s'"
          "e # served (turns_left s' k' c') =
             (if served (turns_left s k c) = [] then cycle s else served (turns_left s k c))" .
      have "e \<in> set (if served (turns_left s k c) = [] then cycle s else served (turns_left s k c))"
        by (subst *(4) [symmetric]) simp
      then have "e \<in> set (rr_items s)"
        using cycle_items [of s] served_subset [of "turns_left s k c"] turns_left_items [of s k c]
        by (auto split: if_splits)
      with * next_loop show ?thesis by (auto simp: rr_ok_def same_ring_def)
    qed
  qed (use assms n in \<open>auto simp: rr_next_def\<close>)
qed


section \<open>Fairness of the round robin\<close>

fun rr_serve :: "nat \<Rightarrow> round_robin \<Rightarrow> (endpoint list \<times> round_robin) option" where
  "rr_serve 0 s = Some ([], s)"
| "rr_serve (Suc m) s =
     (case rr_next s of
        Some (Done (Some e, s')) \<Rightarrow> map_option (\<lambda>(es, s''). (e # es, s'')) (rr_serve m s')
      | _ \<Rightarrow> None)"

lemma rr_serve_takes:
  assumes "rr_at s K k c" and "2 \<le> length (rr_items s)"
    and "j \<le> length (served (turns_left s k c)) + length (cycle s)"
  shows "\<exists>s'. rr_serve j s = Some (take j (served (turns_left s k c) @ cycle s), s')"
  using assms
proof (induction j arbitrary: s k c)
  case (Suc j)
  let ?r = "served (turns_left s k c)"
  obtain e s1 k1 c1 where step: "rr_loop s = Some (Done (Some e, s1))" "rr_at s1 K k1 c1" "same_ring s s1"
      "e # served (turns_left s1 k1 c1) = (if ?r = [] then cycle s else ?r)"
    by (rule rr_loop_spec [OF Suc.prems(1,2)])
  let ?r1 = "served (turns_left s1 k1 c1)"
  have cyc: "cycle s1 = cycle s" and two: "2 \<le> length (rr_items s1)"
    using step(3) Suc.prems(2) by (auto simp: cycle_def same_ring_def)
  have "length (e # ?r1) = length (if ?r = [] then cycle s else ?r)" by (simp only: step(4))
  then have len: "j \<le> length ?r1 + length (cycle s1)"
    using Suc.prems(3) by (auto simp: cyc split: if_splits)
  have "rr_n s \<noteq> 0 \<and> rr_n s \<noteq> 1"
    using Suc.prems(1,2) by (auto simp: rr_at_def rr_shape_def)
  then have nxt: "rr_next s = Some (Done (Some e, s1))" using step(1) by (simp add: rr_next_def)
  have out: "e # take j (?r1 @ cycle s1) = take (Suc j) (?r @ cycle s)"
  proof (cases "?r = []")
    case True
    then have c: "cycle s = e # ?r1" using step(4) by simp
    then have "j \<le> length ?r1" using Suc.prems(3) True by simp
    with c True show ?thesis by simp
  next
    case False
    then have "?r = e # ?r1" using step(4) by simp
    then show ?thesis by (simp add: cyc)
  qed
  obtain s' where "rr_serve j s1 = Some (take j (?r1 @ cycle s1), s')"
    using Suc.IH [OF step(2) two len] by auto
  then have "rr_serve (Suc j) s = Some (e # take j (?r1 @ cycle s1), s')" by (simp add: nxt)
  then show ?case unfolding out by blast
qed simp

lemma levels_suffix: "k \<le> K \<Longrightarrow> \<exists>p. levels g es K = p @ levels g es k"
proof (induction K)
  case (Suc K)
  show ?case
  proof (cases "k = Suc K")
    case False
    then obtain p where "levels g es K = p @ levels g es k" using Suc by auto
    then show ?thesis by simp
  qed simp
qed simp

lemma turns_left_suffix:
  assumes "rr_at s K k c"
  shows "\<exists>p. levels (rr_gcd s) (rr_items s) K = p @ turns_left s k c"
proof (cases k)
  case (Suc j)
  obtain p where "levels (rr_gcd s) (rr_items s) K = p @ levels (rr_gcd s) (rr_items s) k"
    using levels_suffix [of k K] assms by (auto simp: rr_at_def)
  moreover have "levels (rr_gcd s) (rr_items s) k =
      map (\<lambda>e. (e, rr_gcd s * int k)) (take c (rr_items s)) @ turns_left s k c"
    by (simp add: Suc turns_left_def map_append [symmetric] del: map_append)
  ultimately show ?thesis by (metis append_assoc)
qed (simp add: turns_left_def)

lemma count_list_distinct: "distinct es \<Longrightarrow> e \<in> set es \<Longrightarrow> count_list es e = 1"
  by (induction es) (auto simp: count_list_0_iff)

lemma count_list_filter: "count_list (filter P es) e = (if P e then count_list es e else 0)"
  by (induction es) auto

lemma served_level: "served (map (\<lambda>e. (e, w)) es) = filter (\<lambda>e. w \<le> ep_weight e) es"
  by (induction es) auto

lemma level_reached: "0 < g \<Longrightarrow> g * int k \<le> w \<longleftrightarrow> int k \<le> w div (g :: int)"
proof
  assume "0 < g" and "g * int k \<le> w"
  then show "int k \<le> w div g" using zdiv_mono1 [of "g * int k" w g] by simp
next
  assume g: "0 < g" and "int k \<le> w div g"
  then have "g * int k \<le> g * (w div g)" by simp
  also have "\<dots> \<le> w"
    using mult_div_mod_eq [of g w] pos_mod_sign [OF g, of w] by linarith
  finally show "g * int k \<le> w" .
qed

lemma count_levels:
  assumes "0 < g" and "distinct es" and "e \<in> set es"
  shows "count_list (served (levels g es k)) e = min k (nat (ep_weight e div g))"
proof (induction k)
  case (Suc k)
  have "count_list (served (map (\<lambda>e. (e, g * int (Suc k))) es)) e =
      (if int (Suc k) \<le> ep_weight e div g then 1 else 0)"
    unfolding served_level count_list_filter level_reached [OF assms(1)]
    using count_list_distinct [OF assms(2,3)] by simp
  moreover have "min (Suc k) n = (if Suc k \<le> n then 1 else 0) + min k n" for n by auto
  moreover have "int (Suc k) \<le> ep_weight e div g \<longleftrightarrow> Suc k \<le> nat (ep_weight e div g)" by auto
  ultimately show ?case using Suc by (simp add: count_list_append)
qed simp

definition rr_share :: "round_robin \<Rightarrow> endpoint \<Rightarrow> nat" where
  "rr_share s e = nat (ep_weight e div rr_gcd s)"

lemma count_cycle:
  assumes "rr_shape s K" and "distinct (rr_items s)" and "e \<in> set (rr_items s)"
  shows "count_list (cycle s) e = rr_share s e"
proof -
  have g: "0 < rr_gcd s" and "ep_weight e \<le> rr_gcd s * int K" using assms by (auto simp: rr_shape_def)
  then have "ep_weight e div rr_gcd s \<le> int K"
    using zdiv_mono1 [of "ep_weight e" "rr_gcd s * int K" "rr_gcd s"] by simp
  then have "nat (ep_weight e div rr_gcd s) \<le> K" by simp
  then show ?thesis
    unfolding cycle_def rr_shape_level [OF assms(1)]
    by (simp add: count_levels [OF g assms(2,3)] rr_share_def)
qed

lemma sum_count_list: "set xs \<subseteq> set es \<Longrightarrow> distinct es \<Longrightarrow> (\<Sum>e \<leftarrow> es. count_list xs e) = length xs"
proof (induction xs)
  case (Cons x xs)
  have "(\<Sum>e \<leftarrow> es. count_list (x # xs) e) = (\<Sum>e \<leftarrow> es. count_list xs e) + (\<Sum>e \<leftarrow> es. if x = e then 1 else 0)"
    by (induction es) auto
  also have "(\<Sum>e \<leftarrow> es. if x = e then 1 else 0) = count_list es x"
    by (induction es) auto
  also have "\<dots> = 1" using Cons.prems count_list_distinct by auto
  finally show ?case using Cons by simp
qed simp

lemma cycle_length:
  assumes "rr_shape s K" and "distinct (rr_items s)"
  shows "length (cycle s) = (\<Sum>e \<leftarrow> rr_items s. rr_share s e)"
proof -
  have "(\<Sum>e \<leftarrow> rr_items s. rr_share s e) = (\<Sum>e \<leftarrow> rr_items s. count_list (cycle s) e)"
    using count_cycle [OF assms] by (intro arg_cong [where f = sum_list] map_cong) auto
  then show ?thesis using sum_count_list [OF cycle_items assms(2)] by simp
qed

lemma rr_at_fair:
  assumes "rr_at s K k c" and "2 \<le> length (rr_items s)" and "distinct (rr_items s)"
  shows "\<exists>xs s'. rr_serve (\<Sum>e \<leftarrow> rr_items s. rr_share s e) s = Some (xs, s') \<and>
    (\<forall>e \<in> set (rr_items s). count_list xs e = rr_share s e)"
proof -
  let ?r = "served (turns_left s k c)"
  have shape: "rr_shape s K" using assms(1) by (simp add: rr_at_def)
  obtain p where "levels (rr_gcd s) (rr_items s) K = p @ turns_left s k c"
    using turns_left_suffix [OF assms(1)] by blast
  then have cyc: "cycle s = served p @ ?r" by (simp add: cycle_def rr_shape_level [OF shape])
  obtain s' where "rr_serve (length (cycle s)) s = Some (take (length (cycle s)) (?r @ cycle s), s')"
    using rr_serve_takes [OF assms(1,2), of "length (cycle s)"] by auto
  then have "rr_serve (length (cycle s)) s = Some (?r @ served p, s')" by (simp add: cyc)
  moreover have "count_list (?r @ served p) e = count_list (cycle s) e" for e by (simp add: cyc)
  ultimately show ?thesis
    using count_cycle [OF shape assms(3)] cycle_length [OF shape assms(3)] by auto
qed


text \<open>Balancers reached by the operations a service uses: building, adding, choosing, clearing.\<close>

inductive rr_reachable :: "round_robin \<Rightarrow> bool" where
  rr_start: "rr_reachable rr_default"
| rr_added: "rr_reachable s \<Longrightarrow> rr_add ep s = Done s' \<Longrightarrow> rr_reachable s'"
| rr_chosen: "rr_reachable s \<Longrightarrow> rr_next s = Some (Done (e, s')) \<Longrightarrow> rr_reachable s'"
| rr_cleared: "rr_reachable s \<Longrightarrow> rr_reachable (rr_remove_all s)"

lemma rr_reachable_ok: "rr_reachable s \<Longrightarrow> rr_ok s \<and> distinct (map ep_name (rr_items s))"
proof (induction rule: rr_reachable.induct)
  case rr_start
  show ?case by (simp add: rr_ok_default) (simp add: rr_default_def)
next
  case (rr_added s ep s')
  then show ?case using rr_ok_add [of s ep] by (auto simp: name_listed_def split: if_splits)
next
  case (rr_chosen s e s')
  then show ?case using rr_next_total [of s] by auto
next
  case (rr_cleared s)
  show ?case by (simp add: rr_ok_remove_all) (simp add: rr_remove_all_def)
qed

lemma rr_reachable_at:
  assumes "rr_reachable s" and "\<exists>e \<in> set (rr_items s). 0 < ep_weight e"
  obtains K k c where "rr_at s K k c"
  using rr_reachable_ok [OF assms(1)] assms(2) by (auto simp: rr_ok_def rr_idle_def not_le)

lemma rr_fair:
  assumes "rr_reachable s" and "2 \<le> length (rr_items s)" and "\<exists>e \<in> set (rr_items s). 0 < ep_weight e"
  shows "\<exists>xs s'. rr_serve (\<Sum>e \<leftarrow> rr_items s. rr_share s e) s = Some (xs, s') \<and>
    (\<forall>e \<in> set (rr_items s). count_list xs e = rr_share s e)"
proof -
  obtain K k c where "rr_at s K k c" by (rule rr_reachable_at [OF assms(1,3)])
  moreover have "distinct (rr_items s)"
    using rr_reachable_ok [OF assms(1)] by (auto dest: distinct_map [THEN iffD1])
  ultimately show ?thesis using rr_at_fair assms(2) by blast
qed

section \<open>Fairness of the random choice\<close>

lemma rw_pick_member: "rw_pick r es = Some e \<Longrightarrow> e \<in> set es"
  by (induction es arbitrary: r) (auto split: if_splits)

lemma rw_pick_found: "es \<noteq> [] \<Longrightarrow> r \<le> (\<Sum>e \<leftarrow> es. ep_weight e) \<Longrightarrow> rw_pick r es \<noteq> None"
proof (induction es arbitrary: r)
  case (Cons x es)
  then show ?case using Cons.IH [of "r - ep_weight x"] by (cases "es = []") auto
qed simp

lemma rw_pick_interval:
  assumes "distinct es" and "\<forall>e \<in> set es. 0 \<le> ep_weight e" and "e \<in> set es"
  shows "\<exists>lo \<ge> 0. lo + ep_weight e \<le> (\<Sum>x \<leftarrow> es. ep_weight x) \<and>
    {r. 1 \<le> r \<and> rw_pick r es = Some e} = {lo + 1 .. lo + ep_weight e}"
  using assms
proof (induction es)
  case (Cons x es)
  show ?case
  proof (cases "e = x")
    case True
    have "rw_pick r (x # es) = Some e \<longleftrightarrow> r \<le> ep_weight x" if "1 \<le> r" for r
      using True Cons.prems(1) rw_pick_member [of "r - ep_weight x" es e] by auto
    moreover have "0 \<le> (\<Sum>x \<leftarrow> es. ep_weight x)"
      using Cons.prems(2) by (intro sum_list_nonneg) auto
    ultimately show ?thesis using True by (intro exI [of _ 0]) (auto simp del: rw_pick.simps)
  next
    case False
    then obtain lo where lo: "0 \<le> lo" "lo + ep_weight e \<le> (\<Sum>x \<leftarrow> es. ep_weight x)"
        "{r. 1 \<le> r \<and> rw_pick r es = Some e} = {lo + 1 .. lo + ep_weight e}"
      using Cons by auto
    have pick: "rw_pick r (x # es) = Some e \<longleftrightarrow> 1 \<le> r - ep_weight x \<and> rw_pick (r - ep_weight x) es = Some e" for r
      using False by auto
    have "{r. 1 \<le> r \<and> rw_pick r (x # es) = Some e} = {r. r - ep_weight x \<in> {lo + 1 .. lo + ep_weight e}}"
      using Cons.prems(2) by (auto simp: pick lo(3) [symmetric] simp del: rw_pick.simps)
    also have "\<dots> = {lo + ep_weight x + 1 .. lo + ep_weight x + ep_weight e}" by auto
    finally show ?thesis using lo(1,2) Cons.prems(2)
      by (intro exI [of _ "lo + ep_weight x"]) auto
  qed
qed simp


definition rw_ok :: "random_weighted \<Rightarrow> bool" where
  "rw_ok s \<longleftrightarrow>
     rw_n s = int (length (rw_items s)) \<and> rw_sum_of_weights s = (\<Sum>e \<leftarrow> rw_items s. ep_weight e) \<and>
     distinct (map ep_name (rw_items s))"

lemma rw_ok_default: "rw_ok rw_default"
  by (simp add: rw_ok_def rw_default_def)

lemma rw_ok_add:
  "rw_ok s \<Longrightarrow> rw_ok (rw_add ep s) \<and>
     rw_items (rw_add ep s) = (if name_listed ep (rw_items s) then rw_items s else rw_items s @ [ep])"
  by (auto simp: rw_ok_def rw_add_def name_listed_def)

lemma rw_next_total:
  assumes "rw_ok s"
  shows "\<exists>e. rw_next draw s = Done (e, s) \<and> (\<forall>x. e = Some x \<longrightarrow> x \<in> set (rw_items s))"
  using assms rw_pick_member [of "draw + 1" "rw_items s"]
  by (auto simp: rw_next_def rw_ok_def split: option.split)

lemma rw_fair:
  assumes "rw_ok s" and "\<forall>e \<in> set (rw_items s). 0 \<le> ep_weight e" and "e \<in> set (rw_items s)"
  shows "card {draw. 0 \<le> draw \<and> draw < rw_sum_of_weights s \<and> rw_next draw s = Done (Some e, s)} = nat (ep_weight e)"
proof -
  let ?S = "rw_sum_of_weights s"
  have d: "distinct (rw_items s)" and S: "?S = (\<Sum>e \<leftarrow> rw_items s. ep_weight e)" and n: "rw_n s \<noteq> 0"
    using assms(1,3) by (auto simp: rw_ok_def dest: distinct_map [THEN iffD1])
  obtain lo where lo: "0 \<le> lo" "lo + ep_weight e \<le> ?S"
      "{r. 1 \<le> r \<and> rw_pick r (rw_items s) = Some e} = {lo + 1 .. lo + ep_weight e}"
    using rw_pick_interval [OF d assms(2,3)] S by auto
  have "rw_next draw s = Done (Some e, s) \<longleftrightarrow> draw + 1 \<in> {lo + 1 .. lo + ep_weight e}"
    if "0 \<le> draw" "draw < ?S" for draw
  proof -
    have "rw_pick (draw + 1) (rw_items s) \<noteq> None"
      using rw_pick_found [of "rw_items s" "draw + 1"] that S assms(3) by (cases "rw_items s") simp_all
    then have "rw_next draw s = Done (Some e, s) \<longleftrightarrow> 1 \<le> draw + 1 \<and> rw_pick (draw + 1) (rw_items s) = Some e"
      using that n by (auto simp: rw_next_def)
    then show ?thesis using lo(3) by blast
  qed
  then have "{draw. 0 \<le> draw \<and> draw < ?S \<and> rw_next draw s = Done (Some e, s)} = {lo ..< lo + ep_weight e}"
    using lo(1,2) by auto
  then show ?thesis by simp
qed

section \<open>The contract of a balancer\<close>

text \<open>\<open>balance_add_endpoint\<close>: every endpoint of a list in turn.\<close>

fun add_all :: "(endpoint \<Rightarrow> 's \<Rightarrow> 's run) \<Rightarrow> endpoint list \<Rightarrow> 's \<Rightarrow> 's run" where
  "add_all add [] s = Done s"
| "add_all add (ep # eps) s = run_bind (add ep s) (add_all add eps)"

text \<open>
  Adding appends an endpoint unless its name is taken; choosing always returns, answers with a member
  and keeps the members.
\<close>

locale balancer =
  fixes add :: "endpoint \<Rightarrow> 's \<Rightarrow> 's run"
    and nxt :: "int \<Rightarrow> 's \<Rightarrow> 's pick option"
    and items :: "'s \<Rightarrow> endpoint list"
    and ok :: "'s \<Rightarrow> bool"
  assumes add_ok: "ok s \<Longrightarrow> \<exists>s'. add ep s = Done s' \<and> ok s' \<and>
      items s' = (if name_listed ep (items s) then items s else items s @ [ep])"
    and nxt_ok: "ok s \<Longrightarrow> \<exists>e s'. nxt draw s = Some (Done (e, s')) \<and> ok s' \<and> items s' = items s \<and>
      (\<forall>x. e = Some x \<longrightarrow> x \<in> set (items s))"
begin

lemma add_all_ok:
  "ok s \<Longrightarrow> \<exists>s'. add_all add eps s = Done s' \<and> ok s' \<and> set (items s') \<subseteq> set (items s) \<union> set eps \<and>
     set (map ep_name (items s')) = set (map ep_name (items s)) \<union> set (map ep_name eps)"
proof (induction eps arbitrary: s)
  case (Cons ep eps)
  from add_ok [OF Cons.prems, of ep] obtain s1 where s1: "add ep s = Done s1" "ok s1"
    "items s1 = (if name_listed ep (items s) then items s else items s @ [ep])" by blast
  from Cons.IH [OF s1(2)] obtain s' where "add_all add eps s1 = Done s'" "ok s'"
    "set (items s') \<subseteq> set (items s1) \<union> set eps"
    "set (map ep_name (items s')) = set (map ep_name (items s1)) \<union> set (map ep_name eps)" by blast
  then show ?case using s1 by (auto simp: name_listed_def split: if_splits) (metis imageI)
qed auto

lemma nxt_member:
  assumes "ok s" and "nxt draw s = Some (Done (Some e, s'))"
  shows "e \<in> set (items s)" and "ok s'"
  using nxt_ok [OF assms(1), of draw] assms(2) by auto

end

interpretation rr: balancer rr_add "\<lambda>_. rr_next" rr_items rr_ok
  by unfold_locales (use rr_ok_add rr_next_total in auto)

interpretation rw: balancer "\<lambda>ep s. Done (rw_add ep s)" "\<lambda>draw s. Some (rw_next draw s)" rw_items rw_ok
proof unfold_locales
  fix draw s
  assume "rw_ok s"
  from rw_next_total [OF this, of draw] this
  show "\<exists>e s'. Some (rw_next draw s) = Some (Done (e, s')) \<and> rw_ok s' \<and> rw_items s' = rw_items s \<and>
      (\<forall>x. e = Some x \<longrightarrow> x \<in> set (rw_items s))"
    by auto
qed (use rw_ok_add in auto)

fun balance_ok :: "balance_type \<Rightarrow> bool" where
  "balance_ok (BalRandom s) = rw_ok s"
| "balance_ok (BalRoundRobin s) = rr_ok s"

lemma build_balance_ok: "balance_ok (build_balance a) \<and> balance_items (build_balance a) = []"
  by (cases a) (auto simp: rw_ok_default rr_ok_default, auto simp: rw_default_def rr_default_def)

interpretation bal: balancer balance_add balance_next balance_items balance_ok
proof unfold_locales
  fix s ep
  assume ok: "balance_ok s"
  show "\<exists>s'. balance_add ep s = Done s' \<and> balance_ok s' \<and>
      balance_items s' = (if name_listed ep (balance_items s) then balance_items s else balance_items s @ [ep])"
  proof (cases s)
    case (BalRandom x)
    then show ?thesis using ok rw_ok_add [of x ep] by simp
  next
    case (BalRoundRobin x)
    then have "rr_ok x" using ok by simp
    from rr_ok_add [OF this, of ep] obtain y where "rr_add ep x = Done y" "rr_ok y"
      "rr_items y = (if name_listed ep (rr_items x) then rr_items x else rr_items x @ [ep])" by blast
    then show ?thesis using BalRoundRobin by simp
  qed
next
  fix s draw
  assume ok: "balance_ok s"
  show "\<exists>e s'. balance_next draw s = Some (Done (e, s')) \<and> balance_ok s' \<and>
      balance_items s' = balance_items s \<and> (\<forall>x. e = Some x \<longrightarrow> x \<in> set (balance_items s))"
  proof (cases s)
    case (BalRandom x)
    then show ?thesis using ok rw_next_total [of x draw] by auto
  next
    case (BalRoundRobin x)
    then have "rr_ok x" using ok by simp
    from rr_next_total [OF this] obtain e y where "rr_next x = Some (Done (e, y))" "rr_ok y"
      "rr_items y = rr_items x" "\<forall>z. e = Some z \<longrightarrow> z \<in> set (rr_items x)" by blast
    then show ?thesis using BalRoundRobin by simp
  qed
qed

end
