(* ===== verification/Route.thy ===== *)
theory Route
  imports Load_Balance
begin

text \<open>
  Read/write splitting (\<open>proxy/strategy/src/route.rs\<close> and \<open>readwritesplitting\<close>): building the balancers
  of a rule set, choosing one for a statement, and the plans of the static, the dynamic and the other
  strategies.

  The regex crate is a parameter: which patterns compile and which texts they match.  A reference to a
  balancer inside the rule set is the balancer with the function that puts it back.  A \<open>draw\<close> is the
  number the random balancer draws.
\<close>

section \<open>Configuration\<close>

datatype target_role = TrRead | TrReadWrite

record regex_engine =
  rx_compiles :: "str \<Rightarrow> bool"
  rx_matches :: "str \<Rightarrow> str \<Rightarrow> bool"

record rw_endpoints =
  re_read :: "endpoint list"
  re_readwrite :: "endpoint list"

record node_member =
  nm_name :: str
  nm_readwrite :: str
  nm_reads :: "str list"

record regex_rule =
  xr_name :: str
  xr_rule_type :: str
  xr_regex :: "str list"
  xr_target :: target_role
  xr_algorithm :: algorithm_name
  xr_node_groups :: "str list"

record generic_rule =
  gr_name :: str
  gr_rule_type :: str
  gr_algorithm :: algorithm_name
  gr_node_groups :: "str list"

datatype rw_rule = RegexRule regex_rule | GenericRule generic_rule

datatype route_input =
    InStatement str
  | InTransaction str
  | InSharding endpoint
  | InShardingStatement str str
  | InShardingTransaction str str
  | InNone

section \<open>Plans\<close>

datatype dispatch_plan = PlanSingle endpoint target_role | PlanReject str

record endpoint_ref =
  er_name :: str
  er_address :: str

record shard_target =
  sh_endpoint :: endpoint_ref
  sh_rewritten_sql :: "str option"

datatype route_plan =
    RouteSingle endpoint_ref
  | RouteBroadcast "endpoint_ref list"
  | RouteSharded "shard_target list"
  | RouteReject str

fun plan_endpoint :: "dispatch_plan \<Rightarrow> endpoint option" where
  "plan_endpoint (PlanSingle ep _) = Some ep"
| "plan_endpoint (PlanReject _) = None"

fun plan_role :: "dispatch_plan \<Rightarrow> target_role option" where
  "plan_role (PlanSingle _ role) = Some role"
| "plan_role (PlanReject _) = None"

fun to_route_plan :: "dispatch_plan \<Rightarrow> route_plan" where
  "to_route_plan (PlanSingle ep _) = RouteSingle \<lparr>er_name = ep_name ep, er_address = ep_addr ep\<rparr>"
| "to_route_plan (PlanReject reason) = RouteReject reason"

fun into_legacy_tuple :: "dispatch_plan \<Rightarrow> endpoint option \<times> target_role" where
  "into_legacy_tuple (PlanSingle ep role) = (Some ep, role)"
| "into_legacy_tuple (PlanReject _) = (None, TrReadWrite)"

fun plan_from_endpoint_role :: "endpoint option \<Rightarrow> target_role \<Rightarrow> dispatch_plan" where
  "plan_from_endpoint_role (Some ep) role = PlanSingle ep role"
| "plan_from_endpoint_role None role = PlanReject ''route strategy produced no endpoint''"

section \<open>Node groups\<close>

text \<open>
  The members' read endpoints in the order of the service's own list, each once, and the read-write
  endpoint they name; an unknown read-write name is an error.
\<close>

definition first_names :: "endpoint list \<Rightarrow> str list" where
  "first_names eps = rev (remdups (rev (map ep_name eps)))"

definition member_reads :: "node_member \<Rightarrow> rw_endpoints \<Rightarrow> endpoint list" where
  "member_reads m rw =
     List.map_filter (\<lambda>name. find (\<lambda>r. ep_name r = name) (re_read rw))
       (filter (\<lambda>name. name \<in> set (nm_reads m)) (first_names (re_read rw)))"

type_synonym endpoint_group = "(str \<times> rw_endpoints) list"

fun member_groups :: "node_member list \<Rightarrow> rw_endpoints \<Rightarrow> endpoint_group \<Rightarrow> str + endpoint_group" where
  "member_groups [] rw acc = Inr acc"
| "member_groups (m # ms) rw acc =
     (case find (\<lambda>x. ep_name x = nm_readwrite m) (re_readwrite rw) of
        None \<Rightarrow> Inl (nm_readwrite m)
      | Some readwrite \<Rightarrow>
          member_groups ms rw
            (al_insert (nm_name m) \<lparr>re_read = member_reads m rw, re_readwrite = [readwrite]\<rparr> acc))"

definition get_endpoint_group :: "node_member list option \<Rightarrow> rw_endpoints \<Rightarrow> str + endpoint_group" where
  "get_endpoint_group node_groups rw =
     (case node_groups of None \<Rightarrow> Inr [] | Some members \<Rightarrow> member_groups members rw [])"

section \<open>Building a rule set\<close>

abbreviation balance_add_endpoint :: "balance_type \<Rightarrow> endpoint list \<Rightarrow> balance_type run" where
  "balance_add_endpoint b eps \<equiv> add_all balance_add eps b"

definition build_default_balance :: "target_role \<Rightarrow> rw_endpoints \<Rightarrow> balance_type run" where
  "build_default_balance target rw =
     balance_add_endpoint (build_balance AlgRandom)
       (case target of TrRead \<Rightarrow> re_read rw | TrReadWrite \<Rightarrow> re_readwrite rw)"

definition build_balance_inner :: "balance_type \<Rightarrow> target_role \<Rightarrow> rw_endpoints \<Rightarrow> balance_type run" where
  "build_balance_inner b target rw =
     (case target of
        TrRead \<Rightarrow> if re_read rw = [] then balance_add_endpoint b (re_readwrite rw)
                  else balance_add_endpoint b (re_read rw)
      | TrReadWrite \<Rightarrow> balance_add_endpoint b (re_readwrite rw))"

record regex_inner =
  xi_rule :: regex_rule
  xi_balance :: "(str \<times> balance_type) list"

fun group_balances ::
  "regex_rule \<Rightarrow> endpoint_group \<Rightarrow> str list \<Rightarrow> (str \<times> balance_type) list \<Rightarrow> (str + (str \<times> balance_type) list) run" where
  "group_balances rule groups [] acc = Done (Inr acc)"
| "group_balances rule groups (g # gs) acc =
     (case map_of groups g of
        None \<Rightarrow> Done (Inl g)
      | Some rw \<Rightarrow>
          run_bind (build_balance_inner (build_balance (xr_algorithm rule)) (xr_target rule) rw) (\<lambda>b.
            group_balances rule groups gs (al_insert g b acc)))"

definition regex_balances ::
  "regex_rule \<Rightarrow> endpoint_group \<Rightarrow> rw_endpoints \<Rightarrow> (str + (str \<times> balance_type) list) run" where
  "regex_balances rule groups rw =
     (if groups = [] \<or> xr_node_groups rule = []
      then run_bind (build_balance_inner (build_balance (xr_algorithm rule)) (xr_target rule) rw) (\<lambda>b.
             Done (Inr [(''GLOBAL'', b)]))
      else group_balances rule groups (xr_node_groups rule) [])"

text \<open>\<open>RegexRuleMatchInner::new\<close>, whose result \<open>build_rules\<close> unwraps.\<close>

definition regex_inner_new ::
  "regex_engine \<Rightarrow> regex_rule \<Rightarrow> endpoint_group \<Rightarrow> rw_endpoints \<Rightarrow> regex_inner run" where
  "regex_inner_new rx rule groups rw =
     run_bind (regex_balances rule groups rw) (\<lambda>r.
       case r of
         Inl _ \<Rightarrow> Panic
       | Inr balances \<Rightarrow>
           if list_all (rx_compiles rx) (xr_regex rule)
           then Done \<lparr>xi_rule = rule, xi_balance = balances\<rparr> else Panic)"

record generic_inner =
  gi_r_balance :: balance_type
  gi_rw_balance :: balance_type
  gi_default_balance :: balance_type
  gi_default_role :: target_role

definition generic_balance :: "target_role \<Rightarrow> algorithm_name \<Rightarrow> rw_endpoints \<Rightarrow> balance_type run" where
  "generic_balance role alg rw =
     (case role of
        TrRead \<Rightarrow>
          run_bind (if re_read rw = [] then balance_add_endpoint (build_balance alg) (re_readwrite rw)
                    else Done (build_balance alg))
            (\<lambda>b. balance_add_endpoint b (re_read rw))
      | TrReadWrite \<Rightarrow> balance_add_endpoint (build_balance alg) (re_readwrite rw))"

definition generic_inner_new :: "generic_rule \<Rightarrow> target_role \<Rightarrow> rw_endpoints \<Rightarrow> generic_inner run" where
  "generic_inner_new rule default_role rw =
     run_bind (generic_balance TrRead (gr_algorithm rule) rw) (\<lambda>r.
     run_bind (generic_balance TrReadWrite (gr_algorithm rule) rw) (\<lambda>w.
     run_bind (generic_balance default_role (gr_algorithm rule) rw) (\<lambda>d.
       Done \<lparr>gi_r_balance = r, gi_rw_balance = w, gi_default_balance = d, gi_default_role = default_role\<rparr>)))"

datatype rules_inner = InnerRegex regex_inner | InnerGeneric generic_inner

text \<open>The loop of \<open>build_rules\<close>: regex rules keep their order and stand before all generic rules.\<close>

fun build_rules_loop ::
  "regex_engine \<Rightarrow> rw_rule list \<Rightarrow> endpoint_group \<Rightarrow> rw_endpoints \<Rightarrow> target_role
   \<Rightarrow> rules_inner list \<Rightarrow> rules_inner list \<Rightarrow> rules_inner list run" where
  "build_rules_loop rx [] groups rw default_target xs gs = Done (xs @ gs)"
| "build_rules_loop rx (RegexRule r # rules) groups rw default_target xs gs =
     run_bind (regex_inner_new rx r groups rw) (\<lambda>i.
       build_rules_loop rx rules groups rw default_target (xs @ [InnerRegex i]) gs)"
| "build_rules_loop rx (GenericRule r # rules) groups rw default_target xs gs =
     run_bind (generic_inner_new r default_target rw) (\<lambda>i.
       build_rules_loop rx rules groups rw default_target xs (gs @ [InnerGeneric i]))"

definition build_rules ::
  "regex_engine \<Rightarrow> rw_rule list \<Rightarrow> endpoint_group \<Rightarrow> rw_endpoints \<Rightarrow> target_role \<Rightarrow> rules_inner list run" where
  "build_rules rx rules groups rw default_target = build_rules_loop rx rules groups rw default_target [] []"

record rules_match =
  rm_default_target :: target_role
  rm_default_balance :: balance_type
  rm_default_trans_balance :: balance_type
  rm_inner :: "rules_inner list"

definition rules_build ::
  "regex_engine \<Rightarrow> rw_rule list \<Rightarrow> target_role \<Rightarrow> endpoint_group \<Rightarrow> rw_endpoints \<Rightarrow> rules_match run" where
  "rules_build rx rules default_target groups rw =
     run_bind (build_rules rx rules groups rw default_target) (\<lambda>inner.
     run_bind (build_default_balance default_target rw) (\<lambda>d.
     run_bind (build_default_balance TrReadWrite rw) (\<lambda>t.
       Done \<lparr>rm_default_target = default_target, rm_default_balance = d, rm_default_trans_balance = t,
             rm_inner = inner\<rparr>)))"

section \<open>Choosing a balancer\<close>

text \<open>
  \<open>str::to_uppercase\<close> as far as a comparison with an ASCII keyword can tell: the non-ASCII characters
  whose upper case is ASCII (long s, dotless i, sharp s, the Latin ligatures) are mapped; every other
  non-ASCII character has a non-ASCII upper case and is left alone.
\<close>

fun to_uppercase :: "str \<Rightarrow> str" where
  "to_uppercase (a # b # c # s) =
     (if a = CHR 0xEF \<and> b = CHR 0xAC then
        if c = CHR 0x80 then ''FF'' @ to_uppercase s
        else if c = CHR 0x81 then ''FI'' @ to_uppercase s
        else if c = CHR 0x82 then ''FL'' @ to_uppercase s
        else if c = CHR 0x83 then ''FFI'' @ to_uppercase s
        else if c = CHR 0x84 then ''FFL'' @ to_uppercase s
        else if c = CHR 0x85 \<or> c = CHR 0x86 then ''ST'' @ to_uppercase s
        else a # b # c # to_uppercase s
      else if a = CHR 0xC5 \<and> b = CHR 0xBF then ''S'' @ to_uppercase (c # s)
      else if a = CHR 0xC4 \<and> b = CHR 0xB1 then ''I'' @ to_uppercase (c # s)
      else if a = CHR 0xC3 \<and> b = CHR 0x9F then ''SS'' @ to_uppercase (c # s)
      else upper_byte a # to_uppercase (b # c # s))"
| "to_uppercase [a, b] =
     (if a = CHR 0xC5 \<and> b = CHR 0xBF then ''S''
      else if a = CHR 0xC4 \<and> b = CHR 0xB1 then ''I''
      else if a = CHR 0xC3 \<and> b = CHR 0x9F then ''SS''
      else [upper_byte a, upper_byte b])"
| "to_uppercase [a] = [upper_byte a]"
| "to_uppercase [] = []"

text \<open>\<open>split(" ")\<close> has a first part; \<open>split_once(' ')\<close> needs a space.\<close>

definition before_space :: "str \<Rightarrow> str" where
  "before_space sql = takeWhile (\<lambda>c. c \<noteq> CHR '' '') sql"

definition generic_rule_token :: "str list" where
  "generic_rule_token = [''SELECT'', ''UPDATE'', ''INSERT'', ''DELETE'', ''SET'', ''START'']"

fun regex_is_match :: "regex_engine \<Rightarrow> regex_inner \<Rightarrow> route_input \<Rightarrow> bool run" where
  "regex_is_match rx i (InStatement val) = Done (\<exists>r \<in> set (xr_regex (xi_rule i)). rx_matches rx r val)"
| "regex_is_match rx i (InTransaction val) = Done (\<exists>r \<in> set (xr_regex (xi_rule i)). rx_matches rx r val)"
| "regex_is_match rx i (InShardingStatement val _) = Done (\<exists>r \<in> set (xr_regex (xi_rule i)). rx_matches rx r val)"
| "regex_is_match rx i (InShardingTransaction val _) = Done (\<exists>r \<in> set (xr_regex (xi_rule i)). rx_matches rx r val)"
| "regex_is_match rx i InNone = Done False"
| "regex_is_match rx i (InSharding _) = Panic"

fun generic_is_match :: "route_input \<Rightarrow> bool run" where
  "generic_is_match (InStatement sql) = Done (to_uppercase (before_space sql) \<in> set generic_rule_token)"
| "generic_is_match (InTransaction sql) = Done (to_uppercase (before_space sql) \<in> set generic_rule_token)"
| "generic_is_match InNone = Done False"
| "generic_is_match _ = Panic"

type_synonym 'r slot = "balance_type \<times> target_role \<times> (balance_type \<Rightarrow> 'r)"

definition balance_key :: "route_input \<Rightarrow> str" where
  "balance_key inp =
     (case inp of
        InShardingStatement _ g \<Rightarrow> g
      | InShardingTransaction _ g \<Rightarrow> g
      | _ \<Rightarrow> ''GLOBAL'')"

definition regex_get :: "regex_inner \<Rightarrow> route_input \<Rightarrow> regex_inner slot run" where
  "regex_get i inp =
     (case map_of (xi_balance i) (balance_key inp) of
        None \<Rightarrow> Panic
      | Some b \<Rightarrow>
          Done (b, xr_target (xi_rule i),
                \<lambda>b'. i\<lparr>xi_balance := al_insert (balance_key inp) b' (xi_balance i)\<rparr>))"

definition generic_get :: "generic_inner \<Rightarrow> route_input \<Rightarrow> generic_inner slot run" where
  "generic_get i inp =
     (let dflt = (gi_default_balance i, gi_default_role i, \<lambda>b. i\<lparr>gi_default_balance := b\<rparr>);
          write = (gi_rw_balance i, TrReadWrite, \<lambda>b. i\<lparr>gi_rw_balance := b\<rparr>)
      in case inp of
           InStatement sql \<Rightarrow>
             if CHR '' '' \<notin> set sql then Done dflt
             else let token = trim (to_uppercase (before_space sql))
               in if token = ''SELECT'' then Done (gi_r_balance i, TrRead, \<lambda>b. i\<lparr>gi_r_balance := b\<rparr>)
                  else if token \<in> set [''INSERT'', ''UPDATE'', ''DELETE'', ''SET'', ''START''] then Done write
                  else Done dflt
         | InTransaction _ \<Rightarrow> Done write
         | InNone \<Rightarrow> Done dflt
         | _ \<Rightarrow> Panic)"

fun inner_is_match :: "regex_engine \<Rightarrow> rules_inner \<Rightarrow> route_input \<Rightarrow> bool run" where
  "inner_is_match rx (InnerRegex i) inp = regex_is_match rx i inp"
| "inner_is_match rx (InnerGeneric i) inp = generic_is_match inp"

fun inner_get :: "rules_inner \<Rightarrow> route_input \<Rightarrow> rules_inner slot run" where
  "inner_get (InnerRegex i) inp = run_bind (regex_get i inp) (\<lambda>(b, role, put). Done (b, role, \<lambda>b'. InnerRegex (put b')))"
| "inner_get (InnerGeneric i) inp = run_bind (generic_get i inp) (\<lambda>(b, role, put). Done (b, role, \<lambda>b'. InnerGeneric (put b')))"

text \<open>The loop over the rules: the first that matches gives the balancer; \<open>None\<close> when none does.\<close>

fun first_slot :: "regex_engine \<Rightarrow> rules_inner list \<Rightarrow> route_input \<Rightarrow> rules_inner list slot option run" where
  "first_slot rx [] inp = Done None"
| "first_slot rx (i # is) inp =
     run_bind (inner_is_match rx i inp) (\<lambda>hit.
       if hit then run_bind (inner_get i inp) (\<lambda>(b, role, put). Done (Some (b, role, \<lambda>b'. put b' # is)))
       else run_bind (first_slot rx is inp) (\<lambda>r.
              Done (map_option (\<lambda>(b, role, put). (b, role, \<lambda>b'. i # put b')) r)))"

definition rules_get :: "regex_engine \<Rightarrow> rules_match \<Rightarrow> route_input \<Rightarrow> rules_match slot run" where
  "rules_get rx rm inp =
     (case inp of
        InTransaction _ \<Rightarrow>
          Done (rm_default_trans_balance rm, TrReadWrite, \<lambda>b. rm\<lparr>rm_default_trans_balance := b\<rparr>)
      | _ \<Rightarrow>
          run_bind (first_slot rx (rm_inner rm) inp) (\<lambda>r.
            case r of
              Some (b, role, put) \<Rightarrow> Done (b, role, \<lambda>b'. rm\<lparr>rm_inner := put b'\<rparr>)
            | None \<Rightarrow> Done (rm_default_balance rm, rm_default_target rm, \<lambda>b. rm\<lparr>rm_default_balance := b\<rparr>)))"

section \<open>Dispatch\<close>

text \<open>\<open>None\<close>: the call does not return.\<close>

definition serve_slot :: "int \<Rightarrow> str \<Rightarrow> rules_match slot \<Rightarrow> (dispatch_plan \<times> rules_match) run option" where
  "serve_slot draw why slot =
     (case slot of (b, role, put) \<Rightarrow>
        case balance_next draw b of
          None \<Rightarrow> None
        | Some Panic \<Rightarrow> Some Panic
        | Some (Done (Some ep, b')) \<Rightarrow> Some (Done (PlanSingle ep role, put b'))
        | Some (Done (None, b')) \<Rightarrow> Some (Done (PlanReject why, put b')))"

definition static_dispatch ::
  "regex_engine \<Rightarrow> int \<Rightarrow> rules_match \<Rightarrow> route_input \<Rightarrow> (dispatch_plan \<times> rules_match) run option" where
  "static_dispatch rx draw rm inp =
     (case rules_get rx rm inp of
        Panic \<Rightarrow> Some Panic
      | Done slot \<Rightarrow> serve_slot draw ''read write splitting static route produced no endpoint'' slot)"

record rw_dynamic =
  dy_rules :: "rw_rule list"
  dy_node_groups :: "node_member list option"
  dy_rules_match :: rules_match

text \<open>
  \<open>updates\<close> are the endpoint sets the monitors have sent since the last call; only the last counts.
  The group lookup is unwrapped.
\<close>

definition dynamic_rebuild :: "regex_engine \<Rightarrow> rw_dynamic \<Rightarrow> rw_endpoints \<Rightarrow> rw_dynamic run" where
  "dynamic_rebuild rx d rw =
     (let rm = dy_rules_match d in
      run_bind (build_default_balance (rm_default_target rm) rw) (\<lambda>db.
      run_bind (build_default_balance TrReadWrite rw) (\<lambda>tb.
        case get_endpoint_group (dy_node_groups d) rw of
          Inl _ \<Rightarrow> Panic
        | Inr groups \<Rightarrow>
            run_bind (build_rules rx (dy_rules d) groups rw (rm_default_target rm)) (\<lambda>inner.
              Done (d\<lparr>dy_rules_match := rm\<lparr>rm_default_balance := db, rm_default_trans_balance := tb,
                        rm_inner := inner\<rparr>\<rparr>)))))"

definition dynamic_dispatch ::
  "regex_engine \<Rightarrow> int \<Rightarrow> rw_endpoints list \<Rightarrow> rw_dynamic \<Rightarrow> route_input \<Rightarrow> (dispatch_plan \<times> rw_dynamic) run option" where
  "dynamic_dispatch rx draw updates d inp =
     (case (if updates = [] then Done d else dynamic_rebuild rx d (last updates)) of
        Panic \<Rightarrow> Some Panic
      | Done d1 \<Rightarrow>
          (case rules_get rx (dy_rules_match d1) inp of
             Panic \<Rightarrow> Some Panic
           | Done slot \<Rightarrow>
               map_option (\<lambda>r. run_bind r (\<lambda>(plan, rm). Done (plan, d1\<lparr>dy_rules_match := rm\<rparr>)))
                 (serve_slot draw ''read write splitting dynamic route produced no endpoint'' slot)))"

datatype rw_strategy = RwStatic rules_match | RwDynamic rw_dynamic | RwNone

datatype route_strategy =
    ReadWriteSplitting rw_strategy
  | ShardingReadWriteSplitting rw_strategy
  | ShardingOnly balance_type
  | SimpleRoute balance_type
  | NoRoute

fun rw_dispatch ::
  "regex_engine \<Rightarrow> int \<Rightarrow> rw_endpoints list \<Rightarrow> rw_strategy \<Rightarrow> route_input \<Rightarrow> (dispatch_plan \<times> rw_strategy) run option" where
  "rw_dispatch rx draw updates (RwStatic rm) inp =
     map_option (\<lambda>r. run_bind r (\<lambda>(plan, rm'). Done (plan, RwStatic rm'))) (static_dispatch rx draw rm inp)"
| "rw_dispatch rx draw updates (RwDynamic d) inp =
     map_option (\<lambda>r. run_bind r (\<lambda>(plan, d'). Done (plan, RwDynamic d'))) (dynamic_dispatch rx draw updates d inp)"
| "rw_dispatch rx draw updates RwNone inp = Some Panic"

definition balance_plan :: "int \<Rightarrow> balance_type \<Rightarrow> (dispatch_plan \<times> balance_type) run option" where
  "balance_plan draw b =
     map_option (\<lambda>r. run_bind r (\<lambda>(ep, b'). Done (plan_from_endpoint_role ep TrReadWrite, b'))) (balance_next draw b)"

fun strategy_dispatch ::
  "regex_engine \<Rightarrow> int \<Rightarrow> rw_endpoints list \<Rightarrow> route_strategy \<Rightarrow> route_input \<Rightarrow> (dispatch_plan \<times> route_strategy) run option" where
  "strategy_dispatch rx draw updates (ReadWriteSplitting s) inp =
     map_option (\<lambda>r. run_bind r (\<lambda>(plan, s'). Done (plan, ReadWriteSplitting s'))) (rw_dispatch rx draw updates s inp)"
| "strategy_dispatch rx draw updates (ShardingReadWriteSplitting s) inp =
     map_option (\<lambda>r. run_bind r (\<lambda>(plan, s'). Done (plan, ShardingReadWriteSplitting s'))) (rw_dispatch rx draw updates s inp)"
| "strategy_dispatch rx draw updates (ShardingOnly b) inp =
     (case inp of
        InSharding ep \<Rightarrow> Some (Done (PlanSingle ep TrReadWrite, ShardingOnly b))
      | _ \<Rightarrow> map_option (\<lambda>r. run_bind r (\<lambda>(plan, b'). Done (plan, ShardingOnly b'))) (balance_plan draw b))"
| "strategy_dispatch rx draw updates (SimpleRoute b) inp =
     map_option (\<lambda>r. run_bind r (\<lambda>(plan, b'). Done (plan, SimpleRoute b'))) (balance_plan draw b)"
| "strategy_dispatch rx draw updates NoRoute inp = Some Panic"

section \<open>Where a plan can point\<close>

definition role_endpoints :: "rw_endpoints \<Rightarrow> target_role \<Rightarrow> endpoint set" where
  "role_endpoints rw role =
     (case role of TrReadWrite \<Rightarrow> set (re_readwrite rw) | TrRead \<Rightarrow> set (re_read rw) \<union> set (re_readwrite rw))"

definition serves :: "rw_endpoints \<Rightarrow> target_role \<Rightarrow> balance_type \<Rightarrow> bool" where
  "serves rw role b \<longleftrightarrow> balance_ok b \<and> set (balance_items b) \<subseteq> role_endpoints rw role"

fun inner_ok :: "rw_endpoints \<Rightarrow> rules_inner \<Rightarrow> bool" where
  "inner_ok rw (InnerRegex i) = (\<forall>(k, b) \<in> set (xi_balance i). serves rw (xr_target (xi_rule i)) b)"
| "inner_ok rw (InnerGeneric i) =
     (serves rw TrRead (gi_r_balance i) \<and> serves rw TrReadWrite (gi_rw_balance i) \<and>
      serves rw (gi_default_role i) (gi_default_balance i))"

definition rules_ok :: "rw_endpoints \<Rightarrow> rules_match \<Rightarrow> bool" where
  "rules_ok rw rm \<longleftrightarrow>
     serves rw (rm_default_target rm) (rm_default_balance rm) \<and>
     serves rw TrReadWrite (rm_default_trans_balance rm) \<and> list_all (inner_ok rw) (rm_inner rm)"

definition groups_ok :: "rw_endpoints \<Rightarrow> endpoint_group \<Rightarrow> bool" where
  "groups_ok rw groups \<longleftrightarrow>
     (\<forall>(k, g) \<in> set groups. set (re_read g) \<subseteq> set (re_read rw) \<and> set (re_readwrite g) \<subseteq> set (re_readwrite rw))"

lemma find_member: "find P xs = Some x \<Longrightarrow> x \<in> set xs"
  by (auto simp: find_Some_iff)

lemma member_reads_subset: "set (member_reads m rw) \<subseteq> set (re_read rw)"
  by (auto simp: member_reads_def List.map_filter_def dest: find_member)

lemma member_groups_ok:
  "groups_ok rw acc \<Longrightarrow> member_groups ms rw acc = Inr groups \<Longrightarrow> groups_ok rw groups"
proof (induction ms arbitrary: acc)
  case (Cons m ms)
  then obtain e where e: "find (\<lambda>x. ep_name x = nm_readwrite m) (re_readwrite rw) = Some e"
    and step: "member_groups ms rw
        (al_insert (nm_name m) \<lparr>re_read = member_reads m rw, re_readwrite = [e]\<rparr> acc) = Inr groups"
    by (auto split: option.splits)
  have "e \<in> set (re_readwrite rw)" using e by (rule find_member)
  then have "groups_ok rw (al_insert (nm_name m) \<lparr>re_read = member_reads m rw, re_readwrite = [e]\<rparr> acc)"
    using Cons.prems(1) member_reads_subset unfolding groups_ok_def by (intro al_insert_forall) auto
  from Cons.IH [OF this step] show ?case .
qed simp

lemma get_endpoint_group_ok: "get_endpoint_group g rw = Inr groups \<Longrightarrow> groups_ok rw groups"
proof (cases g)
  case (Some ms)
  assume "get_endpoint_group g rw = Inr groups"
  then show ?thesis
    using Some member_groups_ok [of rw "[]" ms groups] by (simp add: get_endpoint_group_def groups_ok_def)
qed (simp add: get_endpoint_group_def groups_ok_def)

text \<open>Filling a balancer never fails and gives only the endpoints it is filled with.\<close>

lemma fill_balance:
  assumes "serves rw role b" and "set eps \<subseteq> role_endpoints rw role"
  shows "\<exists>b'. balance_add_endpoint b eps = Done b' \<and> serves rw role b'"
proof -
  have "balance_ok b" using assms(1) by (simp add: serves_def)
  from bal.add_all_ok [OF this, of eps] obtain b' where "balance_add_endpoint b eps = Done b'" "balance_ok b'"
    "set (balance_items b') \<subseteq> set (balance_items b) \<union> set eps" by blast
  then show ?thesis using assms by (auto simp: serves_def)
qed

lemma fresh_serves: "serves rw role (build_balance alg)"
  using build_balance_ok [of alg] by (simp add: serves_def)

lemma default_balance_serves: "\<exists>b. build_default_balance target rw = Done b \<and> serves rw target b"
  unfolding build_default_balance_def
  by (rule fill_balance [OF fresh_serves]) (auto simp: role_endpoints_def split: target_role.split)

lemma inner_balance_serves:
  assumes "serves rw target b" and "set (re_read g) \<subseteq> set (re_read rw)" "set (re_readwrite g) \<subseteq> set (re_readwrite rw)"
  shows "\<exists>b'. build_balance_inner b target g = Done b' \<and> serves rw target b'"
proof -
  let ?eps = "case target of TrRead \<Rightarrow> if re_read g = [] then re_readwrite g else re_read g | TrReadWrite \<Rightarrow> re_readwrite g"
  have "build_balance_inner b target g = balance_add_endpoint b ?eps"
    by (simp add: build_balance_inner_def split: target_role.split)
  moreover have "set ?eps \<subseteq> role_endpoints rw target"
    using assms(2,3) by (auto simp: role_endpoints_def split: target_role.split)
  ultimately show ?thesis using fill_balance [OF assms(1)] by simp
qed

lemma generic_balance_serves: "\<exists>b. generic_balance role alg rw = Done b \<and> serves rw role b"
proof (cases role)
  case TrReadWrite
  then show ?thesis
    using fill_balance [OF fresh_serves, of "re_readwrite rw" rw TrReadWrite]
    by (simp add: generic_balance_def role_endpoints_def)
next
  case TrRead
  obtain b where b: "(if re_read rw = [] then balance_add_endpoint (build_balance alg) (re_readwrite rw)
      else Done (build_balance alg)) = Done b" "serves rw TrRead b"
  proof (cases "re_read rw = []")
    case True
    obtain b where "balance_add_endpoint (build_balance alg) (re_readwrite rw) = Done b" "serves rw TrRead b"
      using fill_balance [OF fresh_serves, of "re_readwrite rw" rw TrRead alg] by (auto simp: role_endpoints_def)
    with True that show ?thesis by simp
  next
    case False
    then show ?thesis using that fresh_serves by simp
  qed
  then show ?thesis
    using fill_balance [OF b(2), of "re_read rw"] TrRead by (simp add: generic_balance_def role_endpoints_def)
qed

lemma generic_inner_serves: "\<exists>i. generic_inner_new rule role rw = Done i \<and> inner_ok rw (InnerGeneric i)"
  using generic_balance_serves [of TrRead "gr_algorithm rule" rw]
    generic_balance_serves [of TrReadWrite "gr_algorithm rule" rw]
    generic_balance_serves [of role "gr_algorithm rule" rw]
  by (auto simp: generic_inner_new_def)

lemma group_balances_serve:
  assumes "groups_ok rw groups" and "\<forall>(k, b) \<in> set acc. serves rw (xr_target rule) b"
    and "group_balances rule groups gs acc = Done (Inr bs)"
  shows "\<forall>(k, b) \<in> set bs. serves rw (xr_target rule) b"
  using assms(2,3)
proof (induction gs arbitrary: acc)
  case (Cons g gs)
  then obtain ge b where ge: "map_of groups g = Some ge"
    and b: "build_balance_inner (build_balance (xr_algorithm rule)) (xr_target rule) ge = Done b"
    and step: "group_balances rule groups gs (al_insert g b acc) = Done (Inr bs)"
    by (auto split: option.splits)
  have "set (re_read ge) \<subseteq> set (re_read rw)" "set (re_readwrite ge) \<subseteq> set (re_readwrite rw)"
    using assms(1) map_of_SomeD [OF ge] by (auto simp: groups_ok_def)
  from inner_balance_serves [OF fresh_serves [of rw "xr_target rule" "xr_algorithm rule"] this] b
  have "serves rw (xr_target rule) b" by auto
  then have "\<forall>(k, b) \<in> set (al_insert g b acc). serves rw (xr_target rule) b"
    using Cons.prems(1) by (intro al_insert_forall) auto
  from Cons.IH [OF this step] show ?case .
qed simp

lemma regex_inner_serves:
  assumes "groups_ok rw groups" and "regex_inner_new rx rule groups rw = Done i"
  shows "inner_ok rw (InnerRegex i)"
proof -
  obtain bs where bs: "regex_balances rule groups rw = Done (Inr bs)" and i: "i = \<lparr>xi_rule = rule, xi_balance = bs\<rparr>"
    using assms(2) by (auto simp: regex_inner_new_def sum_case_eq_iff split: if_splits)
  have "\<forall>(k, b) \<in> set bs. serves rw (xr_target rule) b"
  proof (cases "groups = [] \<or> xr_node_groups rule = []")
    case True
    then show ?thesis
      using bs inner_balance_serves [OF fresh_serves [of rw "xr_target rule" "xr_algorithm rule"], of rw]
      by (auto simp: regex_balances_def)
  next
    case False
    then show ?thesis
      using bs group_balances_serve [OF assms(1), of "[]" rule] by (simp add: regex_balances_def)
  qed
  then show ?thesis by (simp add: i)
qed

lemma build_rules_loop_ok:
  assumes "groups_ok rw groups" and "list_all (inner_ok rw) xs" "list_all (inner_ok rw) gs"
    and "build_rules_loop rx rules groups rw dt xs gs = Done inner"
  shows "list_all (inner_ok rw) inner"
  using assms(2-4)
proof (induction rules arbitrary: xs gs)
  case (Cons r rules)
  show ?case
  proof (cases r)
    case (RegexRule x)
    then obtain i where i: "regex_inner_new rx x groups rw = Done i"
      and step: "build_rules_loop rx rules groups rw dt (xs @ [InnerRegex i]) gs = Done inner"
      using Cons.prems by auto
    have "list_all (inner_ok rw) (xs @ [InnerRegex i])"
      using Cons.prems regex_inner_serves [OF assms(1) i] by simp
    from Cons.IH [OF this _ step] Cons.prems show ?thesis by simp
  next
    case (GenericRule x)
    then obtain i where i: "generic_inner_new x dt rw = Done i"
      and step: "build_rules_loop rx rules groups rw dt xs (gs @ [InnerGeneric i]) = Done inner"
      using Cons.prems by auto
    have "list_all (inner_ok rw) (gs @ [InnerGeneric i])"
      using Cons.prems generic_inner_serves [of x dt rw] i by auto
    from Cons.IH [OF _ this step] Cons.prems show ?thesis by simp
  qed
qed auto

lemma rules_build_ok:
  assumes "rules_build rx rules dt groups rw = Done rm" and "groups_ok rw groups"
  shows "rules_ok rw rm"
  using assms default_balance_serves [of dt rw] default_balance_serves [of TrReadWrite rw]
    build_rules_loop_ok [OF assms(2), of "[]" "[]" rx rules dt]
  by (auto simp: rules_build_def build_rules_def rules_ok_def)


section \<open>Dispatch keeps the rule set and answers within the role\<close>

definition slot_ok :: "rw_endpoints \<Rightarrow> ('r \<Rightarrow> bool) \<Rightarrow> 'r slot \<Rightarrow> bool" where
  "slot_ok rw good slot \<longleftrightarrow>
     (case slot of (b, role, put) \<Rightarrow> serves rw role b \<and> (\<forall>b'. serves rw role b' \<longrightarrow> good (put b')))"

lemma regex_get_ok:
  assumes "inner_ok rw (InnerRegex i)" and "regex_get i inp = Done (b, role, put)"
  shows "slot_ok rw (\<lambda>i. inner_ok rw (InnerRegex i)) (b, role, put)"
proof -
  have b: "map_of (xi_balance i) (balance_key inp) = Some b" "role = xr_target (xi_rule i)"
    and put: "put = (\<lambda>b'. i\<lparr>xi_balance := al_insert (balance_key inp) b' (xi_balance i)\<rparr>)"
    using assms(2) by (auto simp: regex_get_def option_case_eq_iff)
  have "serves rw role b" using assms(1) map_of_SomeD [OF b(1)] b(2) by auto
  moreover have "\<forall>p \<in> set (al_insert (balance_key inp) b' (xi_balance i)). serves rw role (snd p)"
    if "serves rw role b'" for b'
    using assms(1) b(2) that by (intro al_insert_forall) auto
  ultimately show ?thesis using b(2) by (fastforce simp: slot_ok_def put)
qed

lemma generic_get_ok:
  assumes "inner_ok rw (InnerGeneric i)" and "generic_get i inp = Done (b, role, put)"
  shows "slot_ok rw (\<lambda>i. inner_ok rw (InnerGeneric i)) (b, role, put)"
  using assms by (cases inp) (auto simp: generic_get_def slot_ok_def Let_def split: if_splits)

lemma inner_get_ok:
  assumes "inner_ok rw i" and "inner_get i inp = Done (b, role, put)"
  shows "slot_ok rw (inner_ok rw) (b, role, put)"
proof (cases i)
  case (InnerRegex x)
  then obtain p where "regex_get x inp = Done (b, role, p)" "put = (\<lambda>b'. InnerRegex (p b'))"
    using assms(2) by auto
  with regex_get_ok [of rw x inp b role p] assms(1) InnerRegex show ?thesis by (simp add: slot_ok_def)
next
  case (InnerGeneric x)
  then obtain p where "generic_get x inp = Done (b, role, p)" "put = (\<lambda>b'. InnerGeneric (p b'))"
    using assms(2) by auto
  with generic_get_ok [of rw x inp b role p] assms(1) InnerGeneric show ?thesis by (simp add: slot_ok_def)
qed

lemma first_slot_ok:
  "list_all (inner_ok rw) is \<Longrightarrow> first_slot rx is inp = Done (Some (b, role, put)) \<Longrightarrow>
     slot_ok rw (list_all (inner_ok rw)) (b, role, put)"
proof (induction "is" arbitrary: b role put)
  case (Cons i "is")
  from Cons.prems(2) obtain hit where hit: "inner_is_match rx i inp = Done hit" by auto
  show ?case
  proof (cases hit)
    case True
    then obtain p where "inner_get i inp = Done (b, role, p)" "put = (\<lambda>b'. p b' # is)"
      using Cons.prems(2) hit by auto
    with inner_get_ok [of rw i inp b role p] Cons.prems(1) show ?thesis by (auto simp: slot_ok_def)
  next
    case False
    then obtain p where "first_slot rx is inp = Done (Some (b, role, p))" "put = (\<lambda>b'. i # p b')"
      using Cons.prems(2) hit by auto
    with Cons.IH [of b role p] Cons.prems(1) show ?thesis by (auto simp: slot_ok_def)
  qed
qed simp

lemma rules_get_ok:
  assumes "rules_ok rw rm" and "rules_get rx rm inp = Done (b, role, put)"
  shows "slot_ok rw (rules_ok rw) (b, role, put)"
proof (cases "\<exists>t. inp = InTransaction t")
  case True
  then show ?thesis using assms by (auto simp: rules_get_def rules_ok_def slot_ok_def)
next
  case False
  then have "rules_get rx rm inp = run_bind (first_slot rx (rm_inner rm) inp) (\<lambda>r.
      case r of
        Some (b, role, put) \<Rightarrow> Done (b, role, \<lambda>b'. rm\<lparr>rm_inner := put b'\<rparr>)
      | None \<Rightarrow> Done (rm_default_balance rm, rm_default_target rm, \<lambda>b. rm\<lparr>rm_default_balance := b\<rparr>))"
    by (cases inp) (auto simp: rules_get_def)
  with assms(2) obtain r where r: "first_slot rx (rm_inner rm) inp = Done r"
    and slot: "(case r of
        Some (b, role, put) \<Rightarrow> Done (b, role, \<lambda>b'. rm\<lparr>rm_inner := put b'\<rparr>)
      | None \<Rightarrow> Done (rm_default_balance rm, rm_default_target rm, \<lambda>b. rm\<lparr>rm_default_balance := b\<rparr>)) = Done (b, role, put)"
    by auto
  show ?thesis
  proof (cases r)
    case None
    then show ?thesis using slot assms(1) by (auto simp: rules_ok_def slot_ok_def)
  next
    case (Some x)
    then obtain p where p: "x = (b, role, p)" "put = (\<lambda>b'. rm\<lparr>rm_inner := p b'\<rparr>)"
      using slot by (cases x) auto
    have "slot_ok rw (list_all (inner_ok rw)) (b, role, p)"
      using first_slot_ok [of rw "rm_inner rm" rx inp b role p] r Some p(1) assms(1) by (simp add: rules_ok_def)
    then show ?thesis using assms(1) p(2) by (auto simp: slot_ok_def rules_ok_def)
  qed
qed

lemma serve_slot_ok:
  assumes "slot_ok rw good (b, role, put)"
  shows "\<exists>plan r. serve_slot draw why (b, role, put) = Some (Done (plan, r)) \<and> good r \<and>
    (\<forall>ep. plan_endpoint plan = Some ep \<longrightarrow> plan_role plan = Some role \<and> ep \<in> role_endpoints rw role)"
proof -
  have b: "serves rw role b" and put: "\<And>b'. serves rw role b' \<Longrightarrow> good (put b')"
    using assms by (auto simp: slot_ok_def)
  from b have "balance_ok b" by (simp add: serves_def)
  from bal.nxt_ok [OF this, of draw] obtain e b' where nx: "balance_next draw b = Some (Done (e, b'))"
    and "balance_ok b'" "balance_items b' = balance_items b" and e: "\<forall>x. e = Some x \<longrightarrow> x \<in> set (balance_items b)"
    by blast
  then have "serves rw role b'" using b by (simp add: serves_def)
  then show ?thesis
    using nx e put b by (cases e) (auto simp: serve_slot_def serves_def)
qed

lemma static_dispatch_role:
  assumes "rules_ok rw rm" and "static_dispatch rx draw rm inp = Some (Done (plan, rm'))"
  shows "rules_ok rw rm'"
    and "\<And>ep role. plan = PlanSingle ep role \<Longrightarrow> ep \<in> role_endpoints rw role"
proof -
  obtain b role put where slot: "rules_get rx rm inp = Done (b, role, put)"
    using assms(2) by (cases "rules_get rx rm inp") (auto simp: static_dispatch_def)
  from serve_slot_ok [OF rules_get_ok [OF assms(1) slot], of draw
      "''read write splitting static route produced no endpoint''"]
    assms(2) slot show "rules_ok rw rm'" "\<And>ep role. plan = PlanSingle ep role \<Longrightarrow> ep \<in> role_endpoints rw role"
    by (auto simp: static_dispatch_def)
qed

lemma static_dispatch_transaction:
  assumes "rules_ok rw rm"
  shows "\<exists>plan rm'. static_dispatch rx draw rm (InTransaction sql) = Some (Done (plan, rm')) \<and>
    (\<forall>ep. plan_endpoint plan = Some ep \<longrightarrow> plan_role plan = Some TrReadWrite \<and> ep \<in> set (re_readwrite rw))"
proof -
  let ?slot = "(rm_default_trans_balance rm, TrReadWrite, \<lambda>b. rm\<lparr>rm_default_trans_balance := b\<rparr>)"
  have slot: "rules_get rx rm (InTransaction sql) = Done ?slot" by (simp add: rules_get_def)
  from serve_slot_ok [OF rules_get_ok [OF assms slot], of draw
      "''read write splitting static route produced no endpoint''"] slot
  show ?thesis by (auto simp: static_dispatch_def role_endpoints_def)
qed

text \<open>The rule sets a session meets: as built, and after any number of dispatches.\<close>

inductive static_reaches :: "regex_engine \<Rightarrow> rules_match \<Rightarrow> rules_match \<Rightarrow> bool" for rx rm0 where
  static_built: "static_reaches rx rm0 rm0"
| static_dispatched: "static_reaches rx rm0 rm \<Longrightarrow> static_dispatch rx draw rm inp = Some (Done (plan, rm'))
    \<Longrightarrow> static_reaches rx rm0 rm'"

lemma static_reaches_ok: "static_reaches rx rm0 rm \<Longrightarrow> rules_ok rw rm0 \<Longrightarrow> rules_ok rw rm"
  by (induction rule: static_reaches.induct) (auto intro: static_dispatch_role(1))

end
