(* ===== verification/Reconcile.thy ===== *)
theory Reconcile
  imports Route
begin

text \<open>
  The reconciliation of monitor reports with the configured endpoints
  (\<open>proxy/strategy/src/discovery/monitor_reconcile.rs\<close>): one round of the loop in \<open>report\<close>, after the
  responses of the monitors have been received.  A response is a \<open>HashMap\<close> and is iterated in the order
  of its association list.  \<open>unwrap\<close> of a missing response or position and \<open>Vec::remove\<close> out of range
  panic.
\<close>

datatype connect_status = Connected | Disconnected
datatype ping_status = PingOk | PingNotOk
datatype node_role = NodeMaster | NodeSlave

record connect_response =
  cn_read :: "(str \<times> connect_status) list"
  cn_readwrite :: "(str \<times> connect_status) list"

record ping_response =
  pg_read :: "(str \<times> ping_status) list"
  pg_readwrite :: "(str \<times> ping_status) list"

record mha_flags =
  mha_replication_lag_enabled :: bool
  mha_read_only_enabled :: bool

text \<open>The roles a read-only monitor reports, and per replica whether it lags.\<close>

type_synonym roles_response = "(str \<times> node_role) list"
type_synonym lag_response = "(str \<times> bool) list"

section \<open>Operations\<close>

definition vec_remove :: "nat \<Rightarrow> 'a list \<Rightarrow> 'a list run" where
  "vec_remove i xs = (if i < length xs then Done (take i xs @ drop (Suc i) xs) else Panic)"

fun position_of :: "('a \<Rightarrow> bool) \<Rightarrow> 'a list \<Rightarrow> nat option" where
  "position_of P [] = None"
| "position_of P (x # xs) = (if P x then Some 0 else map_option Suc (position_of P xs))"

text \<open>The position is taken in the configured list and removed from the current one.\<close>

definition remove_replica :: "rw_endpoints \<Rightarrow> str \<Rightarrow> rw_endpoints \<Rightarrow> rw_endpoints run" where
  "remove_replica base addr cur =
     (case position_of (\<lambda>r. ep_addr r = addr) (re_read base) of
        None \<Rightarrow> Panic
      | Some i \<Rightarrow> run_bind (vec_remove i (re_read cur)) (\<lambda>reads. Done (cur\<lparr>re_read := reads\<rparr>)))"

fun promote_loop :: "bool \<Rightarrow> roles_response option \<Rightarrow> endpoint list \<Rightarrow> rw_endpoints \<Rightarrow> rw_endpoints run" where
  "promote_loop enabled roles [] cur = Done cur"
| "promote_loop enabled roles (ep # eps) cur =
     (if enabled then
        case roles of
          None \<Rightarrow> promote_loop enabled roles eps cur
        | Some m \<Rightarrow>
            (case map_of m (ep_addr ep) of
               None \<Rightarrow> Panic
             | Some NodeMaster \<Rightarrow> promote_loop enabled roles eps (cur\<lparr>re_readwrite := [ep]\<rparr>)
             | Some NodeSlave \<Rightarrow> promote_loop enabled roles eps cur)
      else promote_loop enabled roles eps cur)"

definition change_slave_to_master_by_read_only ::
  "mha_flags \<Rightarrow> roles_response option \<Rightarrow> rw_endpoints \<Rightarrow> rw_endpoints run" where
  "change_slave_to_master_by_read_only mha roles cur =
     promote_loop (mha_read_only_enabled mha) roles (re_read cur) cur"

fun master_ping_loop ::
  "mha_flags \<Rightarrow> roles_response option \<Rightarrow> (str \<times> ping_status) list \<Rightarrow> rw_endpoints \<Rightarrow> rw_endpoints run" where
  "master_ping_loop mha roles [] cur = Done cur"
| "master_ping_loop mha roles ((_, PingOk) # ps) cur = master_ping_loop mha roles ps cur"
| "master_ping_loop mha roles ((_, PingNotOk) # ps) cur =
     run_bind (if re_read cur \<noteq> [] then change_slave_to_master_by_read_only mha roles cur else Done cur)
       (master_ping_loop mha roles ps)"

fun master_loop ::
  "mha_flags \<Rightarrow> ping_response option \<Rightarrow> roles_response option \<Rightarrow> (str \<times> connect_status) list
   \<Rightarrow> rw_endpoints \<Rightarrow> rw_endpoints run" where
  "master_loop mha ping roles [] cur = Done cur"
| "master_loop mha ping roles ((_, Connected) # cs) cur =
     (case ping of
        None \<Rightarrow> Panic
      | Some p \<Rightarrow> run_bind (master_ping_loop mha roles (pg_readwrite p) cur) (master_loop mha ping roles cs))"
| "master_loop mha ping roles ((_, Disconnected) # cs) cur =
     run_bind (change_slave_to_master_by_read_only mha roles cur) (master_loop mha ping roles cs)"

definition change_read_write_if_necessary ::
  "mha_flags \<Rightarrow> connect_response option \<Rightarrow> ping_response option \<Rightarrow> roles_response option
   \<Rightarrow> rw_endpoints \<Rightarrow> rw_endpoints run" where
  "change_read_write_if_necessary mha connect ping roles cur =
     (case connect of None \<Rightarrow> Panic | Some c \<Rightarrow> master_loop mha ping roles (cn_readwrite c) cur)"

fun lag_loop :: "rw_endpoints \<Rightarrow> lag_response \<Rightarrow> rw_endpoints \<Rightarrow> rw_endpoints run" where
  "lag_loop base [] cur = Done cur"
| "lag_loop base ((addr, is_latency) # ls) cur =
     (if \<not> is_latency then
        lag_loop base ls
          (case find (\<lambda>r. ep_addr r = addr) (re_read cur) of
             Some _ \<Rightarrow> cur
           | None \<Rightarrow> cur\<lparr>re_read := re_read cur @ re_read cur\<rparr>)
      else run_bind (remove_replica base addr cur) (lag_loop base ls))"

definition change_read_by_lag ::
  "mha_flags \<Rightarrow> rw_endpoints \<Rightarrow> lag_response option \<Rightarrow> rw_endpoints \<Rightarrow> rw_endpoints run" where
  "change_read_by_lag mha base lag cur =
     (if mha_replication_lag_enabled mha
      then (case lag of Some ls \<Rightarrow> lag_loop base ls cur | None \<Rightarrow> Done cur)
      else Done cur)"

fun replica_ping_loop ::
  "mha_flags \<Rightarrow> rw_endpoints \<Rightarrow> lag_response option \<Rightarrow> (str \<times> ping_status) list \<Rightarrow> rw_endpoints \<Rightarrow> rw_endpoints run" where
  "replica_ping_loop mha base lag [] cur = Done cur"
| "replica_ping_loop mha base lag ((_, PingOk) # ps) cur =
     run_bind (change_read_by_lag mha base lag cur) (replica_ping_loop mha base lag ps)"
| "replica_ping_loop mha base lag ((addr, PingNotOk) # ps) cur =
     run_bind (remove_replica base addr cur) (replica_ping_loop mha base lag ps)"

fun replica_loop ::
  "mha_flags \<Rightarrow> rw_endpoints \<Rightarrow> ping_response option \<Rightarrow> lag_response option \<Rightarrow> (str \<times> connect_status) list
   \<Rightarrow> rw_endpoints \<Rightarrow> rw_endpoints run" where
  "replica_loop mha base ping lag [] cur = Done cur"
| "replica_loop mha base ping lag ((_, Connected) # cs) cur =
     run_bind (case ping of Some p \<Rightarrow> replica_ping_loop mha base lag (pg_read p) cur | None \<Rightarrow> Done cur)
       (replica_loop mha base ping lag cs)"
| "replica_loop mha base ping lag ((addr, Disconnected) # cs) cur =
     run_bind (remove_replica base addr cur) (replica_loop mha base ping lag cs)"

definition change_read_if_necessary ::
  "mha_flags \<Rightarrow> rw_endpoints \<Rightarrow> connect_response option \<Rightarrow> ping_response option \<Rightarrow> lag_response option
   \<Rightarrow> rw_endpoints \<Rightarrow> rw_endpoints run" where
  "change_read_if_necessary mha base connect ping lag cur =
     (case connect of None \<Rightarrow> Panic | Some c \<Rightarrow> replica_loop mha base ping lag (cn_read c) cur)"

text \<open>One round: the new endpoints and, when they differ from the previous ones, the message sent.\<close>

definition reconcile_round ::
  "mha_flags \<Rightarrow> rw_endpoints \<Rightarrow> connect_response option \<Rightarrow> ping_response option \<Rightarrow> roles_response option
   \<Rightarrow> lag_response option \<Rightarrow> rw_endpoints \<Rightarrow> (rw_endpoints \<times> rw_endpoints option) run" where
  "reconcile_round mha base connect ping roles lag prev =
     run_bind (change_read_write_if_necessary mha connect ping roles base) (\<lambda>c1.
     run_bind (change_read_if_necessary mha base connect ping lag c1) (\<lambda>cur.
       Done (cur, if prev \<noteq> cur then Some cur else None)))"

section \<open>Failover\<close>

definition reported_masters :: "roles_response \<Rightarrow> endpoint list \<Rightarrow> endpoint list" where
  "reported_masters m eps = filter (\<lambda>ep. map_of m (ep_addr ep) = Some NodeMaster) eps"

lemma promote_loop_spec:
  assumes "\<forall>ep \<in> set eps. map_of m (ep_addr ep) \<noteq> None"
  shows "promote_loop True (Some m) eps cur =
    Done (cur\<lparr>re_readwrite := (case reported_masters m eps of [] \<Rightarrow> re_readwrite cur | xs \<Rightarrow> [last xs])\<rparr>)"
  using assms
proof (induction eps arbitrary: cur)
  case (Cons ep eps)
  then obtain r where r: "map_of m (ep_addr ep) = Some r" by auto
  show ?case
  proof (cases r)
    case NodeMaster
    then show ?thesis using Cons r by (auto simp: reported_masters_def split: list.split)
  next
    case NodeSlave
    then show ?thesis using Cons r by (simp add: reported_masters_def)
  qed
qed (simp add: reported_masters_def)

lemma master_loop_connected:
  assumes "\<forall>(a, st) \<in> set cs. st = Connected" and "\<forall>(a, st) \<in> set (pg_readwrite p). st = PingOk"
  shows "master_loop mha (Some p) roles cs cur = Done cur"
proof -
  have ping: "master_ping_loop mha roles ps cur = Done cur" if "\<forall>(a, st) \<in> set ps. st = PingOk" for ps
    using that by (induction ps) auto
  show ?thesis using assms(1) by (induction cs) (auto simp: ping [OF assms(2)])
qed

lemma lag_loop_quiet:
  assumes "\<forall>(a, late) \<in> set ls. \<not> late \<and> a \<in> ep_addr ` set (re_read cur)"
  shows "lag_loop base ls cur = Done cur"
  using assms
proof (induction ls)
  case (Cons l ls)
  then obtain a where l: "l = (a, False)" "a \<in> ep_addr ` set (re_read cur)" by (cases l) auto
  then have "find (\<lambda>r. ep_addr r = a) (re_read cur) \<noteq> None" by (auto simp: find_None_iff)
  then show ?case using Cons l by auto
qed simp

text \<open>When every monitor reports a healthy cluster, a round changes nothing and sends nothing new.\<close>

lemma healthy_round:
  assumes "\<forall>(a, st) \<in> set (cn_readwrite c). st = Connected" "\<forall>(a, st) \<in> set (cn_read c). st = Connected"
    and "\<forall>(a, st) \<in> set (pg_readwrite p). st = PingOk" "\<forall>(a, st) \<in> set (pg_read p). st = PingOk"
    and "\<forall>(a, late) \<in> set ls. \<not> late \<and> a \<in> ep_addr ` set (re_read base)"
  shows "reconcile_round mha base (Some c) (Some p) roles (Some ls) prev =
    Done (base, if prev \<noteq> base then Some base else None)"
proof -
  have ping: "replica_ping_loop mha base (Some ls) ps base = Done base" if "\<forall>(a, st) \<in> set ps. st = PingOk" for ps
    using that by (induction ps) (auto simp: change_read_by_lag_def lag_loop_quiet [OF assms(5)])
  have "replica_loop mha base (Some p) (Some ls) cs base = Done base" if "\<forall>(a, st) \<in> set cs. st = Connected" for cs
    using that by (induction cs) (auto simp: ping [OF assms(4)])
  then show ?thesis
    using assms by (simp add: reconcile_round_def change_read_write_if_necessary_def
        change_read_if_necessary_def master_loop_connected)
qed

text \<open>When the only master is unreachable, the last replica that reports itself master takes its place.\<close>

lemma failover_promotes:
  assumes "mha_read_only_enabled mha" and "cn_readwrite c = [(a, Disconnected)]"
    and "\<forall>ep \<in> set (re_read base). map_of m (ep_addr ep) \<noteq> None" and "reported_masters m (re_read base) \<noteq> []"
  shows "change_read_write_if_necessary mha (Some c) ping (Some m) base =
    Done (base\<lparr>re_readwrite := [last (reported_masters m (re_read base))]\<rparr>)"
  using assms promote_loop_spec [OF assms(3), of base]
  by (auto simp: change_read_write_if_necessary_def change_slave_to_master_by_read_only_def split: list.splits)

section \<open>What goes wrong with two replicas\<close>

definition replica :: "str \<Rightarrow> endpoint" where
  "replica a = \<lparr>ep_node_type = [], ep_weight = 1, ep_name = a, ep_db = [], ep_user = [], ep_password = [], ep_addr = a\<rparr>"

definition two_replicas :: rw_endpoints where
  "two_replicas = \<lparr>re_read = [replica ''a'', replica ''b''], re_readwrite = [replica ''m'']\<rparr>"

text \<open>Two unreachable replicas make the task panic: the second position is past the shortened list.\<close>

lemma two_replicas_down_panics:
  "change_read_if_necessary mha two_replicas
     (Some \<lparr>cn_read = [(''a'', Disconnected), (''b'', Disconnected)], cn_readwrite = []\<rparr>) ping lag two_replicas = Panic"
  by (simp add: change_read_if_necessary_def remove_replica_def vec_remove_def two_replicas_def replica_def)

text \<open>One replica that does not answer pings takes a healthy one with it.\<close>

lemma failed_ping_removes_healthy_replica:
  "change_read_if_necessary mha two_replicas
     (Some \<lparr>cn_read = [(''a'', Connected), (''b'', Connected)], cn_readwrite = []\<rparr>)
     (Some \<lparr>pg_read = [(''a'', PingNotOk), (''b'', PingOk)], pg_readwrite = []\<rparr>) None two_replicas =
   Done (two_replicas\<lparr>re_read := []\<rparr>)"
  by (simp add: change_read_if_necessary_def change_read_by_lag_def remove_replica_def vec_remove_def two_replicas_def
      replica_def)

text \<open>A replica that has caught up is not put back; the list of the others is doubled instead.\<close>

lemma caught_up_replica_doubles_list:
  "lag_loop two_replicas [(''a'', False)] (two_replicas\<lparr>re_read := [replica ''b'']\<rparr>) =
     Done (two_replicas\<lparr>re_read := [replica ''b'', replica ''b'']\<rparr>)"
  by (simp add: replica_def)

end
