(* ===== verification/Transaction_Fsm.thy ===== *)
theory Transaction_Fsm
  imports Load_Balance
begin

text \<open>
  The transaction state machine of a MySQL session (\<open>runtime/gateway/src/transaction_fsm.rs\<close>): its
  transition table, \<open>trigger\<close>, and the connection and session fields it carries.  A backend connection is
  an opaque value; what the pool answers when a connection is fetched is a parameter.

  \<open>trigger\<close> returns \<open>true\<close> when the session has to route and fetch a connection, and \<open>false\<close> when it stays
  on the one it holds.
\<close>

section \<open>States, events and the table\<close>

datatype trans_state =
    TransDummyState | TransUseState | TransSetSessionState | TransStartState | TransPrepareState

datatype trans_event_name =
    DummyEvent | UseEvent | SetSessionEvent | QueryEvent | StartEvent | PrepareEvent | SendLongDataEvent
  | ExecuteEvent | CloseEvent | ResetEvent | CommitRollBackEvent | DropEvent

record trans_event =
  te_name :: trans_event_name
  te_src_state :: trans_state
  te_dst_state :: trans_state

definition init_trans_events :: "trans_event list" where
  "init_trans_events = map (\<lambda>(n, s, d). \<lparr>te_name = n, te_src_state = s, te_dst_state = d\<rparr>)
     [(UseEvent, TransDummyState, TransUseState),
      (UseEvent, TransUseState, TransUseState),
      (SetSessionEvent, TransDummyState, TransSetSessionState),
      (SetSessionEvent, TransUseState, TransSetSessionState),
      (SetSessionEvent, TransSetSessionState, TransSetSessionState),
      (QueryEvent, TransSetSessionState, TransSetSessionState),
      (QueryEvent, TransUseState, TransUseState),
      (QueryEvent, TransDummyState, TransDummyState),
      (StartEvent, TransDummyState, TransStartState),
      (StartEvent, TransUseState, TransStartState),
      (StartEvent, TransSetSessionState, TransStartState),
      (PrepareEvent, TransDummyState, TransPrepareState),
      (PrepareEvent, TransUseState, TransPrepareState),
      (PrepareEvent, TransStartState, TransPrepareState),
      (SendLongDataEvent, TransPrepareState, TransPrepareState),
      (ExecuteEvent, TransPrepareState, TransPrepareState),
      (CloseEvent, TransPrepareState, TransDummyState),
      (ResetEvent, TransPrepareState, TransDummyState),
      (DropEvent, TransPrepareState, TransDummyState),
      (CommitRollBackEvent, TransPrepareState, TransDummyState),
      (CommitRollBackEvent, TransDummyState, TransDummyState),
      (CommitRollBackEvent, TransStartState, TransDummyState),
      (QueryEvent, TransSetSessionState, TransDummyState)]"

section \<open>The machine\<close>

record 'c trans_fsm =
  tf_events :: "trans_event list"
  tf_current_state :: trans_state
  tf_current_event :: trans_event_name
  tf_client_conn :: "'c option"
  tf_endpoint :: "endpoint option"
  tf_shard_cache_conn :: "'c list"
  tf_db :: "str option"
  tf_charset :: str
  tf_autocommit :: "str option"

definition trans_fsm_new :: "'c trans_fsm" where
  "trans_fsm_new =
     \<lparr>tf_events = init_trans_events, tf_current_state = TransDummyState, tf_current_event = DummyEvent,
      tf_client_conn = None, tf_endpoint = None, tf_shard_cache_conn = [], tf_db = None,
      tf_charset = ''utf8mb4'', tf_autocommit = None\<rparr>"

fun trigger_loop :: "trans_event_name \<Rightarrow> trans_event list \<Rightarrow> 'c trans_fsm \<Rightarrow> bool \<times> 'c trans_fsm" where
  "trigger_loop name [] m = (False, m)"
| "trigger_loop name (ev # evs) m =
     (if te_name ev = name \<and> te_src_state ev = tf_current_state m
      then (te_src_state ev = TransDummyState,
            m\<lparr>tf_current_state := te_dst_state ev, tf_current_event := te_name ev\<rparr>)
      else trigger_loop name evs m)"

definition trigger :: "trans_event_name \<Rightarrow> 'c trans_fsm \<Rightarrow> bool \<times> 'c trans_fsm" where
  "trigger name m = trigger_loop name (tf_events m) m"

definition reset_fsm_state :: "'c trans_fsm \<Rightarrow> 'c trans_fsm" where
  "reset_fsm_state m =
     snd (trigger QueryEvent (m\<lparr>tf_current_state := TransDummyState, tf_current_event := DummyEvent\<rparr>))"

definition set_db :: "str option \<Rightarrow> 'c trans_fsm \<Rightarrow> 'c trans_fsm" where
  "set_db db m = m\<lparr>tf_db := db\<rparr>"

definition set_charset :: "str \<Rightarrow> 'c trans_fsm \<Rightarrow> 'c trans_fsm" where
  "set_charset name m = m\<lparr>tf_charset := name\<rparr>"

definition set_autocommit :: "str \<Rightarrow> 'c trans_fsm \<Rightarrow> 'c trans_fsm" where
  "set_autocommit status m = m\<lparr>tf_autocommit := Some status\<rparr>"

datatype session_attr = AttrDb "str option" | AttrCharset str | AttrAutocommit "str option"

definition mysql_pool_attrs :: "str option \<Rightarrow> str \<Rightarrow> str option \<Rightarrow> session_attr list" where
  "mysql_pool_attrs db charset autocommit = [AttrDb db, AttrCharset charset, AttrAutocommit autocommit]"

text \<open>\<open>fetch\<close>: what the pool answers for an address and session attributes.\<close>

definition fsm_get_conn_with_endpoint ::
  "(str \<Rightarrow> session_attr list \<Rightarrow> str + 'c) \<Rightarrow> endpoint \<Rightarrow> 'c trans_fsm \<Rightarrow> (str + 'c) \<times> 'c trans_fsm" where
  "fsm_get_conn_with_endpoint fetch ep m =
     (case tf_client_conn m of
        Some conn \<Rightarrow> (Inr conn, m\<lparr>tf_client_conn := None\<rparr>)
      | None \<Rightarrow>
          (fetch (ep_addr ep) (mysql_pool_attrs (tf_db m) (tf_charset m) (tf_autocommit m)),
           m\<lparr>tf_client_conn := None\<rparr>))"

definition get_conn :: "'c trans_fsm \<Rightarrow> (str + 'c) \<times> 'c trans_fsm" where
  "get_conn m =
     (case tf_client_conn m of
        Some conn \<Rightarrow> (Inr conn, m\<lparr>tf_client_conn := None\<rparr>)
      | None \<Rightarrow> (Inl ''transaction fsm has no bound backend connection'', m\<lparr>tf_client_conn := None\<rparr>))"

definition put_conn :: "'c \<Rightarrow> 'c trans_fsm \<Rightarrow> 'c trans_fsm" where
  "put_conn conn m = m\<lparr>tf_client_conn := Some conn\<rparr>"

definition get_shard_conns :: "'c trans_fsm \<Rightarrow> 'c list \<times> 'c trans_fsm" where
  "get_shard_conns m = (tf_shard_cache_conn m, m\<lparr>tf_shard_cache_conn := []\<rparr>)"

definition put_shard_conns :: "'c list \<Rightarrow> 'c trans_fsm \<Rightarrow> 'c trans_fsm" where
  "put_shard_conns conns m = m\<lparr>tf_shard_cache_conn := conns\<rparr>"

record handshake_session =
  hs_db :: "str option"
  hs_charset :: "str option"
  hs_autocommit :: "str option"

definition apply_handshake_session :: "handshake_session \<Rightarrow> 'c trans_fsm \<Rightarrow> 'c trans_fsm" where
  "apply_handshake_session sess m =
     m\<lparr>tf_db := hs_db sess,
       tf_charset := (case hs_charset sess of Some c \<Rightarrow> c | None \<Rightarrow> tf_charset m),
       tf_autocommit := hs_autocommit sess\<rparr>"

section \<open>The transition function behind the table\<close>

text \<open>Read off the table with the first entry winning; \<open>None\<close> where the event is ignored.\<close>

fun transition :: "trans_state \<Rightarrow> trans_event_name \<Rightarrow> trans_state option" where
  "transition TransDummyState ev =
     (case ev of UseEvent \<Rightarrow> Some TransUseState | SetSessionEvent \<Rightarrow> Some TransSetSessionState
      | QueryEvent \<Rightarrow> Some TransDummyState | StartEvent \<Rightarrow> Some TransStartState
      | PrepareEvent \<Rightarrow> Some TransPrepareState | CommitRollBackEvent \<Rightarrow> Some TransDummyState | _ \<Rightarrow> None)"
| "transition TransUseState ev =
     (case ev of UseEvent \<Rightarrow> Some TransUseState | SetSessionEvent \<Rightarrow> Some TransSetSessionState
      | QueryEvent \<Rightarrow> Some TransUseState | StartEvent \<Rightarrow> Some TransStartState
      | PrepareEvent \<Rightarrow> Some TransPrepareState | _ \<Rightarrow> None)"
| "transition TransSetSessionState ev =
     (case ev of SetSessionEvent \<Rightarrow> Some TransSetSessionState | QueryEvent \<Rightarrow> Some TransSetSessionState
      | StartEvent \<Rightarrow> Some TransStartState | _ \<Rightarrow> None)"
| "transition TransStartState ev =
     (case ev of PrepareEvent \<Rightarrow> Some TransPrepareState | CommitRollBackEvent \<Rightarrow> Some TransDummyState | _ \<Rightarrow> None)"
| "transition TransPrepareState ev =
     (case ev of SendLongDataEvent \<Rightarrow> Some TransPrepareState | ExecuteEvent \<Rightarrow> Some TransPrepareState
      | CloseEvent \<Rightarrow> Some TransDummyState | ResetEvent \<Rightarrow> Some TransDummyState | DropEvent \<Rightarrow> Some TransDummyState
      | CommitRollBackEvent \<Rightarrow> Some TransDummyState | _ \<Rightarrow> None)"

text \<open>The table does not change.\<close>

definition fsm_ok :: "'c trans_fsm \<Rightarrow> bool" where
  "fsm_ok m \<longleftrightarrow> tf_events m = init_trans_events"

lemma trigger_transition:
  assumes "fsm_ok m"
  shows "trigger name m =
    (case transition (tf_current_state m) name of
       None \<Rightarrow> (False, m)
     | Some d \<Rightarrow> (tf_current_state m = TransDummyState, m\<lparr>tf_current_state := d, tf_current_event := name\<rparr>))"
  using assms
  by (cases "tf_current_state m"; cases name) (simp_all add: trigger_def fsm_ok_def init_trans_events_def)

section \<open>Runs\<close>

datatype 'c fsm_action =
    Trigger trans_event_name | Reset | PutConn 'c | TakeConn | Handshake handshake_session
  | SetDb "str option" | SetCharset str | SetAutocommit str

text \<open>One action of the session; the first component says whether it asks for a new connection.\<close>

fun fsm_act :: "'c fsm_action \<Rightarrow> 'c trans_fsm \<Rightarrow> bool \<times> 'c trans_fsm" where
  "fsm_act (Trigger ev) m = trigger ev m"
| "fsm_act Reset m = (False, reset_fsm_state m)"
| "fsm_act (PutConn c) m = (False, put_conn c m)"
| "fsm_act TakeConn m = (False, snd (get_conn m))"
| "fsm_act (Handshake sess) m = (False, apply_handshake_session sess m)"
| "fsm_act (SetDb db) m = (False, set_db db m)"
| "fsm_act (SetCharset c) m = (False, set_charset c m)"
| "fsm_act (SetAutocommit a) m = (False, set_autocommit a m)"

fun fsm_run :: "'c fsm_action list \<Rightarrow> 'c trans_fsm \<Rightarrow> bool list \<times> 'c trans_fsm" where
  "fsm_run [] m = ([], m)"
| "fsm_run (a # as) m = (case fsm_act a m of (b, m1) \<Rightarrow> case fsm_run as m1 of (bs, m2) \<Rightarrow> (b # bs, m2))"

lemma fsm_ok_new: "fsm_ok trans_fsm_new"
  by (simp add: fsm_ok_def trans_fsm_new_def)

lemma fsm_ok_trigger: "fsm_ok m \<Longrightarrow> fsm_ok (snd (trigger ev m))"
  by (simp add: trigger_transition split: option.split) (simp add: fsm_ok_def)

lemma fsm_ok_reset: "fsm_ok m \<Longrightarrow> fsm_ok (reset_fsm_state m)"
  unfolding reset_fsm_state_def by (rule fsm_ok_trigger) (simp add: fsm_ok_def)

lemma fsm_ok_act: "fsm_ok m \<Longrightarrow> fsm_ok (snd (fsm_act a m))"
  by (cases a)
    (auto simp: fsm_ok_trigger fsm_ok_reset,
     auto simp: fsm_ok_def put_conn_def get_conn_def apply_handshake_session_def set_db_def set_charset_def
       set_autocommit_def split: option.split)

text \<open>The actions that end a transaction: commit and rollback, closing a statement, a reset.\<close>

definition ends_transaction :: "'c fsm_action \<Rightarrow> bool" where
  "ends_transaction a \<longleftrightarrow> a \<in> {Reset, Trigger CommitRollBackEvent, Trigger CloseEvent, Trigger ResetEvent, Trigger DropEvent}"

lemma pinned_act:
  assumes "fsm_ok m" and "tf_current_state m \<in> {TransStartState, TransPrepareState}" and "\<not> ends_transaction a"
  shows "fst (fsm_act a m) = False \<and> tf_current_state (snd (fsm_act a m)) \<in> {TransStartState, TransPrepareState}"
proof (cases a)
  case (Trigger ev)
  then show ?thesis
    using assms by (cases ev) (auto simp: trigger_transition ends_transaction_def)
qed (use assms in \<open>auto simp: ends_transaction_def put_conn_def get_conn_def apply_handshake_session_def set_db_def
       set_charset_def set_autocommit_def split: option.split\<close>)

lemma pinned_run:
  assumes "fsm_ok m" and "tf_current_state m \<in> {TransStartState, TransPrepareState}"
    and "\<forall>a \<in> set as. \<not> ends_transaction a"
  shows "True \<notin> set (fst (fsm_run as m)) \<and>
    tf_current_state (snd (fsm_run as m)) \<in> {TransStartState, TransPrepareState}"
  using assms
proof (induction as arbitrary: m)
  case (Cons a as)
  let ?m = "snd (fsm_act a m)"
  have a: "fst (fsm_act a m) = False" "tf_current_state ?m \<in> {TransStartState, TransPrepareState}"
    using pinned_act [OF Cons.prems(1,2)] Cons.prems(3) by auto
  have "True \<notin> set (fst (fsm_run as ?m)) \<and> tf_current_state (snd (fsm_run as ?m)) \<in> {TransStartState, TransPrepareState}"
    using Cons fsm_ok_act a(2) by auto
  then show ?case using a(1) by (auto split: prod.split)
qed simp

text \<open>A start is accepted in every idle state and enters the transaction.\<close>

lemma start_enters:
  assumes "fsm_ok m" and "tf_current_state m \<in> {TransDummyState, TransUseState, TransSetSessionState}"
  shows "tf_current_state (snd (trigger StartEvent m)) = TransStartState"
  using assms by (auto simp: trigger_transition)

lemma fsm_ok_run: "fsm_ok m \<Longrightarrow> fsm_ok (snd (fsm_run as m))"
proof (induction as arbitrary: m)
  case (Cons a as)
  then have "fsm_ok (snd (fsm_run as (snd (fsm_act a m))))" using fsm_ok_act by blast
  then show ?case by (auto split: prod.split)
qed simp

text \<open>
  Closing a prepared statement inside a transaction forgets the transaction: the next query asks for a
  new connection before any commit.
\<close>

lemma close_forgets_transaction:
  "fst (fsm_run [Trigger StartEvent, Trigger PrepareEvent, Trigger CloseEvent, Trigger QueryEvent] trans_fsm_new) =
     [True, False, False, True]"
  by (simp add: trigger_def init_trans_events_def trans_fsm_new_def)

text \<open>After a \<open>SET\<close> statement the machine ignores a prepared statement.\<close>

lemma prepare_ignored_after_set:
  assumes "fsm_ok m" and "tf_current_state m = TransSetSessionState"
  shows "trigger PrepareEvent m = (False, m)"
  using assms by (simp add: trigger_transition)

lemma put_get_conn: "get_conn (put_conn c m) = (Inr c, m\<lparr>tf_client_conn := None\<rparr>)"
  by (simp add: get_conn_def put_conn_def)

end
