(* ===== verification/Plugins.thy ===== *)
theory Plugins
  imports Gateway_Model
begin

text \<open>
  The governance plugins a command passes before execution: circuit breaking and concurrency control
  (\<open>plugin/src\<close>) with the context and decisions of \<open>gateway/core/src/plugin.rs\<close>.

  The regex crate is a parameter, as in the routing rules.  A tokio semaphore is the number of its free
  permits: \<open>try_acquire_owned\<close> followed by \<open>forget\<close> takes one when there is one, \<open>add_permits\<close> puts one
  back.  The clock is an argument, in the unit of the configured durations.
\<close>

section \<open>Commands as plugins see them\<close>

datatype command_summary =
    SumQuery str | SumQueryParams str | SumPrepare str | SumExecute str | SumCloseStatement str
  | SumDescribeSql str | SumClientWire | SumPgBackendSync | SumUseDatabase str
  | SumBegin | SumCommit | SumRollback | SumPing | SumQuit

fun match_text :: "command_summary \<Rightarrow> str" where
  "match_text (SumQuery sql) = sql"
| "match_text (SumQueryParams sql) = sql"
| "match_text (SumPrepare sql) = sql"
| "match_text (SumDescribeSql sql) = sql"
| "match_text (SumExecute statement_id) = statement_id"
| "match_text (SumCloseStatement statement_id) = statement_id"
| "match_text (SumUseDatabase database) = database"
| "match_text SumClientWire = ''CLIENT_WIRE''"
| "match_text SumPgBackendSync = ''PG_BACKEND_SYNC''"
| "match_text SumBegin = ''BEGIN''"
| "match_text SumCommit = ''COMMIT''"
| "match_text SumRollback = ''ROLLBACK''"
| "match_text SumPing = ''PING''"
| "match_text SumQuit = ''QUIT''"

fun summary_from_command :: "gateway_command \<Rightarrow> command_summary" where
  "summary_from_command (Query sql) = SumQuery sql"
| "summary_from_command (QueryParams sql _) = SumQueryParams sql"
| "summary_from_command (Prepare sql) = SumPrepare sql"
| "summary_from_command (Execute statement_id _) = SumExecute statement_id"
| "summary_from_command (CloseStatement statement_id) = SumCloseStatement statement_id"
| "summary_from_command (DescribeSql sql) = SumDescribeSql sql"
| "summary_from_command (ClientWire _) = SumClientWire"
| "summary_from_command PgBackendSync = SumPgBackendSync"
| "summary_from_command (UseDatabase database) = SumUseDatabase database"
| "summary_from_command Begin = SumBegin"
| "summary_from_command Commit = SumCommit"
| "summary_from_command Rollback = SumRollback"
| "summary_from_command Ping = SumPing"
| "summary_from_command Quit = SumQuit"

fun rewritten_sql :: "command_summary \<Rightarrow> str \<Rightarrow> gateway_command option" where
  "rewritten_sql (SumQuery _) sql = Some (Query sql)"
| "rewritten_sql (SumQueryParams _) sql = Some (QueryParams sql [])"
| "rewritten_sql (SumPrepare _) sql = Some (Prepare sql)"
| "rewritten_sql _ sql = None"

datatype plugin_decision = PdContinue "nat option" | PdReject str str | PdRewrite str

section \<open>Circuit breaking\<close>

record circuit_break_config =
  cb_regex :: "str list"
  cb_case_insensitive :: bool

text \<open>\<open>ci\<close>: the pattern compiled case-insensitively.\<close>

record plugin_regex =
  pr_compiles :: "bool \<Rightarrow> str \<Rightarrow> bool"
  pr_matches :: "bool \<Rightarrow> str \<Rightarrow> str \<Rightarrow> bool"

record circuit_break_instance =
  cbi_regex :: "str list"
  cbi_case_insensitive :: bool

definition circuit_break_instances ::
  "plugin_regex \<Rightarrow> circuit_break_config list option \<Rightarrow> circuit_break_instance list option run" where
  "circuit_break_instances rx config =
     (case config of
        None \<Rightarrow> Done None
      | Some cs \<Rightarrow>
          if list_all (\<lambda>c. list_all (pr_compiles rx (cb_case_insensitive c)) (cb_regex c)) cs
          then Done (Some (map (\<lambda>c. \<lparr>cbi_regex = cb_regex c, cbi_case_insensitive = cb_case_insensitive c\<rparr>) cs))
          else Panic)"

fun circuit_is_allow :: "plugin_regex \<Rightarrow> circuit_break_instance list \<Rightarrow> str \<Rightarrow> bool" where
  "circuit_is_allow rx [] inp = True"
| "circuit_is_allow rx (c # cs) inp =
     (if list_ex (\<lambda>r. pr_matches rx (cbi_case_insensitive c) r inp) (cbi_regex c) then False
      else circuit_is_allow rx cs inp)"

definition circuit_break_handle :: "plugin_regex \<Rightarrow> circuit_break_instance list option \<Rightarrow> str \<Rightarrow> bool" where
  "circuit_break_handle rx instances inp =
     (case instances of None \<Rightarrow> True | Some cs \<Rightarrow> circuit_is_allow rx cs inp)"

section \<open>Concurrency control\<close>

record concurrency_config =
  cc_regex :: "str list"
  cc_max_concurrency :: nat
  cc_duration :: nat

record concurrency_instance =
  ci_regex :: "str list"
  ci_max_concurrency :: nat
  ci_permits :: nat
  ci_duration :: nat
  ci_start_at :: "nat option"

definition concurrency_instances ::
  "plugin_regex \<Rightarrow> concurrency_config list option \<Rightarrow> concurrency_instance list option run" where
  "concurrency_instances rx config =
     (case config of
        None \<Rightarrow> Done None
      | Some cs \<Rightarrow>
          if list_all (\<lambda>c. list_all (pr_compiles rx False) (cc_regex c)) cs
          then Done (Some (map (\<lambda>c. \<lparr>ci_regex = cc_regex c, ci_max_concurrency = cc_max_concurrency c,
                 ci_permits = cc_max_concurrency c, ci_duration = cc_duration c, ci_start_at = None\<rparr>) cs))
          else Panic)"

text \<open>\<open>try_acquire_owned\<close> with the permit forgotten.\<close>

definition try_acquire :: "nat \<Rightarrow> concurrency_instance \<Rightarrow> (nat option \<times> bool) \<times> concurrency_instance" where
  "try_acquire idx c =
     (if ci_permits c = 0 then ((Some idx, False), c)
      else ((Some idx, True), c\<lparr>ci_permits := ci_permits c - 1\<rparr>))"

definition instance_admit :: "nat \<Rightarrow> nat \<Rightarrow> concurrency_instance \<Rightarrow> (nat option \<times> bool) \<times> concurrency_instance" where
  "instance_admit now idx c =
     (case ci_start_at c of
        None \<Rightarrow> try_acquire idx (c\<lparr>ci_start_at := Some now\<rparr>)
      | Some t \<Rightarrow>
          if now - t > ci_duration c
          then ((None, True), c\<lparr>ci_start_at := None, ci_permits := ci_max_concurrency c\<rparr>)
          else try_acquire idx c)"

text \<open>The loop over the rules: the first that matches decides.\<close>

fun concurrency_loop ::
  "plugin_regex \<Rightarrow> nat \<Rightarrow> str \<Rightarrow> nat \<Rightarrow> concurrency_instance list \<Rightarrow> (nat option \<times> bool) \<times> concurrency_instance list" where
  "concurrency_loop rx now inp idx [] = ((None, True), [])"
| "concurrency_loop rx now inp idx (c # cs) =
     (if \<not> list_ex (\<lambda>r. pr_matches rx False r inp) (ci_regex c)
      then (case concurrency_loop rx now inp (Suc idx) cs of (r, cs') \<Rightarrow> (r, c # cs'))
      else (case instance_admit now idx c of (r, c') \<Rightarrow> (r, c' # cs)))"

definition concurrency_is_allow ::
  "plugin_regex \<Rightarrow> nat \<Rightarrow> concurrency_instance list option \<Rightarrow> str
   \<Rightarrow> (nat option \<times> bool) \<times> concurrency_instance list option" where
  "concurrency_is_allow rx now instances inp =
     (case instances of
        None \<Rightarrow> ((None, True), None)
      | Some cs \<Rightarrow> (case concurrency_loop rx now inp 0 cs of (r, cs') \<Rightarrow> (r, Some cs')))"

definition add_permits :: "nat \<Rightarrow> concurrency_instance list option \<Rightarrow> concurrency_instance list option run" where
  "add_permits idx instances =
     (case instances of
        None \<Rightarrow> Panic
      | Some cs \<Rightarrow>
          if idx < length cs
          then Done (Some (cs[idx := (cs ! idx)\<lparr>ci_permits := ci_permits (cs ! idx) + 1\<rparr>])) else Panic)"

section \<open>The plugin phase\<close>

record plugin_phase =
  pp_concurrency_control :: "concurrency_instance list option"
  pp_circuit_break :: "circuit_break_instance list option"

definition plugin_phase_new ::
  "plugin_regex \<Rightarrow> concurrency_config list option \<Rightarrow> circuit_break_config list option \<Rightarrow> plugin_phase run" where
  "plugin_phase_new rx cc cb =
     run_bind (concurrency_instances rx cc) (\<lambda>ccs.
     run_bind (circuit_break_instances rx cb) (\<lambda>cbs.
       Done \<lparr>pp_concurrency_control = ccs, pp_circuit_break = cbs\<rparr>))"

definition plugin_evaluate ::
  "plugin_regex \<Rightarrow> nat \<Rightarrow> plugin_phase \<Rightarrow> command_summary \<Rightarrow> plugin_decision \<times> plugin_phase" where
  "plugin_evaluate rx now pp cmd =
     (let inp = match_text cmd
      in if \<not> circuit_break_handle rx (pp_circuit_break pp) inp
         then (PdReject ''circuit_break'' ''audit plugin rejected'', pp)
         else (case concurrency_is_allow rx now (pp_concurrency_control pp) inp of
             ((idx, True), ccs) \<Rightarrow> (PdContinue idx, pp\<lparr>pp_concurrency_control := ccs\<rparr>)
           | ((idx, False), ccs) \<Rightarrow>
               (PdReject ''concurrency_control'' ''concurrency control plugin rejected'', pp\<lparr>pp_concurrency_control := ccs\<rparr>)))"

definition release_concurrency :: "nat \<Rightarrow> plugin_phase \<Rightarrow> plugin_phase run" where
  "release_concurrency rule_idx pp =
     run_bind (add_permits rule_idx (pp_concurrency_control pp)) (\<lambda>ccs.
       Done (pp\<lparr>pp_concurrency_control := ccs\<rparr>))"


section \<open>What the plugins guarantee\<close>

lemma circuit_is_allow_iff:
  "circuit_is_allow rx cs inp \<longleftrightarrow>
   (\<forall>c \<in> set cs. \<forall>r \<in> set (cbi_regex c). \<not> pr_matches rx (cbi_case_insensitive c) r inp)"
  by (induction cs) (auto simp: list_ex_iff)

lemma circuit_broken_rejected:
  assumes "pp_circuit_break pp = Some cs" "c \<in> set cs" "r \<in> set (cbi_regex c)"
    and "pr_matches rx (cbi_case_insensitive c) r (match_text cmd)"
  shows "plugin_evaluate rx now pp cmd = (PdReject ''circuit_break'' ''audit plugin rejected'', pp)"
  using assms by (auto simp: plugin_evaluate_def Let_def circuit_break_handle_def circuit_is_allow_iff)

text \<open>The loop touches at most the first rule that matches.\<close>

lemma concurrency_loop_cases:
  assumes "concurrency_loop rx now inp idx cs = (r, cs')"
  obtains (no_rule) "r = (None, True)" "cs' = cs"
  | (rule_at) j c' where "j < length cs" "cs' = cs[j := c']" "instance_admit now (idx + j) (cs ! j) = (r, c')"
using assms proof (induction cs arbitrary: idx cs' thesis)
  case (Cons c cs)
  show ?case
  proof (cases "list_ex (\<lambda>r. pr_matches rx False r inp) (ci_regex c)")
    case True
    then obtain c' where "instance_admit now idx c = (r, c')" "cs' = c' # cs"
      using Cons.prems(3) by (auto split: prod.splits)
    then show ?thesis using Cons.prems(2)[of 0 c'] by simp
  next
    case False
    then obtain ds where ds: "concurrency_loop rx now inp (Suc idx) cs = (r, ds)" "cs' = c # ds"
      using Cons.prems(3) by (auto split: prod.splits)
    show ?thesis
    proof (rule Cons.IH[OF _ _ ds(1)])
      show thesis if "r = (None, True)" "ds = cs" using that Cons.prems(1) ds(2) by simp
      show thesis if "j < length cs" "ds = cs[j := c']" "instance_admit now (Suc idx + j) (cs ! j) = (r, c')" for j c'
        using that Cons.prems(2)[of "Suc j" c'] ds(2) by simp
    qed
  qed
qed simp

text \<open>
  Who holds a permit: \<open>held i\<close> commands admitted by rule \<open>i\<close> have not released it yet, and the rule's window
  has expired \<open>expiries i\<close> times.  A command releases the permit its admission named, once.
\<close>

record permit_ghost =
  held :: "nat \<Rightarrow> nat"
  expiries :: "nat \<Rightarrow> nat"

definition grant :: "nat option \<times> bool \<Rightarrow> (nat \<Rightarrow> nat) \<Rightarrow> nat \<Rightarrow> nat" where
  "grant r h = (case r of (Some i, True) \<Rightarrow> h(i := Suc (h i)) | _ \<Rightarrow> h)"

definition count_expiry ::
  "concurrency_instance list \<Rightarrow> concurrency_instance list \<Rightarrow> (nat \<Rightarrow> nat) \<Rightarrow> nat \<Rightarrow> nat" where
  "count_expiry cs cs' z =
     (\<lambda>i. if i < length cs \<and> ci_start_at (cs ! i) \<noteq> None \<and> ci_start_at (cs' ! i) = None then Suc (z i) else z i)"

inductive cc_reachable ::
  "plugin_regex \<Rightarrow> concurrency_instance list \<Rightarrow> concurrency_instance list \<Rightarrow> permit_ghost \<Rightarrow> bool"
  for rx cs0 where
  cc_started: "cc_reachable rx cs0 cs0 \<lparr>held = (\<lambda>_. 0), expiries = (\<lambda>_. 0)\<rparr>"
| cc_requested: "\<lbrakk>cc_reachable rx cs0 cs g; concurrency_is_allow rx now (Some cs) inp = (r, Some cs')\<rbrakk>
    \<Longrightarrow> cc_reachable rx cs0 cs' \<lparr>held = grant r (held g), expiries = count_expiry cs cs' (expiries g)\<rparr>"
| cc_released: "\<lbrakk>cc_reachable rx cs0 cs g; 0 < held g i; add_permits i (Some cs) = Done (Some cs')\<rbrakk>
    \<Longrightarrow> cc_reachable rx cs0 cs' (g\<lparr>held := (held g)(i := held g i - 1)\<rparr>)"

definition permits_ok :: "concurrency_instance list \<Rightarrow> permit_ghost \<Rightarrow> bool" where
  "permits_ok cs g \<longleftrightarrow> (\<forall>i < length cs.
     ci_permits (cs ! i) + held g i \<le> ci_max_concurrency (cs ! i) * Suc (expiries g i) \<and>
     (expiries g i = 0 \<longrightarrow> ci_permits (cs ! i) + held g i = ci_max_concurrency (cs ! i)))"

definition fresh_instances :: "concurrency_instance list \<Rightarrow> bool" where
  "fresh_instances cs \<longleftrightarrow> (\<forall>c \<in> set cs. ci_permits c = ci_max_concurrency c \<and> ci_start_at c = None)"

lemma concurrency_instances_fresh:
  "concurrency_instances rx (Some cfg) = Done (Some cs) \<Longrightarrow> fresh_instances cs"
  by (auto simp: concurrency_instances_def fresh_instances_def split: if_splits)

lemma configured_max:
  "concurrency_instances rx (Some cfg) = Done (Some cs) \<Longrightarrow> map ci_max_concurrency cs = map cc_max_concurrency cfg"
  by (auto simp: concurrency_instances_def split: if_splits)

lemma try_acquire_effect:
  assumes "try_acquire i c = (r, c')"
  shows "ci_start_at c' = ci_start_at c" "ci_max_concurrency c' = ci_max_concurrency c"
    "ci_permits c' + grant r h i = ci_permits c + h i" "j \<noteq> i \<Longrightarrow> grant r h j = h j"
  using assms by (auto simp: try_acquire_def grant_def split: if_splits)

lemma permits_ok_request:
  assumes ok: "permits_ok cs g" and step: "concurrency_is_allow rx now (Some cs) inp = (r, Some cs')"
  shows "permits_ok cs' \<lparr>held = grant r (held g), expiries = count_expiry cs cs' (expiries g)\<rparr>"
proof -
  have loop: "concurrency_loop rx now inp 0 cs = (r, cs')"
    using step by (auto simp: concurrency_is_allow_def split: prod.splits)
  from loop show ?thesis
  proof (cases rule: concurrency_loop_cases)
    case no_rule
    then show ?thesis using ok by (auto simp: permits_ok_def grant_def count_expiry_def)
  next
    case (rule_at j c')
    have okj: "ci_permits (cs ! j) + held g j \<le> ci_max_concurrency (cs ! j) * Suc (expiries g j)"
      "expiries g j = 0 \<Longrightarrow> ci_permits (cs ! j) + held g j = ci_max_concurrency (cs ! j)"
      using ok rule_at(1) by (auto simp: permits_ok_def)
    show ?thesis
    proof (cases "r = (None, True)")
      case True
      then have "c' = (cs ! j)\<lparr>ci_start_at := None, ci_permits := ci_max_concurrency (cs ! j)\<rparr>"
        "ci_start_at (cs ! j) \<noteq> None"
        using rule_at(3) by (auto simp: instance_admit_def try_acquire_def split: option.splits if_splits)
      then show ?thesis
        using ok rule_at okj True by (auto simp: permits_ok_def grant_def count_expiry_def nth_list_update)
    next
      case False
      then obtain c where c: "try_acquire j c = (r, c')" "ci_permits c = ci_permits (cs ! j)"
        "ci_max_concurrency c = ci_max_concurrency (cs ! j)" "ci_start_at c \<noteq> None"
        using rule_at(3) by (auto simp: instance_admit_def split: option.splits if_splits)
      have "ci_start_at c' \<noteq> None" "ci_max_concurrency c' = ci_max_concurrency (cs ! j)"
        "ci_permits c' + grant r (held g) j = ci_permits (cs ! j) + held g j"
        "\<And>i. i \<noteq> j \<Longrightarrow> grant r (held g) i = held g i"
        using try_acquire_effect[OF c(1)] c(2-4) by simp_all
      then show ?thesis
        using ok rule_at okj by (auto simp: permits_ok_def count_expiry_def nth_list_update)
    qed
  qed
qed

lemma permits_ok_release:
  assumes "permits_ok cs g" "0 < held g i" "add_permits i (Some cs) = Done (Some cs')"
  shows "permits_ok cs' (g\<lparr>held := (held g)(i := held g i - 1)\<rparr>)"
  using assms by (auto simp: permits_ok_def add_permits_def nth_list_update split: if_splits)

lemma cc_reachable_ok:
  assumes "cc_reachable rx cs0 cs g" "fresh_instances cs0"
  shows "permits_ok cs g"
  using assms
proof (induction rule: cc_reachable.induct)
  case cc_started
  then show ?case by (auto simp: permits_ok_def fresh_instances_def)
next
  case (cc_requested cs g now inp r cs')
  then show ?case using permits_ok_request by blast
next
  case (cc_released cs g i cs')
  then show ?case using permits_ok_release by blast
qed

lemma length_request: "concurrency_is_allow rx now (Some cs) inp = (r, Some cs') \<Longrightarrow> length cs' = length cs"
  by (auto simp: concurrency_is_allow_def split: prod.splits elim!: concurrency_loop_cases)

lemma max_request:
  assumes "concurrency_is_allow rx now (Some cs) inp = (r, Some cs')"
  shows "map ci_max_concurrency cs' = map ci_max_concurrency cs"
proof -
  have "concurrency_loop rx now inp 0 cs = (r, cs')"
    using assms by (auto simp: concurrency_is_allow_def split: prod.splits)
  then show ?thesis
  proof (cases rule: concurrency_loop_cases)
    case (rule_at j c')
    have "ci_max_concurrency c' = ci_max_concurrency (cs ! j)"
      using rule_at(3) by (auto simp: instance_admit_def try_acquire_def split: option.splits if_splits)
    then show ?thesis using rule_at by (simp add: map_update list_update_same_conv)
  qed simp
qed

lemma cc_reachable_max:
  "cc_reachable rx cs0 cs g \<Longrightarrow> map ci_max_concurrency cs = map ci_max_concurrency cs0"
proof (induction rule: cc_reachable.induct)
  case (cc_released cs g i cs')
  have "map ci_max_concurrency cs' = map ci_max_concurrency cs"
    using cc_released.hyps(3) by (auto simp: add_permits_def map_update split: if_splits) (metis list_update_id map_update)
  then show ?case using cc_released.IH by simp
qed (auto dest: max_request)

text \<open>
  The bound is reached: a rule for one command at a time, whose window expires while its command still runs,
  lets the next command pass without a permit and admits a second holder after it.
\<close>

definition one_at_a_time :: concurrency_instance where
  "one_at_a_time = \<lparr>ci_regex = [''.''], ci_max_concurrency = 1, ci_permits = 1, ci_duration = 5, ci_start_at = None\<rparr>"

definition any_regex :: plugin_regex where
  "any_regex = \<lparr>pr_compiles = (\<lambda>_ _. True), pr_matches = (\<lambda>_ _ _. True)\<rparr>"

lemmas one_at_a_time_simps =
  one_at_a_time_def any_regex_def concurrency_is_allow_def instance_admit_def try_acquire_def

lemma request_to:
  assumes "cc_reachable rx cs0 cs g" "concurrency_is_allow rx now (Some cs) inp = (r, Some cs')"
    and "g' = \<lparr>held = grant r (held g), expiries = count_expiry cs cs' (expiries g)\<rparr>"
  shows "cc_reachable rx cs0 cs' g'"
  using assms cc_reachable.cc_requested by blast

lemma expired_window_admits_second_holder:
  "\<exists>cs g. cc_reachable any_regex [one_at_a_time] cs g \<and> held g 0 = 2 \<and> ci_max_concurrency one_at_a_time = 1"
proof -
  let ?g = "\<lambda>h z. \<lparr>held = (\<lambda>_. 0)(0 := h), expiries = (\<lambda>_. 0)(0 := z)\<rparr>"
  let ?c = "\<lambda>p t. one_at_a_time\<lparr>ci_permits := p, ci_start_at := t\<rparr>"
  note eff = grant_def count_expiry_def fun_eq_iff
  have "cc_reachable any_regex [one_at_a_time] [one_at_a_time] (?g 0 0)"
    using cc_reachable.cc_started by (simp add: fun_upd_def)
  then have "cc_reachable any_regex [one_at_a_time] [?c 0 (Some 0)] (?g 1 0)"
    by (rule request_to[where now = "0" and inp = "[]" and r = "(Some 0, True)"]) (auto simp: one_at_a_time_simps eff)
  then have "cc_reachable any_regex [one_at_a_time] [?c 1 None] (?g 1 1)"
    by (rule request_to[where now = "10" and inp = "[]" and r = "(None, True)"]) (auto simp: one_at_a_time_simps eff)
  then have "cc_reachable any_regex [one_at_a_time] [?c 0 (Some 11)] (?g 2 1)"
    by (rule request_to[where now = "11" and inp = "[]" and r = "(Some 0, True)"]) (auto simp: one_at_a_time_simps eff)
  moreover have "held (?g 2 1) 0 = 2" "ci_max_concurrency one_at_a_time = 1" by (simp_all add: one_at_a_time_def)
  ultimately show ?thesis by blast
qed

end
