(* ===== verification/Conn_Pool.thy ===== *)
theory Conn_Pool
  imports Nexus_Prelude
begin

text \<open>
  The backend connection pool (\<open>proxy/pool/src/conn_pool.rs\<close>): per endpoint a bounded queue of idle
  connections and a generation counter, so that a refresh keeps connections that were handed out before
  it from coming back.

  The connection type is a type variable; what the pool needs of it (the traits \<open>ConnLike\<close>, \<open>ConnAttr\<close>,
  \<open>ConnAttrMut\<close>) is the record \<open>conn_ops\<close>.  Building a connection is numbered within one request, so that
  attempts may answer differently.  Waiting between attempts is left out.
\<close>

named_theorems pool_defs \<open>the operations of the pool\<close>

section \<open>Connections and queues\<close>

record ('c, 'e) conn_ops =
  build_conn :: "nat \<Rightarrow> 'c \<Rightarrow> 'e + 'c"
  conn_ping :: "'c \<Rightarrow> 'c \<times> bool"
  conn_endpoint :: "'c \<Rightarrow> str"
  conn_init :: "str list \<Rightarrow> 'c \<Rightarrow> 'c"

record 'c pool_inner =
  pi_queue :: "'c list"
  pi_capacity :: nat
  pi_generation :: nat

text \<open>\<open>ArrayQueue::new\<close> panics on a zero capacity.\<close>

definition pool_inner_new :: "nat \<Rightarrow> 'c pool_inner run" where
  "pool_inner_new sz = (if sz = 0 then Panic else Done \<lparr>pi_queue = [], pi_capacity = sz, pi_generation = 0\<rparr>)"

definition inner_get_conn :: "'c pool_inner \<Rightarrow> 'c option \<times> 'c pool_inner" where
  "inner_get_conn pq = (case pi_queue pq of [] \<Rightarrow> (None, pq) | c # q \<Rightarrow> (Some c, pq\<lparr>pi_queue := q\<rparr>))"

definition inner_put_conn :: "'c \<Rightarrow> 'c pool_inner \<Rightarrow> 'c pool_inner" where
  "inner_put_conn c pq = (if length (pi_queue pq) < pi_capacity pq then pq\<lparr>pi_queue := pi_queue pq @ [c]\<rparr> else pq)"

definition inner_refresh :: "'c pool_inner \<Rightarrow> nat \<times> 'c pool_inner" where
  "inner_refresh pq =
     (length (pi_queue pq), pq\<lparr>pi_queue := [], pi_generation := (pi_generation pq + 1) mod 2 ^ 64\<rparr>)"

section \<open>The pool\<close>

record 'c pool =
  pl_factory :: "(str \<times> 'c) list"
  pl_size :: nat
  pl_pool :: "(str \<times> 'c pool_inner) list"

record 'c pool_conn =
  pc_conn :: "'c option"
  pc_generation :: nat

definition pool_new :: "nat \<Rightarrow> 'c pool" where
  "pool_new sz = \<lparr>pl_factory = [], pl_size = sz, pl_pool = []\<rparr>"

definition set_factory :: "str \<Rightarrow> 'c \<Rightarrow> 'c pool \<Rightarrow> 'c pool" where
  "set_factory ep f p =
     (if map_of (pl_factory p) ep = None then p\<lparr>pl_factory := al_insert ep f (pl_factory p)\<rparr> else p)"

definition put_inner :: "str \<Rightarrow> 'c pool_inner \<Rightarrow> 'c pool \<Rightarrow> 'c pool" where
  "put_inner ep pq p = p\<lparr>pl_pool := al_insert ep pq (pl_pool p)\<rparr>"

definition ensure_pool_inner :: "str \<Rightarrow> 'c pool \<Rightarrow> (nat \<times> 'c pool) run" where
  "ensure_pool_inner ep p =
     (case map_of (pl_pool p) ep of
        Some pq \<Rightarrow> Done (pi_generation pq, p)
      | None \<Rightarrow> run_bind (pool_inner_new (pl_size p)) (\<lambda>pq. Done (pi_generation pq, put_inner ep pq p)))"

text \<open>\<open>self.factory.get(endpoint).as_ref().unwrap().build_conn()\<close>\<close>

definition factory_build :: "('c, 'e) conn_ops \<Rightarrow> nat \<Rightarrow> str \<Rightarrow> 'c pool \<Rightarrow> ('e + 'c) run" where
  "factory_build ops i ep p = (case map_of (pl_factory p) ep of None \<Rightarrow> Panic | Some f \<Rightarrow> Done (build_conn ops i f))"

text \<open>\<open>self.pool.get(endpoint)\<close> and \<open>get_conn\<close> of the queue found there.\<close>

definition pool_pop :: "str \<Rightarrow> 'c pool \<Rightarrow> 'c option \<times> 'c pool" where
  "pool_pop ep p =
     (case map_of (pl_pool p) ep of
        None \<Rightarrow> (None, p)
      | Some pq \<Rightarrow> (case inner_get_conn pq of (c, pq') \<Rightarrow> (c, put_inner ep pq' p)))"

text \<open>The retries, numbered \<open>i\<close>; \<open>tried\<close> attempts were made before.\<close>

function retry_build :: "('c, 'e) conn_ops \<Rightarrow> nat \<Rightarrow> nat \<Rightarrow> str \<Rightarrow> 'c pool \<Rightarrow> ('e + 'c) run" where
  "retry_build ops tried i ep p =
     (if 10 \<le> i then Panic
      else run_bind (factory_build ops (tried + i) ep p) (\<lambda>r.
             case r of
               Inr c \<Rightarrow> Done (Inr c)
             | Inl e \<Rightarrow> if i = 9 then Done (Inl e) else retry_build ops tried (Suc i) ep p))"
  by pat_completeness auto

termination by (relation "measure (\<lambda>(ops, tried, i, ep, p). 10 - i)") auto

declare retry_build.simps [simp del]

definition get_conn_with_generation ::
  "('c, 'e) conn_ops \<Rightarrow> str \<Rightarrow> 'c pool \<Rightarrow> (('e + 'c \<times> nat) \<times> 'c pool) run" where
  "get_conn_with_generation ops ep p0 =
     run_bind (ensure_pool_inner ep p0) (\<lambda>(g, p1).
       case pool_pop ep p1 of
         (None, p2) \<Rightarrow>
           run_bind (ensure_pool_inner ep p2) (\<lambda>(_, p3).
           run_bind (factory_build ops 0 ep p3) (\<lambda>r.
             case r of
               Inr c \<Rightarrow> Done (Inr (c, g), p3)
             | Inl _ \<Rightarrow> run_bind (retry_build ops 1 0 ep p3) (\<lambda>r. Done (map_sum id (\<lambda>c. (c, g)) r, p3))))
       | (Some c, p2) \<Rightarrow>
           (case conn_ping ops c of
              (c', True) \<Rightarrow> Done (Inr (c', g), p2)
            | (c', False) \<Rightarrow> run_bind (retry_build ops 0 0 ep p2) (\<lambda>r. Done (map_sum id (\<lambda>c. (c, g)) r, p2))))"

definition get_conn_with_endpoint ::
  "('c, 'e) conn_ops \<Rightarrow> str \<Rightarrow> 'c pool \<Rightarrow> (('e + 'c) \<times> 'c pool) run" where
  "get_conn_with_endpoint ops ep p =
     run_bind (get_conn_with_generation ops ep p) (\<lambda>(r, p'). Done (map_sum id fst r, p'))"

definition get_conn_with_endpoint_session ::
  "('c, 'e) conn_ops \<Rightarrow> str \<Rightarrow> str list \<Rightarrow> 'c pool \<Rightarrow> (('e + 'c pool_conn) \<times> 'c pool) run" where
  "get_conn_with_endpoint_session ops ep attrs p =
     run_bind (get_conn_with_generation ops ep p) (\<lambda>(r, p').
       Done (map_sum id (\<lambda>(c, g). \<lparr>pc_conn = Some (conn_init ops attrs c), pc_generation = g\<rparr>) r, p'))"

definition rebuild_conn :: "('c, 'e) conn_ops \<Rightarrow> str \<Rightarrow> 'c pool \<Rightarrow> (('e + 'c pool_conn) \<times> 'c pool) run" where
  "rebuild_conn ops ep p =
     run_bind (ensure_pool_inner ep p) (\<lambda>(g, p').
     run_bind (factory_build ops 0 ep p') (\<lambda>r.
       Done (map_sum id (\<lambda>c. \<lparr>pc_conn = Some c, pc_generation = g\<rparr>) r, p')))"

definition rebuild_conn_with_session ::
  "('c, 'e) conn_ops \<Rightarrow> str \<Rightarrow> str list \<Rightarrow> 'c pool \<Rightarrow> (('e + 'c pool_conn) \<times> 'c pool) run" where
  "rebuild_conn_with_session ops ep attrs p =
     run_bind (rebuild_conn ops ep p) (\<lambda>(r, p').
       Done (map_sum id (\<lambda>pc. pc\<lparr>pc_conn := map_option (conn_init ops attrs) (pc_conn pc)\<rparr>) r, p'))"

definition pool_len :: "str \<Rightarrow> 'c pool \<Rightarrow> nat" where
  "pool_len ep p = (case map_of (pl_pool p) ep of Some pq \<Rightarrow> length (pi_queue pq) | None \<Rightarrow> 0)"

definition refresh_endpoint :: "str \<Rightarrow> 'c pool \<Rightarrow> nat \<times> 'c pool" where
  "refresh_endpoint ep p =
     (case map_of (pl_pool p) ep of
        Some pq \<Rightarrow> (case inner_refresh pq of (n, pq') \<Rightarrow> (n, put_inner ep pq' p))
      | None \<Rightarrow> (0, p))"

text \<open>Dropping the guard: the connection goes back to the queue of its own endpoint.\<close>

definition drop_pool_conn :: "('c, 'e) conn_ops \<Rightarrow> 'c pool_conn \<Rightarrow> 'c pool \<Rightarrow> 'c pool" where
  "drop_pool_conn ops pc p =
     (case pc_conn pc of
        None \<Rightarrow> p
      | Some c \<Rightarrow>
          (case map_of (pl_pool p) (conn_endpoint ops c) of
             Some pq \<Rightarrow>
               if pi_generation pq = pc_generation pc then put_inner (conn_endpoint ops c) (inner_put_conn c pq) p else p
           | None \<Rightarrow> p))"

lemmas [pool_defs] = inner_get_conn_def inner_put_conn_def inner_refresh_def put_inner_def pool_pop_def
  refresh_endpoint_def drop_pool_conn_def

section \<open>Retries\<close>

lemma retry_build_returns:
  assumes "map_of (pl_factory p) ep = Some f" "i < 10"
  shows "retry_build ops tried i ep p =
    Done (case find (\<lambda>j. \<not> isl (build_conn ops (tried + j) f)) [i..<9] of
            Some j \<Rightarrow> build_conn ops (tried + j) f
          | None \<Rightarrow> build_conn ops (tried + 9) f)"
  using assms
proof (induction "9 - i" arbitrary: i)
  case 0
  then have "i = 9" by simp
  then show ?case using 0 by (subst retry_build.simps) (auto simp: factory_build_def split: sum.splits)
next
  case (Suc n)
  then have "[i..<9] = i # [Suc i..<9]" by (simp add: upt_conv_Cons)
  then show ?case using Suc
    by (subst retry_build.simps) (auto simp: factory_build_def isl_def split: sum.splits)
qed

section \<open>Interleaved sessions\<close>

text \<open>
  A session reads the generation, then takes an idle connection or builds one, and holds it until it is
  dropped; other sessions and refreshes run in between.  \<open>ident\<close> names connections and is kept by
  \<open>conn_ping\<close> and \<open>conn_init\<close>.  The ghost \<open>sy_seen\<close> holds the connections built so far and \<open>sy_old ep\<close>
  those built before the last refresh of \<open>ep\<close>.
\<close>

datatype 'c session = NoConn | Wanting str nat | Holding str "'c pool_conn"

record ('c, 'i) pool_sys =
  sy_pool :: "'c pool"
  sy_session :: "nat \<Rightarrow> 'c session"
  sy_seen :: "'i set"
  sy_old :: "str \<Rightarrow> 'i set"

definition conn_ok :: "('c, 'e) conn_ops \<Rightarrow> ('c \<Rightarrow> 'i) \<Rightarrow> bool" where
  "conn_ok ops ident \<longleftrightarrow>
     (\<forall>i f c. build_conn ops i f = Inr c \<longrightarrow> conn_endpoint ops c = conn_endpoint ops f) \<and>
     (\<forall>c. ident (fst (conn_ping ops c)) = ident c \<and> conn_endpoint ops (fst (conn_ping ops c)) = conn_endpoint ops c) \<and>
     (\<forall>as c. ident (conn_init ops as c) = ident c \<and> conn_endpoint ops (conn_init ops as c) = conn_endpoint ops c)"

definition hold :: "nat \<Rightarrow> str \<Rightarrow> 'c \<Rightarrow> nat \<Rightarrow> ('c, 'i) pool_sys \<Rightarrow> ('c, 'i) pool_sys" where
  "hold s ep c g y = y\<lparr>sy_session := (sy_session y)(s := Holding ep \<lparr>pc_conn = Some c, pc_generation = g\<rparr>)\<rparr>"

inductive pool_step ::
  "('c, 'e) conn_ops \<Rightarrow> ('c \<Rightarrow> 'i) \<Rightarrow> ('c, 'i) pool_sys \<Rightarrow> ('c, 'i) pool_sys \<Rightarrow> bool" for ops ident where
  pool_add_factory: "conn_endpoint ops f = ep \<Longrightarrow> pool_step ops ident y (y\<lparr>sy_pool := set_factory ep f (sy_pool y)\<rparr>)"
| pool_want: "\<lbrakk>sy_session y s = NoConn; ensure_pool_inner ep (sy_pool y) = Done (g, p)\<rbrakk>
    \<Longrightarrow> pool_step ops ident y (y\<lparr>sy_pool := p, sy_session := (sy_session y)(s := Wanting ep g)\<rparr>)"
| pool_take_idle: "\<lbrakk>sy_session y s = Wanting ep g; pool_pop ep (sy_pool y) = (Some c, p); conn_ping ops c = (c', True)\<rbrakk>
    \<Longrightarrow> pool_step ops ident y (hold s ep (conn_init ops as c') g (y\<lparr>sy_pool := p\<rparr>))"
| pool_discard_idle: "\<lbrakk>sy_session y s = Wanting ep g; pool_pop ep (sy_pool y) = (r, p)\<rbrakk>
    \<Longrightarrow> pool_step ops ident y (y\<lparr>sy_pool := p\<rparr>)"
| pool_build: "\<lbrakk>sy_session y s = Wanting ep g; factory_build ops i ep (sy_pool y) = Done (Inr c); ident c \<notin> sy_seen y\<rbrakk>
    \<Longrightarrow> pool_step ops ident y (hold s ep (conn_init ops as c) g (y\<lparr>sy_seen := insert (ident c) (sy_seen y)\<rparr>))"
| pool_drop_conn: "sy_session y s = Holding ep pc
    \<Longrightarrow> pool_step ops ident y (y\<lparr>sy_pool := drop_pool_conn ops pc (sy_pool y), sy_session := (sy_session y)(s := NoConn)\<rparr>)"
| pool_refresh: "\<lbrakk>map_of (pl_pool (sy_pool y)) ep = Some pq; pi_generation pq < u64_max\<rbrakk>
    \<Longrightarrow> pool_step ops ident y (y\<lparr>sy_pool := snd (refresh_endpoint ep (sy_pool y)), sy_old := (sy_old y)(ep := sy_seen y)\<rparr>)"

lemma pool_step_to: "pool_step ops ident y z \<Longrightarrow> z = y' \<Longrightarrow> pool_step ops ident y y'"
  by simp

definition generation_of :: "str \<Rightarrow> 'c pool \<Rightarrow> nat" where
  "generation_of ep p = (case map_of (pl_pool p) ep of Some pq \<Rightarrow> pi_generation pq | None \<Rightarrow> 0)"

fun session_ok :: "('c, 'e) conn_ops \<Rightarrow> ('c \<Rightarrow> 'i) \<Rightarrow> ('c, 'i) pool_sys \<Rightarrow> 'c session \<Rightarrow> bool" where
  "session_ok ops ident y NoConn = True"
| "session_ok ops ident y (Wanting ep g) \<longleftrightarrow> map_of (pl_pool (sy_pool y)) ep \<noteq> None \<and> g \<le> generation_of ep (sy_pool y)"
| "session_ok ops ident y (Holding ep pc) \<longleftrightarrow>
     map_of (pl_pool (sy_pool y)) ep \<noteq> None \<and> pc_generation pc \<le> generation_of ep (sy_pool y) \<and>
     (\<exists>c. pc_conn pc = Some c \<and> conn_endpoint ops c = ep \<and> ident c \<in> sy_seen y \<and>
       (pc_generation pc = generation_of ep (sy_pool y) \<longrightarrow> ident c \<notin> sy_old y ep))"

definition queue_ok :: "('c, 'e) conn_ops \<Rightarrow> ('c \<Rightarrow> 'i) \<Rightarrow> ('c, 'i) pool_sys \<Rightarrow> str \<Rightarrow> 'c pool_inner \<Rightarrow> bool" where
  "queue_ok ops ident y ep pq \<longleftrightarrow>
     pi_capacity pq = pl_size (sy_pool y) \<and> length (pi_queue pq) \<le> pl_size (sy_pool y) \<and>
     (\<forall>c \<in> set (pi_queue pq). conn_endpoint ops c = ep \<and> ident c \<in> sy_seen y \<and> ident c \<notin> sy_old y ep)"

definition pool_ok :: "('c, 'e) conn_ops \<Rightarrow> ('c \<Rightarrow> 'i) \<Rightarrow> ('c, 'i) pool_sys \<Rightarrow> bool" where
  "pool_ok ops ident y \<longleftrightarrow>
     (\<forall>ep f. map_of (pl_factory (sy_pool y)) ep = Some f \<longrightarrow> conn_endpoint ops f = ep) \<and>
     (\<forall>ep. sy_old y ep \<subseteq> sy_seen y) \<and>
     (\<forall>ep pq. map_of (pl_pool (sy_pool y)) ep = Some pq \<longrightarrow> queue_ok ops ident y ep pq) \<and>
     (\<forall>s. session_ok ops ident y (sy_session y s))"

definition sys_new :: "nat \<Rightarrow> ('c, 'i) pool_sys" where
  "sys_new sz = \<lparr>sy_pool = pool_new sz, sy_session = (\<lambda>_. NoConn), sy_seen = {}, sy_old = (\<lambda>_. {})\<rparr>"

lemma pool_ok_new: "pool_ok ops ident (sys_new sz)"
  by (simp add: pool_ok_def sys_new_def pool_new_def)

text \<open>Sessions only look at which endpoints have a queue, at their generations and at the ghosts.\<close>

lemma session_ok_cong:
  assumes "session_ok ops ident y x"
    and "\<And>ep. map_of (pl_pool (sy_pool y)) ep \<noteq> None \<Longrightarrow> map_of (pl_pool (sy_pool y')) ep \<noteq> None"
    and "\<And>ep. map_of (pl_pool (sy_pool y)) ep \<noteq> None \<Longrightarrow> generation_of ep (sy_pool y') = generation_of ep (sy_pool y)"
    and "sy_seen y \<subseteq> sy_seen y'" "sy_old y' = sy_old y"
  shows "session_ok ops ident y' x"
  using assms by (cases x) auto

lemma queue_ok_cong:
  assumes "queue_ok ops ident y ep pq" "pl_size (sy_pool y') = pl_size (sy_pool y)"
    and "sy_seen y \<subseteq> sy_seen y'" "sy_old y' = sy_old y"
  shows "queue_ok ops ident y' ep pq"
  using assms by (auto simp: queue_ok_def)

lemma pool_pop_effect:
  assumes "pool_pop ep p = (r, p')"
  shows "pl_factory p' = pl_factory p" "pl_size p' = pl_size p" "generation_of e p' = generation_of e p"
    "map_of (pl_pool p') e \<noteq> None \<longleftrightarrow> map_of (pl_pool p) e \<noteq> None"
    "r = Some c \<Longrightarrow> \<exists>pq. map_of (pl_pool p) ep = Some pq \<and> c \<in> set (pi_queue pq)"
    "map_of (pl_pool p') e = Some pq' \<Longrightarrow> \<exists>pq. map_of (pl_pool p) e = Some pq \<and> pi_capacity pq' = pi_capacity pq \<and>
       set (pi_queue pq') \<subseteq> set (pi_queue pq) \<and> length (pi_queue pq') \<le> length (pi_queue pq)"
  using assms by (auto simp: pool_defs generation_of_def split: option.splits list.splits if_splits)

lemma ensure_effect:
  assumes "ensure_pool_inner ep p = Done (g, p')"
  shows "pl_factory p' = pl_factory p" "pl_size p' = pl_size p" "map_of (pl_pool p') ep \<noteq> None" "g = generation_of ep p'"
    "map_of (pl_pool p) e \<noteq> None \<Longrightarrow> map_of (pl_pool p') e = map_of (pl_pool p) e"
    "map_of (pl_pool p') e = Some pq \<Longrightarrow> map_of (pl_pool p) e = Some pq \<or> pi_queue pq = [] \<and> pi_capacity pq = pl_size p"
  using assms
  by (auto simp: ensure_pool_inner_def pool_inner_new_def put_inner_def generation_of_def split: option.splits if_splits)

lemma pool_ok_want:
  assumes "pool_ok ops ident y" "ensure_pool_inner ep (sy_pool y) = Done (g, p)"
  shows "pool_ok ops ident (y\<lparr>sy_pool := p, sy_session := (sy_session y)(s := Wanting ep g)\<rparr>)"
proof -
  note eff = ensure_effect[OF assms(2)]
  let ?y = "y\<lparr>sy_pool := p, sy_session := (sy_session y)(s := Wanting ep g)\<rparr>"
  have "session_ok ops ident ?y (sy_session y t)" for t
    by (rule session_ok_cong[of ops ident y]) (use assms(1) eff(5) in \<open>auto simp: pool_ok_def generation_of_def\<close>)
  moreover have "queue_ok ops ident ?y e pq" if "map_of (pl_pool p) e = Some pq" for e pq
    using eff(6)[OF that] assms(1) eff(2) by (auto simp: pool_ok_def queue_ok_def)
  ultimately show ?thesis using assms(1) eff(1,3,4) by (auto simp: pool_ok_def)
qed

lemma pool_ok_pop:
  assumes "pool_ok ops ident y" "pool_pop ep (sy_pool y) = (r, p)"
  shows "pool_ok ops ident (y\<lparr>sy_pool := p\<rparr>)"
proof -
  note eff = pool_pop_effect[OF assms(2)]
  have "session_ok ops ident (y\<lparr>sy_pool := p\<rparr>) (sy_session y t)" for t
    by (rule session_ok_cong[of ops ident y]) (use assms(1) eff(3,4) in \<open>auto simp: pool_ok_def\<close>)
  moreover have "queue_ok ops ident (y\<lparr>sy_pool := p\<rparr>) e pq" if "map_of (pl_pool p) e = Some pq" for e pq
    using eff(6)[OF that] assms(1) eff(2) unfolding pool_ok_def queue_ok_def by fastforce
  ultimately show ?thesis using assms(1) eff(1) by (auto simp: pool_ok_def)
qed

lemma pool_ok_hold:
  assumes "pool_ok ops ident y" "session_ok ops ident y (Holding ep \<lparr>pc_conn = Some c, pc_generation = g\<rparr>)"
  shows "pool_ok ops ident (hold s ep c g y)"
proof -
  have "session_ok ops ident (hold s ep c g y) x \<longleftrightarrow> session_ok ops ident y x" for x
    by (cases x) (auto simp: hold_def)
  moreover have "queue_ok ops ident (hold s ep c g y) e pq \<longleftrightarrow> queue_ok ops ident y e pq" for e pq
    by (simp add: hold_def queue_ok_def)
  ultimately show ?thesis using assms by (auto simp: pool_ok_def) (auto simp: hold_def)
qed

lemma pool_ok_take:
  assumes "pool_ok ops ident y" "conn_ok ops ident" "sy_session y s = Wanting ep g"
    and "pool_pop ep (sy_pool y) = (Some c, p)" "conn_ping ops c = (c', True)"
  shows "pool_ok ops ident (hold s ep (conn_init ops as c') g (y\<lparr>sy_pool := p\<rparr>))"
proof (rule pool_ok_hold)
  note eff = pool_pop_effect[OF assms(4)]
  show "pool_ok ops ident (y\<lparr>sy_pool := p\<rparr>)" using assms(1,4) by (rule pool_ok_pop)
  obtain pq where pq: "map_of (pl_pool (sy_pool y)) ep = Some pq" "c \<in> set (pi_queue pq)" using eff(5) by blast
  then have "conn_endpoint ops c = ep" "ident c \<in> sy_seen y" "ident c \<notin> sy_old y ep"
    using assms(1) by (auto simp: pool_ok_def queue_ok_def)
  moreover have "ident (conn_init ops as c') = ident c" "conn_endpoint ops (conn_init ops as c') = conn_endpoint ops c"
    using assms(2,5) unfolding conn_ok_def by (metis fst_conv)+
  moreover have "session_ok ops ident y (Wanting ep g)" using assms(1,3) unfolding pool_ok_def by metis
  ultimately show "session_ok ops ident (y\<lparr>sy_pool := p\<rparr>) (Holding ep \<lparr>pc_conn = Some (conn_init ops as c'), pc_generation = g\<rparr>)"
    using eff(3,4) by auto
qed

lemma pool_ok_build:
  assumes "pool_ok ops ident y" "conn_ok ops ident" "sy_session y s = Wanting ep g"
    and "factory_build ops i ep (sy_pool y) = Done (Inr c)" "ident c \<notin> sy_seen y"
  shows "pool_ok ops ident (hold s ep (conn_init ops as c) g (y\<lparr>sy_seen := insert (ident c) (sy_seen y)\<rparr>))"
proof (rule pool_ok_hold)
  let ?y = "y\<lparr>sy_seen := insert (ident c) (sy_seen y)\<rparr>"
  have "session_ok ops ident ?y (sy_session y t)" for t
    by (rule session_ok_cong[of ops ident y]) (use assms(1) in \<open>auto simp: pool_ok_def\<close>)
  moreover have "queue_ok ops ident ?y e pq" if "map_of (pl_pool (sy_pool y)) e = Some pq" for e pq
    by (rule queue_ok_cong[of ops ident y]) (use assms(1) that in \<open>auto simp: pool_ok_def\<close>)
  ultimately show "pool_ok ops ident ?y" using assms(1) by (auto simp: pool_ok_def)
  obtain f where "map_of (pl_factory (sy_pool y)) ep = Some f" "build_conn ops i f = Inr c"
    using assms(4) by (auto simp: factory_build_def split: option.splits)
  then have "conn_endpoint ops c = ep" using assms(1,2) unfolding pool_ok_def conn_ok_def by metis
  moreover have "session_ok ops ident y (Wanting ep g)" using assms(1,3) unfolding pool_ok_def by metis
  moreover have "ident c \<notin> sy_old y ep" using assms(1,5) by (auto simp: pool_ok_def)
  ultimately show "session_ok ops ident ?y (Holding ep \<lparr>pc_conn = Some (conn_init ops as c), pc_generation = g\<rparr>)"
    using assms(2) by (auto simp: conn_ok_def)
qed

lemma drop_effect:
  "pl_factory (drop_pool_conn ops pc p) = pl_factory p" "pl_size (drop_pool_conn ops pc p) = pl_size p"
  "generation_of e (drop_pool_conn ops pc p) = generation_of e p"
  "map_of (pl_pool (drop_pool_conn ops pc p)) e = None \<longleftrightarrow> map_of (pl_pool p) e = None"
  by (auto simp: pool_defs generation_of_def split: option.splits)

lemma drop_queue:
  assumes "map_of (pl_pool (drop_pool_conn ops pc p)) e = Some pq'"
  obtains "map_of (pl_pool p) e = Some pq'"
  | pq c where "pc_conn pc = Some c" "conn_endpoint ops c = e" "map_of (pl_pool p) e = Some pq"
      "pc_generation pc = pi_generation pq" "pq' = inner_put_conn c pq"
  using assms by (auto simp: drop_pool_conn_def put_inner_def split: option.splits if_splits)

lemma pool_ok_drop:
  assumes ok: "pool_ok ops ident y" and s: "sy_session y s = Holding ep pc"
  shows "pool_ok ops ident (y\<lparr>sy_pool := drop_pool_conn ops pc (sy_pool y), sy_session := (sy_session y)(s := NoConn)\<rparr>)"
    (is "pool_ok ops ident ?y")
proof -
  have "session_ok ops ident ?y (sy_session y t)" for t
    by (rule session_ok_cong[of ops ident y]) (use ok in \<open>simp_all add: pool_ok_def drop_effect del: not_None_eq\<close>)
  moreover have "queue_ok ops ident ?y e pq'"
    if "map_of (pl_pool (drop_pool_conn ops pc (sy_pool y))) e = Some pq'" for e pq'
    using that
  proof (cases rule: drop_queue)
    case 1
    then show ?thesis using ok by (auto simp: pool_ok_def queue_ok_def drop_effect)
  next
    case (2 pq c)
    have "session_ok ops ident y (Holding ep pc)" using ok s unfolding pool_ok_def by metis
    then have "ident c \<in> sy_seen y" "ident c \<notin> sy_old y e" using 2 by (auto simp: generation_of_def)
    then show ?thesis using ok 2 by (auto simp: pool_ok_def queue_ok_def drop_effect inner_put_conn_def)
  qed
  ultimately show ?thesis using ok by (auto simp: pool_ok_def drop_effect)
qed

lemma pool_ok_refresh:
  assumes ok: "pool_ok ops ident y" and pq: "map_of (pl_pool (sy_pool y)) ep = Some pq" "pi_generation pq < u64_max"
  shows "pool_ok ops ident (y\<lparr>sy_pool := snd (refresh_endpoint ep (sy_pool y)), sy_old := (sy_old y)(ep := sy_seen y)\<rparr>)"
    (is "pool_ok ops ident ?y")
proof -
  let ?p' = "put_inner ep (pq\<lparr>pi_queue := [], pi_generation := Suc (pi_generation pq)\<rparr>) (sy_pool y)"
  have r: "snd (refresh_endpoint ep (sy_pool y)) = ?p'" using pq by (simp add: pool_defs u64_max_def)
  have gen: "generation_of e ?p' = (if e = ep then Suc (generation_of e (sy_pool y)) else generation_of e (sy_pool y))" for e
    using pq(1) by (simp add: generation_of_def put_inner_def)
  have "session_ok ops ident ?y x" if "session_ok ops ident y x" for x
    using that by (cases x) (auto simp: r gen, auto simp: put_inner_def)
  moreover have "queue_ok ops ident ?y e q" if "map_of (pl_pool ?p') e = Some q" for e q
    using that ok pq(1) by (auto simp: r pool_ok_def queue_ok_def put_inner_def split: if_splits)
  ultimately show ?thesis using ok by (auto simp: pool_ok_def r) (auto simp: put_inner_def)
qed

lemma pool_step_ok:
  assumes "pool_step ops ident y y'" "conn_ok ops ident" "pool_ok ops ident y"
  shows "pool_ok ops ident y'"
  using assms
proof (cases rule: pool_step.cases)
  case (pool_add_factory f ep)
  have "session_ok ops ident y' x \<longleftrightarrow> session_ok ops ident y x" "queue_ok ops ident y' e q \<longleftrightarrow> queue_ok ops ident y e q" for x e q
    using pool_add_factory(1) by (cases x; simp add: set_factory_def generation_of_def queue_ok_def)+
  then show ?thesis using pool_add_factory assms(3) by (auto simp: pool_ok_def set_factory_def)
qed (use assms(3) in \<open>simp_all add: pool_ok_want pool_ok_pop pool_ok_take pool_ok_build pool_ok_drop pool_ok_refresh\<close>)

lemma reachable_pool_ok:
  assumes "conn_ok ops ident" "(pool_step ops ident)\<^sup>*\<^sup>* (sys_new sz) y"
  shows "pool_ok ops ident y"
  using assms(2) by (induction rule: rtranclp_induct) (auto intro: pool_ok_new pool_step_ok assms(1))

section \<open>A whole request as steps\<close>

lemma retry_build_Inr:
  "retry_build ops tried i ep p = Done (Inr c) \<Longrightarrow> \<exists>j. factory_build ops j ep p = Done (Inr c)"
proof (induction ops tried i ep p rule: retry_build.induct)
  case (1 ops tried i ep p)
  from "1.prems" have "i < 10" by (subst (asm) retry_build.simps) (simp split: if_splits)
  from "1.prems" obtain r where r: "factory_build ops (tried + i) ep p = Done r"
    by (subst (asm) retry_build.simps) (auto split: if_splits)
  show ?case
  proof (cases r)
    case (Inr d)
    then have "d = c" using "1.prems" r \<open>i < 10\<close> by (subst (asm) retry_build.simps) simp
    then show ?thesis using r Inr by blast
  next
    case (Inl e)
    then have "i \<noteq> 9" "retry_build ops tried (Suc i) ep p = Done (Inr c)"
      using "1.prems" r \<open>i < 10\<close> by (subst (asm) retry_build.simps, simp split: if_splits)+
    then show ?thesis using "1.IH" r Inl \<open>i < 10\<close> by auto
  qed
qed

lemma map_sum_eq_Inr: "map_sum f g x = Inr b \<longleftrightarrow> (\<exists>a. x = Inr a \<and> g a = b)"
  by (cases x) auto

lemma ensure_present: "map_of (pl_pool p) ep \<noteq> None \<Longrightarrow> ensure_pool_inner ep p = Done (generation_of ep p, p)"
  by (auto simp: ensure_pool_inner_def generation_of_def)

text \<open>Where the connection of a successful request comes from.\<close>

lemma get_conn_sources:
  assumes "get_conn_with_generation ops ep p0 = Done (Inr (c, g), p)"
  obtains (idle) p1 c0 where "ensure_pool_inner ep p0 = Done (g, p1)" "pool_pop ep p1 = (Some c0, p)" "conn_ping ops c0 = (c, True)"
  | (built) p1 r i where "ensure_pool_inner ep p0 = Done (g, p1)" "pool_pop ep p1 = (r, p)" "factory_build ops i ep p = Done (Inr c)"
proof -
  obtain g' p1 where p1: "ensure_pool_inner ep p0 = Done (g', p1)"
    using assms by (auto simp: get_conn_with_generation_def)
  obtain r p2 where p2: "pool_pop ep p1 = (r, p2)" by fastforce
  have present: "map_of (pl_pool p2) ep \<noteq> None" using ensure_effect(3)[OF p1] pool_pop_effect(4)[OF p2] by blast
  have retried: thesis if "retry_build ops n 0 ep p2 = Done (Inr c)" "g' = g" "p2 = p" for n
    using that built[OF _ p2[unfolded that(3)]] p1 retry_build_Inr[OF that(1)] by blast
  show thesis
  proof (cases r)
    case None
    obtain q where q: "factory_build ops 0 ep p2 = Done q"
      using assms p1 p2 None ensure_present[OF present] by (auto simp: get_conn_with_generation_def)
    show thesis
    proof (cases q)
      case (Inr d)
      then have "d = c" "g' = g" "p2 = p"
        using assms p1 p2 None ensure_present[OF present] q by (auto simp: get_conn_with_generation_def)
      then show thesis using built p1 p2 q Inr by blast
    next
      case (Inl e)
      then show thesis using assms p1 p2 None ensure_present[OF present] q
        by (intro retried[of 1]) (auto simp: get_conn_with_generation_def map_sum_eq_Inr)
    qed
  next
    case (Some c0)
    obtain c' b where ping: "conn_ping ops c0 = (c', b)" by fastforce
    show thesis
    proof (cases b)
      case True
      then have "c' = c" "g' = g" "p2 = p"
        using assms p1 p2 Some ping by (auto simp: get_conn_with_generation_def)
      then show thesis using idle[of p1 c0] p1 p2 Some ping True by simp
    next
      case False
      then show thesis using assms p1 p2 Some ping
        by (intro retried[of 0]) (auto simp: get_conn_with_generation_def map_sum_eq_Inr)
    qed
  qed
qed

lemma get_conn_simulated:
  assumes s: "sy_session y s = NoConn"
    and get: "get_conn_with_endpoint_session ops ep as (sy_pool y) = Done (Inr pc, p)"
    and fresh: "\<And>i f c. map_of (pl_factory (sy_pool y)) ep = Some f \<Longrightarrow> build_conn ops i f = Inr c \<Longrightarrow> ident c \<notin> sy_seen y"
  shows "\<exists>y'. (pool_step ops ident)\<^sup>*\<^sup>* y y' \<and> sy_pool y' = p \<and> sy_session y' s = Holding ep pc"
proof -
  obtain c g where cg: "get_conn_with_generation ops ep (sy_pool y) = Done (Inr (c, g), p)"
    and pc: "pc = \<lparr>pc_conn = Some (conn_init ops as c), pc_generation = g\<rparr>"
    using get by (auto simp: get_conn_with_endpoint_session_def map_sum_eq_Inr)
  let ?y1 = "\<lambda>p1. y\<lparr>sy_pool := p1, sy_session := (sy_session y)(s := Wanting ep g)\<rparr>"
  from cg show ?thesis
  proof (cases rule: get_conn_sources)
    case (idle p1 c0)
    have st1: "pool_step ops ident y (?y1 p1)" using s idle(1) by (rule pool_step.pool_want)
    have "pool_step ops ident (?y1 p1) (hold s ep (conn_init ops as c) g ((?y1 p1)\<lparr>sy_pool := p\<rparr>))"
      using idle by (intro pool_step.pool_take_idle) auto
    with st1 have "(pool_step ops ident)\<^sup>*\<^sup>* y (hold s ep (conn_init ops as c) g ((?y1 p1)\<lparr>sy_pool := p\<rparr>))" by simp
    then show ?thesis by (intro exI conjI) (assumption, simp_all add: hold_def pc)
  next
    case (built p1 r i)
    have st1: "pool_step ops ident y (?y1 p1)" using s built(1) by (rule pool_step.pool_want)
    have st2: "pool_step ops ident (?y1 p1) (?y1 p)"
    proof -
      have "(?y1 p1)\<lparr>sy_pool := p\<rparr> = ?y1 p" by (cases y) simp
      moreover have "pool_step ops ident (?y1 p1) ((?y1 p1)\<lparr>sy_pool := p\<rparr>)"
        using built(2) by (intro pool_step.pool_discard_idle) auto
      ultimately show ?thesis by (simp only:)
    qed
    obtain f where "map_of (pl_factory p) ep = Some f" "build_conn ops i f = Inr c"
      using built(3) by (auto simp: factory_build_def split: option.splits)
    moreover have "pl_factory p = pl_factory (sy_pool y)"
      using ensure_effect(1)[OF built(1)] pool_pop_effect(1)[OF built(2)] by simp
    ultimately have "ident c \<notin> sy_seen (?y1 p)" using fresh by simp
    then have st3: "pool_step ops ident (?y1 p) (hold s ep (conn_init ops as c) g ((?y1 p)\<lparr>sy_seen := insert (ident c) (sy_seen (?y1 p))\<rparr>))"
      using built(3) by (intro pool_step.pool_build) auto
    with st1 st2 have "(pool_step ops ident)\<^sup>*\<^sup>* y
        (hold s ep (conn_init ops as c) g ((?y1 p)\<lparr>sy_seen := insert (ident c) (sy_seen (?y1 p))\<rparr>))"
      by (meson converse_rtranclp_into_rtranclp rtranclp.rtrancl_refl)
    then show ?thesis by (intro exI conjI) (assumption, simp_all add: hold_def pc)
  qed
qed

end
