(* ===== verification/State_Crypto.thy ===== *)
theory State_Crypto
  imports State_File
begin

text \<open>
  The envelope around encrypted state files (\<open>gateway/core/src/state_crypto.rs\<close>): the key in the
  configuration, the nonce, the text format and its decoding.

  AES-256-GCM and Base64 come from other crates: they are the fields of \<open>cipher\<close>, and \<open>cipher_ok\<close> states
  what their documentation promises.
\<close>

unbundle bit_operations_syntax

section \<open>The envelope\<close>

record cipher =
  seal :: "str \<Rightarrow> str \<Rightarrow> str \<Rightarrow> str + str"
  unseal :: "str \<Rightarrow> str \<Rightarrow> str \<Rightarrow> str + str"
  b64_encode :: "str \<Rightarrow> str"
  b64_decode :: "str \<Rightarrow> str + str"

definition key_hex_digit :: "char \<Rightarrow> nat option" where
  "key_hex_digit c =
     (if is_ascii_digit c then Some (byte c - 48)
      else if 97 \<le> byte c \<and> byte c \<le> 102 then Some (byte c - 87)
      else if 65 \<le> byte c \<and> byte c \<le> 70 then Some (byte c - 55)
      else None)"

fun hex_bytes :: "str \<Rightarrow> str" where
  "hex_bytes (a # b # s) = char_of (the (key_hex_digit a) * 16 + the (key_hex_digit b)) # hex_bytes s"
| "hex_bytes _ = []"

definition parse_encrypt_key :: "str \<Rightarrow> str + str option" where
  "parse_encrypt_key hex0 =
     (let hex = trim hex0
      in if hex = [] then Inr None
         else if length hex \<noteq> 64 \<or> \<not> list_all (\<lambda>c. key_hex_digit c \<noteq> None) hex
         then Inl ''encrypt key must be empty or 64 hex characters (32-byte AES key)''
         else Inr (Some (hex_bytes hex)))"

definition simple_nonce :: "nat \<Rightarrow> nat" where
  "simple_nonce seed = unat ((of_nat seed * 0x9e3779b97f4a7c15) XOR 0xdeadbeef :: 64 word)"

definition le_bytes :: "nat \<Rightarrow> nat \<Rightarrow> str" where
  "le_bytes k n = map (\<lambda>i. char_of (n div 256 ^ i)) [0..<k]"

text \<open>The clock is read twice, for the two parts of the nonce.\<close>

definition nonce_bytes :: "nat \<Rightarrow> nat \<Rightarrow> str" where
  "nonce_bytes now now' = le_bytes 8 now @ take 4 (le_bytes 8 (simple_nonce now'))"

definition encrypt_blob :: "cipher \<Rightarrow> nat \<Rightarrow> nat \<Rightarrow> str \<Rightarrow> str \<Rightarrow> str \<Rightarrow> str + str" where
  "encrypt_blob C now now' magic key msg =
     (let nonce = nonce_bytes now now'
      in case seal C key nonce msg of
           Inl e \<Rightarrow> Inl (''state encrypt: '' @ e)
         | Inr ct \<Rightarrow> Inr (magic @ b64_encode C nonce @ '':'' @ b64_encode C ct))"

definition split_once :: "char \<Rightarrow> str \<Rightarrow> (str \<times> str) option" where
  "split_once c s =
     (case dropWhile (\<lambda>x. x \<noteq> c) s of [] \<Rightarrow> None | _ # r \<Rightarrow> Some (takeWhile (\<lambda>x. x \<noteq> c) s, r))"

definition decrypt_blob :: "cipher \<Rightarrow> str \<Rightarrow> str \<Rightarrow> str + str" where
  "decrypt_blob C key body =
     (case split_once (CHR '':'') body of
        None \<Rightarrow> Inl ''ciphertext missing nonce separator''
      | Some (n_b64, c_b64) \<Rightarrow>
          (case b64_decode C (trim n_b64) of
             Inl e \<Rightarrow> Inl (''nonce b64: '' @ e)
           | Inr nonce \<Rightarrow>
               if length nonce \<noteq> 12
               then Inl (''nonce must be 12 bytes, got '' @ show_nat (length nonce))
               else (case b64_decode C (trim c_b64) of
                   Inl e \<Rightarrow> Inl (''ciphertext b64: '' @ e)
                 | Inr ct \<Rightarrow>
                     (case unseal C key nonce ct of
                        Inl e \<Rightarrow> Inl (''decrypt failed (wrong key?): '' @ e)
                      | Inr msg \<Rightarrow> Inr msg))))"

definition ellipsis :: str where "ellipsis = map char_of [226, 128, 166 :: nat]"

definition decode_maybe_encrypted :: "cipher \<Rightarrow> str \<Rightarrow> str \<Rightarrow> str option \<Rightarrow> str + str" where
  "decode_maybe_encrypted C magic raw0 key =
     (let raw = trim raw0
      in case strip_prefix magic raw of
           Some rest \<Rightarrow>
             (case key of
                None \<Rightarrow> Inl (''file is encrypted ('' @ magic @ ellipsis @ '') but encrypt key is not set'')
              | Some k \<Rightarrow> decrypt_blob C k rest)
         | None \<Rightarrow> Inr raw)"

section \<open>What the envelope guarantees\<close>

definition b64_char :: "char \<Rightarrow> bool" where
  "b64_char c \<longleftrightarrow> is_ascii_alphanumeric c \<or> c \<in> {CHR ''+'', CHR ''/'', CHR ''=''}"

definition cipher_ok :: "cipher \<Rightarrow> bool" where
  "cipher_ok C \<longleftrightarrow>
     (\<forall>k n p ct. seal C k n p = Inr ct \<longrightarrow> unseal C k n ct = Inr p) \<and>
     (\<forall>x. b64_decode C (b64_encode C x) = Inr x) \<and>
     (\<forall>x. list_all b64_char (b64_encode C x))"

lemma b64_char_props: "b64_char c \<Longrightarrow> plain c \<and> c \<noteq> CHR '':''"
  by (auto simp: b64_char_def plain_def is_ascii_alphanumeric_def is_ascii_uppercase_def is_ascii_lowercase_def
      is_ascii_digit_def)

lemma trim_all_plain: "list_all plain s \<Longrightarrow> trim s = s"
  by (cases "s = []") (auto simp: list_all_iff intro!: trim_plain)

lemma b64_text: "cipher_ok C \<Longrightarrow> c \<in> set (b64_encode C x) \<Longrightarrow> plain c \<and> c \<noteq> CHR '':''"
  using b64_char_props unfolding cipher_ok_def list_all_iff by blast

lemma b64_plain: "cipher_ok C \<Longrightarrow> list_all plain (b64_encode C x)"
  by (simp add: list_all_iff b64_text)

lemma split_once_at:
  "\<forall>x \<in> set a. x \<noteq> c \<Longrightarrow> split_once c (a @ c # b) = Some (a, b)"
  by (simp add: split_once_def takeWhile_append2 dropWhile_append2)

lemma length_nonce_bytes [simp]: "length (nonce_bytes now now') = 12"
  by (simp add: nonce_bytes_def le_bytes_def)

lemma decrypt_encrypted:
  assumes "cipher_ok C" "seal C key nonce msg = Inr ct" "length nonce = 12"
  shows "decrypt_blob C key (b64_encode C nonce @ '':'' @ b64_encode C ct) = Inr msg"
proof -
  have "\<forall>x \<in> set (b64_encode C nonce). x \<noteq> CHR '':''"
    using b64_text[OF assms(1)] by blast
  then have "split_once (CHR '':'') (b64_encode C nonce @ '':'' @ b64_encode C ct) =
      Some (b64_encode C nonce, b64_encode C ct)" by (simp add: split_once_at)
  moreover have "b64_decode C (b64_encode C x) = Inr x" "unseal C key nonce ct = Inr msg" for x
    using assms(1,2) by (auto simp: cipher_ok_def)
  ultimately show ?thesis
    using assms(3) by (simp add: decrypt_blob_def trim_all_plain b64_plain[OF assms(1)])
qed

lemma sealed_decodes:
  assumes "cipher_ok C" "list_all plain magic" "encrypt_blob C now now' magic key msg = Inr out"
  shows "decode_maybe_encrypted C magic out (Some key) = Inr msg"
    and "decode_maybe_encrypted C magic out None =
      Inl (''file is encrypted ('' @ magic @ ellipsis @ '') but encrypt key is not set'')"
proof -
  let ?nonce = "nonce_bytes now now'"
  obtain ct where ct: "seal C key ?nonce msg = Inr ct"
    and out: "out = magic @ b64_encode C ?nonce @ '':'' @ b64_encode C ct"
    using assms(3) by (auto simp: encrypt_blob_def Let_def split: sum.splits)
  have "list_all plain out"
    using assms(1,2) b64_plain[OF assms(1)] by (simp add: out plain_def)
  then have t: "trim out = out" by (rule trim_all_plain)
  have s: "strip_prefix magic out = Some (b64_encode C ?nonce @ '':'' @ b64_encode C ct)"
    by (simp add: strip_prefix_def out)
  show "decode_maybe_encrypted C magic out (Some key) = Inr msg"
    using decrypt_encrypted[OF assms(1) ct] by (simp add: decode_maybe_encrypted_def t s)
  show "decode_maybe_encrypted C magic out None =
      Inl (''file is encrypted ('' @ magic @ ellipsis @ '') but encrypt key is not set'')"
    by (simp add: decode_maybe_encrypted_def t s)
qed

lemma xor_cancel_right: "(x XOR y) XOR y = (x :: 64 word)"
  by (simp add: ac_simps)

lemma xor_right_inj: "x XOR y = z XOR y \<Longrightarrow> x = (z :: 64 word)"
  by (metis xor_cancel_right)

lemma odd_multiplier_inj:
  fixes m :: "64 word"
  assumes "m * i = 1" "x * m = z * m"
  shows "x = z"
proof -
  have "x = x * m * i" using assms(1) by (simp add: mult.assoc)
  also have "\<dots> = z" using assms by (simp add: mult.assoc)
  finally show ?thesis .
qed

text \<open>The multiplier is odd, so the nonce is a bijection of the clock: different times, different tokens.\<close>

lemma simple_nonce_inj:
  assumes "a < 2 ^ 64" "b < 2 ^ 64"
  shows "simple_nonce a = simple_nonce b \<longleftrightarrow> a = b"
proof
  let ?m = "0x9e3779b97f4a7c15 :: 64 word" and ?i = "0xf1de83e19937733d :: 64 word"
  assume "simple_nonce a = simple_nonce b"
  then have "of_nat a * ?m XOR 0xdeadbeef = of_nat b * ?m XOR 0xdeadbeef"
    unfolding simple_nonce_def by (simp add: word_unat_eq_iff)
  then have "of_nat a * ?m = of_nat b * ?m" by (rule xor_right_inj)
  moreover have "?m * ?i = 1" by simp
  ultimately have "(of_nat a :: 64 word) = of_nat b" by (rule odd_multiplier_inj[rotated])
  then have "unat (of_nat a :: 64 word) = unat (of_nat b :: 64 word)" by simp
  then show "a = b" using assms by (simp add: unat_of_nat)
qed simp

text \<open>The nonce of the cipher depends on the clock alone: two writes in the same millisecond share it.\<close>

lemma parse_encrypt_key_length:
  assumes "parse_encrypt_key hex = Inr (Some k)"
  shows "length k = 32"
proof -
  have "length (hex_bytes s) = length s div 2" for s by (induction s rule: hex_bytes.induct) auto
  then show ?thesis using assms by (auto simp: parse_encrypt_key_def Let_def split: if_splits)
qed

end
