(* ===== verification/Vault.thy ===== *)
theory Vault
  imports State_Crypto
begin

text \<open>
  The vault of short-lived backend credentials (\<open>gateway/core/src/vault.rs\<close>): issuing, looking up,
  renewing, revoking and pruning leases, and what the state file holds with and without an
  encryption key.

  The clock is an argument in milliseconds.  JSON, the cipher and whether a write succeeds come from
  \<open>vault_env\<close>; file locks are not modelled.
\<close>

named_theorems vault_defs \<open>the operations of the vault\<close>

section \<open>Leases and the store\<close>

record project_env =
  pe_name :: str
  pe_environment :: str
  pe_service :: str
  pe_description :: str

record vault_lease =
  lease_id :: str
  vl_project :: str
  vl_environment :: str
  vl_service :: str
  vl_endpoint :: str
  vl_protocol :: str
  vl_address :: str
  vl_database :: "str option"
  vl_username :: str
  vl_issued_at :: nat
  vl_expires_at :: nat
  access_token :: str
  revoked :: bool
  revoked_at :: "nat option"
  revoked_by :: "str option"

record issue_lease_request =
  il_project :: str
  il_environment :: str
  il_ttl_secs :: nat
  il_issued_by :: "str option"

record lease_record =
  lr_lease :: vault_lease
  backend_password :: str
  backend_username :: str

text \<open>A row of the sealed file has the same fields as a record in memory.\<close>

type_synonym sealed_lease_record = lease_record

record vault_store =
  vs_leases :: "(str \<times> lease_record) list"
  vs_projects :: "project_env list"
  vs_seq :: nat
  vs_path :: "str option"
  vs_encrypt_key :: "str option"

record vault_file =
  vf_projects :: "project_env list"
  vf_leases :: "vault_lease list"
  vf_sealed_leases :: "sealed_lease_record list"

definition vault_new :: vault_store where
  "vault_new = \<lparr>vs_leases = [], vs_projects = [], vs_seq = 1, vs_path = None, vs_encrypt_key = None\<rparr>"

text \<open>What the store writes with and reads through.\<close>

record vault_env =
  ve_cipher :: cipher
  ve_now :: nat
  ve_now' :: nat
  ve_to_json :: "vault_file \<Rightarrow> str"
  ve_to_json_pretty :: "vault_file \<Rightarrow> str"
  ve_of_json :: "str \<Rightarrow> str + vault_file"
  ve_io_error :: "str option"

type_synonym vault_disk = "str \<rightharpoonup> str"

record vault_world =
  vw_store :: vault_store
  vw_disk :: vault_disk

section \<open>The state file\<close>

definition vault_magic :: str where "vault_magic = ''DNVAULT1:''"

definition newest_first :: "(lease_record \<Rightarrow> 'a) \<Rightarrow> (str \<times> lease_record) list \<Rightarrow> 'a list" where
  "newest_first f ls = map f (sort_key (\<lambda>r. - int (vl_issued_at (lr_lease r))) (map snd ls))"

definition vault_file_of :: "vault_store \<Rightarrow> vault_file" where
  "vault_file_of st =
     (case vs_encrypt_key st of
        Some _ \<Rightarrow> \<lparr>vf_projects = vs_projects st, vf_leases = [], vf_sealed_leases = newest_first (\<lambda>r. r) (vs_leases st)\<rparr>
      | None \<Rightarrow> \<lparr>vf_projects = vs_projects st, vf_leases = newest_first lr_lease (vs_leases st), vf_sealed_leases = []\<rparr>)"

definition write_file_locked :: "vault_env \<Rightarrow> str \<Rightarrow> vault_store \<Rightarrow> vault_disk \<Rightarrow> str + vault_disk" where
  "write_file_locked E path st disk =
     (case (case vs_encrypt_key st of
              Some key \<Rightarrow> encrypt_blob (ve_cipher E) (ve_now E) (ve_now' E) vault_magic key (ve_to_json E (vault_file_of st))
            | None \<Rightarrow> Inr (ve_to_json_pretty E (vault_file_of st))) of
        Inl e \<Rightarrow> Inl e
      | Inr data \<Rightarrow> (case ve_io_error E of Some e \<Rightarrow> Inl e | None \<Rightarrow> Inr (disk(path \<mapsto> data))))"

definition persist :: "vault_env \<Rightarrow> vault_world \<Rightarrow> str + vault_world" where
  "persist E w =
     (case vs_path (vw_store w) of
        None \<Rightarrow> Inr w
      | Some path \<Rightarrow>
          (case write_file_locked E path (vw_store w) (vw_disk w) of
             Inl e \<Rightarrow> Inl e
           | Inr disk \<Rightarrow> Inr (w\<lparr>vw_disk := disk\<rparr>)))"

text \<open>\<open>let _ = self.persist()\<close>: a failure leaves the file as it was.\<close>

definition persist_quietly :: "vault_env \<Rightarrow> vault_world \<Rightarrow> vault_world" where
  "persist_quietly E w = (case persist E w of Inl _ \<Rightarrow> w | Inr w' \<Rightarrow> w')"

definition decode_vault_file :: "vault_env \<Rightarrow> str \<Rightarrow> str option \<Rightarrow> str + vault_file" where
  "decode_vault_file E raw key =
     (case decode_maybe_encrypted (ve_cipher E) vault_magic raw key of
        Inl e \<Rightarrow> Inl e
      | Inr bytes \<Rightarrow> ve_of_json E bytes)"

definition load_sealed_step ::
  "(str \<times> lease_record) list \<times> nat \<Rightarrow> sealed_lease_record \<Rightarrow> (str \<times> lease_record) list \<times> nat" where
  "load_sealed_step acc r =
     (al_insert (lease_id (lr_lease r)) r (fst acc),
      (case parse_unsigned u64_max (rsplit_next (CHR ''-'') (lease_id (lr_lease r))) of
         None \<Rightarrow> snd acc
       | Some n \<Rightarrow> max (snd acc) ((n + 1) mod 2 ^ 64)))"

definition load_lease_step ::
  "(str \<times> lease_record) list \<times> nat \<Rightarrow> vault_lease \<Rightarrow> (str \<times> lease_record) list \<times> nat" where
  "load_lease_step acc l =
     (al_insert (lease_id l) \<lparr>lr_lease = l, backend_password = [], backend_username = []\<rparr> (fst acc),
      (case parse_unsigned u64_max (rsplit_next (CHR ''-'') (lease_id l)) of
         None \<Rightarrow> snd acc
       | Some n \<Rightarrow> max (snd acc) ((n + 1) mod 2 ^ 64)))"

definition load_vault_file :: "vault_file \<Rightarrow> vault_store \<Rightarrow> vault_store" where
  "load_vault_file file st =
     (let acc = (if vs_encrypt_key st \<noteq> None \<and> vf_sealed_leases file \<noteq> []
                 then foldl load_sealed_step ([], 1) (vf_sealed_leases file)
                 else foldl load_lease_step ([], 1) (vf_leases file))
      in st\<lparr>vs_leases := fst acc, vs_projects := vf_projects file, vs_seq := snd acc\<rparr>)"

definition load_from_disk :: "vault_env \<Rightarrow> vault_world \<Rightarrow> str + vault_world" where
  "load_from_disk E w =
     (case vs_path (vw_store w) of
        None \<Rightarrow> Inr w
      | Some path \<Rightarrow>
          (case vw_disk w path of
             None \<Rightarrow>
               (case write_file_locked E path ((vw_store w)\<lparr>vs_leases := [], vs_projects := []\<rparr>) (vw_disk w) of
                  Inl e \<Rightarrow> Inl e
                | Inr disk \<Rightarrow> Inr (w\<lparr>vw_disk := disk\<rparr>))
           | Some raw \<Rightarrow>
               if trim raw = [] then Inr w
               else (case decode_vault_file E raw (vs_encrypt_key (vw_store w)) of
                   Inl e \<Rightarrow> Inl e
                 | Inr file \<Rightarrow> Inr (w\<lparr>vw_store := load_vault_file file (vw_store w)\<rparr>))))"

definition with_file :: "vault_env \<Rightarrow> str \<Rightarrow> str option \<Rightarrow> vault_disk \<Rightarrow> str + vault_world" where
  "with_file E path key disk =
     load_from_disk E \<lparr>vw_store = vault_new\<lparr>vs_path := Some path, vs_encrypt_key := key\<rparr>, vw_disk = disk\<rparr>"

definition reconfigure_from :: "vault_store \<Rightarrow> vault_store \<Rightarrow> vault_store" where
  "reconfigure_from other st =
     st\<lparr>vs_leases := vs_leases other, vs_projects := vs_projects other, vs_path := vs_path other,
        vs_encrypt_key := vs_encrypt_key other, vs_seq := vs_seq other\<rparr>"

text \<open>The process-wide store: absent until the first installation, reconfigured in place afterwards.\<close>

definition install_vault_store ::
  "vault_env \<Rightarrow> str \<Rightarrow> str \<Rightarrow> str \<Rightarrow> vault_store option \<Rightarrow> vault_disk \<Rightarrow> str + vault_world" where
  "install_vault_store E backend path key_hex existing disk =
     (case parse_encrypt_key key_hex of
        Inl e \<Rightarrow> Inl e
      | Inr key \<Rightarrow>
          (let b = to_ascii_lowercase (trim backend)
           in case (if b = ''memory'' \<or> b = [] then Inr \<lparr>vw_store = vault_new, vw_disk = disk\<rparr>
                    else if b = ''file'' then with_file E path key disk
                    else Inl (''vault store backend '' @ [CHR 0x27] @ b @ [CHR 0x27] @ '' not supported (use memory or file)'')) of
                Inl e \<Rightarrow> Inl e
              | Inr w \<Rightarrow>
                  (case existing of
                     None \<Rightarrow> Inr w
                   | Some st \<Rightarrow> Inr (w\<lparr>vw_store := reconfigure_from (vw_store w) st\<rparr>))))"

section \<open>Operations\<close>

definition set_projects :: "vault_env \<Rightarrow> project_env list \<Rightarrow> vault_world \<Rightarrow> vault_world" where
  "set_projects E ps w = persist_quietly E (w\<lparr>vw_store := (vw_store w)\<lparr>vs_projects := ps\<rparr>\<rparr>)"

fun default_projects :: "nat \<Rightarrow> str list \<Rightarrow> project_env list" where
  "default_projects i [] = []"
| "default_projects i (svc # svcs) =
     \<lparr>pe_name = (if i = 0 then ''default'' else svc), pe_environment = ''dev'', pe_service = svc,
      pe_description = ''auto project for service '' @ svc\<rparr> # default_projects (Suc i) svcs"

definition ensure_default_projects_from_services :: "str list \<Rightarrow> vault_world \<Rightarrow> vault_world" where
  "ensure_default_projects_from_services svcs w =
     (if vs_projects (vw_store w) \<noteq> [] then w
      else w\<lparr>vw_store := (vw_store w)\<lparr>vs_projects := default_projects 0 svcs\<rparr>\<rparr>)"

definition new_lease_id :: "nat \<Rightarrow> nat \<Rightarrow> str" where
  "new_lease_id now n = ''lease-'' @ show_nat now @ ''-'' @ show_nat n"

definition portal_token :: "nat \<Rightarrow> str" where
  "portal_token s = ''pvt-'' @ show_nat (simple_nonce s)"

record lease_target =
  lt_service :: str
  lt_endpoint_name :: str
  lt_protocol :: str
  lt_address :: str
  lt_database :: "str option"
  lt_username :: str
  lt_password :: str

definition issue_lease ::
  "vault_env \<Rightarrow> nat \<Rightarrow> issue_lease_request \<Rightarrow> lease_target \<Rightarrow> vault_world \<Rightarrow> vault_lease \<times> vault_world" where
  "issue_lease E now req tgt w =
     (let st = vw_store w;
          lid = new_lease_id now (vs_seq st);
          lease = \<lparr>lease_id = lid, vl_project = il_project req, vl_environment = il_environment req,
                   vl_service = lt_service tgt, vl_endpoint = lt_endpoint_name tgt, vl_protocol = lt_protocol tgt,
                   vl_address = lt_address tgt, vl_database = lt_database tgt, vl_username = lt_username tgt,
                   vl_issued_at = now,
                   vl_expires_at = saturating_add64 now (saturating_mul64 (il_ttl_secs req) 1000),
                   access_token = portal_token now, revoked = False, revoked_at = None, revoked_by = None\<rparr>;
          rec = \<lparr>lr_lease = lease, backend_password = lt_password tgt, backend_username = lt_username tgt\<rparr>
      in (lease, persist_quietly E (w\<lparr>vw_store := st\<lparr>vs_leases := al_insert lid rec (vs_leases st),
                                                    vs_seq := (vs_seq st + 1) mod 2 ^ 64\<rparr>\<rparr>)))"

definition is_active :: "vault_lease \<Rightarrow> nat \<Rightarrow> bool" where
  "is_active l now \<longleftrightarrow> \<not> revoked l \<and> now \<le> vl_expires_at l"

text \<open>
  A hash map yields its values in no particular order, so when several active leases carry the same token
  the one found depends on the order of the association list.
\<close>

definition get_valid_lease_by_token :: "nat \<Rightarrow> str \<Rightarrow> vault_store \<Rightarrow> vault_lease option" where
  "get_valid_lease_by_token now token st =
     map_option lr_lease
       (find (\<lambda>r. access_token (lr_lease r) = token \<and> is_active (lr_lease r) now) (map snd (vs_leases st)))"

definition get_valid_lease :: "nat \<Rightarrow> str \<Rightarrow> vault_store \<Rightarrow> vault_lease option" where
  "get_valid_lease now lid st =
     (case map_of (vs_leases st) lid of
        None \<Rightarrow> None
      | Some r \<Rightarrow> if \<not> is_active (lr_lease r) now then None else Some (lr_lease r))"

definition get_lease :: "str \<Rightarrow> vault_store \<Rightarrow> vault_lease option" where
  "get_lease lid st = map_option lr_lease (map_of (vs_leases st) lid)"

definition list_leases_filtered :: "nat \<Rightarrow> nat \<Rightarrow> bool \<Rightarrow> vault_store \<Rightarrow> vault_lease list" where
  "list_leases_filtered now limit include_inactive st =
     take (min (max limit 1) 200)
       (sort_key (\<lambda>l. - int (vl_issued_at l))
         (map (lr_lease \<circ> snd)
           (filter (\<lambda>p. include_inactive \<or> is_active (lr_lease (snd p)) now) (vs_leases st))))"

definition lease_error :: "str \<Rightarrow> str \<Rightarrow> str" where
  "lease_error lid what = ''lease '' @ [CHR 0x27] @ lid @ [CHR 0x27] @ what"

definition put_record :: "str \<Rightarrow> lease_record \<Rightarrow> vault_world \<Rightarrow> vault_world" where
  "put_record lid r w = w\<lparr>vw_store := (vw_store w)\<lparr>vs_leases := al_insert lid r (vs_leases (vw_store w))\<rparr>\<rparr>"

definition revoke_lease ::
  "vault_env \<Rightarrow> nat \<Rightarrow> str \<Rightarrow> str option \<Rightarrow> vault_world \<Rightarrow> str + vault_lease \<times> vault_world" where
  "revoke_lease E now lid who w =
     (case map_of (vs_leases (vw_store w)) lid of
        None \<Rightarrow> Inl (lease_error lid '' not found'')
      | Some r \<Rightarrow>
          if revoked (lr_lease r) then Inl (lease_error lid '' already revoked'')
          else let l = (lr_lease r)\<lparr>revoked := True, revoked_at := Some now, revoked_by := who,
                         access_token := ''revoked-'' @ lease_id (lr_lease r), vl_expires_at := now\<rparr>
               in Inr (l, persist_quietly E (put_record lid (r\<lparr>lr_lease := l, backend_password := []\<rparr>) w)))"

definition renew_lease :: "vault_env \<Rightarrow> nat \<Rightarrow> str \<Rightarrow> nat \<Rightarrow> vault_world \<Rightarrow> str + vault_lease \<times> vault_world" where
  "renew_lease E now lid ttl_secs w =
     (case map_of (vs_leases (vw_store w)) lid of
        None \<Rightarrow> Inl (lease_error lid '' not found'')
      | Some r \<Rightarrow>
          if revoked (lr_lease r) then Inl (lease_error lid '' is revoked'')
          else let ttl = max ttl_secs 1;
                   l = (lr_lease r)\<lparr>vl_expires_at := saturating_add64 now (saturating_mul64 ttl 1000),
                         access_token := portal_token (now XOR ttl)\<rparr>
               in Inr (l, persist_quietly E (put_record lid (r\<lparr>lr_lease := l\<rparr>) w)))"

definition prune_expired_leases :: "vault_env \<Rightarrow> nat \<Rightarrow> vault_world \<Rightarrow> nat \<times> vault_world" where
  "prune_expired_leases E now w =
     (let ls = vs_leases (vw_store w);
          kept = filter (\<lambda>p. is_active (lr_lease (snd p)) now) ls;
          removed = length ls - length kept;
          w' = w\<lparr>vw_store := (vw_store w)\<lparr>vs_leases := kept\<rparr>\<rparr>
      in (removed, if 0 < removed then persist_quietly E w' else w'))"

definition backend_identity :: "nat \<Rightarrow> str \<Rightarrow> vault_store \<Rightarrow> (str \<times> str) option" where
  "backend_identity now lid st =
     (case map_of (vs_leases st) lid of
        None \<Rightarrow> None
      | Some r \<Rightarrow>
          if \<not> is_active (lr_lease r) now then None
          else if backend_password r = [] then None
          else Some (backend_username r, backend_password r))"

lemmas [vault_defs] = set_projects_def ensure_default_projects_from_services_def issue_lease_def revoke_lease_def
  renew_lease_def prune_expired_leases_def put_record_def Let_def

section \<open>Invariant\<close>

lemma al_insert_memD: "p \<in> set (al_insert k v m) \<Longrightarrow> p = (k, v) \<or> p \<in> set m"
  by (induction m) (auto split: if_splits)

lemma al_insert_mem_key:
  assumes "distinct (map fst m)" "(k, v') \<in> set (al_insert k v m)"
  shows "v' = v"
  using assms map_of_al_insert[of k v m] distinct_al_insert[OF assms(1), of k v]
  by (metis fun_upd_same map_of_is_SomeI option.inject)

lemma persist_store [simp]: "vw_store (persist_quietly E w) = vw_store w"
  by (auto simp: persist_quietly_def persist_def split: option.splits sum.splits)

definition record_ok :: "str \<Rightarrow> lease_record \<Rightarrow> bool" where
  "record_ok k r \<longleftrightarrow> lease_id (lr_lease r) = k \<and>
     (revoked (lr_lease r) \<longrightarrow> backend_password r = [] \<and> access_token (lr_lease r) = ''revoked-'' @ k)"

definition vault_ok :: "vault_store \<Rightarrow> bool" where
  "vault_ok st \<longleftrightarrow> distinct (map fst (vs_leases st)) \<and> (\<forall>(k, r) \<in> set (vs_leases st). record_ok k r) \<and>
     keys_below (fst ` set (vs_leases st)) (vs_seq st)"

text \<open>The operations of a running process.  A process issues fewer than \<open>2 ^ 64\<close> leases.\<close>

inductive vault_step :: "vault_world \<Rightarrow> vault_world \<Rightarrow> bool" where
  lease_issued: "vs_seq (vw_store w) < u64_max \<Longrightarrow> vault_step w (snd (issue_lease E now req tgt w))"
| lease_revoked: "revoke_lease E now lid who w = Inr (l, w') \<Longrightarrow> vault_step w w'"
| lease_renewed: "renew_lease E now lid ttl w = Inr (l, w') \<Longrightarrow> vault_step w w'"
| leases_pruned: "vault_step w (snd (prune_expired_leases E now w))"
| projects_set: "vault_step w (set_projects E ps w)"
| projects_defaulted: "vault_step w (ensure_default_projects_from_services svcs w)"

lemma new_lease_id_seq: "new_lease_id now n = seq_id (''lease-'' @ show_nat now) n"
  by (simp add: new_lease_id_def seq_id_def)

lemma vault_ok_get: "vault_ok st \<Longrightarrow> map_of (vs_leases st) k = Some r \<Longrightarrow> record_ok k r"
  by (auto simp: vault_ok_def dest!: map_of_SomeD)

lemma vault_ok_put:
  assumes "vault_ok st" "map_of (vs_leases st) k \<noteq> None" "record_ok k r"
  shows "vault_ok (st\<lparr>vs_leases := al_insert k r (vs_leases st)\<rparr>)"
proof -
  have "k \<in> fst ` set (vs_leases st)" using assms(2) by (simp add: map_of_eq_None_iff)
  then show ?thesis
    using assms(1,3) al_insert_forall[of "vs_leases st" "\<lambda>(k, r). record_ok k r" k r]
    by (auto simp: vault_ok_def keys_al_insert distinct_al_insert insert_absorb)
qed

lemma vault_ok_filter:
  assumes "vault_ok st"
  shows "vault_ok (st\<lparr>vs_leases := filter P (vs_leases st)\<rparr>)"
  using assms by (auto simp: vault_ok_def distinct_map inj_on_def intro: keys_below_mono)

lemma vault_ok_add:
  assumes "vault_ok st" "record_ok (seq_id stem (vs_seq st)) r"
  shows "vault_ok (st\<lparr>vs_leases := al_insert (seq_id stem (vs_seq st)) r (vs_leases st), vs_seq := Suc (vs_seq st)\<rparr>)"
  using assms al_insert_forall[of "vs_leases st" "\<lambda>(k, r). record_ok k r"] keys_below_insert
  by (auto simp: vault_ok_def keys_al_insert distinct_al_insert)

lemma vault_ok_issue:
  assumes "vault_ok (vw_store w)" "vs_seq (vw_store w) < u64_max"
  shows "vault_ok (vw_store (snd (issue_lease E now req tgt w)))"
proof -
  have "(vs_seq (vw_store w) + 1) mod 2 ^ 64 = Suc (vs_seq (vw_store w))" using assms(2) by (simp add: u64_max_def)
  then show ?thesis
    using assms(1) unfolding issue_lease_def Let_def new_lease_id_seq
    by (auto intro!: vault_ok_add simp: record_ok_def)
qed

lemma revoke_lease_cases:
  assumes "revoke_lease E now lid who w = Inr (l, w')"
  obtains r r' where "map_of (vs_leases (vw_store w)) lid = Some r" "\<not> revoked (lr_lease r)"
    "vw_store w' = (vw_store w)\<lparr>vs_leases := al_insert lid r' (vs_leases (vw_store w))\<rparr>"
    "lease_id (lr_lease r') = lease_id (lr_lease r)" "revoked (lr_lease r')" "backend_password r' = []"
    "access_token (lr_lease r') = ''revoked-'' @ lease_id (lr_lease r)"
  using assms by (auto simp: revoke_lease_def put_record_def Let_def split: option.splits if_splits)

lemma renew_lease_cases:
  assumes "renew_lease E now lid ttl w = Inr (l, w')"
  obtains r r' where "map_of (vs_leases (vw_store w)) lid = Some r" "\<not> revoked (lr_lease r)"
    "vw_store w' = (vw_store w)\<lparr>vs_leases := al_insert lid r' (vs_leases (vw_store w))\<rparr>"
    "lease_id (lr_lease r') = lease_id (lr_lease r)" "\<not> revoked (lr_lease r')"
  using assms by (auto simp: renew_lease_def put_record_def Let_def split: option.splits if_splits)

lemma vault_ok_revoke:
  assumes "vault_ok (vw_store w)" "revoke_lease E now lid who w = Inr (l, w')"
  shows "vault_ok (vw_store w')"
  using assms(2)
proof (cases rule: revoke_lease_cases)
  case (1 r r')
  then show ?thesis using assms(1) vault_ok_get[OF assms(1) 1(1)] by (auto simp: record_ok_def intro!: vault_ok_put)
qed

lemma vault_ok_renew:
  assumes "vault_ok (vw_store w)" "renew_lease E now lid ttl w = Inr (l, w')"
  shows "vault_ok (vw_store w')"
  using assms(2)
proof (cases rule: renew_lease_cases)
  case (1 r r')
  then show ?thesis using assms(1) vault_ok_get[OF assms(1) 1(1)] by (auto simp: record_ok_def intro!: vault_ok_put)
qed

lemma vault_step_ok: "vault_step w w' \<Longrightarrow> vault_ok (vw_store w) \<Longrightarrow> vault_ok (vw_store w')"
proof (induction rule: vault_step.induct)
  case (leases_pruned w E now)
  then show ?case using vault_ok_filter by (auto simp: prune_expired_leases_def Let_def)
next
  case (projects_set w E ps)
  then show ?case by (simp add: vault_defs vault_ok_def)
next
  case (projects_defaulted w svcs)
  then show ?case by (simp add: vault_defs vault_ok_def)
qed (blast intro: vault_ok_issue vault_ok_revoke vault_ok_renew)+

section \<open>Revocation is final\<close>

definition dead_lease :: "str \<Rightarrow> vault_store \<Rightarrow> bool" where
  "dead_lease k st \<longleftrightarrow> keys_below {k} (vs_seq st) \<and> (\<forall>r. (k, r) \<in> set (vs_leases st) \<longrightarrow> revoked (lr_lease r))"

lemma dead_lease_unusable:
  assumes "dead_lease k st"
  shows "get_valid_lease now k st = None" "backend_identity now k st = None"
  using assms by (auto simp: dead_lease_def get_valid_lease_def backend_identity_def is_active_def
      split: option.splits dest!: map_of_SomeD)

lemma revoke_kills:
  assumes "vault_ok (vw_store w)" "revoke_lease E now lid who w = Inr (l, w')"
  shows "dead_lease lid (vw_store w')"
  using assms(2)
proof (cases rule: revoke_lease_cases)
  case (1 r r')
  then have "lid \<in> fst ` set (vs_leases (vw_store w))" by (force dest: map_of_SomeD)
  then have "keys_below {lid} (vs_seq (vw_store w))" using assms(1) by (auto simp: vault_ok_def intro: keys_below_mono)
  moreover have "ra = r'" if "(lid, ra) \<in> set (vs_leases (vw_store w'))" for ra
    using that 1(3) assms(1) by (auto simp: vault_ok_def dest: al_insert_mem_key)
  ultimately show ?thesis using 1(3,5) by (auto simp: dead_lease_def)
qed

lemma dead_lease_step: "vault_step w w' \<Longrightarrow> dead_lease k (vw_store w) \<Longrightarrow> dead_lease k (vw_store w')"
proof (induction rule: vault_step.induct)
  case (lease_issued w E now req tgt)
  have "k \<noteq> new_lease_id now (vs_seq (vw_store w))"
    using lease_issued keys_below_fresh[of "{k}"] by (auto simp: dead_lease_def new_lease_id_seq)
  then show ?case
    using lease_issued by (auto simp: dead_lease_def vault_defs u64_max_def intro: keys_below_mono dest!: al_insert_memD)
next
  case (lease_revoked E now lid who w l w')
  then show ?case by (elim revoke_lease_cases) (auto simp: dead_lease_def dest!: al_insert_memD)
next
  case (lease_renewed E now lid ttl w l w')
  then show ?case
    by (elim renew_lease_cases) (auto simp: dead_lease_def dest!: al_insert_memD map_of_SomeD)
next
  case (leases_pruned w E now)
  then show ?case by (auto simp: dead_lease_def prune_expired_leases_def Let_def)
next
  case (projects_set w E ps)
  then show ?case by (simp add: vault_defs dead_lease_def)
next
  case (projects_defaulted w svcs)
  then show ?case by (simp add: vault_defs dead_lease_def)
qed

lemma revoked_for_good:
  assumes "vault_ok (vw_store w)" "revoke_lease E now lid who w = Inr (l, w')" "vault_step\<^sup>*\<^sup>* w' w''"
  shows "get_valid_lease t lid (vw_store w'') = None" "backend_identity t lid (vw_store w'') = None"
proof -
  from assms(3) have "dead_lease lid (vw_store w'')"
    by (induction rule: rtranclp_induct) (auto intro: dead_lease_step revoke_kills[OF assms(1,2)])
  then show "get_valid_lease t lid (vw_store w'') = None" "backend_identity t lid (vw_store w'') = None"
    by (simp_all add: dead_lease_unusable)
qed

section \<open>Restarting from the file\<close>

text \<open>What the JSON library promises for a file: it comes back, and a struct is written between braces.\<close>

definition json_ok :: "vault_env \<Rightarrow> vault_file \<Rightarrow> bool" where
  "json_ok E f \<longleftrightarrow> ve_of_json E (ve_to_json E f) = Inr f \<and> ve_of_json E (ve_to_json_pretty E f) = Inr f \<and>
     (\<exists>b. ve_to_json_pretty E f = ''{'' @ b @ ''}'')"

interpretation sealed: state_file "\<lambda>r. lease_id (lr_lease r)" "\<lambda>r. r" load_sealed_step
  by unfold_locales (simp add: load_sealed_step_def next_seq_def)

interpretation public: state_file lease_id "\<lambda>l. \<lparr>lr_lease = l, backend_password = [], backend_username = []\<rparr>"
  load_lease_step
  by unfold_locales (simp add: load_lease_step_def next_seq_def)

lemma trim_pretty:
  assumes "json_ok E f"
  shows "trim (ve_to_json_pretty E f) = ve_to_json_pretty E f" "strip_prefix vault_magic (ve_to_json_pretty E f) = None"
proof -
  obtain b where b: "ve_to_json_pretty E f = ''{'' @ b @ ''}''"
    using assms unfolding json_ok_def by blast
  then show "trim (ve_to_json_pretty E f) = ve_to_json_pretty E f"
    by (auto intro!: trim_plain simp: plain_def)
  show "strip_prefix vault_magic (ve_to_json_pretty E f) = None"
    using b by (simp add: strip_prefix_def starts_with_def vault_magic_def)
qed

lemma written_file_decodes:
  assumes "cipher_ok (ve_cipher E)" "json_ok E (vault_file_of st)" "write_file_locked E path st disk = Inr disk'"
  shows "\<exists>raw. disk' path = Some raw \<and> trim raw \<noteq> [] \<and> decode_vault_file E raw (vs_encrypt_key st) = Inr (vault_file_of st)"
proof (cases "vs_encrypt_key st")
  case None
  then show ?thesis
    using assms(2,3) trim_pretty[OF assms(2)]
    by (auto simp: write_file_locked_def decode_vault_file_def decode_maybe_encrypted_def json_ok_def
        split: option.splits)
next
  case (Some key)
  have plain_magic: "list_all plain vault_magic" by (simp add: vault_magic_def plain_def)
  obtain out where out: "encrypt_blob (ve_cipher E) (ve_now E) (ve_now' E) vault_magic key (ve_to_json E (vault_file_of st)) = Inr out"
    "disk' = disk(path \<mapsto> out)"
    using assms(3) Some by (auto simp: write_file_locked_def split: sum.splits option.splits)
  have dec: "decode_maybe_encrypted (ve_cipher E) vault_magic out (Some key) = Inr (ve_to_json E (vault_file_of st))"
    by (rule sealed_decodes(1)[OF assms(1) plain_magic out(1)])
  have "trim out \<noteq> []"
    using sealed_decodes(2)[OF assms(1) plain_magic out(1)]
    by (auto simp: decode_maybe_encrypted_def strip_prefix_def starts_with_def vault_magic_def)
  then show ?thesis using out(2) dec Some assms(2) by (auto simp: decode_vault_file_def json_ok_def)
qed

lemma distinct_lease_ids:
  assumes "vault_ok st"
  shows "distinct (map (\<lambda>r. lease_id (lr_lease r)) (newest_first (\<lambda>r. r) (vs_leases st)))"
proof -
  have "map (\<lambda>r. lease_id (lr_lease r)) (map snd (vs_leases st)) = map fst (vs_leases st)"
    using assms by (auto simp: vault_ok_def record_ok_def)
  then have "distinct (map (\<lambda>r. lease_id (lr_lease r)) (map snd (vs_leases st)))"
    using assms by (simp only: vault_ok_def)
  then show ?thesis by (simp add: newest_first_def distinct_map) (auto simp: inj_on_def)
qed

lemma vault_rows:
  assumes "vault_ok st"
  shows "(r \<in> set (newest_first (\<lambda>r. r) (vs_leases st)) \<and> lease_id (lr_lease r) = k) \<longleftrightarrow> map_of (vs_leases st) k = Some r"
proof -
  have "map_of (vs_leases st) k = Some r \<longleftrightarrow> (k, r) \<in> set (vs_leases st)"
    using assms by (simp add: vault_ok_def map_of_eq_Some_iff)
  then show ?thesis using assms by (force simp: newest_first_def vault_ok_def record_ok_def)
qed

lemma newest_first_map: "newest_first f ls = map f (newest_first (\<lambda>r. r) ls)"
  by (simp add: newest_first_def)

definition strip_secret :: "lease_record \<Rightarrow> lease_record" where
  "strip_secret r = r\<lparr>backend_password := [], backend_username := []\<rparr>"

lemma strip_secret_eq: "\<lparr>lr_lease = lr_lease r, backend_password = [], backend_username = []\<rparr> = strip_secret r"
  by (simp add: strip_secret_def)

lemma load_written_leases:
  assumes ok: "vault_ok st" and key: "vs_encrypt_key st' = vs_encrypt_key st"
  shows "map_of (vs_leases (load_vault_file (vault_file_of st) st')) k =
    map_option (if vs_encrypt_key st = None then strip_secret else (\<lambda>r. r)) (map_of (vs_leases st) k)"
proof -
  let ?rows = "newest_first (\<lambda>r. r) (vs_leases st)"
  note rows = vault_rows[OF ok] and d = distinct_lease_ids[OF ok]
  show ?thesis
  proof (cases "vs_encrypt_key st")
    case None
    have "map_of (fst (foldl load_lease_step ([], 1) (map lr_lease ?rows))) k = Some q \<longleftrightarrow>
        map_option strip_secret (map_of (vs_leases st) k) = Some q" for q
    proof -
      have "map_of (fst (foldl load_lease_step ([], 1) (map lr_lease ?rows))) k = Some q \<longleftrightarrow>
          (\<exists>r \<in> set ?rows. lease_id (lr_lease r) = k \<and> q = strip_secret r)"
        using public.load_row[of "map lr_lease ?rows" 1 k q] d by (simp add: comp_def strip_secret_eq)
      also have "\<dots> \<longleftrightarrow> (\<exists>r. map_of (vs_leases st) k = Some r \<and> q = strip_secret r)" using rows by blast
      finally show ?thesis by auto
    qed
    then have "map_of (fst (foldl load_lease_step ([], 1) (map lr_lease ?rows))) k =
        map_option strip_secret (map_of (vs_leases st) k)" by (metis not_None_eq)
    then show ?thesis using None key
      by (simp add: load_vault_file_def vault_file_of_def newest_first_map[of lr_lease] Let_def)
  next
    case (Some key)
    have "map_of (fst (foldl load_sealed_step ([], 1) ?rows)) k = Some q \<longleftrightarrow> map_of (vs_leases st) k = Some q" for q
      using sealed.load_row[OF d, of 1 k q] rows[of q k] by auto
    then have eq: "map_of (fst (foldl load_sealed_step ([], 1) ?rows)) k = map_of (vs_leases st) k" by (metis not_None_eq)
    have "map_of (vs_leases st) k = None" if "?rows = []" using rows[of _ k] that by (metis empty_iff empty_set not_None_eq)
    then show ?thesis using Some key eq
      by (auto simp: load_vault_file_def vault_file_of_def Let_def option.map_ident)
  qed
qed

lemma restart_keeps_leases:
  assumes "vault_ok (vw_store w)" "cipher_ok (ve_cipher E)" "json_ok E (vault_file_of (vw_store w))"
    and "vs_path (vw_store w) = Some path" "vs_encrypt_key (vw_store w) = key" "persist E w = Inr w'"
  obtains w'' where "with_file E path key (vw_disk w') = Inr w''" "vs_projects (vw_store w'') = vs_projects (vw_store w)"
    "\<And>k. map_of (vs_leases (vw_store w'')) k =
      map_option (if key = None then strip_secret else (\<lambda>r. r)) (map_of (vs_leases (vw_store w)) k)"
proof -
  let ?st = "vw_store w" and ?fresh = "vault_new\<lparr>vs_path := Some path, vs_encrypt_key := key\<rparr>"
  have "write_file_locked E path ?st (vw_disk w) = Inr (vw_disk w')"
    using assms(4,6) by (auto simp: persist_def split: sum.splits)
  then obtain raw where raw: "vw_disk w' path = Some raw" "trim raw \<noteq> []"
    "decode_vault_file E raw key = Inr (vault_file_of ?st)"
    using written_file_decodes[OF assms(2,3)] assms(5) by blast
  then have "with_file E path key (vw_disk w') =
      Inr \<lparr>vw_store = load_vault_file (vault_file_of ?st) ?fresh, vw_disk = vw_disk w'\<rparr>"
    by (simp add: with_file_def load_from_disk_def)
  moreover have "vs_projects (load_vault_file (vault_file_of ?st) ?fresh) = vs_projects ?st"
    by (simp add: load_vault_file_def vault_file_of_def Let_def split: option.split)
  ultimately show thesis
    using that load_written_leases[OF assms(1), of ?fresh] assms(5) by simp
qed

lemma strip_secret_valid:
  "map_of (vs_leases st') k = map_option strip_secret (map_of (vs_leases st) k) \<Longrightarrow>
   get_valid_lease now k st' = get_valid_lease now k st \<and> backend_identity now k st' = None"
  by (auto simp: get_valid_lease_def backend_identity_def strip_secret_def split: option.splits)

lemma vault_ok_new: "vault_ok (vault_new\<lparr>vs_path := path, vs_encrypt_key := key\<rparr>)"
  by (simp add: vault_ok_def vault_new_def keys_below_def)

lemma vault_run_ok: "vault_step\<^sup>*\<^sup>* w w' \<Longrightarrow> vault_ok (vw_store w) \<Longrightarrow> vault_ok (vw_store w')"
  by (induction rule: rtranclp_induct) (auto intro: vault_step_ok)

section \<open>Tokens\<close>

text \<open>Leases issued in different milliseconds have different tokens, leases of the same millisecond the same.\<close>

lemma portal_token_inj: "a < 2 ^ 64 \<Longrightarrow> b < 2 ^ 64 \<Longrightarrow> portal_token a = portal_token b \<longleftrightarrow> a = b"
  by (simp add: portal_token_def simple_nonce_inj)

lemma issued_token: "access_token (fst (issue_lease E now req tgt w)) = portal_token now"
  by (simp add: issue_lease_def Let_def)

lemma token_lookup_active:
  "get_valid_lease_by_token now token st = Some l \<Longrightarrow> is_active l now \<and> access_token l = token"
  by (auto simp: get_valid_lease_by_token_def find_Some_iff)

section \<open>Two weaknesses\<close>

text \<open>
  Two leases issued in the same millisecond share their access token: after one of them is revoked the
  token still opens a session, with the other lease.
\<close>

lemma same_ms_tokens:
  "access_token (fst (issue_lease E now req tgt w)) = access_token (fst (issue_lease E now req' tgt' w'))"
  by (simp add: issued_token)

text \<open>A revocation whose write fails is reported as done and leaves the file as it was.\<close>

lemma failed_write_keeps_file:
  assumes "ve_io_error E = Some e" "revoke_lease E now lid who w = Inr (l, w')"
  shows "vw_disk w' = vw_disk w"
  using assms
  by (auto simp: revoke_lease_def put_record_def Let_def persist_quietly_def persist_def write_file_locked_def
      split: option.splits if_splits sum.splits)

end
