(* ===== verification/Mysql_Packet.thy ===== *)
theory Mysql_Packet
  imports Wire_Bytes
begin

text \<open>
  The MySQL wire protocol below the result sets (\<open>protocol/mysql/src/util.rs\<close>, \<open>common_packet.rs\<close>,
  \<open>server/codec.rs\<close>, the command writers of \<open>client/codec.rs\<close> and \<open>client/resultset.rs\<close>): length-encoded
  integers and strings, the OK packet, and the packet layer that splits payloads at
  \<open>MAX_PAYLOAD_LEN\<close> and puts them together again from bytes that arrive in pieces.

  Reads through \<open>get_unchecked\<close> and raw pointers are undefined behaviour outside the buffer; the model
  gives them the value \<open>Panic\<close>.  \<open>SHA-1\<close> and \<open>SHA-256\<close> come from a crate and are parameters.
\<close>

unbundle bit_operations_syntax

section \<open>Length-encoded integers and strings\<close>

definition MAX_PAYLOAD_LEN :: nat where "MAX_PAYLOAD_LEN = 2 ^ 24 - 1"

abbreviation (input) OK_HEADER :: nat where "OK_HEADER \<equiv> 0x00"
abbreviation (input) ERR_HEADER :: nat where "ERR_HEADER \<equiv> 0xff"
abbreviation (input) EOF_HEADER :: nat where "EOF_HEADER \<equiv> 0xfe"

definition read_uint :: "bytes \<Rightarrow> nat \<Rightarrow> nat run" where
  "read_uint bs n = (if n \<le> length bs then Done (le_nat (take n bs)) else Panic)"

fun length_encode_int :: "bytes \<Rightarrow> (nat \<times> bool \<times> nat) run" where
  "length_encode_int [] = Panic"
| "length_encode_int (c # bs) =
     (if byte c = 0xfb then Done (0, True, 1)
      else if byte c = 0xfc then run_bind (read_uint bs 2) (\<lambda>n. Done (n, False, 3))
      else if byte c = 0xfd then run_bind (read_uint bs 3) (\<lambda>n. Done (n, False, 4))
      else if byte c = 0xfe then run_bind (read_uint bs 8) (\<lambda>n. Done (n, False, 9))
      else Done (byte c, False, 1))"

definition get_lenc_int :: "bytes \<Rightarrow> ((nat \<times> bool \<times> nat) \<times> bytes) run" where
  "get_lenc_int bs =
     run_bind (get_u8 bs) (\<lambda>(first, r).
       if first = 0xfb then Done ((0, True, 1), r)
       else if first = 0xfc then run_bind (get_uint_le 2 r) (\<lambda>(n, r'). Done ((n, False, 3), r'))
       else if first = 0xfd then run_bind (get_uint_le 3 r) (\<lambda>(n, r'). Done ((n, False, 4), r'))
       else if first = 0xfe then run_bind (get_uint_le 8 r) (\<lambda>(n, r'). Done ((n, False, 9), r'))
       else Done ((first, False, 1), r))"

text \<open>\<open>Read::read\<close> fills what the buffer has; the rest of the zeroed vector stays zero.\<close>

definition get_lenc_str_bytes :: "bytes \<Rightarrow> ((bytes \<times> bool) \<times> bytes) run" where
  "get_lenc_str_bytes bs =
     run_bind (get_lenc_int bs) (\<lambda>((len, is_null, _), r).
       if len < 1 \<or> is_null \<or> r = [] then Done (([CHR 0x00], True), r)
       else if isize_max < len then Panic
       else Done ((take len r @ replicate (len - length r) (CHR 0x00), is_null), drop len r))"

definition skip_lenc_length :: "bytes \<Rightarrow> bytes run" where
  "skip_lenc_length bs = run_bind (get_lenc_int bs) (\<lambda>((len, _, _), r). advance len r)"

definition put_lenc_int :: "64 word \<Rightarrow> bool \<Rightarrow> bytes" where
  "put_lenc_int n isnum =
     (if n = 0 then (if isnum then [CHR 0x00] else [CHR 0xfb])
      else if unat n \<le> 250 then [char_of (unat n)]
      else if unat n \<le> 0xffff then CHR 0xfc # le_bytes 2 (unat n)
      else if unat n \<le> 0xffffff then CHR 0xfd # le_bytes 3 (unat n)
      else CHR 0xfe # le_bytes 8 (unat n))"

definition length_encoded_string :: "bytes \<Rightarrow> ((bytes \<times> bool) \<times> bytes) run" where
  "length_encoded_string bs =
     run_bind (get_lenc_int bs) (\<lambda>((num, is_null, _), r).
       if num < 1 then Done (([CHR 0xfb], is_null), r)
       else if r = [] then Done (([], False), r)
       else run_bind (split_to num r) (\<lambda>(s, r'). Done ((s, False), r')))"

text \<open>The length prefix the encoders write in front of a string or byte vector.\<close>

definition put_lenc_str :: "bytes \<Rightarrow> bytes" where
  "put_lenc_str s = put_lenc_int (of_nat (length s)) False @ s"

definition is_eof :: "bytes \<Rightarrow> bool run" where
  "is_eof data =
     (if length data \<le> 9 then run_bind (at_index data 4) (\<lambda>b. Done (b = EOF_HEADER)) else Done False)"

definition is_ok :: "bytes \<Rightarrow> bool run" where
  "is_ok data =
     (if 7 < length data then run_bind (at_index data 4) (\<lambda>b. Done (b = OK_HEADER)) else Done False)"

definition is_ok_header :: "nat \<Rightarrow> bool" where
  "is_ok_header d = (if d = OK_HEADER then True else False)"

text \<open>Reads three bytes; the callers have checked that there are as many.\<close>

definition get_length :: "bytes \<Rightarrow> nat" where
  "get_length buf = le_nat (take 3 buf)"

definition compare :: "bytes \<Rightarrow> bytes \<Rightarrow> bool" where
  "compare a b \<longleftrightarrow> list_all (\<lambda>(x, y). x = y) (zip a b) \<and> length a = length b"

lemma compare_iff: "compare a b \<longleftrightarrow> a = b"
  by (auto simp: compare_def list_all_length list_eq_iff_nth_eq)

section \<open>Round trips of the length-encoded formats\<close>

lemma unat_less_u64: "unat (n :: 64 word) < 256 ^ 8"
  using unsigned_less [of n, where ?'a = nat] by simp

lemma get_lenc_put_lenc [wire_simps]:
  "get_lenc_int (put_lenc_int n True @ r) =
     Done ((unat n, False, length (put_lenc_int n True)), r)"
proof -
  have r: "get_uint_le k (le_bytes k (unat n) @ r) = Done (unat n, r)" if "unat n < 256 ^ k" for k
    using that by (rule get_uint_le_append)
  show ?thesis
    using r [of 2] r [of 3] r [of 8] unat_less_u64 [of n] unat_eq_0 [of n]
    by (auto simp: get_lenc_int_def put_lenc_int_def)
qed

lemma put_lenc_int_pos: "n \<noteq> 0 \<Longrightarrow> put_lenc_int n False = put_lenc_int n True"
  by (simp add: put_lenc_int_def)

text \<open>The offset-based reader agrees with the consuming one.\<close>

lemma get_lenc_int_eq:
  "get_lenc_int bs = run_bind (length_encode_int bs) (\<lambda>(n, z, k). Done ((n, z, k), drop k bs))"
  by (cases bs) (auto simp: get_lenc_int_def read_uint_def get_uint_le_def eval_nat_numeral)

lemma length_encode_int_size:
  "length_encode_int bs = Done (n, z, k) \<Longrightarrow> 0 < k \<and> k \<le> length bs \<and> n < 2 ^ 64"
proof (cases bs)
  case (Cons c r)
  assume l: "length_encode_int bs = Done (n, z, k)"
  have b: "le_nat (take m r) < 2 ^ 64" if "m \<le> 8" for m
  proof -
    have "le_nat (take m r) < 256 ^ length (take m r)" by (rule le_nat_less)
    also have "\<dots> \<le> 256 ^ 8" using that by (intro power_increasing) auto
    finally show ?thesis by simp
  qed
  have "byte c < 2 ^ 64" by (rule order.strict_trans [OF byte_less]) simp
  then show ?thesis using l Cons b [of 2] b [of 3] b [of 8]
    by (auto simp: read_uint_def split: if_splits)
qed simp

lemma get_lenc_int_size:
  "get_lenc_int bs = Done ((n, z, k), r) \<Longrightarrow> length r < length bs \<and> n < 2 ^ 64"
  using length_encode_int_size [of bs n z k] by (auto simp: get_lenc_int_eq)

definition lenc_ok :: "bytes \<Rightarrow> bool" where
  "lenc_ok s \<longleftrightarrow> s \<noteq> [] \<and> length s \<le> isize_max"

lemma unat_of_nat_length: "length s \<le> isize_max \<Longrightarrow> unat (of_nat (length s) :: 64 word) = length s"
  by (simp add: unat_of_nat take_bit_nat_eq_self isize_max_def)

lemma lenc_ok_prefix:
  assumes "lenc_ok s"
  shows "get_lenc_int (put_lenc_str s @ r) =
    Done ((length s, False, length (put_lenc_int (of_nat (length s)) True)), s @ r)"
proof -
  have "of_nat (length s) \<noteq> (0 :: 64 word)"
    using assms unat_of_nat_length [of s] by (auto simp: lenc_ok_def)
  then show ?thesis using assms get_lenc_put_lenc [of "of_nat (length s)" "s @ r"]
    by (simp add: put_lenc_str_def put_lenc_int_pos unat_of_nat_length lenc_ok_def)
qed

lemma length_encoded_string_put [wire_simps]:
  "lenc_ok s \<Longrightarrow> length_encoded_string (put_lenc_str s @ r) = Done ((s, False), r)"
  by (auto simp: length_encoded_string_def lenc_ok_prefix split_to_append) (auto simp: lenc_ok_def)

lemma get_lenc_str_put [wire_simps]:
  "lenc_ok s \<Longrightarrow> get_lenc_str_bytes (put_lenc_str s @ r) = Done ((s, False), r)"
  by (auto simp: get_lenc_str_bytes_def lenc_ok_prefix) (auto simp: lenc_ok_def)

lemma skip_lenc_put [wire_simps]: "lenc_ok s \<Longrightarrow> skip_lenc_length (put_lenc_str s @ r) = Done r"
  by (simp add: skip_lenc_length_def lenc_ok_prefix advance_append)

text \<open>An empty string is written as the marker of NULL and read back as NULL.\<close>

lemma empty_lenc_str: "get_lenc_str_bytes (put_lenc_str [] @ r) = Done (([CHR 0x00], True), r)"
  by (simp add: get_lenc_str_bytes_def put_lenc_str_def put_lenc_int_def get_lenc_int_def)

lemma put_lenc_int_nonempty [simp]: "put_lenc_int n b \<noteq> []"
  by (simp add: put_lenc_int_def)

interpretation lint: wire_format "\<lambda>n. put_lenc_int n True"
  "\<lambda>bs n r. \<exists>k. get_lenc_int bs = Done ((unat n, False, k), r)" "\<lambda>_. True"
proof
  fix bs r s and x y :: "64 word"
  assume "\<exists>k. get_lenc_int bs = Done ((unat x, False, k), r)" "\<exists>k. get_lenc_int bs = Done ((unat y, False, k), s)"
  then have "unat x = unat y \<and> r = s" by auto
  then show "x = y \<and> r = s" by (simp add: word_unat_eq_iff)
qed (simp_all add: get_lenc_put_lenc)

interpretation lstr: wire_format put_lenc_str
  "\<lambda>bs s r. length_encoded_string bs = Done ((s, False), r)" lenc_ok
proof
  fix x assume "lenc_ok x"
  then show "put_lenc_str x \<noteq> []" by (simp add: put_lenc_str_def)
qed (simp_all add: length_encoded_string_put)

section \<open>The packet layer\<close>

text \<open>
  \<open>PacketCodec\<close>: the payload collected so far, whether a maximal packet was seen, and the sequence
  number, which wraps around.  The handshake codec it carries is not touched here.
\<close>

record packet_codec =
  pk_buf :: bytes
  pk_is_max :: bool
  pk_seq :: "8 word"

definition packet_codec_new :: packet_codec where
  "packet_codec_new = \<lparr>pk_buf = [], pk_is_max = False, pk_seq = 0\<rparr>"

definition reset_seq :: "packet_codec \<Rightarrow> packet_codec" where
  "reset_seq st = st\<lparr>pk_seq := 0\<rparr>"

definition set_seq_id :: "packet_codec \<Rightarrow> bytes \<Rightarrow> nat \<Rightarrow> (packet_codec \<times> bytes) run" where
  "set_seq_id st buf offset =
     (if offset + 3 < length buf
      then Done (st\<lparr>pk_seq := pk_seq st + 1\<rparr>, buf[offset + 3 := char_of (unat (pk_seq st))])
      else Panic)"

definition make_packet_header :: "packet_codec \<Rightarrow> nat \<Rightarrow> bytes \<Rightarrow> nat \<Rightarrow> (packet_codec \<times> bytes) run" where
  "make_packet_header st len data offset =
     (if offset + 3 \<le> length data
      then set_seq_id st (take offset data @ le_bytes 3 len @ drop (offset + 3) data) offset
      else Panic)"

fun encode_full_packets ::
  "packet_codec \<Rightarrow> bytes \<Rightarrow> bytes \<Rightarrow> nat \<Rightarrow> nat list \<Rightarrow> (packet_codec \<times> bytes \<times> nat) run" where
  "encode_full_packets st item dst offset [] = Done (st, dst, offset)"
| "encode_full_packets st item dst offset (i # is) =
     run_bind
       (make_packet_header st MAX_PAYLOAD_LEN
          (dst @ replicate 4 (CHR 0x00) @ take MAX_PAYLOAD_LEN (drop (i * MAX_PAYLOAD_LEN) item)) offset)
       (\<lambda>(st', dst'). encode_full_packets st' item dst' (offset + MAX_PAYLOAD_LEN + 4) is)"

definition encode_packet_offset :: "packet_codec \<Rightarrow> bytes \<Rightarrow> bytes \<Rightarrow> nat \<Rightarrow> (packet_codec \<times> bytes) run" where
  "encode_packet_offset st item dst offset =
     (let num = length item div MAX_PAYLOAD_LEN; remain = length item mod MAX_PAYLOAD_LEN
      in run_bind (encode_full_packets st item dst offset [0..<num]) (\<lambda>(st', dst', offset').
           make_packet_header st' remain
             (dst' @ replicate 4 (CHR 0x00) @ drop (num * MAX_PAYLOAD_LEN) item) offset'))"

definition encode_packet :: "packet_codec \<Rightarrow> bytes \<Rightarrow> bytes \<Rightarrow> (packet_codec \<times> bytes) run" where
  "encode_packet st item dst = encode_packet_offset st item dst 0"

datatype packet_send = SendOrigin bytes | SendEncode bytes | SendEncodeOffset bytes nat

fun packet_encode :: "packet_codec \<Rightarrow> packet_send \<Rightarrow> bytes \<Rightarrow> (packet_codec \<times> bytes) run" where
  "packet_encode st (SendOrigin data) dst = Done (st, dst @ data)"
| "packet_encode st (SendEncode data) dst = encode_packet st data dst"
| "packet_encode st (SendEncodeOffset data offset) dst = encode_packet_offset st data dst offset"

lemma MAX_PAYLOAD_LEN_pos [simp]: "0 < MAX_PAYLOAD_LEN"
  by (simp add: MAX_PAYLOAD_LEN_def)

function packet_decode :: "packet_codec \<Rightarrow> bytes \<Rightarrow> bytes option \<times> packet_codec \<times> bytes" where
  "packet_decode st src =
     (if src = [] \<or> length src < 3 then (None, st, src)
      else let len = get_length src
           in if length src < 4 + len then (None, st, src)
              else let st1 = (if len = MAX_PAYLOAD_LEN then st\<lparr>pk_is_max := True\<rparr> else st);
                       st2 = st1\<lparr>pk_seq := pk_seq st1 + 1, pk_buf := pk_buf st1 @ take len (drop 4 src)\<rparr>;
                       rest = drop len (drop 4 src)
                   in if len < MAX_PAYLOAD_LEN then (Some (pk_buf st2), st2\<lparr>pk_buf := []\<rparr>, rest)
                      else packet_decode st2 rest)"
  by pat_completeness auto
termination
  by (relation "measure (\<lambda>(st, src). length src)") (auto simp: Let_def)

declare packet_decode.simps [simp del]

text \<open>Fixed packets and the error packet; their header is filled in when they are sent.\<close>

definition make_eof_packet :: bytes where
  "make_eof_packet = map char_of [5, 0, 0, 0, 0xfe, 0, 0, 2, 0 :: nat]"

definition ok_packet :: bytes where
  "ok_packet = map char_of [7, 0, 0, 0, 0, 0, 0, 2, 0, 0, 0 :: nat]"

record mysql_error =
  my_code :: "16 word"
  my_state :: bytes
  my_msg :: str

definition make_err_packet :: "mysql_error \<Rightarrow> bytes" where
  "make_err_packet err =
     replicate 4 (CHR 0x00) @ [CHR 0xff]
     @ [char_of (unat (my_code err) mod 256), char_of (unat (drop_bit 8 (my_code err)) mod 256)]
     @ [CHR ''#''] @ my_state err @ [CHR '' ''] @ my_msg err"

text \<open>The commands the proxy sends to a backend: three length bytes, sequence number 0.\<close>

definition write_command_binary :: "nat \<Rightarrow> bytes \<Rightarrow> bytes \<Rightarrow> bytes" where
  "write_command_binary cmd arg dst =
     (let len = length arg + 1
      in dst @ [char_of (len mod 256), char_of (len div 2 ^ 8 mod 256), char_of (len div 2 ^ 16 mod 256),
                CHR 0x00, char_of cmd] @ arg)"

definition write_command :: "nat \<Rightarrow> str \<Rightarrow> bytes \<Rightarrow> bytes" where
  "write_command cmd arg dst =
     (let len = length arg + 1
      in dst @ [char_of (len mod 256), char_of (len div 2 ^ 8 mod 256), char_of (len div 2 ^ 16 mod 256),
                CHR 0x00, char_of cmd] @ arg)"

section \<open>What the packet layer puts on the wire\<close>

text \<open>One packet, and a payload as the packets it is split into; the last one is not maximal.\<close>

definition frame :: "8 word \<Rightarrow> bytes \<Rightarrow> bytes" where
  "frame sq p = le_bytes 3 (length p) @ char_of (unat sq) # p"

fun frames :: "8 word \<Rightarrow> bytes list \<Rightarrow> bytes" where
  "frames sq [] = []"
| "frames sq (p # ps) = frame sq p @ frames (sq + 1) ps"

definition piece :: "bytes \<Rightarrow> nat \<Rightarrow> bytes" where
  "piece item i = take MAX_PAYLOAD_LEN (drop (i * MAX_PAYLOAD_LEN) item)"

definition pieces :: "bytes \<Rightarrow> bytes list" where
  "pieces item = (let num = length item div MAX_PAYLOAD_LEN
     in map (piece item) [0..<num] @ [drop (num * MAX_PAYLOAD_LEN) item])"

lemma length_frame [simp]: "length (frame sq p) = length p + 4"
  by (simp add: frame_def)

lemma frames_append: "frames sq (ps @ qs) = frames sq ps @ frames (sq + of_nat (length ps)) qs"
  by (induction ps arbitrary: sq) (auto simp: algebra_simps)

lemma make_packet_header_end:
  "make_packet_header st (length p) (dst @ replicate 4 (CHR 0x00) @ p) (length dst) =
     Done (st\<lparr>pk_seq := pk_seq st + 1\<rparr>, dst @ frame (pk_seq st) p)"
proof -
  have "replicate 4 (CHR 0x00) = [CHR 0x00, CHR 0x00, CHR 0x00, CHR 0x00]" by code_simp
  moreover have "(dst @ a @ z # p)[length dst + 3 := x] = dst @ a @ x # p" if "length a = 3" for a z x
    using that by (simp add: list_update_append)
  ultimately show ?thesis
    by (simp add: make_packet_header_def set_seq_id_def frame_def)
qed

lemma encode_full_packets_end:
  assumes "\<And>i. i \<in> set is \<Longrightarrow> length (piece item i) = MAX_PAYLOAD_LEN"
  shows "encode_full_packets st item dst (length dst) is =
    Done (st\<lparr>pk_seq := pk_seq st + of_nat (length is)\<rparr>, dst @ frames (pk_seq st) (map (piece item) is),
          length dst + length (frames (pk_seq st) (map (piece item) is)))"
  using assms
proof (induction "is" arbitrary: st dst)
  case (Cons i "is")
  have p: "length (piece item i) = MAX_PAYLOAD_LEN" using Cons.prems by simp
  have h: "make_packet_header st MAX_PAYLOAD_LEN (dst @ replicate 4 (CHR 0x00) @ piece item i) (length dst) =
      Done (st\<lparr>pk_seq := pk_seq st + 1\<rparr>, dst @ frame (pk_seq st) (piece item i))"
    using make_packet_header_end [of st "piece item i" dst] p by simp
  have l: "length dst + MAX_PAYLOAD_LEN + 4 = length (dst @ frame (pk_seq st) (piece item i))" using p by simp
  have h': "make_packet_header st MAX_PAYLOAD_LEN
      (dst @ replicate 4 (CHR 0x00) @ take MAX_PAYLOAD_LEN (drop (i * MAX_PAYLOAD_LEN) item)) (length dst) =
      Done (st\<lparr>pk_seq := pk_seq st + 1\<rparr>, dst @ frame (pk_seq st) (piece item i))"
    using h by (simp add: piece_def)
  show ?case
    unfolding encode_full_packets.simps h' run_bind.simps prod.case l
    by (subst Cons.IH) (use Cons.prems p in \<open>auto simp: algebra_simps\<close>)
qed simp

lemma length_piece: "i < length item div MAX_PAYLOAD_LEN \<Longrightarrow> length (piece item i) = MAX_PAYLOAD_LEN"
proof -
  assume "i < length item div MAX_PAYLOAD_LEN"
  then have "(i + 1) * MAX_PAYLOAD_LEN \<le> length item"
    using div_le_mono less_eq_div_iff_mult_less_eq [of MAX_PAYLOAD_LEN "i + 1" "length item"] by simp
  then show ?thesis by (simp add: piece_def)
qed

theorem encode_packet_offset_frames:
  "encode_packet_offset st item dst (length dst) =
     Done (st\<lparr>pk_seq := pk_seq st + of_nat (length (pieces item))\<rparr>, dst @ frames (pk_seq st) (pieces item))"
proof -
  let ?n = "length item div MAX_PAYLOAD_LEN" and ?rest = "drop (length item div MAX_PAYLOAD_LEN * MAX_PAYLOAD_LEN) item"
  have r: "length item mod MAX_PAYLOAD_LEN = length ?rest" by (simp add: minus_div_mult_eq_mod)
  let ?F = "frames (pk_seq st) (map (piece item) [0..<?n])"
  have e: "encode_full_packets st item dst (length dst) [0..<?n] =
      Done (st\<lparr>pk_seq := pk_seq st + of_nat ?n\<rparr>, dst @ ?F, length (dst @ ?F))"
    using encode_full_packets_end [of "[0..<?n]" item st dst] length_piece by simp
  show ?thesis
    unfolding encode_packet_offset_def Let_def e run_bind.simps prod.case r
    using make_packet_header_end [of "st\<lparr>pk_seq := pk_seq st + of_nat ?n\<rparr>" ?rest "dst @ ?F"]
    by (simp add: pieces_def Let_def frames_append add.assoc add.commute [of 1])
qed

section \<open>Reading packets from a stream\<close>

text \<open>The decoder one packet at a time.\<close>

definition next_packet :: "bytes \<Rightarrow> (bytes \<times> bytes) option" where
  "next_packet src =
     (if length src < 3 \<or> length src < 4 + get_length src then None
      else Some (take (get_length src) (drop 4 src), drop (get_length src) (drop 4 src)))"

definition add_packet :: "packet_codec \<Rightarrow> bytes \<Rightarrow> packet_codec" where
  "add_packet st p = st\<lparr>pk_is_max := pk_is_max st \<or> length p = MAX_PAYLOAD_LEN,
     pk_seq := pk_seq st + 1, pk_buf := pk_buf st @ p\<rparr>"

lemma packet_decode_next:
  "packet_decode st src =
     (case next_packet src of
        None \<Rightarrow> (None, st, src)
      | Some (p, r) \<Rightarrow>
          if length p < MAX_PAYLOAD_LEN
          then (Some (pk_buf (add_packet st p)), (add_packet st p)\<lparr>pk_buf := []\<rparr>, r)
          else packet_decode (add_packet st p) r)"
proof (cases "length src < 3 \<or> length src < 4 + get_length src")
  case True
  then show ?thesis by (subst packet_decode.simps) (auto simp: next_packet_def)
next
  case False
  moreover have "st\<lparr>pk_is_max := True, pk_seq := q, pk_buf := b\<rparr> = st\<lparr>pk_is_max := True, pk_seq := q, pk_buf := b\<rparr>" for q b
    by simp
  moreover have "st\<lparr>pk_is_max := pk_is_max st, pk_seq := q, pk_buf := b\<rparr> = st\<lparr>pk_seq := q, pk_buf := b\<rparr>" for q b
    by (cases st) simp
  moreover have "length (take (get_length src) (drop 4 src)) = get_length src"
    using False by (auto simp: min_def)
  ultimately show ?thesis
    by (subst packet_decode.simps) (auto simp: next_packet_def add_packet_def Let_def simp del: drop_drop)
qed

lemma next_packet_append: "next_packet a = Some (p, r) \<Longrightarrow> next_packet (a @ b) = Some (p, r @ b)"
  by (auto simp: next_packet_def get_length_def split: if_splits)

lemma next_packet_length: "next_packet a = Some (p, r) \<Longrightarrow> length a = 4 + length p + length r"
  by (auto simp: next_packet_def split: if_splits)

lemma next_packet_frame:
  assumes "length p \<le> MAX_PAYLOAD_LEN"
  shows "next_packet (frame sq p @ r) = Some (p, r)"
proof -
  have "get_length (frame sq p @ r) = length p"
    using assms by (simp add: get_length_def frame_def le_nat_le_bytes MAX_PAYLOAD_LEN_def)
  moreover have "drop 4 (frame sq p @ r) = p @ r"
    by (simp add: frame_def)
  moreover have "\<not> (length (frame sq p @ r) < 3 \<or> length (frame sq p @ r) < 4 + length p)" by simp
  ultimately show ?thesis by (simp only: next_packet_def if_False append_eq_conv_conj) simp
qed

lemma packet_decode_frames:
  assumes "\<And>q. q \<in> set ps \<Longrightarrow> length q = MAX_PAYLOAD_LEN" and "length p < MAX_PAYLOAD_LEN"
  shows "packet_decode st (frames sq (ps @ [p]) @ r) =
    (Some (pk_buf st @ concat ps @ p),
     st\<lparr>pk_buf := [], pk_is_max := pk_is_max st \<or> ps \<noteq> [], pk_seq := pk_seq st + of_nat (length ps + 1)\<rparr>, r)"
  using assms
proof (induction ps arbitrary: st sq)
  case Nil
  then show ?case by (subst packet_decode_next) (simp add: next_packet_frame add_packet_def)
next
  case (Cons q ps)
  have "packet_decode st (frames sq ((q # ps) @ [p]) @ r) =
      packet_decode (add_packet st q) (frames (sq + 1) (ps @ [p]) @ r)"
    using Cons.prems(1) [of q] by (subst packet_decode_next) (simp add: next_packet_frame)
  also have "\<dots> = (Some (pk_buf (add_packet st q) @ concat ps @ p),
     (add_packet st q)\<lparr>pk_buf := [], pk_is_max := pk_is_max (add_packet st q) \<or> ps \<noteq> [],
        pk_seq := pk_seq (add_packet st q) + of_nat (length ps + 1)\<rparr>, r)"
    using Cons.prems by (intro Cons.IH) auto
  finally show ?case using Cons.prems(1) [of q] by (simp add: add_packet_def add.assoc)
qed

lemma concat_pieces: "concat (map (piece item) [0..<n]) = take (n * MAX_PAYLOAD_LEN) item"
proof (induction n)
  case (Suc n)
  then show ?case
    using take_add [of "n * MAX_PAYLOAD_LEN" MAX_PAYLOAD_LEN item]
    by (simp add: piece_def add.commute)
qed simp

lemma packet_decode_pieces:
  "packet_decode st (frames sq (pieces item) @ r) =
     (Some (pk_buf st @ item),
      st\<lparr>pk_buf := [], pk_is_max := pk_is_max st \<or> MAX_PAYLOAD_LEN \<le> length item,
         pk_seq := pk_seq st + of_nat (length (pieces item))\<rparr>, r)"
proof -
  let ?n = "length item div MAX_PAYLOAD_LEN"
  have l: "length (drop (?n * MAX_PAYLOAD_LEN) item) < MAX_PAYLOAD_LEN"
    by (simp add: minus_div_mult_eq_mod)
  have n: "0 < ?n \<longleftrightarrow> MAX_PAYLOAD_LEN \<le> length item"
    using MAX_PAYLOAD_LEN_pos by (auto simp: div_greater_zero_iff)
  have ps: "length q = MAX_PAYLOAD_LEN" if "q \<in> set (map (piece item) [0..<?n])" for q
    using that length_piece by auto
  have c: "concat (map (piece item) [0..<?n]) @ drop (?n * MAX_PAYLOAD_LEN) item = item"
    by (simp add: concat_pieces)
  have ne: "map (piece item) [0..<?n] \<noteq> [] \<longleftrightarrow> MAX_PAYLOAD_LEN \<le> length item"
    using n by simp
  have k: "length (map (piece item) [0..<?n]) + 1 = length (pieces item)"
    by (simp add: pieces_def Let_def)
  show ?thesis
    using packet_decode_frames [of "map (piece item) [0..<?n]", OF ps l, of st sq r]
    unfolding c ne k by (simp only: pieces_def Let_def)
qed

text \<open>
  Bytes arrive in pieces: what the decoder does with more input is what it does on the input it has
  already taken, followed by the rest.
\<close>

lemma packet_decode_None:
  "packet_decode st a = (None, st', r) \<Longrightarrow> packet_decode st (a @ b) = packet_decode st' (r @ b)"
proof (induction "length a" arbitrary: st a rule: less_induct)
  case less
  show ?case
  proof (cases "next_packet a")
    case None
    with less.prems show ?thesis by (simp add: packet_decode_next [of st a])
  next
    case (Some x)
    then obtain p s where n: "next_packet a = Some (p, s)" by (cases x) auto
    with less.prems have "\<not> length p < MAX_PAYLOAD_LEN" "packet_decode (add_packet st p) s = (None, st', r)"
      by (auto simp: packet_decode_next [of st a] split: if_splits)
    with less.hyps next_packet_length [OF n] next_packet_append [OF n, of b] show ?thesis
      by (simp add: packet_decode_next [of st "a @ b"])
  qed
qed

lemma packet_decode_Some:
  "packet_decode st a = (Some p, st', r) \<Longrightarrow>
     packet_decode st (a @ b) = (Some p, st', r @ b) \<and> length r < length a"
proof (induction "length a" arbitrary: st a rule: less_induct)
  case less
  then obtain q s where n: "next_packet a = Some (q, s)"
    by (auto simp: packet_decode_next [of st a] split: option.splits)
  note l = next_packet_length [OF n] next_packet_append [OF n, of b]
  show ?case
  proof (cases "length q < MAX_PAYLOAD_LEN")
    case True
    with less.prems n l show ?thesis
      by (auto simp: packet_decode_next [of st a] packet_decode_next [of st "a @ b"])
  next
    case False
    with less.prems n have "packet_decode (add_packet st q) s = (Some p, st', r)"
      by (simp add: packet_decode_next [of st a])
    with less.hyps [of s "add_packet st q"] l False show ?thesis
      by (auto simp: packet_decode_next [of st "a @ b"])
  qed
qed

text \<open>
  The two ways the decoder is driven: until it asks for more input, and after every arrival of bytes.
\<close>

function drain :: "packet_codec \<Rightarrow> bytes \<Rightarrow> bytes list \<times> packet_codec \<times> bytes" where
  "drain st src =
     (case packet_decode st src of
        (None, st', r) \<Rightarrow> ([], st', r)
      | (Some p, st', r) \<Rightarrow> (case drain st' r of (ps, s) \<Rightarrow> (p # ps, s)))"
  by pat_completeness auto
termination
  by (relation "measure (\<lambda>(st, src). length src)")
    (auto dest: packet_decode_Some [where b = "[]", OF sym])

declare drain.simps [simp del]

fun feed :: "packet_codec \<Rightarrow> bytes \<Rightarrow> bytes list \<Rightarrow> bytes list \<times> packet_codec \<times> bytes" where
  "feed st buf [] = ([], st, buf)"
| "feed st buf (c # cs) =
     (case drain st (buf @ c) of (ps, st', r) \<Rightarrow>
        (case feed st' r cs of (qs, s) \<Rightarrow> (ps @ qs, s)))"

lemma drain_append:
  "drain st a = (ps, st', r) \<Longrightarrow>
     drain st (a @ b) = (case drain st' (r @ b) of (qs, s) \<Rightarrow> (ps @ qs, s))"
proof (induction st a arbitrary: ps rule: drain.induct)
  case (1 st src)
  obtain o1 st1 r1 where d: "packet_decode st src = (o1, st1, r1)" by (metis prod_cases3)
  show ?case
  proof (cases o1)
    case None
    with d 1(2) have e: "ps = []" "st' = st1" "r = r1" by (simp_all add: drain.simps [of st src])
    have "packet_decode st (src @ b) = packet_decode st1 (r1 @ b)"
      using packet_decode_None d None by blast
    then have "drain st (src @ b) = drain st1 (r1 @ b)"
      by (simp add: drain.simps [of st "src @ b"] drain.simps [of st1 "r1 @ b"])
    with e show ?thesis by (simp add: split_beta)
  next
    case (Some p)
    obtain qs where q: "drain st1 r1 = (qs, st', r)" "ps = p # qs"
      using 1(2) d Some by (auto simp: drain.simps [of st src] split: prod.splits)
    have "drain st1 (r1 @ b) = (case drain st' (r @ b) of (qs', s) \<Rightarrow> (qs @ qs', s))"
      using 1(1) [OF d [symmetric] Some refl q(1)] .
    moreover have "packet_decode st (src @ b) = (Some p, st1, r1 @ b)"
      using packet_decode_Some d Some by blast
    ultimately show ?thesis using q(2)
      by (simp add: drain.simps [of st "src @ b"] split: prod.splits)
  qed
qed

lemma feed_drain: "cs \<noteq> [] \<Longrightarrow> feed st buf cs = drain st (buf @ concat cs)"
proof (induction cs arbitrary: st buf)
  case (Cons c cs)
  obtain ps st' r where d: "drain st (buf @ c) = (ps, st', r)" by (metis prod_cases3)
  show ?case
  proof (cases "cs = []")
    case True
    with d show ?thesis by simp
  next
    case False
    with Cons.IH [OF False, of st' r] d drain_append [OF d, of "concat cs"] show ?thesis by simp
  qed
qed simp

text \<open>
  A whole response as the executor writes it: each payload is encoded at the end of the buffer, with
  one codec.
\<close>

fun encode_all :: "packet_codec \<Rightarrow> bytes \<Rightarrow> bytes list \<Rightarrow> (packet_codec \<times> bytes) run" where
  "encode_all st dst [] = Done (st, dst)"
| "encode_all st dst (m # ms) =
     run_bind (packet_encode st (SendEncodeOffset m (length dst)) dst)
       (\<lambda>(st', dst'). encode_all st' dst' ms)"

lemma drain_Nil: "drain st [] = ([], st, [])"
  by (simp add: drain.simps packet_decode.simps)

lemma encode_all_drain:
  "\<exists>st' stream. encode_all st dst ms = Done (st', dst @ stream) \<and>
     (pk_buf dec = [] \<longrightarrow> (\<exists>dec'. drain dec stream = (ms, dec', []) \<and> pk_buf dec' = []))"
proof (induction ms arbitrary: st dst dec)
  case Nil
  then show ?case by (auto simp: drain_Nil)
next
  case (Cons m ms)
  define st1 where "st1 = st\<lparr>pk_seq := pk_seq st + of_nat (length (pieces m))\<rparr>"
  define dec1 where "dec1 = dec\<lparr>pk_buf := [], pk_is_max := pk_is_max dec \<or> MAX_PAYLOAD_LEN \<le> length m,
    pk_seq := pk_seq dec + of_nat (length (pieces m))\<rparr>"
  let ?f = "frames (pk_seq st) (pieces m)"
  obtain st' stream where IH: "encode_all st1 (dst @ ?f) ms = Done (st', (dst @ ?f) @ stream)"
    "\<exists>dec'. drain dec1 stream = (ms, dec', []) \<and> pk_buf dec' = []"
    using Cons [of st1 "dst @ ?f" dec1] by (auto simp: dec1_def)
  have "encode_all st dst (m # ms) = Done (st', dst @ ?f @ stream)"
    using IH(1) by (simp add: encode_packet_offset_frames st1_def)
  moreover have "\<exists>dec'. drain dec (?f @ stream) = (m # ms, dec', []) \<and> pk_buf dec' = []" if "pk_buf dec = []"
    using IH(2) that packet_decode_pieces [of dec "pk_seq st" m stream]
    by (subst drain.simps) (auto simp: dec1_def)
  ultimately show ?case by blast
qed

text \<open>A command of the proxy, read by the packet layer of the server it is sent to.\<close>

lemma write_command_frame:
  "write_command_binary cmd arg dst = dst @ frame 0 (char_of cmd # arg)"
proof -
  have "le_bytes 3 n = [char_of (n mod 256), char_of (n div 2 ^ 8 mod 256), char_of (n div 2 ^ 16 mod 256)]" for n
    using div_mult2_eq [of n 256 256] by (simp add: numeral_3_eq_3)
  moreover have "char_of (0 :: nat) = CHR 0x00" by code_simp
  ultimately show ?thesis by (simp add: write_command_binary_def frame_def Let_def)
qed

lemma write_command_same: "write_command = write_command_binary"
  by (simp add: fun_eq_iff write_command_def write_command_binary_def)

lemma write_command_read:
  "length arg + 1 < MAX_PAYLOAD_LEN \<Longrightarrow>
     packet_decode st (write_command_binary cmd arg [] @ r) =
       (Some (pk_buf st @ char_of cmd # arg), st\<lparr>pk_buf := [], pk_seq := pk_seq st + 1\<rparr>, r)"
  using packet_decode_frames [of "[]" "char_of cmd # arg" st 0 r]
  by (simp add: write_command_frame)

section \<open>The OK packet\<close>

definition CLIENT_PROTOCOL_41 :: "32 word" where "CLIENT_PROTOCOL_41 = push_bit 9 1"
definition CLIENT_TRANSACTIONS :: "32 word" where "CLIENT_TRANSACTIONS = push_bit 13 1"
definition CLIENT_SESSION_TRACK :: "32 word" where "CLIENT_SESSION_TRACK = push_bit 23 1"
definition SERVER_SESSION_STATE_CHANGED :: "16 word" where "SERVER_SESSION_STATE_CHANGED = 0x4000"

datatype session_state =
    SystemVariables "(bytes \<times> bytes) list"
  | SsSchema bytes
  | StateChange bool
  | Gtids bytes
  | TransactionCharacteristics bytes
  | TransactionState bytes
  | SsUnknown bytes

text \<open>The loop over the pairs consumes at least two bytes in each turn; the buffer's length is enough fuel.\<close>

fun system_variables :: "nat \<Rightarrow> bytes \<Rightarrow> (bytes \<times> bytes) list \<Rightarrow> (bytes \<times> bytes) list run" where
  "system_variables fuel [] pairs = Done pairs"
| "system_variables 0 payload pairs = Panic"
| "system_variables (Suc fuel) payload pairs =
     run_bind (length_encoded_string payload) (\<lambda>((name, _), r).
       run_bind (length_encoded_string r) (\<lambda>((val, _), r').
         system_variables fuel r' (pairs @ [(name, val)])))"

definition one_string :: "(bytes \<Rightarrow> session_state) \<Rightarrow> bytes \<Rightarrow> session_state run" where
  "one_string f payload = run_bind (length_encoded_string payload) (\<lambda>((s, _), _). Done (f s))"

definition session_state_decode :: "bytes \<Rightarrow> session_state run" where
  "session_state_decode data =
     run_bind (split_to 1 data) (\<lambda>(d, payload0).
       run_bind (get_lenc_int payload0) (\<lambda>((num, _, _), payload1).
         run_bind (split_to num payload1) (\<lambda>(payload, _).
           run_bind (at_index d 0) (\<lambda>t.
             if t = 0 then run_bind (system_variables (length payload) payload []) (\<lambda>ps. Done (SystemVariables ps))
             else if t = 1 then one_string SsSchema payload
             else if t = 2 then one_string (\<lambda>s. StateChange (s = ''1'')) payload
             else if t = 3 then one_string Gtids payload
             else if t = 4 then one_string TransactionCharacteristics payload
             else if t = 5 then one_string TransactionState payload
             else Done (SsUnknown (d @ payload))))))"

record result_ok_info =
  affected_rows :: "64 word"
  last_insert_id :: "64 word"
  ok_status :: "16 word option"
  ok_warnings :: "16 word option"
  ok_info :: "bytes option"
  state_changes :: "session_state option"

definition get_u16_le :: "bytes \<Rightarrow> (16 word \<times> bytes) run" where
  "get_u16_le bs = run_bind (get_uint_le 2 bs) (\<lambda>(n, r). Done (of_nat n, r))"

definition put_u16_le :: "16 word \<Rightarrow> bytes" where
  "put_u16_le w = le_bytes 2 (unat w)"

definition ok_status_fields :: "32 word \<Rightarrow> bytes \<Rightarrow> ((16 word option \<times> 16 word option) \<times> bytes) run" where
  "ok_status_fields capability data =
     (if capability AND CLIENT_PROTOCOL_41 \<noteq> 0 then
        run_bind (get_u16_le data) (\<lambda>(st, r).
          run_bind (get_u16_le r) (\<lambda>(w, r'). Done ((Some st, Some w), r')))
      else if capability AND CLIENT_TRANSACTIONS \<noteq> 0 then
        run_bind (get_u16_le data) (\<lambda>(st, r). Done ((Some st, None), r))
      else Done ((None, None), data))"

definition ok_info_decode :: "32 word \<Rightarrow> bytes \<Rightarrow> result_ok_info run" where
  "ok_info_decode capability data =
     run_bind (get_lenc_int data) (\<lambda>((rows, _, _), r1).
       run_bind (get_lenc_int r1) (\<lambda>((lid, _, _), r2).
         run_bind (ok_status_fields capability r2) (\<lambda>((st, w), r3).
           let ok = \<lparr>affected_rows = of_nat rows, last_insert_id = of_nat lid, ok_status = st,
                     ok_warnings = w, ok_info = None, state_changes = None\<rparr>
           in if r3 = [] then Done ok
              else if capability AND CLIENT_SESSION_TRACK \<noteq> 0 then
                run_bind (length_encoded_string r3) (\<lambda>((info, _), r4).
                  let ok1 = ok\<lparr>ok_info := Some info\<rparr>
                  in case st of
                       None \<Rightarrow> Done ok1
                     | Some status \<Rightarrow>
                         if status AND SERVER_SESSION_STATE_CHANGED \<noteq> 0 then
                           run_bind (get_lenc_int r4) (\<lambda>(_, r5).
                             run_bind (session_state_decode r5) (\<lambda>sc. Done (ok1\<lparr>state_changes := Some sc\<rparr>)))
                         else Done ok1)
              else Done (ok\<lparr>ok_info := Some r3\<rparr>))))"

definition put_status_fields :: "32 word \<Rightarrow> result_ok_info \<Rightarrow> bytes" where
  "put_status_fields capability ok =
     (if capability AND CLIENT_PROTOCOL_41 \<noteq> 0 then
        (case ok_status ok of Some st \<Rightarrow> put_u16_le st | None \<Rightarrow> [])
        @ (case ok_warnings ok of Some w \<Rightarrow> put_u16_le w | None \<Rightarrow> [])
      else if capability AND CLIENT_TRANSACTIONS \<noteq> 0 then
        (case ok_status ok of Some st \<Rightarrow> put_u16_le st | None \<Rightarrow> [])
      else [])"

definition ok_info_encode :: "32 word \<Rightarrow> result_ok_info \<Rightarrow> bytes" where
  "ok_info_encode capability ok =
     [CHR 0x00] @ put_lenc_int (affected_rows ok) True @ put_lenc_int (last_insert_id ok) True
     @ put_status_fields capability ok
     @ (case ok_info ok of Some info \<Rightarrow> put_lenc_str info | None \<Rightarrow> [])"

lemma get_u16_put [wire_simps]: "get_u16_le (put_u16_le w @ r) = Done (w, r)"
proof -
  have "unat w < 256 ^ 2" using unsigned_less [of w, where ?'a = nat] by simp
  then show ?thesis by (simp add: get_u16_le_def put_u16_le_def get_uint_le_append)
qed

text \<open>
  What survives encoding and decoding: status and warnings are there exactly when the capabilities ask
  for them, a text is there, and no session state change was announced.
\<close>

definition ok_info_ok :: "32 word \<Rightarrow> result_ok_info \<Rightarrow> bool" where
  "ok_info_ok capability ok \<longleftrightarrow>
     state_changes ok = None \<and>
     (ok_status ok \<noteq> None \<longleftrightarrow>
        capability AND CLIENT_PROTOCOL_41 \<noteq> 0 \<or> capability AND CLIENT_TRANSACTIONS \<noteq> 0) \<and>
     (ok_warnings ok \<noteq> None \<longleftrightarrow> capability AND CLIENT_PROTOCOL_41 \<noteq> 0) \<and>
     (case ok_info ok of
        None \<Rightarrow> True
      | Some s \<Rightarrow> lenc_ok s \<and> capability AND CLIENT_SESSION_TRACK \<noteq> 0 \<and>
          (case ok_status ok of None \<Rightarrow> True | Some st \<Rightarrow> st AND SERVER_SESSION_STATE_CHANGED = 0))"

lemma ok_status_fields_encode:
  assumes "ok_info_ok capability ok"
  shows "ok_status_fields capability (put_status_fields capability ok @ r) =
    Done ((ok_status ok, ok_warnings ok), r)"
  using assms
  by (auto simp: ok_info_ok_def ok_status_fields_def put_status_fields_def get_u16_put split: option.splits)

lemma ok_info_round_trip:
  assumes "ok_info_ok capability ok"
  shows "ok_info_encode capability ok = CHR 0x00 # tl (ok_info_encode capability ok)"
    and "ok_info_decode capability (tl (ok_info_encode capability ok)) = Done ok"
proof -
  show "ok_info_encode capability ok = CHR 0x00 # tl (ok_info_encode capability ok)"
    by (simp add: ok_info_encode_def)
  note f = ok_status_fields_encode [OF assms]
  show "ok_info_decode capability (tl (ok_info_encode capability ok)) = Done ok"
  proof (cases "ok_info ok")
    case None
    then show ?thesis using f [of "[]"] assms
      by (cases ok) (simp add: Let_def ok_info_encode_def ok_info_decode_def get_lenc_put_lenc ok_info_ok_def)
  next
    case (Some s)
    then have s: "lenc_ok s" "capability AND CLIENT_SESSION_TRACK \<noteq> 0" "put_lenc_str s \<noteq> []"
      "ok_status ok = Some st \<Longrightarrow> st AND SERVER_SESSION_STATE_CHANGED = 0" for st
      using assms by (auto simp: ok_info_ok_def put_lenc_str_def)
    then show ?thesis
      using f [of "put_lenc_str s"] length_encoded_string_put [of s "[]"] Some assms
      by (cases ok) (auto simp: Let_def ok_info_encode_def ok_info_decode_def get_lenc_put_lenc ok_info_ok_def
          split: option.splits)
  qed
qed

end
