(* ===== verification/Mysql_Auth.thy ===== *)
theory Mysql_Auth
  imports Mysql_Packet Charset
begin

text \<open>
  Authentication of the MySQL protocol, on both sides of the proxy: the handshake it offers to clients
  (\<open>protocol/mysql/src/server/auth.rs\<close>) and the one it makes with a backend (\<open>client/auth.rs\<close>), with the
  password scrambles of \<open>util.rs\<close>.

  The hash functions, the RSA operations and the matching of the version string come from crates; they
  are the fields of \<open>mysql_crypto\<close>, passed to the definitions that use them.  \<open>dbg\<close> is the \<open>Debug\<close>
  rendering of a string, used in error texts only.  The random salt and the connection number are
  arguments of the constructor.  Sequence numbers wrap around.
\<close>

unbundle bit_operations_syntax

record 'k mysql_crypto =
  sha1 :: "bytes \<Rightarrow> bytes"
  sha256 :: "bytes \<Rightarrow> bytes"
  public_key_from_pem :: "str \<Rightarrow> 'k option"
  rsa_encrypt :: "'k \<Rightarrow> bytes \<Rightarrow> bytes"
  version_captures :: "str \<Rightarrow> (str \<times> str \<times> str) option"

section \<open>Capabilities\<close>

definition CLIENT_LONG_PASSWORD :: "32 word" where "CLIENT_LONG_PASSWORD = push_bit 0 1"
definition CLIENT_FOUND_ROWS :: "32 word" where "CLIENT_FOUND_ROWS = push_bit 1 1"
definition CLIENT_LONG_FLAG :: "32 word" where "CLIENT_LONG_FLAG = push_bit 2 1"
definition CLIENT_CONNECT_WITH_DB :: "32 word" where "CLIENT_CONNECT_WITH_DB = push_bit 3 1"
definition CLIENT_LOCAL_FILES :: "32 word" where "CLIENT_LOCAL_FILES = push_bit 7 1"
definition CLIENT_IGNORE_SPACE :: "32 word" where "CLIENT_IGNORE_SPACE = push_bit 8 1"
definition CLIENT_INTERACTIVE :: "32 word" where "CLIENT_INTERACTIVE = push_bit 10 1"
definition CLIENT_SSL :: "32 word" where "CLIENT_SSL = push_bit 11 1"
definition CLIENT_SECURE_CONNECTION :: "32 word" where "CLIENT_SECURE_CONNECTION = push_bit 15 1"
definition CLIENT_MULTI_STATEMENTS :: "32 word" where "CLIENT_MULTI_STATEMENTS = push_bit 16 1"
definition CLIENT_MULTI_RESULTS :: "32 word" where "CLIENT_MULTI_RESULTS = push_bit 17 1"
definition CLIENT_PS_MULTI_RESULTS :: "32 word" where "CLIENT_PS_MULTI_RESULTS = push_bit 18 1"
definition CLIENT_PLUGIN_AUTH :: "32 word" where "CLIENT_PLUGIN_AUTH = push_bit 19 1"
definition CLIENT_CONNECT_ATTRS :: "32 word" where "CLIENT_CONNECT_ATTRS = push_bit 20 1"
definition CLIENT_PLUGIN_AUTH_LENENC_CLIENT_DATA :: "32 word" where
  "CLIENT_PLUGIN_AUTH_LENENC_CLIENT_DATA = push_bit 21 1"

lemmas client_flags =
  CLIENT_LONG_PASSWORD_def CLIENT_FOUND_ROWS_def CLIENT_LONG_FLAG_def CLIENT_CONNECT_WITH_DB_def
  CLIENT_LOCAL_FILES_def CLIENT_IGNORE_SPACE_def CLIENT_INTERACTIVE_def CLIENT_SSL_def
  CLIENT_SECURE_CONNECTION_def CLIENT_MULTI_STATEMENTS_def CLIENT_MULTI_RESULTS_def
  CLIENT_PS_MULTI_RESULTS_def CLIENT_PLUGIN_AUTH_def CLIENT_CONNECT_ATTRS_def
  CLIENT_PLUGIN_AUTH_LENENC_CLIENT_DATA_def CLIENT_PROTOCOL_41_def CLIENT_TRANSACTIONS_def
  CLIENT_SESSION_TRACK_def

definition AUTH_NATIVE_PASSWORD :: str where "AUTH_NATIVE_PASSWORD = ''mysql_native_password''"
definition AUTH_CACHING_SHA2_PASSWORD :: str where "AUTH_CACHING_SHA2_PASSWORD = ''caching_sha2_password''"
definition AUTH_SHA256_PASSWORD :: str where "AUTH_SHA256_PASSWORD = ''sha256_password''"

definition DEFAULT_CAPABILITY :: "32 word" where
  "DEFAULT_CAPABILITY =
     CLIENT_LONG_PASSWORD OR CLIENT_LONG_FLAG OR CLIENT_CONNECT_WITH_DB OR CLIENT_PROTOCOL_41
     OR CLIENT_TRANSACTIONS OR CLIENT_SECURE_CONNECTION OR CLIENT_SSL OR CLIENT_FOUND_ROWS
     OR CLIENT_MULTI_STATEMENTS OR CLIENT_PS_MULTI_RESULTS OR CLIENT_LOCAL_FILES OR CLIENT_CONNECT_ATTRS
     OR CLIENT_PLUGIN_AUTH OR CLIENT_INTERACTIVE OR CLIENT_PLUGIN_AUTH_LENENC_CLIENT_DATA"

lemma DEFAULT_CAPABILITY_eq: "DEFAULT_CAPABILITY = 0x3DAE8F"
  unfolding DEFAULT_CAPABILITY_def client_flags by code_simp

definition SERVER_STATUS_AUTOCOMMIT :: "16 word" where "SERVER_STATUS_AUTOCOMMIT = 2"

section \<open>Scrambles\<close>

text \<open>The salt: a drawn byte 0 or \<open>$\<close> is replaced by the next one.\<close>

definition random_buf :: "nat list \<Rightarrow> bytes" where
  "random_buf draws = map (\<lambda>b. char_of (if b = 0 \<or> b = 36 then b + 1 else b)) draws"

lemma random_buf_no_nul:
  "list_all (\<lambda>b. b < 127) draws \<Longrightarrow> CHR 0x00 \<notin> set (random_buf draws) \<and> CHR ''$'' \<notin> set (random_buf draws)"
proof -
  assume d: "list_all (\<lambda>b. b < 127) draws"
  have "byte c \<noteq> 0 \<and> byte c \<noteq> 36" if "c \<in> set (random_buf draws)" for c
    using that d by (auto simp: random_buf_def list_all_iff split: if_splits)
  then show ?thesis by fastforce
qed

definition xor_bytes :: "bytes \<Rightarrow> bytes \<Rightarrow> bytes" where
  "xor_bytes a b = map2 (\<lambda>x y. char_of (byte x XOR byte y)) a b"

definition calc_password :: "'k mysql_crypto \<Rightarrow> bytes \<Rightarrow> bytes \<Rightarrow> bytes" where
  "calc_password X scramble password =
     (if password = [] then []
      else let stage1 = sha1 X password; hash = sha1 X stage1
           in xor_bytes (sha1 X (scramble @ hash)) stage1)"

definition calc_caching_sha2password :: "'k mysql_crypto \<Rightarrow> bytes \<Rightarrow> bytes \<Rightarrow> bytes" where
  "calc_caching_sha2password X scramble password =
     (if password = [] then [CHR 0x00]
      else let message1 = sha256 X password; message1_hash = sha256 X message1
           in xor_bytes message1 (sha256 X (message1_hash @ scramble)))"

datatype my_protocol_error =
    HandshakeError bytes
  | ProtocolVersion nat
  | ServerProtocolVersion
  | TlsError
  | InvalidPacket str bytes
  | AuthFailed bytes
  | AuthPluginUnsupport str
  | IoError str
  | PubKeyError
  | MakeTls str
  | PrepareError bytes
  | PacketError bytes
  | StmtIdNotFound "32 word"
  | DefaultError

section \<open>The server side\<close>

datatype server_handshake_status =
    WriteInitial | ReadResponseFirst | ReadResponse | SwitchToTLS | WriteAutoSwitch
  | ReadAutoSwitchResponse | CompareAuthData | HsComplete

record server_handshake =
  hs_seq :: "8 word"
  hs_server_version :: str
  hs_connection_id :: "32 word"
  hs_capability :: "32 word"
  hs_charset :: str
  hs_salt :: bytes
  hs_status :: "16 word"
  hs_user :: str
  hs_db :: str
  hs_password :: str
  hs_auth_data :: bytes
  hs_auth_plugin_name :: str
  hs_autocommit :: "str option"
  hs_next :: server_handshake_status

definition server_handshake_new ::
  "32 word \<Rightarrow> nat list \<Rightarrow> str \<Rightarrow> str \<Rightarrow> str \<Rightarrow> str \<Rightarrow> server_handshake" where
  "server_handshake_new cid draws user password db version =
     \<lparr>hs_seq = 0, hs_server_version = version, hs_connection_id = cid, hs_capability = 0,
      hs_charset = DEFAULT_CHARSET_NAME, hs_salt = random_buf draws, hs_status = SERVER_STATUS_AUTOCOMMIT,
      hs_user = user, hs_db = db, hs_password = password, hs_auth_data = [], hs_auth_plugin_name = [],
      hs_autocommit = None, hs_next = ReadResponseFirst\<rparr>"

text \<open>The byte \<open>(w >> 8 * k) as u8\<close>.\<close>

definition byte_of :: "nat \<Rightarrow> 32 word \<Rightarrow> char" where
  "byte_of k w = char_of (unat (drop_bit (8 * k) w) mod 256)"

definition encode_initial_handshake :: "server_handshake \<Rightarrow> bytes run" where
  "encode_initial_handshake st =
     (if length (hs_salt st) < 8 then Panic
      else run_bind (lookup COLLATION_NAME_ID_MYSQL5 (hs_charset st)) (\<lambda>charset.
        Done (replicate 4 (CHR 0x00) @ [char_of (10 :: nat)] @ hs_server_version st @ [CHR 0x00]
          @ le_bytes 4 (unat (hs_connection_id st)) @ take 8 (hs_salt st) @ [CHR 0x00]
          @ [byte_of 0 DEFAULT_CAPABILITY, byte_of 1 DEFAULT_CAPABILITY]
          @ [char_of charset]
          @ [char_of (unat (hs_status st) mod 256), char_of (unat (drop_bit 8 (hs_status st)) mod 256)]
          @ [byte_of 2 DEFAULT_CAPABILITY, byte_of 3 DEFAULT_CAPABILITY]
          @ [char_of (21 :: nat)] @ replicate 10 (CHR 0x00) @ drop 8 (hs_salt st) @ [CHR 0x00]
          @ AUTH_NATIVE_PASSWORD @ [CHR 0x00])))"

definition make_auth_err_info :: "(str \<Rightarrow> str) \<Rightarrow> server_handshake \<Rightarrow> bytes" where
  "make_auth_err_info dbg st = make_err_packet \<lparr>my_code = 1045, my_state = ''28000'',
     my_msg = ''Access denied for user '' @ dbg (hs_user st) @ '', (using password: Yes)''\<rparr>"

definition make_schema_err_info :: "(str \<Rightarrow> str) \<Rightarrow> server_handshake \<Rightarrow> bytes" where
  "make_schema_err_info dbg st = make_err_packet \<lparr>my_code = 1049, my_state = ''42000'',
     my_msg = ''Unknown database '' @ dbg (hs_db st)\<rparr>"

definition make_auth_plugin_err_info :: "(str \<Rightarrow> str) \<Rightarrow> server_handshake \<Rightarrow> bytes" where
  "make_auth_plugin_err_info dbg st = make_err_packet \<lparr>my_code = 1045, my_state = ''28000'',
     my_msg = ''unsupport authentication plugin name '' @ dbg (hs_auth_plugin_name st)\<rparr>"

definition make_auth_lenc_err_info :: bytes where
  "make_auth_lenc_err_info = make_err_packet \<lparr>my_code = 1045, my_state = ''28000'',
     my_msg = ''auth data is null''\<rparr>"

text \<open>\<open>split_to\<close> at the first NUL, which \<open>unwrap\<close> demands; the NUL stays in the buffer.\<close>

definition until_nul :: "bytes \<Rightarrow> (bytes \<times> bytes) run" where
  "until_nul data =
     (if CHR 0x00 \<in> set data
      then Done (takeWhile (\<lambda>c. c \<noteq> CHR 0x00) data, dropWhile (\<lambda>c. c \<noteq> CHR 0x00) data)
      else Panic)"

definition from_utf8_unwrap :: "bytes \<Rightarrow> str run" where
  "from_utf8_unwrap bs = (case from_utf8 bs of Inr s \<Rightarrow> Done s | Inl _ \<Rightarrow> Panic)"

definition get_u32_le :: "bytes \<Rightarrow> (32 word \<times> bytes) run" where
  "get_u32_le bs = run_bind (get_uint_le 4 bs) (\<lambda>(n, r). Done (of_nat n, r))"

text \<open>A step of the server: an error (\<open>None\<close> for none), the new state and the rest of the buffer.\<close>

type_synonym hs_step = "(my_protocol_error option \<times> server_handshake \<times> bytes) run"

definition hs_read_auth_data :: "server_handshake \<Rightarrow> bytes \<Rightarrow> ((my_protocol_error + bytes) \<times> bytes) run" where
  "hs_read_auth_data st data =
     (if hs_capability st AND CLIENT_PLUGIN_AUTH_LENENC_CLIENT_DATA \<noteq> 0 then
        run_bind (length_encoded_string data) (\<lambda>((auth_data, is_null), r).
          Done (if is_null then Inl (AuthFailed make_auth_lenc_err_info) else Inr auth_data, r))
      else if hs_capability st AND CLIENT_SECURE_CONNECTION \<noteq> 0 then
        run_bind (get_u8 data) (\<lambda>(n, r). run_bind (split_to n r) (\<lambda>(a, r'). Done (Inr a, r')))
      else
        run_bind (until_nul data) (\<lambda>(a, r). run_bind (get_u8 r) (\<lambda>(_, r'). Done (Inr a, r'))))"

definition hs_read_plugin :: "server_handshake \<Rightarrow> bytes \<Rightarrow> hs_step" where
  "hs_read_plugin st data =
     run_bind
       (if hs_capability st AND CLIENT_PLUGIN_AUTH \<noteq> 0 then
          run_bind (until_nul data) (\<lambda>(p, r).
            run_bind (from_utf8_unwrap p) (\<lambda>name. run_bind (get_u8 r) (\<lambda>_. Done name)))
        else Done AUTH_NATIVE_PASSWORD)
       (\<lambda>name.
          if name \<noteq> AUTH_NATIVE_PASSWORD
          then Done (None, st\<lparr>hs_auth_plugin_name := AUTH_NATIVE_PASSWORD, hs_next := WriteAutoSwitch\<rparr>, [])
          else Done (None, st\<lparr>hs_auth_plugin_name := name, hs_next := CompareAuthData\<rparr>, []))"

definition hs_read_db :: "(str \<Rightarrow> str) \<Rightarrow> server_handshake \<Rightarrow> bytes \<Rightarrow> hs_step" where
  "hs_read_db dbg st data =
     (if hs_capability st AND CLIENT_CONNECT_WITH_DB \<noteq> 0 \<and> data \<noteq> [] then
        run_bind (until_nul data) (\<lambda>(d, r).
          run_bind (from_utf8_unwrap d) (\<lambda>db.
            if hs_db st \<noteq> db
            then Done (Some (AuthFailed (make_schema_err_info dbg (st\<lparr>hs_db := db\<rparr>))), st\<lparr>hs_db := db\<rparr>, r)
            else run_bind (get_u8 r) (\<lambda>(_, r'). hs_read_plugin st r')))
      else hs_read_plugin st data)"

definition decode_handshake_response :: "(str \<Rightarrow> str) \<Rightarrow> server_handshake \<Rightarrow> bytes \<Rightarrow> hs_step" where
  "decode_handshake_response dbg st data =
     run_bind (until_nul data) (\<lambda>(u, r).
       run_bind (from_utf8_unwrap u) (\<lambda>user.
         if user \<noteq> hs_user st
         then Done (Some (AuthFailed (make_auth_err_info dbg (st\<lparr>hs_user := user\<rparr>))), st\<lparr>hs_user := user\<rparr>, r)
         else run_bind (get_u8 r) (\<lambda>(_, r1).
           run_bind (hs_read_auth_data st r1) (\<lambda>(auth, r2).
             case auth of
               Inl e \<Rightarrow> Done (Some e, st, r2)
             | Inr a \<Rightarrow> hs_read_db dbg (st\<lparr>hs_auth_data := a\<rparr>) r2))))"

definition decode_first :: "server_handshake \<Rightarrow> bytes \<Rightarrow> (server_handshake \<times> bytes) run" where
  "decode_first st data =
     run_bind (get_u32_le data) (\<lambda>(cap, r1).
       run_bind (get_u32_le r1) (\<lambda>(_, r2).
         run_bind (get_u8 r2) (\<lambda>(_, r3).
           run_bind (split_to 23 r3) (\<lambda>(_, r4). Done (st\<lparr>hs_capability := cap\<rparr>, r4)))))"

definition generate_auth_switch_request :: "server_handshake \<Rightarrow> bytes" where
  "generate_auth_switch_request st =
     replicate 4 (CHR 0x00) @ [char_of EOF_HEADER] @ hs_auth_plugin_name st @ [CHR 0x00]
     @ hs_salt st @ [CHR 0x00]"

definition compare_auth_data ::
  "'k mysql_crypto \<Rightarrow> (str \<Rightarrow> str) \<Rightarrow> server_handshake \<Rightarrow> my_protocol_error option \<times> server_handshake" where
  "compare_auth_data X dbg st =
     (let st' = st\<lparr>hs_next := HsComplete\<rparr>
      in if hs_auth_plugin_name st = AUTH_NATIVE_PASSWORD then
           (if \<not> compare (hs_auth_data st) (calc_password X (hs_salt st) (hs_password st))
            then (Some (AuthFailed (make_auth_err_info dbg st')), st') else (None, st'))
         else (Some (AuthFailed (make_auth_plugin_err_info dbg st')), st'))"

definition handle_auth_switch_response ::
  "'k mysql_crypto \<Rightarrow> (str \<Rightarrow> str) \<Rightarrow> server_handshake \<Rightarrow> bytes \<Rightarrow> my_protocol_error option \<times> server_handshake" where
  "handle_auth_switch_response X dbg st data =
     (let st' = st\<lparr>hs_next := HsComplete\<rparr>
      in if hs_auth_plugin_name st = AUTH_NATIVE_PASSWORD then
           (if \<not> compare (calc_password X (hs_salt st) (hs_password st)) data
            then (Some (AuthFailed (make_auth_err_info dbg st')), st') else (None, st'))
         else (Some (AuthFailed (make_auth_plugin_err_info dbg st')), st'))"

definition hs_decode_response :: "'k mysql_crypto \<Rightarrow> (str \<Rightarrow> str) \<Rightarrow> server_handshake \<Rightarrow> bytes \<Rightarrow> hs_step" where
  "hs_decode_response X dbg st src =
     run_bind (decode_handshake_response dbg st src) (\<lambda>(e, st1, r).
       if e \<noteq> None then Done (e, st1, r)
       else if hs_next st1 = CompareAuthData
       then (let (e', st2) = compare_auth_data X dbg st1 in Done (e', st2, r))
       else Done (None, st1, r))"

text \<open>\<open>Decoder::decode\<close>: \<open>None\<close> when the packet is not there yet.\<close>

definition hs_decode ::
  "'k mysql_crypto \<Rightarrow> (str \<Rightarrow> str) \<Rightarrow> server_handshake \<Rightarrow> bytes \<Rightarrow>
     (my_protocol_error option \<times> server_handshake \<times> bytes) option run" where
  "hs_decode X dbg st0 src0 =
     (if length src0 < 3 \<or> length src0 < 4 + get_length src0 then Done None
      else let src = drop 4 src0; st = st0\<lparr>hs_seq := hs_seq st0 + 1\<rparr>
           in run_bind
                (case hs_next st of
                   ReadResponseFirst \<Rightarrow>
                     run_bind (decode_first st src) (\<lambda>(st1, r).
                       if r = [] then Done (None, st1\<lparr>hs_next := SwitchToTLS\<rparr>, r)
                       else hs_decode_response X dbg st1 r)
                 | ReadResponse \<Rightarrow>
                     run_bind (decode_first st src) (\<lambda>(st1, r). hs_decode_response X dbg st1 r)
                 | ReadAutoSwitchResponse \<Rightarrow>
                     (let (e, st1) = handle_auth_switch_response X dbg st src in Done (e, st1, src))
                 | _ \<Rightarrow> Done (None, st, src))
                (\<lambda>r. Done (Some r)))"

text \<open>\<open>Encoder::encode\<close> into an empty buffer, which every \<open>send\<close> starts with.\<close>

definition hs_encode :: "server_handshake \<Rightarrow> bytes \<Rightarrow> (server_handshake \<times> bytes) run" where
  "hs_encode st item =
     (if length item < 4 then Panic
      else Done ((if hs_next st = WriteAutoSwitch then st\<lparr>hs_next := ReadAutoSwitchResponse\<rparr> else st)
                   \<lparr>hs_seq := hs_seq st + 1\<rparr>,
                 le_bytes 3 (length item - 4) @ [char_of (unat (hs_seq st))] @ drop 4 item))"

text \<open>Every reading step cuts a piece off the front of the buffer.\<close>

lemma until_nul_cut: "until_nul d = Done (a, r) \<longleftrightarrow> (\<exists>r'. r = CHR 0x00 # r' \<and> d = a @ r) \<and> CHR 0x00 \<notin> set a"
proof
  assume "until_nul d = Done (a, r)"
  then have m: "CHR 0x00 \<in> set d" and a: "a = takeWhile (\<lambda>c. c \<noteq> CHR 0x00) d" "r = dropWhile (\<lambda>c. c \<noteq> CHR 0x00) d"
    by (auto simp: until_nul_def split: if_splits)
  have "r \<noteq> []" using m a(2) by (auto simp: dropWhile_eq_Nil_conv)
  moreover have "hd r = CHR 0x00" using hd_dropWhile [of "\<lambda>c. c \<noteq> CHR 0x00" d] \<open>r \<noteq> []\<close> a(2) by simp
  moreover have "CHR 0x00 \<notin> set a" using a(1) by (auto dest: set_takeWhileD)
  ultimately show "(\<exists>r'. r = CHR 0x00 # r' \<and> d = a @ r) \<and> CHR 0x00 \<notin> set a"
    using a by (metis list.collapse takeWhile_dropWhile_id)
next
  assume "(\<exists>r'. r = CHR 0x00 # r' \<and> d = a @ r) \<and> CHR 0x00 \<notin> set a"
  then obtain r' where d: "r = CHR 0x00 # r'" "d = a @ CHR 0x00 # r'" "CHR 0x00 \<notin> set a" by auto
  then have "takeWhile (\<lambda>c. c \<noteq> CHR 0x00) d = a" "dropWhile (\<lambda>c. c \<noteq> CHR 0x00) d = r"
    by (auto simp: takeWhile_append dropWhile_append)
  with d show "until_nul d = Done (a, r)" by (simp add: until_nul_def)
qed

lemma get_u8_cut: "get_u8 d = Done (n, r) \<longleftrightarrow> (\<exists>c. n = byte c \<and> d = c # r)"
  by (cases d) auto

lemma split_to_cut: "split_to n d = Done (a, r) \<longleftrightarrow> d = a @ r \<and> length a = n"
  by (auto simp: split_to_def)

lemma get_uint_le_suffix: "get_uint_le n d = Done (w, r) \<Longrightarrow> suffix r d"
  by (auto simp: get_uint_le_def suffix_drop split: if_splits)

lemma get_u32_le_suffix: "get_u32_le d = Done (w, r) \<Longrightarrow> suffix r d"
  by (auto simp: get_u32_le_def dest: get_uint_le_suffix)

lemma get_lenc_int_suffix: "get_lenc_int d = Done (x, r) \<Longrightarrow> suffix r d"
  by (auto simp: get_lenc_int_eq suffix_drop)

lemma length_encoded_string_cut:
  assumes "length_encoded_string d = Done ((s, z), r)"
  shows "suffix r d \<and> (s = [CHR 0xfb] \<or> suffix (s @ r) d)"
proof -
  obtain x r1 where g: "get_lenc_int d = Done (x, r1)" and
    s: "(s = [CHR 0xfb] \<and> r = r1) \<or> (s = [] \<and> r = r1) \<or> r1 = s @ r"
    using assms by (auto simp: length_encoded_string_def split_to_cut split: if_splits)
  then have "suffix r1 d" by (auto dest: get_lenc_int_suffix)
  with s show ?thesis by (auto dest: suffix_appendD)
qed

lemma sublist_suffix: "suffix r d \<Longrightarrow> sublist x r \<Longrightarrow> sublist x d"
  by (meson sublist_order.order_trans suffix_imp_sublist)

lemma hs_read_auth_data_cut:
  assumes "hs_read_auth_data st d = Done (a, r)"
  shows "suffix r d \<and> (\<forall>x. a = Inr x \<longrightarrow> x = [CHR 0xfb] \<or> sublist x d)"
proof -
  have m: "sublist x (c # x @ r)" "sublist x (x @ r)" for x and c :: char
    using sublist_appendI [of x "[c]" r] sublist_appendI [of x "[]" r] by simp_all
  show ?thesis using assms
    by (auto simp: hs_read_auth_data_def get_u8_cut split_to_cut until_nul_cut m split: if_splits
        dest!: length_encoded_string_cut intro: suffix_ConsI suffix_appendI sublist_suffix)
qed

lemma hs_read_plugin_cut:
  "hs_read_plugin st d = Done (e, st', r) \<Longrightarrow>
     e = None \<and> r = [] \<and> (\<exists>n. st' = st\<lparr>hs_auth_plugin_name := AUTH_NATIVE_PASSWORD, hs_next := n\<rparr> \<and>
       (n = WriteAutoSwitch \<or> n = CompareAuthData))"
  by (auto simp: hs_read_plugin_def split: if_splits)

lemma hs_read_db_cut:
  "hs_read_db dbg st d = Done (e, st', r) \<Longrightarrow>
     suffix r d \<and> (e = None \<longrightarrow> (\<exists>n. st' = st\<lparr>hs_auth_plugin_name := AUTH_NATIVE_PASSWORD, hs_next := n\<rparr> \<and>
       (n = WriteAutoSwitch \<or> n = CompareAuthData)))"
  by (auto simp: hs_read_db_def until_nul_cut get_u8_cut suffix_def split: if_splits dest!: hs_read_plugin_cut)

lemma from_utf8_unwrap_eq: "from_utf8_unwrap b = Done s \<longleftrightarrow> utf8 b \<and> s = b"
  by (auto simp: from_utf8_unwrap_def from_utf8_Inr_iff split: sum.splits)

lemma decode_handshake_response_cut:
  assumes "decode_handshake_response dbg st d = Done (e, st', r)"
  shows "suffix r d"
    and "e = None \<Longrightarrow> sublist (hs_user st @ [CHR 0x00]) d \<and>
      (\<exists>n a. st' = st\<lparr>hs_auth_data := a, hs_auth_plugin_name := AUTH_NATIVE_PASSWORD, hs_next := n\<rparr> \<and>
        (n = WriteAutoSwitch \<or> n = CompareAuthData) \<and> (a = [CHR 0xfb] \<or> sublist a d))"
proof -
  obtain u r0 where u: "d = u @ CHR 0x00 # r0" and
    c: "(e \<noteq> None \<and> r = CHR 0x00 # r0) \<or>
       (u = hs_user st \<and> (\<exists>auth r2. hs_read_auth_data st r0 = Done (auth, r2) \<and>
          ((\<exists>x. auth = Inl x \<and> e = Some x \<and> r = r2) \<or>
           (\<exists>a. auth = Inr a \<and> hs_read_db dbg (st\<lparr>hs_auth_data := a\<rparr>) r2 = Done (e, st', r)))))"
    using assms
    by (auto simp: decode_handshake_response_def until_nul_cut from_utf8_unwrap_eq get_u8_cut
        sum_case_eq_iff split: if_splits)
  have r0: "suffix r0 d" using u by (auto simp: suffix_def)
  show "suffix r d"
    using c
  proof (elim disjE exE conjE)
    assume "r = CHR 0x00 # r0" then show ?thesis using u by (auto simp: suffix_def)
  next
    fix auth r2 x assume "hs_read_auth_data st r0 = Done (auth, r2)" "r = r2"
    then show ?thesis using hs_read_auth_data_cut r0 by (meson suffix_order.order_trans)
  next
    fix auth r2 a assume "hs_read_auth_data st r0 = Done (auth, r2)"
      "hs_read_db dbg (st\<lparr>hs_auth_data := a\<rparr>) r2 = Done (e, st', r)"
    then show ?thesis using hs_read_auth_data_cut hs_read_db_cut r0 by (meson suffix_order.order_trans)
  qed
  assume "e = None"
  with c obtain auth r2 a where a: "u = hs_user st" "hs_read_auth_data st r0 = Done (auth, r2)" "auth = Inr a"
    "hs_read_db dbg (st\<lparr>hs_auth_data := a\<rparr>) r2 = Done (None, st', r)" by auto
  have "a = [CHR 0xfb] \<or> sublist a d" using hs_read_auth_data_cut [OF a(2)] a(3) r0 sublist_suffix by blast
  moreover have "sublist (hs_user st @ [CHR 0x00]) d" using u a(1) by (auto simp: sublist_def)
  ultimately show "sublist (hs_user st @ [CHR 0x00]) d \<and>
      (\<exists>n a. st' = st\<lparr>hs_auth_data := a, hs_auth_plugin_name := AUTH_NATIVE_PASSWORD, hs_next := n\<rparr> \<and>
        (n = WriteAutoSwitch \<or> n = CompareAuthData) \<and> (a = [CHR 0xfb] \<or> sublist a d))"
    using hs_read_db_cut [OF a(4)] by auto
qed

lemma decode_first_cut: "decode_first st d = Done (st', r) \<Longrightarrow> suffix r d \<and> (\<exists>c. st' = st\<lparr>hs_capability := c\<rparr>)"
  by (auto simp: decode_first_def get_u8_cut split_to_cut dest!: get_u32_le_suffix)
    (metis append_Cons append_assoc suffix_def suffix_order.order_trans)

text \<open>
  What a successful step has established: the identity is untouched, the user name was in the bytes,
  and the handshake is complete only when the scramble of the configured password was there too.
\<close>

definition presented :: "'k mysql_crypto \<Rightarrow> server_handshake \<Rightarrow> bytes \<Rightarrow> bool" where
  "presented X st d \<longleftrightarrow>
     sublist (calc_password X (hs_salt st) (hs_password st)) d \<or> calc_password X (hs_salt st) (hs_password st) = [CHR 0xfb]"

definition same_identity :: "server_handshake \<Rightarrow> server_handshake \<Rightarrow> bool" where
  "same_identity st st' \<longleftrightarrow>
     hs_user st' = hs_user st \<and> hs_salt st' = hs_salt st \<and> hs_password st' = hs_password st"

lemma hs_decode_response_cut:
  assumes "hs_decode_response X dbg st d = Done (e, st', r)"
  shows "suffix r d"
    and "e = None \<Longrightarrow> same_identity st st' \<and> sublist (hs_user st @ [CHR 0x00]) d \<and>
      (hs_next st' = WriteAutoSwitch \<or> hs_next st' = HsComplete \<and> presented X st d)"
proof -
  obtain e1 st1 r1 where d: "decode_handshake_response dbg st d = Done (e1, st1, r1)"
    using assms by (auto simp: hs_decode_response_def)
  have c: "(e1 \<noteq> None \<and> e = e1) \<or> (e1 = None \<and> hs_next st1 = CompareAuthData \<and> compare_auth_data X dbg st1 = (e, st')) \<or>
        (e1 = None \<and> hs_next st1 \<noteq> CompareAuthData \<and> e = None \<and> st' = st1)" and r: "r = r1"
    using assms d by (auto simp: hs_decode_response_def split: if_splits prod.splits)
  show "suffix r d" using decode_handshake_response_cut(1) [OF d] r by simp
  assume "e = None"
  with c have e1: "e1 = None" by auto
  obtain n a where st1: "st1 = st\<lparr>hs_auth_data := a, hs_auth_plugin_name := AUTH_NATIVE_PASSWORD, hs_next := n\<rparr>"
    "n = WriteAutoSwitch \<or> n = CompareAuthData" "a = [CHR 0xfb] \<or> sublist a d"
    "sublist (hs_user st @ [CHR 0x00]) d"
    using decode_handshake_response_cut(2) [OF d e1] by auto
  from c e1 show "same_identity st st' \<and> sublist (hs_user st @ [CHR 0x00]) d \<and>
      (hs_next st' = WriteAutoSwitch \<or> hs_next st' = HsComplete \<and> presented X st d)"
    using st1 \<open>e = None\<close>
    by (auto simp: compare_auth_data_def compare_iff Let_def presented_def same_identity_def split: if_splits)
qed

lemma suffix_drop_header: "suffix r (drop 4 d) \<Longrightarrow> 4 \<le> length d \<Longrightarrow> suffix r d \<and> length r < length d"
  by (auto dest: suffix_length_le intro: suffix_order.order_trans suffix_drop)

lemma hs_decode_cut:
  assumes "hs_decode X dbg st d = Done (Some (e, st', r))"
  shows "suffix r d \<and> length r < length d"
    and "e = None \<Longrightarrow> same_identity st st' \<and>
      (hs_next st = ReadResponseFirst \<and> hs_next st' = SwitchToTLS \<or>
       hs_next st \<in> {ReadResponseFirst, ReadResponse} \<and> sublist (hs_user st @ [CHR 0x00]) d \<and>
         (hs_next st' = WriteAutoSwitch \<or> hs_next st' = HsComplete \<and> presented X st d) \<or>
       hs_next st = ReadAutoSwitchResponse \<and> hs_next st' = HsComplete \<and> presented X st d \<or>
       hs_next st \<notin> {ReadResponseFirst, ReadResponse, ReadAutoSwitchResponse})"
proof -
  let ?st = "st\<lparr>hs_seq := hs_seq st + 1\<rparr>"
  have l: "4 \<le> length d" using assms by (auto simp: hs_decode_def split: if_splits)
  consider
      (tls) st1 where "hs_next st = ReadResponseFirst" "decode_first ?st (drop 4 d) = Done (st1, [])"
        "r = []" "st' = st1\<lparr>hs_next := SwitchToTLS\<rparr>"
    | (resp) st1 r1 where "hs_next st \<in> {ReadResponseFirst, ReadResponse}"
        "decode_first ?st (drop 4 d) = Done (st1, r1)" "hs_decode_response X dbg st1 r1 = Done (e, st', r)"
    | (switch) "hs_next st = ReadAutoSwitchResponse" "r = drop 4 d"
        "handle_auth_switch_response X dbg ?st (drop 4 d) = (e, st')"
    | (other) "hs_next st \<notin> {ReadResponseFirst, ReadResponse, ReadAutoSwitchResponse}" "r = drop 4 d" "st' = ?st"
    using assms
    by (auto simp: hs_decode_def Let_def split: if_splits server_handshake_status.splits prod.splits)
  then have "suffix r d \<and> length r < length d \<and> (e = None \<longrightarrow> same_identity st st' \<and>
      (hs_next st = ReadResponseFirst \<and> hs_next st' = SwitchToTLS \<or>
       hs_next st \<in> {ReadResponseFirst, ReadResponse} \<and> sublist (hs_user st @ [CHR 0x00]) d \<and>
         (hs_next st' = WriteAutoSwitch \<or> hs_next st' = HsComplete \<and> presented X st d) \<or>
       hs_next st = ReadAutoSwitchResponse \<and> hs_next st' = HsComplete \<and> presented X st d \<or>
       hs_next st \<notin> {ReadResponseFirst, ReadResponse, ReadAutoSwitchResponse}))"
  proof cases
    case tls
    with l show ?thesis by (auto simp: same_identity_def dest!: decode_first_cut)
  next
    case resp
    have f: "suffix r1 (drop 4 d)" "\<exists>c. st1 = ?st\<lparr>hs_capability := c\<rparr>"
      using decode_first_cut [OF resp(2)] by auto
    have sd: "suffix r1 d" using f(1) suffix_drop_header l by blast
    have "suffix r (drop 4 d)"
      using hs_decode_response_cut(1) [OF resp(3)] f(1) by (meson suffix_order.order_trans)
    moreover have "same_identity st st' \<and> sublist (hs_user st @ [CHR 0x00]) d \<and>
        (hs_next st' = WriteAutoSwitch \<or> hs_next st' = HsComplete \<and> presented X st d)" if "e = None"
      using hs_decode_response_cut(2) [OF resp(3) that] f(2) sublist_suffix [OF sd]
      by (auto simp: same_identity_def presented_def)
    ultimately show ?thesis using suffix_drop_header l resp(1) by blast
  next
    case switch
    then show ?thesis using l sublist_drop [of 4 d] suffix_drop_header [of "drop 4 d" d]
      by (auto simp: handle_auth_switch_response_def compare_iff Let_def presented_def same_identity_def
          split: if_splits)
  next
    case other
    then show ?thesis using l suffix_drop_header [of "drop 4 d" d] by (auto simp: same_identity_def)
  qed
  then show "suffix r d \<and> length r < length d"
    and "e = None \<Longrightarrow> same_identity st st' \<and>
      (hs_next st = ReadResponseFirst \<and> hs_next st' = SwitchToTLS \<or>
       hs_next st \<in> {ReadResponseFirst, ReadResponse} \<and> sublist (hs_user st @ [CHR 0x00]) d \<and>
         (hs_next st' = WriteAutoSwitch \<or> hs_next st' = HsComplete \<and> presented X st d) \<or>
       hs_next st = ReadAutoSwitchResponse \<and> hs_next st' = HsComplete \<and> presented X st d \<or>
       hs_next st \<notin> {ReadResponseFirst, ReadResponse, ReadAutoSwitchResponse})"
    by blast+
qed

text \<open>
  \<open>handshake\<close>: the client's bytes arrive in chunks; \<open>tls\<close> says whether switching to TLS succeeds.  The
  result is the error or the verdict, the final state and what was sent.  When the stream ends early
  the \<open>unwrap\<close> on the missing packet panics.
\<close>

definition hs_send :: "server_handshake \<Rightarrow> bytes \<Rightarrow> bytes list \<Rightarrow> (server_handshake \<times> bytes list) run" where
  "hs_send st item sent = run_bind (hs_encode st item) (\<lambda>(st', p). Done (st', sent @ [p]))"

function hs_loop ::
  "'k mysql_crypto \<Rightarrow> (str \<Rightarrow> str) \<Rightarrow> bool \<Rightarrow> server_handshake \<Rightarrow> bytes \<Rightarrow> bytes list \<Rightarrow> bytes list \<Rightarrow>
     ((my_protocol_error + bool) \<times> server_handshake \<times> bytes list) run" where
  "hs_loop X dbg tls st buf chunks sent =
     (case hs_decode X dbg st buf of
        Panic \<Rightarrow> Panic
      | Done None \<Rightarrow>
          (case chunks of [] \<Rightarrow> Panic | c # cs \<Rightarrow> hs_loop X dbg tls st (buf @ c) cs sent)
      | Done (Some (Some (AuthFailed data), st1, r)) \<Rightarrow>
          run_bind (hs_send st1 data sent) (\<lambda>(st2, sent'). Done (Inr False, st2, sent'))
      | Done (Some (_, st1, r)) \<Rightarrow>
          (case hs_next st1 of
             SwitchToTLS \<Rightarrow>
               if tls then hs_loop X dbg tls (st1\<lparr>hs_next := ReadResponse\<rparr>) r chunks sent
               else Done (Inl TlsError, st1, sent)
           | WriteAutoSwitch \<Rightarrow>
               (case hs_send st1 (generate_auth_switch_request st1) sent of
                  Panic \<Rightarrow> Panic
                | Done (st2, sent') \<Rightarrow> hs_loop X dbg tls st2 r chunks sent')
           | HsComplete \<Rightarrow>
               run_bind (hs_send st1 ok_packet sent) (\<lambda>(st2, sent'). Done (Inr True, st2, sent'))
           | _ \<Rightarrow> hs_loop X dbg tls st1 r chunks sent))"
  by pat_completeness auto
termination
  by (relation "measure (\<lambda>(X, dbg, tls, st, buf, chunks, sent). length buf + length (concat chunks) + length chunks)")
    (auto dest!: hs_decode_cut(1))

declare hs_loop.simps [simp del]

definition handshake ::
  "'k mysql_crypto \<Rightarrow> (str \<Rightarrow> str) \<Rightarrow> bool \<Rightarrow> server_handshake \<Rightarrow> bytes list \<Rightarrow>
     ((my_protocol_error + bool) \<times> server_handshake \<times> bytes list) run" where
  "handshake X dbg tls st chunks =
     run_bind (encode_initial_handshake st) (\<lambda>initial.
       run_bind (hs_send st initial []) (\<lambda>(st1, sent). hs_loop X dbg tls st1 [] chunks sent))"

text \<open>
  No verdict \<open>true\<close> without the scramble: by induction over the loop, for a state in which the server
  reads.
\<close>

definition reading :: "server_handshake \<Rightarrow> bool" where
  "reading st \<longleftrightarrow> hs_next st \<in> {ReadResponseFirst, ReadResponse, ReadAutoSwitchResponse}"

lemma hs_send_keeps:
  "hs_send st item sent = Done (st', sent') \<Longrightarrow>
     same_identity st st' \<and>
     hs_next st' = (if hs_next st = WriteAutoSwitch then ReadAutoSwitchResponse else hs_next st)"
  by (auto simp: hs_send_def hs_encode_def same_identity_def split: if_splits)

lemma same_identity_trans: "same_identity a b \<Longrightarrow> same_identity b c \<Longrightarrow> same_identity a c"
  by (simp add: same_identity_def)

lemma presented_suffix: "presented X st r \<Longrightarrow> suffix r d \<Longrightarrow> presented X st d"
  by (auto simp: presented_def intro: sublist_suffix)

lemma presented_same: "same_identity st st' \<Longrightarrow> presented X st' = presented X st"
  by (auto simp: presented_def same_identity_def fun_eq_iff)

definition accepted_properly :: "'k mysql_crypto \<Rightarrow> server_handshake \<Rightarrow> bytes \<Rightarrow> bool" where
  "accepted_properly X st d \<longleftrightarrow> presented X st d \<and>
     (hs_next st \<noteq> ReadAutoSwitchResponse \<longrightarrow> sublist (hs_user st @ [CHR 0x00]) d)"

lemma accepted_properly_suffix:
  "accepted_properly X st r \<Longrightarrow> suffix r d \<Longrightarrow> accepted_properly X st d"
  by (auto simp: accepted_properly_def intro: presented_suffix sublist_suffix)

text \<open>Every error of the decoder is a refusal.\<close>

lemma hs_read_db_refuses: "hs_read_db dbg st d = Done (Some err, st', r) \<Longrightarrow> \<exists>b. err = AuthFailed b"
  by (auto simp: hs_read_db_def split: if_splits dest!: hs_read_plugin_cut)

lemma decode_handshake_response_refuses:
  "decode_handshake_response dbg st d = Done (Some err, st', r) \<Longrightarrow> \<exists>b. err = AuthFailed b"
  by (auto simp: decode_handshake_response_def sum_case_eq_iff hs_read_auth_data_def split: if_splits
      dest!: hs_read_db_refuses)

lemma compare_auth_data_refuses: "compare_auth_data X dbg st = (Some err, st') \<Longrightarrow> \<exists>b. err = AuthFailed b"
  by (auto simp: compare_auth_data_def Let_def split: if_splits)

lemma hs_decode_response_refuses:
  "hs_decode_response X dbg st d = Done (Some err, st', r) \<Longrightarrow> \<exists>b. err = AuthFailed b"
  by (auto simp: hs_decode_response_def split: if_splits prod.splits
      dest: compare_auth_data_refuses decode_handshake_response_refuses)

lemma hs_decode_refuses:
  "hs_decode X dbg st d = Done (Some (Some err, st', r)) \<Longrightarrow> \<exists>b. err = AuthFailed b"
  by (auto simp: hs_decode_def Let_def handle_auth_switch_response_def
      split: if_splits server_handshake_status.splits prod.splits dest!: hs_decode_response_refuses)

lemma hs_loop_None:
  "hs_decode X dbg st buf = Done None \<Longrightarrow>
     hs_loop X dbg tls st buf chunks sent =
       (case chunks of [] \<Rightarrow> Panic | c # cs \<Rightarrow> hs_loop X dbg tls st (buf @ c) cs sent)"
  by (subst hs_loop.simps) simp

lemma hs_loop_step:
  "hs_decode X dbg st buf = Done (Some (None, st1, r)) \<Longrightarrow>
     hs_loop X dbg tls st buf chunks sent =
          (case hs_next st1 of
             SwitchToTLS \<Rightarrow>
               if tls then hs_loop X dbg tls (st1\<lparr>hs_next := ReadResponse\<rparr>) r chunks sent
               else Done (Inl TlsError, st1, sent)
           | WriteAutoSwitch \<Rightarrow>
               (case hs_send st1 (generate_auth_switch_request st1) sent of
                  Panic \<Rightarrow> Panic
                | Done (st2, sent') \<Rightarrow> hs_loop X dbg tls st2 r chunks sent')
           | HsComplete \<Rightarrow>
               run_bind (hs_send st1 ok_packet sent) (\<lambda>(st2, sent'). Done (Inr True, st2, sent'))
           | _ \<Rightarrow> hs_loop X dbg tls st1 r chunks sent)"
  by (subst hs_loop.simps) simp

lemma hs_loop_refused:
  "hs_decode X dbg st buf = Done (Some (Some err, st1, r)) \<Longrightarrow>
     hs_loop X dbg tls st buf chunks sent \<noteq> Done (Inr True, st', sent')"
  using hs_decode_refuses [of X dbg st buf err st1 r]
  by (subst hs_loop.simps) auto

lemma hs_loop_accepts:
  assumes "hs_loop X dbg tls st buf chunks sent = Done (Inr True, st', sent')" and "reading st"
  shows "accepted_properly X st (buf @ concat chunks) \<and> same_identity st st'"
  using assms
proof (induction "length buf + length (concat chunks) + length chunks" arbitrary: st buf chunks sent rule: less_induct)
  case less
  show ?case
  proof (cases "hs_decode X dbg st buf")
    case Panic
    with less.prems show ?thesis by (subst (asm) hs_loop.simps) simp
  next
    case (Done o1)
    show ?thesis
    proof (cases o1)
      case None
      with Done less.prems(1) obtain c cs where c: "chunks = c # cs" and
        l: "hs_loop X dbg tls st (buf @ c) cs sent = Done (Inr True, st', sent')"
        by (auto simp: hs_loop_None split: list.splits)
      with less.hyps [OF _ l less.prems(2)] show ?thesis by simp
    next
      case (Some x)
      obtain e st1 r where x: "x = (e, st1, r)" by (cases x)
      have d: "hs_decode X dbg st buf = Done (Some (e, st1, r))" using Done Some x by simp
      have e: "e = None" using d less.prems(1) hs_loop_refused by (cases e) blast+
      note cut = hs_decode_cut [OF d] and run = less.prems(1) [unfolded hs_loop_step [OF d [unfolded e]]]
      have sfx: "suffix (r @ concat chunks) (buf @ concat chunks)" using cut(1) by (auto simp: suffix_def)
      have up: "sublist y buf \<Longrightarrow> sublist y (buf @ concat chunks)" for y
        unfolding sublist_def by (metis append_assoc)
      have IH: "accepted_properly X st2 (r @ concat chunks) \<and> same_identity st2 st'"
        if "hs_loop X dbg tls st2 r chunks sent2 = Done (Inr True, st', sent')" "reading st2" for st2 sent2
        using less.hyps [OF _ that] cut(1) by simp
      have idn: "same_identity st st1" using cut(2) e by blast
      consider (tls) "hs_next st = ReadResponseFirst" "hs_next st1 = SwitchToTLS"
        | (switch) "sublist (hs_user st @ [CHR 0x00]) buf" "hs_next st1 = WriteAutoSwitch"
        | (done1) "sublist (hs_user st @ [CHR 0x00]) buf" "hs_next st1 = HsComplete" "presented X st buf"
        | (done2) "hs_next st = ReadAutoSwitchResponse" "hs_next st1 = HsComplete" "presented X st buf"
        using cut(2) [OF e] less.prems(2) by (auto simp: reading_def)
      then show ?thesis
      proof cases
        case tls
        then have l: "hs_loop X dbg tls (st1\<lparr>hs_next := ReadResponse\<rparr>) r chunks sent = Done (Inr True, st', sent')"
          using run by (auto split: if_splits)
        have "accepted_properly X (st1\<lparr>hs_next := ReadResponse\<rparr>) (r @ concat chunks) \<and>
            same_identity (st1\<lparr>hs_next := ReadResponse\<rparr>) st'"
          using IH [OF l] by (simp add: reading_def)
        then show ?thesis using idn accepted_properly_suffix [OF _ sfx]
          by (auto simp: accepted_properly_def presented_def same_identity_def)
      next
        case switch
        then obtain st2 sent2 where s2: "hs_send st1 (generate_auth_switch_request st1) sent = Done (st2, sent2)"
          and l: "hs_loop X dbg tls st2 r chunks sent2 = Done (Inr True, st', sent')"
          using run by (auto split: run.splits)
        have "reading st2" "same_identity st1 st2"
          using hs_send_keeps [OF s2] switch by (auto simp: reading_def)
        with IH [OF l] idn switch up presented_suffix [OF _ sfx] show ?thesis
          by (auto simp: accepted_properly_def presented_def same_identity_def)
      next
        case done1
        then show ?thesis using run idn up presented_suffix [of X st buf "buf @ concat chunks"]
          by (auto simp: accepted_properly_def presented_def dest!: hs_send_keeps intro: same_identity_trans)
      next
        case done2
        then show ?thesis using run idn up
          by (auto simp: accepted_properly_def presented_def dest!: hs_send_keeps intro: same_identity_trans)
      qed
    qed
  qed
qed

end
