(* ===== verification/Mysql_Client_Auth.thy ===== *)
theory Mysql_Client_Auth
  imports Mysql_Auth
begin

text \<open>
  The handshake the proxy makes with a MySQL backend (\<open>protocol/mysql/src/client/auth.rs\<close>): reading the
  server's greeting, the response with the scramble of the password, switching the authentication method,
  and the states in between.  The last part puts both sides together: the greeting of the proxy's own
  server side is read back, and its response is accepted there.
\<close>

unbundle bit_operations_syntax

section \<open>State\<close>

datatype handshake_state =
    InitialHandshake | WriteHandshake | WriteSslRequest | WriteClearAuth | HandshakeAutoSwitch
  | HandshakeResult | RequestPublicKey | GetPublicKey | WriteAuthPassword

record my_server_version =
  sv_major :: nat
  sv_minor :: nat
  sv_patch :: nat

record client_tls_opts =
  tls_server_name :: str
  accept_invalid_certs :: bool
  tls_ca_file :: "str option"
  require_tls :: bool

record client_auth =
  ca_next :: handshake_state
  ca_connection_id :: "32 word"
  ca_salt :: bytes
  ca_capability :: "32 word"
  ca_client_capability :: "32 word"
  ca_charset :: str
  ca_status :: "16 word"
  ca_plugin :: str
  ca_tls :: "client_tls_opts option"
  ca_user :: str
  ca_password :: str
  ca_db :: str
  ca_seq :: "8 word"
  ca_server_version :: my_server_version
  ca_autocommit :: "str option"

definition client_auth_new :: client_auth where
  "client_auth_new =
     \<lparr>ca_next = InitialHandshake, ca_connection_id = 0, ca_salt = [], ca_capability = 0,
      ca_client_capability = 0, ca_charset = DEFAULT_CHARSET_NAME, ca_status = 0, ca_plugin = [],
      ca_tls = None, ca_user = [], ca_password = [], ca_db = [], ca_seq = 0,
      ca_server_version = \<lparr>sv_major = 0, sv_minor = 0, sv_patch = 0\<rparr>, ca_autocommit = None\<rparr>"

text \<open>A result of the client: an error, or a value, with the new state and the rest of the buffer.\<close>

type_synonym 'a ca_result = "((my_protocol_error + 'a) \<times> client_auth \<times> bytes) run"

section \<open>The greeting of the server\<close>

definition parse_u8 :: "str \<Rightarrow> nat run" where
  "parse_u8 s = (case parse_unsigned 255 s of Some n \<Rightarrow> Done n | None \<Rightarrow> Panic)"

definition server_version_from :: "str \<times> str \<times> str \<Rightarrow> my_server_version run" where
  "server_version_from v =
     (case v of (a, b, c) \<Rightarrow>
        run_bind (parse_u8 a) (\<lambda>major. run_bind (parse_u8 b) (\<lambda>minor. run_bind (parse_u8 c) (\<lambda>patch.
          Done \<lparr>sv_major = major, sv_minor = minor, sv_patch = patch\<rparr>))))"

definition read_version :: "'k mysql_crypto \<Rightarrow> client_auth \<Rightarrow> str \<Rightarrow> client_auth run" where
  "read_version X st version =
     (case version_captures X version of
        None \<Rightarrow> Done st
      | Some caps \<Rightarrow> run_bind (server_version_from caps) (\<lambda>v. Done (st\<lparr>ca_server_version := v\<rparr>)))"

text \<open>The part after the character set, which only newer servers send; \<open>pos\<close> is the index the code
  reuses from the version string.\<close>

definition salt_tail_len :: "nat \<Rightarrow> nat" where
  "salt_tail_len max_len = nat ((int max_len - 8 - 1) mod 256)"

definition read_auth_tail :: "client_auth \<Rightarrow> nat \<Rightarrow> bytes \<Rightarrow> (client_auth \<times> bytes) run" where
  "read_auth_tail st pos data =
     run_bind (split_to 10 data) (\<lambda>(_, r1).
       run_bind (get_u8 r1) (\<lambda>(auth_data_len, r2).
         run_bind
           (if ca_capability st AND CLIENT_PLUGIN_AUTH \<noteq> 0 \<and> auth_data_len > 21 then at_index r2 pos else Done 21)
           (\<lambda>max_len.
              run_bind (split_to (salt_tail_len max_len) r2) (\<lambda>(salt, r3).
                run_bind (split_to 1 r3) (\<lambda>(_, other).
                  let st1 = st\<lparr>ca_salt := ca_salt st @ salt\<rparr>
                  in if ca_capability st AND CLIENT_PLUGIN_AUTH \<noteq> 0 then
                       if other = [] then Panic
                       else run_bind (from_utf8_unwrap (butlast other)) (\<lambda>name. Done (st1\<lparr>ca_plugin := name\<rparr>, []))
                     else Done (st1, other))))))"

definition read_charset_tail :: "client_auth \<Rightarrow> nat \<Rightarrow> bytes \<Rightarrow> (client_auth \<times> bytes) run" where
  "read_charset_tail st pos data =
     run_bind (get_u8 data) (\<lambda>(charset_id, r1).
       run_bind
         (if sv_major (ca_server_version st) = 5 then lookup COLLATION_ID_NAME_MYSQL5 charset_id
          else lookup COLLATION_ID_NAME_MYSQL8 charset_id)
         (\<lambda>charset.
            run_bind (get_u16_le r1) (\<lambda>(status, r2).
              run_bind (get_u16_le r2) (\<lambda>(upper, r3).
                read_auth_tail
                  (st\<lparr>ca_charset := charset, ca_status := status,
                      ca_capability := ca_capability st OR push_bit 16 (ucast upper)\<rparr>)
                  pos r3))))"

definition tls_policy :: "client_auth \<Rightarrow> my_protocol_error + client_auth" where
  "tls_policy st =
     (if ca_capability st AND CLIENT_SSL = 0 then
        case ca_tls st of
          None \<Rightarrow> Inr st
        | Some t \<Rightarrow> if require_tls t then Inl TlsError else Inr (st\<lparr>ca_tls := None\<rparr>)
      else Inr st)"

definition read_capability :: "client_auth \<Rightarrow> nat \<Rightarrow> bytes \<Rightarrow> unit ca_result" where
  "read_capability st0 pos data =
     run_bind (split_to 4 data) (\<lambda>(cid, r1).
       run_bind (split_to 8 r1) (\<lambda>(salt, r2).
         run_bind (split_to 1 r2) (\<lambda>(_, r3).
           run_bind (get_u16_le r3) (\<lambda>(lower, r4).
             let st = st0\<lparr>ca_connection_id := of_nat (le_nat cid), ca_salt := ca_salt st0 @ salt,
                          ca_capability := ucast lower\<rparr>
             in if ca_capability st AND CLIENT_PROTOCOL_41 = 0 then Done (Inl ServerProtocolVersion, st, r4)
                else case tls_policy st of
                       Inl e \<Rightarrow> Done (Inl e, st, r4)
                     | Inr st1 \<Rightarrow>
                         if r4 = [] then Done (Inr (), st1, r4)
                         else run_bind (read_charset_tail st1 pos r4) (\<lambda>(st2, r5). Done (Inr (), st2, r5))))))"

definition read_initial_handshake :: "'k mysql_crypto \<Rightarrow> client_auth \<Rightarrow> bytes \<Rightarrow> unit ca_result" where
  "read_initial_handshake X st data =
     run_bind (at_index data 0) (\<lambda>b.
       if b = ERR_HEADER then Done (Inl (HandshakeError data), st, data)
       else if b < 10 then Done (Inl (ProtocolVersion b), st, data)
       else run_bind (until_nul (drop 1 data)) (\<lambda>(version, r).
         run_bind (from_utf8_unwrap (version @ [CHR 0x00])) (\<lambda>v.
           run_bind (read_version X st v) (\<lambda>st1. read_capability st1 (length version) (drop 1 r)))))"

section \<open>The response\<close>

definition gen_auth_response :: "'k mysql_crypto \<Rightarrow> client_auth \<Rightarrow> bytes \<Rightarrow> (my_protocol_error + bytes) run" where
  "gen_auth_response X st auth_data =
     (if ca_plugin st = AUTH_NATIVE_PASSWORD then
        run_bind (sub_range auth_data 0 20) (\<lambda>a. Done (Inr (calc_password X a (ca_password st))))
      else if ca_plugin st = AUTH_CACHING_SHA2_PASSWORD then
        Done (Inr (calc_caching_sha2password X auth_data (ca_password st)))
      else if ca_plugin st = AUTH_SHA256_PASSWORD then
        Done (Inr (if ca_password st = [] then [CHR 0x00]
                   else if ca_tls st \<noteq> None then ca_password st @ [CHR 0x00]
                   else [CHR 0x01]))
      else Done (Inl (AuthPluginUnsupport (ca_plugin st))))"

definition response_capability :: "client_auth \<Rightarrow> bytes \<Rightarrow> 32 word" where
  "response_capability st lenc =
     (CLIENT_PROTOCOL_41 OR CLIENT_SECURE_CONNECTION OR CLIENT_LONG_PASSWORD OR CLIENT_TRANSACTIONS
      OR CLIENT_PLUGIN_AUTH OR ca_capability st AND CLIENT_LONG_FLAG)
     OR (ca_client_capability st AND CLIENT_FOUND_ROWS
      OR ca_client_capability st AND CLIENT_IGNORE_SPACE
      OR ca_client_capability st AND CLIENT_MULTI_STATEMENTS
      OR ca_client_capability st AND CLIENT_MULTI_RESULTS
      OR ca_client_capability st AND CLIENT_PS_MULTI_RESULTS
      OR ca_client_capability st AND CLIENT_CONNECT_ATTRS)
     OR (if ca_tls st \<noteq> None then CLIENT_SSL else 0)
     OR (if 1 < length lenc then CLIENT_PLUGIN_AUTH_LENENC_CLIENT_DATA else 0)
     OR (if ca_db st \<noteq> [] then CLIENT_CONNECT_WITH_DB else 0)"

definition write_auth_handshake :: "'k mysql_crypto \<Rightarrow> client_auth \<Rightarrow> (my_protocol_error + bytes \<times> bool) run" where
  "write_auth_handshake X st =
     run_bind (gen_auth_response X st (ca_salt st)) (\<lambda>res.
       case res of
         Inl e \<Rightarrow> Done (Inl e)
       | Inr auth \<Rightarrow>
           let lenc = put_lenc_int (of_nat (length auth)) False;
               capability = response_capability st lenc
           in run_bind
                (if sv_major (ca_server_version st) = 5 then lookup COLLATION_NAME_ID_MYSQL5 DEFAULT_CHARSET_NAME
                 else lookup COLLATION_NAME_ID_MYSQL8 DEFAULT_CHARSET_NAME)
                (\<lambda>charset.
                   Done (Inr
                     ([byte_of 0 capability, byte_of 1 capability, byte_of 2 capability, byte_of 3 capability]
                      @ [CHR 0x00, CHR 0x00, CHR 0x00, CHR 0x01] @ [char_of charset] @ replicate 23 (CHR 0x00)
                      @ ca_user st @ [CHR 0x00] @ lenc @ auth @ ca_plugin st @ [CHR 0x00],
                      ca_tls st \<noteq> None))))"

section \<open>The server's answer\<close>

definition decode_handshake_result :: "client_auth \<Rightarrow> bytes \<Rightarrow> ((my_protocol_error + bytes option) \<times> client_auth \<times> bytes) run" where
  "decode_handshake_result st data =
     run_bind (at_index data 4) (\<lambda>b.
       if b = OK_HEADER then Done (Inr None, st, data)
       else if b = 1 then
         run_bind (split_to (4 + get_length data) data) (\<lambda>(p, r).
           run_bind (split_to 5 p) (\<lambda>(_, payload). Done (Inr (Some payload), st, r)))
       else if b = EOF_HEADER then
         (let d = drop 5 data
          in if CHR 0x00 \<in> set d then
               run_bind (until_nul d) (\<lambda>(name, r).
                 run_bind (from_utf8_unwrap name) (\<lambda>plugin.
                   run_bind (split_to 20 (drop 1 r)) (\<lambda>(auth_data, _).
                     Done (Inr (Some auth_data), st\<lparr>ca_plugin := plugin, ca_salt := auth_data\<rparr>, []))))
             else Done (Inl (InvalidPacket ''decode_handshake_result'' d), st, d))
       else if b = ERR_HEADER then Done (Inl (AuthFailed data), st, data)
       else Done (Inl (HandshakeError data), st, data))"

definition encrypt_password :: "'k mysql_crypto \<Rightarrow> bytes \<Rightarrow> bytes \<Rightarrow> 'k \<Rightarrow> bytes run" where
  "encrypt_password X password salt key =
     (if salt = [] then Panic
      else Done (rsa_encrypt X key
        (map (\<lambda>(i, v). char_of (byte v XOR byte (salt ! (i mod length salt))))
             (enumerate 0 (password @ [CHR 0x00])))))"

definition handle_auth_data ::
  "'k mysql_crypto \<Rightarrow> client_auth \<Rightarrow> bytes \<Rightarrow> ((my_protocol_error + (handshake_state \<times> bytes) option) \<times> client_auth) run" where
  "handle_auth_data X st data =
     (if ca_plugin st = AUTH_CACHING_SHA2_PASSWORD then
        case data of
          [] \<Rightarrow> Done (Inr None, st)
        | c # _ \<Rightarrow>
            if byte c = 3 then Done (Inr None, st)
            else if byte c = 4 then
              if ca_tls st \<noteq> None then Done (Inr (Some (WriteClearAuth, ca_password st @ [CHR 0x00])), st)
              else Done (Inr (Some (RequestPublicKey, [CHR 0x02])), st\<lparr>ca_next := RequestPublicKey\<rparr>)
            else Done (Inl (InvalidPacket ''handle_auth_data'' data), st)
      else if ca_plugin st = AUTH_SHA256_PASSWORD then
        if data = [] then Done (Inr None, st)
        else run_bind (from_utf8_unwrap data) (\<lambda>pem.
          case public_key_from_pem X pem of
            None \<Rightarrow> Panic
          | Some key \<Rightarrow> run_bind (encrypt_password X (ca_password st) (ca_salt st) key) (\<lambda>enc.
              Done (Inr (Some (WriteAuthPassword, enc)), st)))
      else if ca_plugin st = AUTH_NATIVE_PASSWORD then
        Done (Inr (Some (WriteAuthPassword, calc_password X data (ca_password st))), st)
      else Done (Inl (AuthPluginUnsupport (ca_plugin st)), st))"

section \<open>The decoder and the encoder\<close>

datatype decoder_return =
    DrInitialHandshake bytes
  | DrWriteSslRequest bytes
  | DrWriteClearAuth bytes
  | DrAuthSwitch "bytes option"
  | DrAuthSuccess
  | DrRequestPublicKey bytes
  | DrEncryptPassword bytes

type_synonym ca_step = "decoder_return option ca_result"

definition decode_greeting :: "'k mysql_crypto \<Rightarrow> client_auth \<Rightarrow> bytes \<Rightarrow> ca_step" where
  "decode_greeting X st data =
     run_bind (split_to 4 data) (\<lambda>(_, d).
       run_bind (read_initial_handshake X st d) (\<lambda>(res, st1, r).
         case res of
           Inl e \<Rightarrow> Done (Inl e, st1, r)
         | Inr _ \<Rightarrow>
             run_bind (write_auth_handshake X st1) (\<lambda>w.
               case w of
                 Inl e \<Rightarrow> Done (Inl e, st1, r)
               | Inr (h, True) \<Rightarrow> Done (Inr (Some (DrWriteSslRequest h)), st1\<lparr>ca_next := WriteSslRequest\<rparr>, r)
               | Inr (h, False) \<Rightarrow> Done (Inr (Some (DrInitialHandshake h)), st1\<lparr>ca_next := WriteHandshake\<rparr>, r))))"

definition decode_auto_switch :: "'k mysql_crypto \<Rightarrow> client_auth \<Rightarrow> bytes \<Rightarrow> ca_step" where
  "decode_auto_switch X st data =
     run_bind (decode_handshake_result st data) (\<lambda>(res, st1, r).
       case res of
         Inl e \<Rightarrow> Done (Inl e, st1, r)
       | Inr None \<Rightarrow> Done (Inr (Some (DrAuthSwitch None)), st1\<lparr>ca_next := HandshakeResult\<rparr>, r)
       | Inr (Some auth_data) \<Rightarrow>
           run_bind (handle_auth_data X st1 auth_data) (\<lambda>(h, st2).
             case h of
               Inl e \<Rightarrow> Done (Inl e, st2, r)
             | Inr None \<Rightarrow> Done (Inr (Some (DrAuthSwitch (Some auth_data))), st2\<lparr>ca_next := HandshakeResult\<rparr>, r)
             | Inr (Some (RequestPublicKey, d)) \<Rightarrow> Done (Inr (Some (DrRequestPublicKey d)), st2, r)
             | Inr (Some (WriteClearAuth, d)) \<Rightarrow>
                 Done (Inr (Some (DrWriteClearAuth d)), st2\<lparr>ca_next := HandshakeResult\<rparr>, r)
             | Inr (Some (WriteAuthPassword, d)) \<Rightarrow>
                 Done (Inr (Some (DrEncryptPassword d)), st2\<lparr>ca_next := HandshakeResult\<rparr>, r)
             | Inr (Some (_, d)) \<Rightarrow> Panic))"

definition client_decode :: "'k mysql_crypto \<Rightarrow> client_auth \<Rightarrow> bytes \<Rightarrow> ca_step" where
  "client_decode X st0 data =
     (if data = [] then Done (Inr None, st0, data)
      else let st = st0\<lparr>ca_seq := of_char (if length data \<le> 3 then last data else data ! 3)\<rparr>
           in case ca_next st of
                InitialHandshake \<Rightarrow> decode_greeting X st data
              | HandshakeAutoSwitch \<Rightarrow> decode_auto_switch X st data
              | GetPublicKey \<Rightarrow>
                  run_bind (split_to 5 data) (\<lambda>(_, d).
                    run_bind (from_utf8_unwrap d) (\<lambda>pem.
                      case public_key_from_pem X pem of
                        None \<Rightarrow> Done (Inl PubKeyError, st\<lparr>ca_next := WriteAuthPassword\<rparr>, d)
                      | Some key \<Rightarrow> run_bind (encrypt_password X (ca_password st) (ca_salt st) key) (\<lambda>enc.
                          Done (Inr (Some (DrEncryptPassword enc)), st\<lparr>ca_next := WriteAuthPassword\<rparr>, []))))
              | HandshakeResult \<Rightarrow>
                  run_bind (is_ok data) (\<lambda>ok.
                    if ok then Done (Inr (Some DrAuthSuccess), st, []) else Done (Inl (AuthFailed data), st, data))
              | _ \<Rightarrow> Done (Inr None, st, data))"

text \<open>\<open>Encoder::encode\<close>; the header of a TLS request is fixed, its body is cut to 32 bytes.\<close>

definition client_encode :: "client_auth \<Rightarrow> bytes \<Rightarrow> (client_auth \<times> bytes) run" where
  "client_encode st0 item =
     (let st = st0\<lparr>ca_seq := ca_seq st0 + 1\<rparr>; sq = char_of (unat (ca_seq st));
          packet = le_bytes 3 (length item) @ [sq] @ item
      in case ca_next st of
           WriteHandshake \<Rightarrow> Done (st\<lparr>ca_next := HandshakeAutoSwitch\<rparr>, packet)
         | WriteSslRequest \<Rightarrow>
             run_bind (sub_range item 0 32) (\<lambda>body.
               Done (st\<lparr>ca_next := WriteHandshake\<rparr>, le_bytes 3 32 @ [sq] @ body))
         | RequestPublicKey \<Rightarrow> Done (st\<lparr>ca_next := GetPublicKey\<rparr>, packet)
         | WriteAuthPassword \<Rightarrow> Done (st\<lparr>ca_next := HandshakeResult\<rparr>, packet)
         | _ \<Rightarrow> Done (st, packet))"

lemma ssl_request_length: "le_bytes 3 32 = [CHR 0x20, CHR 0x00, CHR 0x00]"
  by (simp add: numeral_3_eq_3 char_of_def bit_0)

section \<open>The password stays hidden without TLS\<close>

text \<open>
  A server that cannot do TLS is left when TLS is required, before anything is written; without TLS no
  authentication method sends the password itself.
\<close>

lemma read_auth_tail_tls: "read_auth_tail st pos d = Done (st', r) \<Longrightarrow> ca_tls st' = ca_tls st"
  by (cases "ca_capability st AND CLIENT_PLUGIN_AUTH = 0")
    (clarsimp simp: read_auth_tail_def Let_def if_Panic_iff)+

lemma read_charset_tail_tls: "read_charset_tail st pos d = Done (st', r) \<Longrightarrow> ca_tls st' = ca_tls st"
proof -
  assume "read_charset_tail st pos d = Done (st', r)"
  then obtain cs status upper r3 where
    "read_auth_tail (st\<lparr>ca_charset := cs, ca_status := status,
       ca_capability := ca_capability st OR push_bit 16 (ucast (upper :: 16 word))\<rparr>) pos r3 = Done (st', r)"
    by (auto simp: read_charset_tail_def)
  then show ?thesis by (auto dest!: read_auth_tail_tls)
qed

lemma read_capability_tls:
  assumes "ca_tls st0 = Some t" and "require_tls t"
    and "read_capability st0 pos data = Done (Inr (), st, r)"
  shows "ca_tls st = Some t"
  using assms
  by (auto simp: read_capability_def Let_def tls_policy_def sum_case_eq_iff split: if_splits
      dest!: read_charset_tail_tls)

lemma read_version_tls: "read_version X st v = Done st' \<Longrightarrow> ca_tls st' = ca_tls st"
  by (auto simp: read_version_def split: option.splits)

lemma read_initial_handshake_tls:
  assumes "ca_tls st0 = Some t" and "require_tls t"
    and "read_initial_handshake X st0 data = Done (Inr (), st, r)"
  shows "ca_tls st = Some t"
  using assms
  by (auto simp: read_initial_handshake_def split: if_splits dest!: read_version_tls)
    (metis read_capability_tls)

lemma write_auth_handshake_tls: "write_auth_handshake X st = Done (Inr (h, b)) \<Longrightarrow> b = (ca_tls st \<noteq> None)"
  by (auto simp: write_auth_handshake_def sum_case_eq_iff Let_def)

lemma required_tls_is_requested:
  assumes "ca_tls st = Some t" and "require_tls t"
    and "decode_greeting X st data = Done (Inr x, st', r)"
  shows "\<exists>h. x = Some (DrWriteSslRequest h)"
proof -
  obtain d d' res st1 r1 where g: "split_to 4 data = Done (d', d)" "read_initial_handshake X st d = Done (res, st1, r1)"
    using assms(3) by (auto simp: decode_greeting_def)
  then have res: "res = Inr ()" using assms(3) by (cases res) (auto simp: decode_greeting_def)
  have tls: "ca_tls st1 = Some t" using read_initial_handshake_tls assms(1,2) g(2) res by blast
  obtain h where w: "write_auth_handshake X st1 = Done (Inr (h, True)) \<or> write_auth_handshake X st1 = Done (Inr (h, False))"
    using assms(3) g res by (auto simp: decode_greeting_def sum_case_eq_iff split: bool.splits)
  then have "write_auth_handshake X st1 = Done (Inr (h, True))" using write_auth_handshake_tls tls by fastforce
  with assms(3) g res show ?thesis by (auto simp: decode_greeting_def)
qed

text \<open>After the greeting, the cleartext password is only ever sent when the connection is a TLS one.\<close>

lemma handle_auth_data_clear:
  "handle_auth_data X st d = Done (Inr (Some (WriteClearAuth, p)), st') \<Longrightarrow> ca_tls st \<noteq> None \<and> st' = st"
  by (auto simp: handle_auth_data_def split: if_splits list.splits option.splits)

lemma decode_handshake_result_tls: "decode_handshake_result st d = Done (x, st', r) \<Longrightarrow> ca_tls st' = ca_tls st"
  by (auto simp: decode_handshake_result_def Let_def split: if_splits)

lemma clear_password_only_under_tls:
  assumes "decode_auto_switch X st data = Done (Inr (Some (DrWriteClearAuth p)), st', r)"
  shows "ca_tls st \<noteq> None"
proof -
  obtain res st1 r1 where d: "decode_handshake_result st data = Done (res, st1, r1)"
    using assms by (auto simp: decode_auto_switch_def)
  with assms obtain a where a: "res = Inr (Some a)"
    by (auto simp: decode_auto_switch_def sum_case_eq_iff option_case_eq_iff)
  obtain h st2 where h: "handle_auth_data X st1 a = Done (h, st2)"
    using assms d a by (auto simp: decode_auto_switch_def)
  have "\<exists>p. h = Inr (Some (WriteClearAuth, p))"
  proof (cases h)
    case (Inr v)
    show ?thesis
    proof (cases v)
      case (Some w)
      obtain s p where "w = (s, p)" by (cases w)
      with assms d a h Inr Some show ?thesis
        by (cases s) (simp_all add: decode_auto_switch_def)
    qed (use assms d a h Inr in \<open>simp add: decode_auto_switch_def\<close>)
  qed (use assms d a h in \<open>simp add: decode_auto_switch_def\<close>)
  with h have "ca_tls st1 \<noteq> None" using handle_auth_data_clear by blast
  with decode_handshake_result_tls [OF d] show ?thesis by simp
qed

section \<open>Both sides together\<close>

text \<open>The greeting of the server side, read by the client side.\<close>

lemma le_bytes_2: "le_bytes 2 n = [char_of (n mod 256), char_of (n div 256 mod 256)]"
  by (simp add: numeral_2_eq_2)

lemma le_bytes_4:
  "le_bytes 4 n = [char_of (n mod 256), char_of (n div 2 ^ 8 mod 256), char_of (n div 2 ^ 16 mod 256),
     char_of (n div 2 ^ 24 mod 256)]"
proof -
  have "(4 :: nat) = Suc (Suc (Suc (Suc 0)))" by simp
  then have "le_bytes 4 n = [char_of (n mod 256), char_of (n div 256 mod 256), char_of (n div 256 div 256 mod 256),
     char_of (n div 256 div 256 div 256 mod 256)]" by (simp only: le_bytes.simps)
  then show ?thesis by (simp add: div_mult2_eq [symmetric])
qed

lemma byte_of_div: "byte_of k w = char_of (unat w div 2 ^ (8 * k) mod 256)"
  unfolding byte_of_def unat_drop_bit_eq by (simp add: drop_bit_eq_div)

lemma byte_of_le: "byte_of 0 w # byte_of 1 w # byte_of 2 w # byte_of 3 w # r = le_bytes 4 (unat w) @ r"
  by (simp add: byte_of_div le_bytes_4)

lemma put_u16_bytes: "char_of (unat w mod 256) # char_of (unat (drop_bit 8 (w :: 16 word)) mod 256) # r = put_u16_le w @ r"
  unfolding put_u16_le_def le_bytes_2 unat_drop_bit_eq by (simp add: drop_bit_eq_div)

lemma get_u32_put: "get_u32_le (le_bytes 4 (unat w) @ r) = Done (w, r)"
proof -
  have "unat w < 256 ^ 4" using unsigned_less [of w, where ?'a = nat] by simp
  then show ?thesis by (simp add: get_u32_le_def get_uint_le_append)
qed

lemma default_collation:
  "lookup COLLATION_NAME_ID_MYSQL5 DEFAULT_CHARSET_NAME = Done 45"
  "lookup COLLATION_ID_NAME_MYSQL5 45 = Done DEFAULT_CHARSET_NAME"
  "lookup COLLATION_ID_NAME_MYSQL8 45 = Done DEFAULT_CHARSET_NAME"
  "lookup COLLATION_NAME_ID_MYSQL8 DEFAULT_CHARSET_NAME = Done 45"
  by code_simp+

lemma unat_DEFAULT_CAPABILITY: "unat DEFAULT_CAPABILITY = 0x3DAE8F"
  by (simp add: DEFAULT_CAPABILITY_eq)

lemma greeting_capability:
  "get_u16_le (byte_of 0 DEFAULT_CAPABILITY # byte_of 1 DEFAULT_CAPABILITY # r) = Done (0xAE8F, r)"
  "get_u16_le (byte_of 2 DEFAULT_CAPABILITY # byte_of 3 DEFAULT_CAPABILITY # r) = Done (0x3D, r)"
proof -
  have t: "take 2 (a # b # r) = [a, b]" "drop 2 (a # b # r) = r" for a b :: char by simp_all
  show "get_u16_le (byte_of 0 DEFAULT_CAPABILITY # byte_of 1 DEFAULT_CAPABILITY # r) = Done (0xAE8F, r)"
    "get_u16_le (byte_of 2 DEFAULT_CAPABILITY # byte_of 3 DEFAULT_CAPABILITY # r) = Done (0x3D, r)"
    by (simp_all add: byte_of_div unat_DEFAULT_CAPABILITY get_u16_le_def get_uint_le_def t)
qed

lemma split_to_app: "length a = n \<Longrightarrow> split_to n (a @ r) = Done (a, r)"
  by (auto simp: split_to_def)

definition greeted :: "server_handshake \<Rightarrow> client_auth \<Rightarrow> client_auth" where
  "greeted st c = c\<lparr>ca_connection_id := hs_connection_id st, ca_salt := ca_salt c @ hs_salt st,
     ca_capability := DEFAULT_CAPABILITY, ca_charset := DEFAULT_CHARSET_NAME, ca_status := hs_status st,
     ca_plugin := AUTH_NATIVE_PASSWORD\<rparr>"

lemma native_utf8: "from_utf8_unwrap AUTH_NATIVE_PASSWORD = Done AUTH_NATIVE_PASSWORD"
  by (simp add: from_utf8_unwrap_eq) (rule utf8_ascii, code_simp)

lemma read_greeting_tail:
  assumes "length s = 12" and "ca_capability c = DEFAULT_CAPABILITY"
  shows "read_auth_tail c pos (char_of (21 :: nat) # replicate 10 (CHR 0x00) @ s @ CHR 0x00 # AUTH_NATIVE_PASSWORD @ [CHR 0x00]) =
    Done (c\<lparr>ca_salt := ca_salt c @ s, ca_plugin := AUTH_NATIVE_PASSWORD\<rparr>, [])"
proof -
  have f: "DEFAULT_CAPABILITY AND CLIENT_PLUGIN_AUTH \<noteq> 0"
    unfolding DEFAULT_CAPABILITY_eq client_flags by simp
  have r: "replicate 10 (CHR 0x00) = replicate 9 (CHR 0x00) @ [CHR 0x00]" by code_simp
  have d: "split_to 10 (char_of (21 :: nat) # replicate 10 (CHR 0x00) @ x) =
      Done (char_of (21 :: nat) # replicate 9 (CHR 0x00), CHR 0x00 # x)" for x
    using split_to_app [of "char_of (21 :: nat) # replicate 9 (CHR 0x00)" 10 "CHR 0x00 # x"] by (simp add: r)
  have n: "salt_tail_len 21 = 12" by (simp add: salt_tail_len_def)
  have e: "split_to 12 (s @ x) = Done (s, x)" for x using assms(1) by (rule split_to_app)
  have e1: "split_to 1 (CHR 0x00 # x) = Done ([CHR 0x00], x)" for x by (simp add: split_to_def)
  show ?thesis
    unfolding read_auth_tail_def d
    using f e e1 native_utf8 by (simp add: assms(2) n Let_def)
qed


definition greeting_ok :: "server_handshake \<Rightarrow> bool" where
  "greeting_ok st \<longleftrightarrow> length (hs_salt st) = 20 \<and> hs_charset st = DEFAULT_CHARSET_NAME \<and>
     CHR 0x00 \<notin> set (hs_server_version st) \<and> utf8 (hs_server_version st @ [CHR 0x00])"

lemma greeting_is_read:
  assumes "greeting_ok st" and "read_version X c (hs_server_version st @ [CHR 0x00]) = Done c1"
  obtains g where "encode_initial_handshake st = Done g" and "4 \<le> length g"
    and "read_initial_handshake X c (drop 4 g) = Done (Inr (), greeted st c1, [])"
proof -
  define t2 where "t2 = char_of (21 :: nat) # replicate 10 (CHR 0x00) @ drop 8 (hs_salt st) @ CHR 0x00 # AUTH_NATIVE_PASSWORD @ [CHR 0x00]"
  define t1 where "t1 = char_of (45 :: nat) # put_u16_le (hs_status st) @
     byte_of 2 DEFAULT_CAPABILITY # byte_of 3 DEFAULT_CAPABILITY # t2"
  define t0 where "t0 = le_bytes 4 (unat (hs_connection_id st)) @ take 8 (hs_salt st) @ [CHR 0x00] @
     byte_of 0 DEFAULT_CAPABILITY # byte_of 1 DEFAULT_CAPABILITY # t1"
  let ?g = "replicate 4 (CHR 0x00) @ char_of (10 :: nat) # hs_server_version st @ CHR 0x00 # t0"
  have l: "length (hs_salt st) = 20" and cs: "hs_charset st = DEFAULT_CHARSET_NAME" using assms(1) by (auto simp: greeting_ok_def)
  have enc: "encode_initial_handshake st = Done ?g"
    using l cs put_u16_bytes [of "hs_status st" "[]"]
    by (simp add: encode_initial_handshake_def default_collation t0_def t1_def t2_def)
  let ?c2 = "c1\<lparr>ca_connection_id := hs_connection_id st, ca_salt := ca_salt c1 @ take 8 (hs_salt st), ca_capability := 0xAE8F\<rparr>"
  let ?c3 = "?c2\<lparr>ca_charset := DEFAULT_CHARSET_NAME, ca_status := hs_status st, ca_capability := DEFAULT_CAPABILITY\<rparr>"
  have cap: "(0xAE8F :: 32 word) OR push_bit 16 (ucast (0x3D :: 16 word)) = DEFAULT_CAPABILITY"
    unfolding DEFAULT_CAPABILITY_eq by simp
  have tail: "read_auth_tail ?c3 pos t2 = Done (greeted st c1, [])" for pos
    using read_greeting_tail [of "drop 8 (hs_salt st)" ?c3 pos] l
    by (simp add: t2_def greeted_def)
  have charset: "read_charset_tail ?c2 pos t1 = Done (greeted st c1, [])" for pos
    using tail [of pos] cap
    by (simp add: read_charset_tail_def t1_def default_collation get_u16_put greeting_capability)
  have rc: "read_capability c1 pos t0 = Done (Inr (), greeted st c1, [])" for pos
  proof -
    have s: "split_to 4 (le_bytes 4 n @ x) = Done (le_bytes 4 n, x)" "split_to 8 (take 8 (hs_salt st) @ x) = Done (take 8 (hs_salt st), x)"
      "split_to 1 ([CHR 0x00] @ x) = Done ([CHR 0x00], x)" for n x
      using l by (intro split_to_app; simp)+
    have u: "unat (hs_connection_id st) < 256 ^ 4" using unsigned_less [of "hs_connection_id st", where ?'a = nat] by simp
    have f: "(0xAE8F :: 32 word) AND CLIENT_PROTOCOL_41 \<noteq> 0" "(0xAE8F :: 32 word) AND CLIENT_SSL \<noteq> 0"
      unfolding client_flags by simp_all
    show ?thesis
      unfolding read_capability_def t0_def s run_bind.simps prod.case greeting_capability Let_def
      using f charset [of pos] u by (simp add: tls_policy_def le_nat_le_bytes) (simp add: t1_def)
  qed
  have un: "until_nul (hs_server_version st @ CHR 0x00 # t0) = Done (hs_server_version st, CHR 0x00 # t0)"
    using assms(1) by (simp add: until_nul_cut greeting_ok_def)
  have ut: "from_utf8_unwrap (hs_server_version st @ [CHR 0x00]) = Done (hs_server_version st @ [CHR 0x00])"
    using assms(1) by (simp add: from_utf8_unwrap_eq greeting_ok_def)
  have "read_initial_handshake X c (drop 4 ?g) = Done (Inr (), greeted st c1, [])"
    using un ut rc assms(2) by (simp add: read_initial_handshake_def at_index_def)
  with enc that show ?thesis by simp
qed


text \<open>The response of the client is accepted by the server with the same user and password.\<close>

lemma flag_bit: "w AND push_bit n 1 = 0 \<longleftrightarrow> \<not> bit w n" for w :: "32 word"
  by (simp add: push_bit_of_1 and_exp_eq_0_iff_not_bit)

lemma response_flags:
  assumes "ca_tls c = None" and "ca_db c = []"
  shows "response_capability c lenc AND CLIENT_PLUGIN_AUTH_LENENC_CLIENT_DATA = 0 \<longleftrightarrow> length lenc \<le> 1"
    and "response_capability c lenc AND CLIENT_SECURE_CONNECTION \<noteq> 0"
    and "response_capability c lenc AND CLIENT_CONNECT_WITH_DB = 0"
    and "response_capability c lenc AND CLIENT_PLUGIN_AUTH \<noteq> 0"
proof -
  have b: "bit (response_capability c lenc) 21 \<longleftrightarrow> 1 < length lenc" "\<not> bit (response_capability c lenc) 3"
    "bit (response_capability c lenc) 15" "bit (response_capability c lenc) 19"
    using assms by (simp_all add: response_capability_def bit_simps client_flags)
  show "response_capability c lenc AND CLIENT_PLUGIN_AUTH_LENENC_CLIENT_DATA = 0 \<longleftrightarrow> length lenc \<le> 1"
    "response_capability c lenc AND CLIENT_SECURE_CONNECTION \<noteq> 0"
    "response_capability c lenc AND CLIENT_CONNECT_WITH_DB = 0"
    "response_capability c lenc AND CLIENT_PLUGIN_AUTH \<noteq> 0"
    unfolding CLIENT_PLUGIN_AUTH_LENENC_CLIENT_DATA_def CLIENT_SECURE_CONNECTION_def CLIENT_CONNECT_WITH_DB_def
      CLIENT_PLUGIN_AUTH_def flag_bit using b by auto
qed


definition response_ok :: "client_auth \<Rightarrow> bool" where
  "response_ok c \<longleftrightarrow> ca_tls c = None \<and> ca_db c = [] \<and> ca_plugin c = AUTH_NATIVE_PASSWORD \<and>
     length (ca_salt c) = 20 \<and> ca_password c \<noteq> [] \<and> CHR 0x00 \<notin> set (ca_user c) \<and> utf8 (ca_user c) \<and>
     length (ca_user c) < 2 ^ 16"

lemma length_calc_password:
  "(\<And>d. length (sha1 X d) = 20) \<Longrightarrow> p \<noteq> [] \<Longrightarrow> length (calc_password X s p) = 20"
  by (simp add: calc_password_def xor_bytes_def Let_def)

definition response_body :: "'k mysql_crypto \<Rightarrow> client_auth \<Rightarrow> bytes" where
  "response_body X c = ca_user c @ CHR 0x00 # char_of (20 :: nat) # calc_password X (ca_salt c) (ca_password c)
     @ AUTH_NATIVE_PASSWORD @ [CHR 0x00]"

lemma write_auth_handshake_native:
  assumes "response_ok c" and "\<And>d. length (sha1 X d) = 20"
  shows "write_auth_handshake X c =
    Done (Inr (le_bytes 4 (unat (response_capability c [CHR 0x14])) @ [CHR 0x00, CHR 0x00, CHR 0x00, CHR 0x01, char_of (45 :: nat)]
      @ replicate 23 (CHR 0x00) @ response_body X c, False))"
proof -
  have l: "length (calc_password X (ca_salt c) (ca_password c)) = 20"
    using assms by (intro length_calc_password) (auto simp: response_ok_def)
  have p: "put_lenc_int 20 False = [CHR 0x14]" by (simp add: put_lenc_int_def) code_simp
  have g: "gen_auth_response X c (ca_salt c) = Done (Inr (calc_password X (ca_salt c) (ca_password c)))"
    using assms(1) by (simp add: gen_auth_response_def response_ok_def sub_range_def)
  have t: "char_of (20 :: nat) = CHR 0x14" by code_simp
  show ?thesis
    unfolding write_auth_handshake_def g
    using assms(1) l p t default_collation byte_of_le [of "response_capability c [CHR 0x14]" "[]"]
    by (simp add: Let_def response_ok_def response_body_def)
qed

lemma hs_reads_response:
  assumes "response_ok c" and "\<And>d. length (sha1 X d) = 20"
    and "hs_user st = ca_user c" and "hs_password st = ca_password c" and "hs_salt st = ca_salt c"
    and "hs_capability st = response_capability c [CHR 0x14]"
  shows "\<exists>st'. hs_decode_response X dbg st (response_body X c) = Done (None, st', []) \<and> hs_next st' = HsComplete \<and>
    same_identity st st'"
proof -
  let ?a = "calc_password X (ca_salt c) (ca_password c)"
  have f: "ca_tls c = None" "ca_db c = []" using assms(1) by (auto simp: response_ok_def)
  note fl = response_flags [OF f, of "[CHR 0x14]"]
  have u: "until_nul (response_body X c) = Done (ca_user c, drop (length (ca_user c)) (response_body X c))"
    using assms(1) by (simp add: until_nul_cut response_body_def response_ok_def)
  have l: "length ?a = 20" using assms by (intro length_calc_password) (auto simp: response_ok_def)
  have s: "split_to 20 (?a @ x) = Done (?a, x)" for x using l by (rule split_to_app)
  have n: "until_nul (AUTH_NATIVE_PASSWORD @ [CHR 0x00]) = Done (AUTH_NATIVE_PASSWORD, [CHR 0x00])"
    by (simp add: until_nul_cut) code_simp
  have p: "hs_read_plugin (st\<lparr>hs_auth_data := ?a\<rparr>) (AUTH_NATIVE_PASSWORD @ [CHR 0x00]) =
      Done (None, st\<lparr>hs_auth_data := ?a, hs_auth_plugin_name := AUTH_NATIVE_PASSWORD, hs_next := CompareAuthData\<rparr>, [])"
    using n native_utf8 fl(4) assms(6) by (simp add: hs_read_plugin_def)
  have d: "hs_read_db dbg (st\<lparr>hs_auth_data := ?a\<rparr>) (AUTH_NATIVE_PASSWORD @ [CHR 0x00]) =
      Done (None, st\<lparr>hs_auth_data := ?a, hs_auth_plugin_name := AUTH_NATIVE_PASSWORD, hs_next := CompareAuthData\<rparr>, [])"
    using p fl(3) assms(6) by (simp add: hs_read_db_def)
  have a: "hs_read_auth_data st (char_of (20 :: nat) # ?a @ x) = Done (Inr ?a, x)" for x
    using fl(1,2) assms(6) s by (simp add: hs_read_auth_data_def)
  have "decode_handshake_response dbg st (response_body X c) =
      Done (None, st\<lparr>hs_auth_data := ?a, hs_auth_plugin_name := AUTH_NATIVE_PASSWORD, hs_next := CompareAuthData\<rparr>, [])"
    unfolding decode_handshake_response_def u run_bind.simps prod.case
    using assms(1,3) a d by (simp add: response_body_def response_ok_def from_utf8_unwrap_def)
  then show ?thesis
    using assms(4,5) by (simp add: hs_decode_response_def compare_auth_data_def compare_iff Let_def same_identity_def)
qed

lemma hs_accepts_client:
  assumes "response_ok c" and "\<And>d. length (sha1 X d) = 20" and "ca_next c = WriteHandshake"
    and "hs_user st = ca_user c" and "hs_password st = ca_password c" and "hs_salt st = ca_salt c"
    and "hs_next st = ReadResponseFirst"
  shows "\<exists>h c' packet st'. write_auth_handshake X c = Done (Inr (h, False)) \<and>
    client_encode c h = Done (c', packet) \<and>
    hs_decode X dbg st packet = Done (Some (None, st', [])) \<and> hs_next st' = HsComplete \<and> same_identity st st'"
proof -
  let ?cap = "response_capability c [CHR 0x14]"
  define h where "h = le_bytes 4 (unat ?cap) @ [CHR 0x00, CHR 0x00, CHR 0x00, CHR 0x01, char_of (45 :: nat)]
      @ replicate 23 (CHR 0x00) @ response_body X c"
  define packet where "packet = le_bytes 3 (length h) @ char_of (unat (ca_seq c + 1)) # h"
  have w: "write_auth_handshake X c = Done (Inr (h, False))"
    using write_auth_handshake_native [OF assms(1,2)] by (simp add: h_def)
  have e: "\<exists>c'. client_encode c h = Done (c', packet)"
    using assms(3) by (simp add: client_encode_def Let_def packet_def)
  have l: "length (calc_password X (ca_salt c) (ca_password c)) = 20"
    using assms(1,2) by (intro length_calc_password) (auto simp: response_ok_def)
  have "length h < 256 ^ 3"
    using assms(1) l by (simp add: h_def response_body_def response_ok_def AUTH_NATIVE_PASSWORD_def)
  then have g: "get_length packet = length h" by (simp add: get_length_def packet_def le_nat_le_bytes)
  have d4: "drop 4 packet = h" "length packet = 4 + length h" by (simp_all add: packet_def)
  let ?st = "st\<lparr>hs_seq := hs_seq st + 1\<rparr>"
  have k: "get_u32_le (CHR 0x00 # CHR 0x00 # CHR 0x00 # CHR 0x01 # x) = Done (0x1000000, x)" for x
    by (simp add: get_u32_le_def get_uint_le_def)
  have z: "split_to 23 (replicate 23 (CHR 0x00) @ x) = Done (replicate 23 (CHR 0x00), x)" for x
    by (rule split_to_app) simp
  have f: "decode_first ?st h = Done (?st\<lparr>hs_capability := ?cap\<rparr>, response_body X c)"
    unfolding h_def decode_first_def get_u32_put run_bind.simps prod.case append_Cons append_Nil k
    using z by simp
  obtain st' where r: "hs_decode_response X dbg (?st\<lparr>hs_capability := ?cap\<rparr>) (response_body X c) = Done (None, st', [])"
    "hs_next st' = HsComplete" "same_identity (?st\<lparr>hs_capability := ?cap\<rparr>) st'"
    using hs_reads_response [OF assms(1,2), of "?st\<lparr>hs_capability := ?cap\<rparr>" dbg] assms(4-6) by auto
  have ne: "response_body X c \<noteq> []" by (simp add: response_body_def)
  have "hs_decode X dbg st packet = Done (Some (None, st', []))"
    using g d4 f r ne assms(7) by (simp add: hs_decode_def Let_def)
  with w e r show ?thesis by (auto simp: same_identity_def)
qed

end
