(* ===== verification/Mysql_Login.thy ===== *)
theory Mysql_Login
  imports Mysql_Client_Auth
begin

text \<open>
  The login of the proxy at a backend, \<open>handshake\<close> of \<open>client/auth.rs\<close>, and both sides of a login
  together.

  The loop asks the framed stream for the next decoded message, which reads more input while the
  decoder wants some.  \<open>chunks\<close> are the arrivals; after the last one the peer has closed the connection.
  Then the stream yields no item, the catch-all branch of the loop ignores that, and the loop asks
  again: a \<open>partial_function\<close>, whose value is \<open>None\<close> when the loop never returns.  \<open>tls\<close> is the error of
  building the connector or of the TLS handshake, if there is one.
\<close>

section \<open>The loop of the client\<close>

partial_function (option) client_loop ::
  "'k mysql_crypto \<Rightarrow> my_protocol_error option \<Rightarrow> client_auth \<Rightarrow> bytes \<Rightarrow> bytes list \<Rightarrow> bytes list \<Rightarrow>
     ((my_protocol_error + unit) \<times> client_auth \<times> bytes list) run option" where
  "client_loop X tls st buf chunks sent =
     (case client_decode X st buf of
        Panic \<Rightarrow> Some Panic
      | Done (Inl e, st1, r) \<Rightarrow> Some (Done (Inl e, st1, sent))
      | Done (Inr None, st1, r) \<Rightarrow>
          (case chunks of
             c # cs \<Rightarrow> client_loop X tls st1 (r @ c) cs sent
           | [] \<Rightarrow> if r = [] then client_loop X tls st1 [] [] sent
                   else Some (Done (Inl (IoError ''bytes remaining on stream''), st1, sent)))
      | Done (Inr (Some ret), st1, r) \<Rightarrow>
          (case ret of
             DrAuthSuccess \<Rightarrow> Some (Done (Inr (), st1, sent))
           | DrAuthSwitch _ \<Rightarrow> client_loop X tls st1 r chunks sent
           | DrWriteSslRequest req \<Rightarrow>
               (case client_encode st1 (if 32 \<le> length req then take 32 req else req) of
                  Panic \<Rightarrow> Some Panic
                | Done (st2, p) \<Rightarrow>
                    (case tls of
                       Some e \<Rightarrow> Some (Done (Inl e, st2, sent @ [p]))
                     | None \<Rightarrow>
                         (case client_encode st2 req of
                            Panic \<Rightarrow> Some Panic
                          | Done (st3, p') \<Rightarrow> client_loop X tls st3 [] chunks (sent @ [p, p']))))
           | DrInitialHandshake item \<Rightarrow>
               (case client_encode st1 item of
                  Panic \<Rightarrow> Some Panic
                | Done (st2, p) \<Rightarrow> client_loop X tls st2 r chunks (sent @ [p]))
           | DrRequestPublicKey item \<Rightarrow>
               (case client_encode st1 item of
                  Panic \<Rightarrow> Some Panic
                | Done (st2, p) \<Rightarrow> client_loop X tls st2 r chunks (sent @ [p]))
           | DrWriteClearAuth item \<Rightarrow>
               (case client_encode st1 item of
                  Panic \<Rightarrow> Some Panic
                | Done (st2, p) \<Rightarrow> client_loop X tls st2 r chunks (sent @ [p]))
           | DrEncryptPassword item \<Rightarrow>
               (case client_encode st1 item of
                  Panic \<Rightarrow> Some Panic
                | Done (st2, p) \<Rightarrow> client_loop X tls st2 r chunks (sent @ [p]))))"

lemma client_loop_need_input:
  "client_loop X tls st [] (c # cs) sent = client_loop X tls st c cs sent"
  by (subst client_loop.simps) (simp add: client_decode_def)

text \<open>A backend that closes the connection during the login leaves the loop spinning.\<close>

lemma client_loop_closed: "client_loop X tls st [] [] sent = None"
proof (cases "client_loop X tls st [] [] sent")
  case (Some y)
  have "\<not> ([] = ([] :: bytes) \<and> [] = ([] :: bytes list))"
    by (rule client_loop.raw_induct [where P = "\<lambda>_ _ _ buf chunks _ _. \<not> (buf = [] \<and> chunks = [])", OF _ Some])
      (clarsimp simp: client_decode_def, blast)
  then show ?thesis by simp
qed

section \<open>Both sides\<close>

lemma client_loop_ok:
  assumes "7 < length ok" and "byte (ok ! 4) = 0" and "ca_next c = HandshakeAutoSwitch"
  shows "\<exists>c'. client_loop X tls c ok [] sent = Some (Done (Inr (), c', sent))"
proof -
  let ?c = "c\<lparr>ca_seq := of_char (ok ! 3)\<rparr>"
  have n: "ok \<noteq> []" "\<not> length ok \<le> 3" "at_index ok 4 = Done 0" using assms(1,2) by (auto simp: at_index_def)
  have d: "client_decode X c ok = Done (Inr (Some (DrAuthSwitch None)), ?c\<lparr>ca_next := HandshakeResult\<rparr>, ok)"
    using n assms(3) by (simp add: client_decode_def Let_def decode_auto_switch_def decode_handshake_result_def)
  have e: "client_decode X (?c\<lparr>ca_next := HandshakeResult\<rparr>) ok =
      Done (Inr (Some DrAuthSuccess), ?c\<lparr>ca_next := HandshakeResult\<rparr>, [])"
    using n assms(1) by (simp add: client_decode_def Let_def is_ok_def)
  show ?thesis
    by (subst client_loop.simps, subst client_loop.simps) (simp add: d e)
qed

lemma hs_loop_accept_one:
  assumes "hs_decode X dbg st packet = Done (Some (None, st', []))" and "hs_next st' = HsComplete"
  shows "\<exists>st2 ok. hs_loop X dbg tls st [] [packet] sent = Done (Inr True, st2, sent @ [ok]) \<and>
    7 < length ok \<and> byte (ok ! 4) = 0"
proof -
  have n: "hs_decode X dbg st [] = Done None" by (simp add: hs_decode_def)
  obtain st2 p where s: "hs_send st' ok_packet sent = Done (st2, sent @ [p])" "7 < length p" "byte (p ! 4) = 0"
    by (simp add: hs_send_def hs_encode_def ok_packet_def nth_append)
  have "hs_loop X dbg tls st [] [packet] sent = Done (Inr True, st2, sent @ [p])"
    using assms s(1) by (simp add: hs_loop_None [OF n] hs_loop_step)
  with s show ?thesis by blast
qed

text \<open>A client without TLS and without a default database, about to read the greeting.\<close>

definition plain_client :: "client_auth \<Rightarrow> bool" where
  "plain_client c \<longleftrightarrow> ca_next c = InitialHandshake \<and> ca_tls c = None \<and> ca_db c = [] \<and> ca_salt c = [] \<and>
     ca_password c \<noteq> [] \<and> CHR 0x00 \<notin> set (ca_user c) \<and> utf8 (ca_user c) \<and> length (ca_user c) < 2 ^ 16"

lemma read_version_keeps: "read_version X c v = Done c1 \<Longrightarrow> \<exists>sv. c1 = c\<lparr>ca_server_version := sv\<rparr>"
  by (auto simp: read_version_def split: option.splits intro: exI [of _ "ca_server_version c1"])

lemma write_auth_handshake_next [simp]:
  "write_auth_handshake X (c\<lparr>ca_next := n\<rparr>) = write_auth_handshake X c"
  by (simp add: write_auth_handshake_def gen_auth_response_def response_capability_def)

lemma write_auth_handshake_head:
  assumes "write_auth_handshake X c = Done (Inr (h, b))"
  shows "\<exists>cap charset rest. length cap = 4 \<and>
    h = cap @ [CHR 0x00, CHR 0x00, CHR 0x00, CHR 0x01, charset] @ replicate 23 (CHR 0x00) @ rest"
proof -
  obtain cap charset rest where
    "h = [byte_of 0 cap, byte_of 1 cap, byte_of 2 cap, byte_of 3 cap]
       @ [CHR 0x00, CHR 0x00, CHR 0x00, CHR 0x01] @ [charset] @ replicate 23 (CHR 0x00) @ rest"
    using assms by (simp only: write_auth_handshake_def Let_def sum_case_eq_iff run_bind_Done_iff) auto
  then show ?thesis
    by (intro exI [of _ "[byte_of 0 cap, byte_of 1 cap, byte_of 2 cap, byte_of 3 cap]"]) simp
qed

text \<open>The greeting as it is sent, and the answer of the client to it.\<close>

lemma client_answers_greeting:
  assumes "plain_client c" and "\<And>d. length (sha1 X d) = 20"
    and "length draws = 20" and "CHR 0x00 \<notin> set version" and "utf8 (version @ [CHR 0x00])"
    and "read_version X c (version @ [CHR 0x00]) \<noteq> Panic"
  obtains initial greeting h c1 c2 packet st' where
    "encode_initial_handshake (server_handshake_new cid draws (ca_user c) (ca_password c) db version) = Done initial"
    and "hs_send (server_handshake_new cid draws (ca_user c) (ca_password c) db version) initial [] =
      Done ((server_handshake_new cid draws (ca_user c) (ca_password c) db version)\<lparr>hs_seq := 1\<rparr>, [greeting])"
    and "client_decode X c greeting = Done (Inr (Some (DrInitialHandshake h)), c1, [])"
    and "client_encode c1 h = Done (c2, packet)" and "ca_next c2 = HandshakeAutoSwitch"
    and "hs_decode X dbg ((server_handshake_new cid draws (ca_user c) (ca_password c) db version)\<lparr>hs_seq := 1\<rparr>) packet =
      Done (Some (None, st', []))" and "hs_next st' = HsComplete"
proof -
  let ?st = "server_handshake_new cid draws (ca_user c) (ca_password c) db version"
  have g: "greeting_ok ?st" using assms(3-5) by (simp add: greeting_ok_def server_handshake_new_def random_buf_def)
  define c0 where "c0 = c\<lparr>ca_seq := of_char (char_of (0 :: nat) :: char)\<rparr>"
  obtain c1 where v: "read_version X c0 (version @ [CHR 0x00]) = Done c1"
    using assms(6) by (auto simp: read_version_def c0_def run_not_Panic_iff split: option.splits)
  obtain sv where c1: "c1 = c0\<lparr>ca_server_version := sv\<rparr>" using read_version_keeps [OF v] by blast
  obtain i where i: "encode_initial_handshake ?st = Done i" "4 \<le> length i"
    "read_initial_handshake X c0 (drop 4 i) = Done (Inr (), greeted ?st c1, [])"
    using greeting_is_read [OF g, of X c0 c1] v by (auto simp: server_handshake_new_def)
  define greeting where "greeting = le_bytes 3 (length i - 4) @ [char_of (0 :: nat)] @ drop 4 i"
  let ?st1 = "?st\<lparr>hs_seq := 1\<rparr>"
  have s: "hs_send ?st i [] = Done (?st1, [greeting])"
    using i(2) by (simp add: hs_send_def hs_encode_def greeting_def server_handshake_new_def)
  let ?c = "(greeted ?st c1)\<lparr>ca_next := WriteHandshake\<rparr>"
  have r: "response_ok ?c" using assms(1,3) c1
    by (simp add: response_ok_def plain_client_def greeted_def c0_def server_handshake_new_def random_buf_def)
  obtain h c2 packet st' where a: "write_auth_handshake X ?c = Done (Inr (h, False))"
    "client_encode ?c h = Done (c2, packet)"
    "hs_decode X dbg ?st1 packet = Done (Some (None, st', []))" "hs_next st' = HsComplete"
    using hs_accepts_client [OF r assms(2), of ?st1 dbg] c1 assms(1)
    by (auto simp: greeted_def c0_def server_handshake_new_def plain_client_def)
  have n: "ca_next c2 = HandshakeAutoSwitch" using a(2) by (auto simp: client_encode_def Let_def)
  have "decode_greeting X c0 greeting = Done (Inr (Some (DrInitialHandshake h)), ?c, [])"
    using i(3) a(1) by (simp add: decode_greeting_def split_to_def greeting_def)
  then have "client_decode X c greeting = Done (Inr (Some (DrInitialHandshake h)), ?c, [])"
    using assms(1) by (simp add: client_decode_def Let_def plain_client_def greeting_def c0_def nth_append)
  from that [OF i(1) s this a(2) n a(3,4)] show thesis .
qed

end
