(* ===== verification/Pg_Codec.thy ===== *)
theory Pg_Codec
  imports Wire_Bytes
begin

text \<open>
  The PostgreSQL wire protocol (\<open>protocol/postgresql/src/lib.rs\<close>): startup packets, the messages of the
  simple and the extended query protocol a client sends, and the messages the proxy answers with.

  Lengths and counts on the wire are signed big-endian integers; they are words here.  A count is
  converted with \<open>as usize\<close>, which makes a negative one huge: \<open>Vec::with_capacity\<close> then panics.  The
  \<open>BTreeMap\<close> of startup parameters is an association list with distinct keys.
\<close>

section \<open>Messages and errors\<close>

definition PROTOCOL_VERSION_3 :: "32 word" where "PROTOCOL_VERSION_3 = 196608"
definition SSL_REQUEST_CODE :: "32 word" where "SSL_REQUEST_CODE = 80877103"
definition CANCEL_REQUEST_CODE :: "32 word" where "CANCEL_REQUEST_CODE = 80877102"
definition MAX_STARTUP_PACKET_LEN :: nat where "MAX_STARTUP_PACKET_LEN = 1024 * 1024"

datatype pg_protocol_error =
    InvalidLength "nat option" nat
  | InvalidProtocolVersion "32 word"
  | UnsupportedFrontendMessage nat
  | InvalidUtf8 str
  | MissingTerminator
  | MalformedStartupParameters
  | MalformedCString

text \<open>A byte shown as a character: above 127 it takes two bytes in UTF-8.\<close>

definition latin1 :: "nat \<Rightarrow> str" where
  "latin1 b = (if b < 128 then [char_of b] else [char_of (192 + b div 64), char_of (128 + b mod 64)])"

fun pg_error_display :: "pg_protocol_error \<Rightarrow> str" where
  "pg_error_display (InvalidLength (Some expected) actual) =
     ''invalid postgresql packet length: expected '' @ show_nat expected @ '', got '' @ show_nat actual"
| "pg_error_display (InvalidLength None actual) = ''invalid postgresql packet length: '' @ show_nat actual"
| "pg_error_display (InvalidProtocolVersion version) =
     ''unsupported postgresql protocol version '' @ show_int (sint version)"
| "pg_error_display (UnsupportedFrontendMessage tag) =
     ''unsupported postgresql frontend message '' @ [CHR 0x27] @ latin1 tag @ [CHR 0x27]"
| "pg_error_display (InvalidUtf8 e) = ''invalid postgresql utf8: '' @ e"
| "pg_error_display MissingTerminator = ''postgresql startup parameters are missing a null terminator''"
| "pg_error_display MalformedStartupParameters = ''malformed postgresql startup parameters''"
| "pg_error_display MalformedCString = ''malformed postgresql cstring''"

record startup_message =
  sm_protocol_version :: "32 word"
  sm_parameters :: "(str \<times> str) list"

definition startup_get :: "startup_message \<Rightarrow> str \<Rightarrow> str option" where
  "startup_get m name = map_of (sm_parameters m) name"

datatype startup_packet =
    Startup startup_message
  | SslRequest
  | CancelRequest "32 word" "32 word"

datatype frontend_message =
    FeQuery str
  | FeTerminate
  | FeSync
  | FeParse str str "32 word list"
  | FeBind str str "str option list" "16 word list"
  | FeDescribe nat str
  | FeExecute str "32 word"
  | FeClose nat str
  | FeFlush

record field_description =
  fd_name :: str
  fd_type_oid :: "32 word"
  fd_type_size :: "16 word"
  fd_type_modifier :: "32 word"
  fd_format_code :: "16 word"

datatype transaction_status = TsIdle | TsInTransaction | TsFailed

fun as_byte :: "transaction_status \<Rightarrow> char" where
  "as_byte TsIdle = CHR ''I''"
| "as_byte TsInTransaction = CHR ''T''"
| "as_byte TsFailed = CHR ''E''"

type_synonym 'a pg_result = "pg_protocol_error + 'a"

section \<open>Reading strings\<close>

definition decode_utf8 :: "bytes \<Rightarrow> str pg_result" where
  "decode_utf8 bs = (case from_utf8 bs of Inr s \<Rightarrow> Inr s | Inl e \<Rightarrow> Inl (InvalidUtf8 (utf8_error_display e)))"

text \<open>\<open>iter().position(|b| b == 0)\<close>, and from an offset.\<close>

definition position_null :: "bytes \<Rightarrow> nat option" where
  "position_null bs = (if CHR 0x00 \<in> set bs then Some (length (takeWhile (\<lambda>c. c \<noteq> CHR 0x00) bs)) else None)"

definition find_null :: "bytes \<Rightarrow> nat \<Rightarrow> nat option" where
  "find_null payload offset = map_option (\<lambda>relative. offset + relative) (position_null (drop offset payload))"

definition decode_single_cstring :: "bytes \<Rightarrow> str pg_result" where
  "decode_single_cstring payload =
     (case find_null payload 0 of
        None \<Rightarrow> Inl MissingTerminator
      | Some e \<Rightarrow> if e + 1 \<noteq> length payload then Inl MalformedCString else decode_utf8 (take e payload))"

definition split_cstring :: "bytes \<Rightarrow> (str \<times> bytes) pg_result" where
  "split_cstring input =
     (case position_null input of
        None \<Rightarrow> Inl MalformedCString
      | Some nul \<Rightarrow>
          (case decode_utf8 (take nul input) of
             Inl e \<Rightarrow> Inl e
           | Inr s \<Rightarrow> Inr (s, drop (nul + 1) input)))"

definition require_empty_body :: "bytes \<Rightarrow> 'a \<Rightarrow> 'a pg_result" where
  "require_empty_body body m =
     (if body = [] then Inr m else Inl (InvalidLength (Some 5) (length body + 5)))"

text \<open>\<open>if rest.len() < offset + n { return Err(..) }\<close> and the slice that follows it.\<close>

definition take_at :: "bytes \<Rightarrow> nat \<Rightarrow> nat \<Rightarrow> bytes pg_result" where
  "take_at rest offset n =
     (if length rest < offset + n then Inl (InvalidLength (Some (offset + n)) (length rest))
      else Inr (take n (drop offset rest)))"

section \<open>Messages of the client\<close>

fun read_oids :: "bytes \<Rightarrow> nat \<Rightarrow> nat \<Rightarrow> 32 word list \<Rightarrow> (32 word list \<times> nat) pg_result" where
  "read_oids rest offset 0 acc = Inr (acc, offset)"
| "read_oids rest offset (Suc n) acc =
     (case take_at rest offset 4 of
        Inl e \<Rightarrow> Inl e
      | Inr b \<Rightarrow> read_oids rest (offset + 4) n (acc @ [read_i32 b]))"

definition decode_parse_body :: "bytes \<Rightarrow> frontend_message pg_result run" where
  "decode_parse_body body =
     (case split_cstring body of
        Inl e \<Rightarrow> Done (Inl e)
      | Inr (statement, rest1) \<Rightarrow>
          (case split_cstring rest1 of
             Inl e \<Rightarrow> Done (Inl e)
           | Inr (query, rest) \<Rightarrow>
               if length rest < 2 then Done (Inl (InvalidLength (Some 2) (length rest)))
               else let nparams = i16_as_usize (read_i16 (take 2 rest))
                    in run_bind (with_capacity 4 nparams) (\<lambda>_.
                         Done (case read_oids rest 2 nparams [] of
                                 Inl e \<Rightarrow> Inl e
                               | Inr (types, offset) \<Rightarrow>
                                   if offset \<noteq> length rest then Inl (InvalidLength (Some offset) (length rest))
                                   else Inr (FeParse statement query types)))))"

fun read_formats :: "bytes \<Rightarrow> nat \<Rightarrow> nat \<Rightarrow> 16 word list \<Rightarrow> (16 word list \<times> nat) pg_result" where
  "read_formats rest offset 0 acc = Inr (acc, offset)"
| "read_formats rest offset (Suc n) acc =
     (case take_at rest offset 2 of
        Inl e \<Rightarrow> Inl e
      | Inr b \<Rightarrow>
          if read_i16 b \<noteq> 0 \<and> read_i16 b \<noteq> 1 then Inl (UnsupportedFrontendMessage (byte CHR ''B''))
          else read_formats rest (offset + 2) n (acc @ [read_i16 b]))"

definition decode_pg_binary_param_to_text :: "bytes \<Rightarrow> str pg_result" where
  "decode_pg_binary_param_to_text raw =
     (if length raw = 0 then Inr []
      else if length raw = 1 then Inr (if byte (raw ! 0) \<noteq> 0 then ''true'' else ''false'')
      else if length raw = 2 then Inr (show_int (sint (read_i16 raw)))
      else if length raw = 4 then Inr (show_int (sint (read_i32 raw)))
      else if length raw = 8 then Inr (show_int (sint (read_i64 raw)))
      else case from_utf8 raw of
             Inr s \<Rightarrow> Inr s
           | Inl _ \<Rightarrow> Inl (UnsupportedFrontendMessage (byte CHR ''B'')))"

definition param_format :: "16 word list \<Rightarrow> nat \<Rightarrow> 16 word" where
  "param_format formats i =
     (if formats = [] then 0
      else if length formats = 1 then formats ! 0
      else if i < length formats then formats ! i else 0)"

definition decode_param :: "16 word \<Rightarrow> bytes \<Rightarrow> str pg_result" where
  "decode_param fmt raw =
     (if fmt = 0 then
        (if CHR 0x00 \<in> set raw \<and> length raw \<in> {2, 4, 8} then decode_pg_binary_param_to_text raw
         else decode_utf8 raw)
      else decode_pg_binary_param_to_text raw)"

fun read_params ::
  "16 word list \<Rightarrow> bytes \<Rightarrow> nat \<Rightarrow> nat \<Rightarrow> nat \<Rightarrow> str option list \<Rightarrow> (str option list \<times> nat) pg_result" where
  "read_params formats rest offset i 0 acc = Inr (acc, offset)"
| "read_params formats rest offset i (Suc n) acc =
     (case take_at rest offset 4 of
        Inl e \<Rightarrow> Inl e
      | Inr b \<Rightarrow>
          if sint (read_i32 b) < 0 then read_params formats rest (offset + 4) (i + 1) n (acc @ [None])
          else let len = i32_as_usize (read_i32 b)
               in case take_at rest (offset + 4) len of
                    Inl e \<Rightarrow> Inl e
                  | Inr raw \<Rightarrow>
                      (case decode_param (param_format formats i) raw of
                         Inl e \<Rightarrow> Inl e
                       | Inr s \<Rightarrow> read_params formats rest (offset + 4 + len) (i + 1) n (acc @ [Some s])))"

text \<open>A count of two bytes at an offset, with the vector reserved for it.\<close>

definition read_count :: "nat \<Rightarrow> bytes \<Rightarrow> nat \<Rightarrow> nat pg_result run" where
  "read_count elem_size rest offset =
     (case take_at rest offset 2 of
        Inl e \<Rightarrow> Done (Inl e)
      | Inr b \<Rightarrow> let n = i16_as_usize (read_i16 b) in run_bind (with_capacity elem_size n) (\<lambda>_. Done (Inr n)))"

definition decode_bind_rest :: "str \<Rightarrow> str \<Rightarrow> bytes \<Rightarrow> frontend_message pg_result run" where
  "decode_bind_rest portal statement rest =
     run_bind (read_count 2 rest 0) (\<lambda>c1.
       case c1 of Inl e \<Rightarrow> Done (Inl e) | Inr nformats \<Rightarrow>
       (case read_formats rest 2 nformats [] of Inl e \<Rightarrow> Done (Inl e) | Inr (formats, o1) \<Rightarrow>
       run_bind (read_count 24 rest o1) (\<lambda>c2.
         case c2 of Inl e \<Rightarrow> Done (Inl e) | Inr nparams \<Rightarrow>
         (case read_params formats rest (o1 + 2) 0 nparams [] of Inl e \<Rightarrow> Done (Inl e) | Inr (params, o2) \<Rightarrow>
         run_bind (read_count 2 rest o2) (\<lambda>c3.
           case c3 of Inl e \<Rightarrow> Done (Inl e) | Inr nresults \<Rightarrow>
           Done (case read_formats rest (o2 + 2) nresults [] of
                   Inl e \<Rightarrow> Inl e
                 | Inr (result_formats, o3) \<Rightarrow>
                     if o3 \<noteq> length rest then Inl (InvalidLength (Some o3) (length rest))
                     else Inr (FeBind portal statement params result_formats)))))))"

definition decode_bind_body :: "bytes \<Rightarrow> frontend_message pg_result run" where
  "decode_bind_body body =
     (case split_cstring body of
        Inl e \<Rightarrow> Done (Inl e)
      | Inr (portal, rest1) \<Rightarrow>
          (case split_cstring rest1 of
             Inl e \<Rightarrow> Done (Inl e)
           | Inr (statement, rest) \<Rightarrow> decode_bind_rest portal statement rest))"

definition decode_describe_or_close_body :: "bytes \<Rightarrow> bool \<Rightarrow> frontend_message pg_result" where
  "decode_describe_or_close_body body is_describe =
     (case body of
        [] \<Rightarrow> Inl (InvalidLength (Some 1) 0)
      | target # r \<Rightarrow>
          (case split_cstring r of
             Inl e \<Rightarrow> Inl e
           | Inr (name, rest) \<Rightarrow>
               if rest \<noteq> [] then Inl (InvalidLength (Some 0) (length rest))
               else Inr (if is_describe then FeDescribe (byte target) name else FeClose (byte target) name)))"

definition decode_execute_body :: "bytes \<Rightarrow> frontend_message pg_result" where
  "decode_execute_body body =
     (case split_cstring body of
        Inl e \<Rightarrow> Inl e
      | Inr (portal, rest) \<Rightarrow>
          if length rest \<noteq> 4 then Inl (InvalidLength (Some 4) (length rest))
          else Inr (FeExecute portal (read_i32 rest)))"

definition decode_message_body :: "char \<Rightarrow> bytes \<Rightarrow> frontend_message pg_result run" where
  "decode_message_body tag body =
     (if tag = CHR ''Q'' then Done (case decode_single_cstring body of Inl e \<Rightarrow> Inl e | Inr s \<Rightarrow> Inr (FeQuery s))
      else if tag = CHR ''X'' then Done (require_empty_body body FeTerminate)
      else if tag = CHR ''S'' then Done (require_empty_body body FeSync)
      else if tag = CHR ''H'' then Done (require_empty_body body FeFlush)
      else if tag = CHR ''P'' then decode_parse_body body
      else if tag = CHR ''B'' then decode_bind_body body
      else if tag = CHR ''D'' then Done (decode_describe_or_close_body body True)
      else if tag = CHR ''E'' then Done (decode_execute_body body)
      else if tag = CHR ''C'' then Done (decode_describe_or_close_body body False)
      else Done (Inl (UnsupportedFrontendMessage (byte tag))))"

definition decode_frontend_message :: "bytes \<Rightarrow> frontend_message pg_result run" where
  "decode_frontend_message frame =
     (if length frame < 5 then Done (Inl (InvalidLength None (length frame)))
      else let declared_len = read_i32 (take 4 (drop 1 frame))
           in if sint declared_len < 4 then Done (Inl (InvalidLength None (nat (max (sint declared_len) 0))))
              else let expected_len = i32_as_usize declared_len + 1
                   in if expected_len \<noteq> length frame then Done (Inl (InvalidLength (Some expected_len) (length frame)))
                      else decode_message_body (hd frame) (drop 5 frame))"

section \<open>Startup\<close>

function startup_loop :: "bytes \<Rightarrow> nat \<Rightarrow> (str \<times> str) list \<Rightarrow> (str \<times> str) list pg_result" where
  "startup_loop payload offset params =
     (if \<not> offset < length payload then Inl MissingTerminator
      else case find_null payload offset of
             None \<Rightarrow> Inl MissingTerminator
           | Some key_end \<Rightarrow>
               if key_end = offset then
                 (if key_end + 1 \<noteq> length payload then Inl MalformedStartupParameters else Inr params)
               else let value_start = key_end + 1
                    in case find_null payload value_start of
                         None \<Rightarrow> Inl MissingTerminator
                       | Some value_end \<Rightarrow>
                           (case decode_utf8 (take (key_end - offset) (drop offset payload)) of
                              Inl e \<Rightarrow> Inl e
                            | Inr key \<Rightarrow>
                                (case decode_utf8 (take (value_end - value_start) (drop value_start payload)) of
                                   Inl e \<Rightarrow> Inl e
                                 | Inr val \<Rightarrow> startup_loop payload (value_end + 1) (al_insert key val params))))"
  by pat_completeness auto
termination
  by (relation "measure (\<lambda>(payload, offset, params). length payload - offset)")
    (auto simp: find_null_def)

declare startup_loop.simps [simp del]

definition decode_startup_parameters :: "bytes \<Rightarrow> (str \<times> str) list pg_result" where
  "decode_startup_parameters payload =
     (if payload = [] \<or> last payload \<noteq> CHR 0x00 then Inl MissingTerminator else startup_loop payload 0 [])"

definition decode_startup_packet :: "bytes \<Rightarrow> startup_packet pg_result" where
  "decode_startup_packet frame =
     (if length frame < 8 \<or> MAX_STARTUP_PACKET_LEN < length frame then Inl (InvalidLength None (length frame))
      else let declared = read_i32 (take 4 frame)
           in if sint declared < 8 then Inl (InvalidLength None (nat (max (sint declared) 0)))
              else let declared_len = i32_as_usize declared
                   in if declared_len \<noteq> length frame then Inl (InvalidLength (Some declared_len) (length frame))
                      else let code = read_i32 (take 4 (drop 4 frame))
                           in if code = SSL_REQUEST_CODE then
                                (if declared_len \<noteq> 8 then Inl (InvalidLength (Some 8) declared_len) else Inr SslRequest)
                              else if code = CANCEL_REQUEST_CODE then
                                (if declared_len \<noteq> 16 then Inl (InvalidLength (Some 16) declared_len)
                                 else Inr (CancelRequest (read_i32 (take 4 (drop 8 frame))) (read_i32 (take 4 (drop 12 frame)))))
                              else if code = PROTOCOL_VERSION_3 then
                                (case decode_startup_parameters (drop 8 frame) of
                                   Inl e \<Rightarrow> Inl e
                                 | Inr ps \<Rightarrow> Inr (Startup \<lparr>sm_protocol_version = PROTOCOL_VERSION_3, sm_parameters = ps\<rparr>))
                              else Inl (InvalidProtocolVersion code))"

section \<open>Messages the proxy sends\<close>

definition encode_message :: "char \<Rightarrow> bytes \<Rightarrow> bytes" where
  "encode_message tag body = tag # i32_be (of_nat (length body + 4)) @ body"

definition encode_untagged_packet :: "bytes \<Rightarrow> bytes" where
  "encode_untagged_packet body = i32_be (of_nat (length body + 4)) @ body"

definition encode_startup_message :: "(str \<times> str) list \<Rightarrow> bytes" where
  "encode_startup_message ps =
     encode_untagged_packet
       (i32_be PROTOCOL_VERSION_3 @ concat (map (\<lambda>(k, v). k @ [CHR 0x00] @ v @ [CHR 0x00]) ps) @ [CHR 0x00])"

definition encode_ssl_request :: bytes where
  "encode_ssl_request = encode_untagged_packet (i32_be SSL_REQUEST_CODE)"

definition encode_cancel_request :: "32 word \<Rightarrow> 32 word \<Rightarrow> bytes" where
  "encode_cancel_request pid key = encode_untagged_packet (i32_be CANCEL_REQUEST_CODE @ i32_be pid @ i32_be key)"

definition encode_query_message :: "str \<Rightarrow> bytes" where
  "encode_query_message sql = encode_message CHR ''Q'' (sql @ [CHR 0x00])"

definition encode_terminate_message :: bytes where "encode_terminate_message = encode_message CHR ''X'' []"
definition encode_sync_message :: bytes where "encode_sync_message = encode_message CHR ''S'' []"
definition encode_parse_complete :: bytes where "encode_parse_complete = encode_message CHR ''1'' []"
definition encode_bind_complete :: bytes where "encode_bind_complete = encode_message CHR ''2'' []"
definition encode_close_complete :: bytes where "encode_close_complete = encode_message CHR ''3'' []"
definition encode_no_data :: bytes where "encode_no_data = encode_message CHR ''n'' []"
definition encode_portal_suspended :: bytes where "encode_portal_suspended = encode_message CHR ''s'' []"

definition encode_parameter_description :: "32 word list \<Rightarrow> bytes" where
  "encode_parameter_description oids =
     encode_message CHR ''t'' (i16_be (of_nat (length oids)) @ concat (map i32_be oids))"

definition encode_authentication_ok :: bytes where
  "encode_authentication_ok = encode_message CHR ''R'' (i32_be 0)"

definition encode_parameter_status :: "str \<Rightarrow> str \<Rightarrow> bytes" where
  "encode_parameter_status name val = encode_message CHR ''S'' (name @ [CHR 0x00] @ val @ [CHR 0x00])"

definition encode_backend_key_data :: "32 word \<Rightarrow> 32 word \<Rightarrow> bytes" where
  "encode_backend_key_data pid key = encode_message CHR ''K'' (i32_be pid @ i32_be key)"

definition encode_command_complete :: "str \<Rightarrow> bytes" where
  "encode_command_complete tag = encode_message CHR ''C'' (tag @ [CHR 0x00])"

definition checked_i16 :: "nat \<Rightarrow> 16 word pg_result" where
  "checked_i16 n = (if n < 2 ^ 15 then Inr (of_nat n) else Inl (InvalidLength None n))"

definition checked_i32 :: "nat \<Rightarrow> 32 word pg_result" where
  "checked_i32 n = (if n < 2 ^ 31 then Inr (of_nat n) else Inl (InvalidLength None n))"

definition field_bytes :: "field_description \<Rightarrow> bytes" where
  "field_bytes f = fd_name f @ [CHR 0x00] @ i32_be 0 @ i16_be 0 @ i32_be (fd_type_oid f)
     @ i16_be (fd_type_size f) @ i32_be (fd_type_modifier f) @ i16_be (fd_format_code f)"

definition encode_row_description :: "field_description list \<Rightarrow> bytes pg_result" where
  "encode_row_description fs =
     (case checked_i16 (length fs) of
        Inl e \<Rightarrow> Inl e
      | Inr n \<Rightarrow> Inr (encode_message CHR ''T'' (i16_be n @ concat (map field_bytes fs))))"

fun data_row_values :: "bytes \<Rightarrow> bytes option list \<Rightarrow> bytes pg_result" where
  "data_row_values body [] = Inr body"
| "data_row_values body (None # vs) = data_row_values (body @ i32_be (- 1)) vs"
| "data_row_values body (Some v # vs) =
     (case checked_i32 (length v) of Inl e \<Rightarrow> Inl e | Inr n \<Rightarrow> data_row_values (body @ i32_be n @ v) vs)"

definition encode_data_row :: "bytes option list \<Rightarrow> bytes pg_result" where
  "encode_data_row vs =
     (case checked_i16 (length vs) of
        Inl e \<Rightarrow> Inl e
      | Inr n \<Rightarrow>
          (case data_row_values (i16_be n) vs of
             Inl e \<Rightarrow> Inl e
           | Inr body \<Rightarrow> Inr (encode_message CHR ''D'' body)))"

definition encode_ready_for_query :: "transaction_status \<Rightarrow> bytes" where
  "encode_ready_for_query st = encode_message CHR ''Z'' [as_byte st]"

definition push_error_field :: "char \<Rightarrow> str \<Rightarrow> bytes" where
  "push_error_field tag val = tag # val @ [CHR 0x00]"

definition encode_error_response :: "str \<Rightarrow> str \<Rightarrow> str \<Rightarrow> bytes" where
  "encode_error_response severity code message =
     encode_message CHR ''E''
       (push_error_field CHR ''S'' severity @ push_error_field CHR ''C'' code
        @ push_error_field CHR ''M'' message @ [CHR 0x00])"

section \<open>Reading back\<close>

lemma i32_as_usize_of_nat: "n < 2 ^ 31 \<Longrightarrow> i32_as_usize (of_nat n) = n"
  by (simp add: i32_as_usize_def sint_of_nat_small)

lemma i16_as_usize_of_nat: "n < 2 ^ 15 \<Longrightarrow> i16_as_usize (of_nat n) = n"
  by (simp add: i16_as_usize_def sint_of_nat_small)

lemma decode_encode_message:
  assumes "length body + 4 < 2 ^ 31"
  shows "decode_frontend_message (encode_message tag body) = decode_message_body tag body"
proof -
  have "sint (of_nat (length body + 4) :: 32 word) = int (length body + 4)"
    using assms by (intro sint_of_nat_small) simp
  moreover have "i32_as_usize (of_nat (length body + 4)) = length body + 4"
    using assms by (rule i32_as_usize_of_nat)
  moreover have "take 4 (i32_be w @ body) = i32_be w" "drop 4 (i32_be w @ body) = body" for w by simp_all
  ultimately show ?thesis
    by (simp add: decode_frontend_message_def encode_message_def Let_def)
qed

text \<open>C strings: no NUL inside, valid UTF-8.\<close>

definition cstring_ok :: "str \<Rightarrow> bool" where
  "cstring_ok s \<longleftrightarrow> CHR 0x00 \<notin> set s \<and> utf8 s"

lemma position_null_cstring: "CHR 0x00 \<notin> set s \<Longrightarrow> position_null (s @ CHR 0x00 # r) = Some (length s)"
  by (simp add: position_null_def takeWhile_append)

lemma decode_utf8_ok [simp]: "utf8 s \<Longrightarrow> decode_utf8 s = Inr s"
  by (simp add: decode_utf8_def)

lemma split_cstring_ok [wire_simps]: "cstring_ok s \<Longrightarrow> split_cstring (s @ CHR 0x00 # r) = Inr (s, r)"
  by (simp add: split_cstring_def cstring_ok_def position_null_cstring)

lemma decode_single_cstring_ok [wire_simps]:
  "cstring_ok s \<Longrightarrow> decode_single_cstring (s @ [CHR 0x00]) = Inr s"
  using position_null_cstring [of s "[]"]
  by (simp add: decode_single_cstring_def cstring_ok_def find_null_def)

interpretation cstr: wire_format "\<lambda>s. s @ [CHR 0x00]" "\<lambda>bs s r. split_cstring bs = Inr (s, r)" cstring_ok
  by unfold_locales (auto simp: split_cstring_ok)

lemma query_round_trip:
  "cstring_ok sql \<Longrightarrow> length sql + 5 < 2 ^ 31 \<Longrightarrow>
     decode_frontend_message (encode_query_message sql) = Done (Inr (FeQuery sql))"
  by (simp add: encode_query_message_def decode_encode_message decode_message_body_def decode_single_cstring_ok)

lemma control_round_trip:
  "decode_frontend_message encode_terminate_message = Done (Inr FeTerminate)"
  "decode_frontend_message encode_sync_message = Done (Inr FeSync)"
  by (simp_all add: encode_terminate_message_def encode_sync_message_def decode_encode_message
      decode_message_body_def require_empty_body_def)

section \<open>The startup packet\<close>

definition startup_ok :: "(str \<times> str) list \<Rightarrow> bool" where
  "startup_ok ps \<longleftrightarrow> list_all (\<lambda>(k, v). k \<noteq> [] \<and> cstring_ok k \<and> cstring_ok v) ps"

definition params_bytes :: "(str \<times> str) list \<Rightarrow> bytes" where
  "params_bytes ps = concat (map (\<lambda>(k, v). k @ [CHR 0x00] @ v @ [CHR 0x00]) ps) @ [CHR 0x00]"

lemma find_null_at:
  "CHR 0x00 \<notin> set s \<Longrightarrow> find_null (pre @ s @ CHR 0x00 # r) (length pre) = Some (length pre + length s)"
  by (simp add: find_null_def position_null_cstring)

lemma startup_loop_params:
  "startup_ok ps \<Longrightarrow>
     startup_loop (pre @ params_bytes ps) (length pre) acc = Inr (fold (\<lambda>(k, v). al_insert k v) ps acc)"
proof (induction ps arbitrary: pre acc)
  case Nil
  then show ?case
    using find_null_at [of "[]" pre "[]"] by (subst startup_loop.simps) (simp add: params_bytes_def)
next
  case (Cons kv ps)
  obtain k v where kv: "kv = (k, v)" by (cases kv)
  let ?r = "params_bytes ps"
  have ok: "k \<noteq> []" "cstring_ok k" "cstring_ok v" "startup_ok ps" using Cons.prems kv by (auto simp: startup_ok_def)
  have p: "pre @ params_bytes (kv # ps) = pre @ k @ CHR 0x00 # v @ CHR 0x00 # ?r"
    by (simp add: params_bytes_def kv)
  have f1: "find_null (pre @ k @ CHR 0x00 # v @ CHR 0x00 # ?r) (length pre) = Some (length pre + length k)"
    using ok(2) by (intro find_null_at) (simp add: cstring_ok_def)
  have f2: "find_null (pre @ k @ CHR 0x00 # v @ CHR 0x00 # ?r) (length pre + length k + 1) =
      Some (length pre + length k + 1 + length v)"
    using find_null_at [of v "pre @ k @ [CHR 0x00]" ?r] ok(3) by (simp add: cstring_ok_def)
  have IH: "startup_loop (pre @ k @ CHR 0x00 # v @ CHR 0x00 # ?r) (length pre + length k + 1 + length v + 1)
      (al_insert k v acc) = Inr (fold (\<lambda>(k, v). al_insert k v) ps (al_insert k v acc))"
    using Cons.IH [OF ok(4), of "pre @ k @ [CHR 0x00] @ v @ [CHR 0x00]" "al_insert k v acc"]
    by (simp add: add.assoc)
  show ?case
    unfolding p
    by (subst startup_loop.simps)
      (use ok f1 f2 IH in \<open>simp add: kv cstring_ok_def Let_def add.assoc\<close>)
qed

lemma startup_round_trip:
  assumes "startup_ok ps" and "length (params_bytes ps) + 8 \<le> MAX_STARTUP_PACKET_LEN"
  shows "decode_startup_packet (encode_startup_message ps) =
    Inr (Startup \<lparr>sm_protocol_version = PROTOCOL_VERSION_3, sm_parameters = fold (\<lambda>(k, v). al_insert k v) ps []\<rparr>)"
proof -
  let ?b = "params_bytes ps"
  let ?n = "length ?b + 8"
  have n: "?n < 2 ^ 31" using assms(2) by (simp add: MAX_STARTUP_PACKET_LEN_def)
  have f: "encode_startup_message ps = i32_be (of_nat ?n) @ i32_be PROTOCOL_VERSION_3 @ ?b"
    by (simp add: encode_startup_message_def encode_untagged_packet_def params_bytes_def algebra_simps)
  have s: "sint (of_nat ?n :: 32 word) = int ?n" using n by (intro sint_of_nat_small) simp
  have u: "i32_as_usize (of_nat ?n) = ?n" using n by (rule i32_as_usize_of_nat)
  have l: "last ?b = CHR 0x00" "?b \<noteq> []" by (simp_all add: params_bytes_def)
  have p: "decode_startup_parameters ?b = Inr (fold (\<lambda>(k, v). al_insert k v) ps [])"
    using startup_loop_params [OF assms(1), of "[]" "[]"] l by (simp add: decode_startup_parameters_def)
  have t: "take 4 (i32_be w @ x) = i32_be w" "take 4 (drop 4 (i32_be w @ i32_be w' @ x)) = i32_be w'"
    "drop 8 (i32_be w @ i32_be w' @ x) = x" for w w' x by simp_all
  have c: "PROTOCOL_VERSION_3 \<noteq> SSL_REQUEST_CODE" "PROTOCOL_VERSION_3 \<noteq> CANCEL_REQUEST_CODE"
    by (simp_all add: PROTOCOL_VERSION_3_def SSL_REQUEST_CODE_def CANCEL_REQUEST_CODE_def)
  show ?thesis
    unfolding f decode_startup_packet_def t
    using assms(2) n c s u by (simp add: p Let_def add.commute)
qed

lemma startup_params_last_wins:
  "map_of (fold (\<lambda>(k, v). al_insert k v) ps acc) = map_of acc ++ map_of (rev ps)"
  by (induction ps arbitrary: acc) (auto simp: map_add_def fun_eq_iff split: option.splits)

lemma ssl_cancel_round_trip:
  "decode_startup_packet encode_ssl_request = Inr SslRequest"
  "decode_startup_packet (encode_cancel_request pid key) = Inr (CancelRequest pid key)"
proof -
  have t: "take 4 (i32_be w @ x) = i32_be w" "take 4 (drop 4 (i32_be w @ i32_be w' @ x)) = i32_be w'"
    "take 4 (drop 8 (i32_be w @ i32_be w' @ i32_be v @ x)) = i32_be v"
    "take 4 (drop 12 (i32_be w @ i32_be w' @ i32_be v @ i32_be v')) = i32_be v'" for w w' v v' x by simp_all
  have d: "SSL_REQUEST_CODE \<noteq> CANCEL_REQUEST_CODE" by (simp add: SSL_REQUEST_CODE_def CANCEL_REQUEST_CODE_def)
  have u: "i32_as_usize 8 = 8" "i32_as_usize 16 = 16" "sint (8 :: 32 word) = 8" "sint (16 :: 32 word) = 16"
    using i32_as_usize_of_nat [of 8] i32_as_usize_of_nat [of 16] by simp_all
  show "decode_startup_packet encode_ssl_request = Inr SslRequest"
    using t(2) [of 8 SSL_REQUEST_CODE "[]"] d u
    by (simp add: encode_ssl_request_def encode_untagged_packet_def decode_startup_packet_def Let_def
        MAX_STARTUP_PACKET_LEN_def)
  show "decode_startup_packet (encode_cancel_request pid key) = Inr (CancelRequest pid key)"
    using d u
    by (simp add: encode_cancel_request_def encode_untagged_packet_def decode_startup_packet_def Let_def
        MAX_STARTUP_PACKET_LEN_def)
qed

section \<open>The extended query protocol\<close>

text \<open>The layout of Parse and Bind in the protocol, as a reference for the decoders.\<close>

definition param_bytes :: "bytes option \<Rightarrow> bytes" where
  "param_bytes v = (case v of None \<Rightarrow> i32_be (- 1) | Some b \<Rightarrow> i32_be (of_nat (length b)) @ b)"

lemma param_bytes_simps [simp]:
  "param_bytes None = i32_be (- 1)" "param_bytes (Some b) = i32_be (of_nat (length b)) @ b"
  by (simp_all add: param_bytes_def)

definition parse_frame :: "str \<Rightarrow> str \<Rightarrow> 32 word list \<Rightarrow> bytes" where
  "parse_frame statement query oids =
     encode_message CHR ''P''
       (statement @ [CHR 0x00] @ query @ [CHR 0x00] @ i16_be (of_nat (length oids)) @ concat (map i32_be oids))"

definition bind_tail :: "16 word list \<Rightarrow> bytes option list \<Rightarrow> 16 word list \<Rightarrow> bytes" where
  "bind_tail formats params results =
     i16_be (of_nat (length formats)) @ concat (map i16_be formats)
     @ i16_be (of_nat (length params)) @ concat (map param_bytes params)
     @ i16_be (of_nat (length results)) @ concat (map i16_be results)"

definition bind_frame ::
  "str \<Rightarrow> str \<Rightarrow> 16 word list \<Rightarrow> bytes option list \<Rightarrow> 16 word list \<Rightarrow> bytes" where
  "bind_frame portal statement formats params results =
     encode_message CHR ''B'' (portal @ [CHR 0x00] @ statement @ [CHR 0x00] @ bind_tail formats params results)"

lemma take_at_here: "length a = n \<Longrightarrow> take_at (pre @ a @ r) (length pre) n = Inr a"
  by (auto simp: take_at_def)

lemma read_oids_all:
  "read_oids (pre @ concat (map i32_be ws) @ r) (length pre) (length ws) acc =
     Inr (acc @ ws, length pre + 4 * length ws)"
proof (induction ws arbitrary: pre acc)
  case (Cons w ws)
  have "take_at (pre @ i32_be w @ concat (map i32_be ws) @ r) (length pre) 4 = Inr (i32_be w)"
    by (rule take_at_here) simp
  then show ?case using Cons.IH [of "pre @ i32_be w" "acc @ [w]"] by simp
qed simp

lemma read_formats_all:
  assumes "list_all (\<lambda>f. f = 0 \<or> f = 1) fs"
  shows "read_formats (pre @ concat (map i16_be fs) @ r) (length pre) (length fs) acc =
    Inr (acc @ fs, length pre + 2 * length fs)"
  using assms
proof (induction fs arbitrary: pre acc)
  case (Cons f fs)
  have "take_at (pre @ i16_be f @ concat (map i16_be fs) @ r) (length pre) 2 = Inr (i16_be f)"
    by (rule take_at_here) simp
  then show ?case using Cons.IH [of "pre @ i16_be f" "acc @ [f]"] Cons.prems by auto
qed simp

text \<open>A parameter and the text it is turned into.\<close>

fun param_text :: "16 word list \<Rightarrow> nat \<Rightarrow> bytes option list \<Rightarrow> str option list \<Rightarrow> bool" where
  "param_text formats i [] [] \<longleftrightarrow> True"
| "param_text formats i (None # vs) (None # ts) \<longleftrightarrow> param_text formats (i + 1) vs ts"
| "param_text formats i (Some v # vs) (Some t # ts) \<longleftrightarrow>
     length v < 2 ^ 31 \<and> decode_param (param_format formats i) v = Inr t \<and> param_text formats (i + 1) vs ts"
| "param_text formats i _ _ \<longleftrightarrow> False"

lemma read_params_all:
  assumes "param_text formats i vs ts"
  shows "read_params formats (pre @ concat (map param_bytes vs) @ r) (length pre) i (length vs) acc =
    Inr (acc @ ts, length pre + length (concat (map param_bytes vs)))"
  using assms
proof (induction formats i vs ts arbitrary: pre acc rule: param_text.induct)
  case (2 formats i vs ts)
  have "take_at (pre @ i32_be (- 1) @ concat (map param_bytes vs) @ r) (length pre) 4 = Inr (i32_be (- 1))"
    by (rule take_at_here) simp
  then show ?case using 2 (1) [of "pre @ i32_be (- 1)" "acc @ [None]"] 2 (2)
    by (simp add: add.assoc)
next
  case (3 formats i v vs t ts)
  let ?c = "concat (map param_bytes vs) @ r" and ?l = "i32_be (of_nat (length v))"
  have v: "length v < 2 ^ 31" "decode_param (param_format formats i) v = Inr t" "param_text formats (i + 1) vs ts"
    using 3 (2) by simp_all
  have a: "take_at (pre @ ?l @ v @ ?c) (length pre) 4 = Inr ?l" by (rule take_at_here) simp
  have b: "take_at (pre @ ?l @ v @ ?c) (length pre + 4) (length v) = Inr v"
    using take_at_here [of v "length v" "pre @ ?l" ?c] by simp
  have n: "sint (of_nat (length v) :: 32 word) = int (length v)" using v(1) by (intro sint_of_nat_small) simp
  have u: "i32_as_usize (of_nat (length v)) = length v" using v(1) by (rule i32_as_usize_of_nat)
  show ?case
    using 3 (1) [OF v(3), of "pre @ ?l @ v" "acc @ [Some t]"] a b v n u
    by (simp add: add.assoc)
qed simp_all

lemma with_capacity_small: "n < 2 ^ 15 \<Longrightarrow> k \<le> 24 \<Longrightarrow> with_capacity k n = Done ()"
proof -
  assume "n < 2 ^ 15" "k \<le> 24"
  then have "n * k \<le> 2 ^ 15 * 24" by (intro mult_le_mono) auto
  then show ?thesis by (simp add: with_capacity_def isize_max_def)
qed

lemma read_count_here:
  assumes "n < 2 ^ 15" and "k \<le> 24"
  shows "read_count k (pre @ i16_be (of_nat n) @ r) (length pre) = Done (Inr n)"
  using assms take_at_here [of "i16_be (of_nat n)" 2 pre r]
  by (simp add: read_count_def i16_as_usize_of_nat with_capacity_small)

lemma parse_is_decoded:
  assumes "cstring_ok statement" and "cstring_ok query" and "length oids < 2 ^ 15"
    and "length statement + length query < 2 ^ 30"
  shows "decode_frontend_message (parse_frame statement query oids) = Done (Inr (FeParse statement query oids))"
proof -
  let ?b = "i16_be (of_nat (length oids)) @ concat (map i32_be oids)"
  have l: "length (concat (map i32_be oids)) = 4 * length oids" by (induction oids) auto
  have "decode_frontend_message (parse_frame statement query oids) =
      decode_message_body CHR ''P'' (statement @ CHR 0x00 # query @ CHR 0x00 # ?b)"
    unfolding parse_frame_def using assms(3,4) l by (subst decode_encode_message) auto
  moreover have "read_oids ?b 2 (length oids) [] = Inr (oids, 2 + 4 * length oids)"
    using read_oids_all [of "i16_be (of_nat (length oids))" oids "[]" "[]"] by simp
  ultimately show ?thesis
    using assms(1-3) l
    by (simp add: decode_message_body_def decode_parse_body_def split_cstring_ok i16_as_usize_of_nat
        with_capacity_small)
qed

lemma bind_is_decoded:
  assumes "cstring_ok portal" and "cstring_ok statement"
    and "list_all (\<lambda>f. f = 0 \<or> f = 1) formats" and "list_all (\<lambda>f. f = 0 \<or> f = 1) results"
    and "length formats < 2 ^ 15" and "length vs < 2 ^ 15" and "length results < 2 ^ 15"
    and "param_text formats 0 vs ts"
    and "length (bind_frame portal statement formats vs results) < 2 ^ 31"
  shows "decode_frontend_message (bind_frame portal statement formats vs results) =
    Done (Inr (FeBind portal statement ts results))"
proof -
  let ?f = "concat (map i16_be formats)" and ?v = "concat (map param_bytes vs)" and ?r = "concat (map i16_be results)"
  let ?nf = "i16_be (of_nat (length formats))" and ?nv = "i16_be (of_nat (length vs))"
    and ?nr = "i16_be (of_nat (length results))"
  let ?b = "bind_tail formats vs results"
  have lf: "length (concat (map i16_be fs)) = 2 * length fs" for fs by (induction fs) auto
  have b: "?b = [] @ ?nf @ ?f @ ?nv @ ?v @ ?nr @ ?r" "?b = ?nf @ ?f @ ?nv @ ?v @ ?nr @ ?r"
    "?b = (?nf @ ?f) @ ?nv @ ?v @ ?nr @ ?r" "?b = (?nf @ ?f @ ?nv) @ ?v @ ?nr @ ?r"
    "?b = (?nf @ ?f @ ?nv @ ?v) @ ?nr @ ?r" "?b = (?nf @ ?f @ ?nv @ ?v @ ?nr) @ ?r @ []"
    by (simp_all add: bind_tail_def)
  let ?o1 = "2 + 2 * length formats" and ?o2 = "2 + 2 * length formats + 2 + length ?v"
  have o: "length [] = 0" "length ?nf = 2" "length (?nf @ ?f) = ?o1" "length (?nf @ ?f @ ?nv) = ?o1 + 2"
    "length (?nf @ ?f @ ?nv @ ?v) = ?o2" "length (?nf @ ?f @ ?nv @ ?v @ ?nr) = ?o2 + 2"
    by (simp_all add: lf)
  have c1: "read_count 2 ?b 0 = Done (Inr (length formats))"
    using read_count_here [of "length formats" 2 "[]" "?f @ ?nv @ ?v @ ?nr @ ?r"] assms(5) b(1) by simp
  have f1: "read_formats ?b 2 (length formats) [] = Inr (formats, ?o1)"
    unfolding b(2) using read_formats_all [OF assms(3), of ?nf "?nv @ ?v @ ?nr @ ?r" "[]"] by (simp only: o append_Nil)
  have c2: "read_count 24 ?b ?o1 = Done (Inr (length vs))"
    unfolding b(3) o(3) [symmetric] using assms(6) by (intro read_count_here) auto
  have p: "read_params formats ?b (?o1 + 2) 0 (length vs) [] = Inr (ts, ?o2)"
    unfolding b(4) using read_params_all [OF assms(8), of "?nf @ ?f @ ?nv" "?nr @ ?r" "[]"] by (simp only: o append_Nil)
  have c3: "read_count 2 ?b ?o2 = Done (Inr (length results))"
    unfolding b(5) o(5) [symmetric] using assms(7) by (intro read_count_here) auto
  have lb: "length ?b = ?o2 + 2 + 2 * length results" by (simp add: bind_tail_def lf)
  have f3: "read_formats ?b (?o2 + 2) (length results) [] = Inr (results, length ?b)"
    unfolding lb unfolding b(6)
    using read_formats_all [OF assms(4), of "?nf @ ?f @ ?nv @ ?v @ ?nr" "[]" "[]"] by (simp only: o append_Nil)
  have "decode_bind_rest portal statement ?b = Done (Inr (FeBind portal statement ts results))"
    unfolding decode_bind_rest_def c1 run_bind.simps sum.case f1 prod.case c2 p c3 f3 by simp
  moreover have "decode_frontend_message (bind_frame portal statement formats vs results) =
      decode_message_body CHR ''B'' (portal @ CHR 0x00 # statement @ CHR 0x00 # ?b)"
    using assms(9) unfolding bind_frame_def by (subst decode_encode_message) (auto simp: encode_message_def)
  ultimately show ?thesis using assms(1,2)
    by (simp add: decode_message_body_def decode_bind_body_def split_cstring_ok)
qed

text \<open>Text parameters arrive as they were sent.\<close>

lemma text_params:
  "list_all (\<lambda>v. case v of None \<Rightarrow> True | Some s \<Rightarrow> cstring_ok s \<and> length s < 2 ^ 31) vs \<Longrightarrow>
     param_text [] i vs vs"
proof (induction vs arbitrary: i)
  case (Cons v vs)
  then show ?case by (cases v) (auto simp: param_format_def decode_param_def cstring_ok_def)
qed simp

section \<open>Rows\<close>

lemma data_row_values_eq:
  "list_all (\<lambda>v. case v of None \<Rightarrow> True | Some b \<Rightarrow> length b < 2 ^ 31) vs \<Longrightarrow>
     data_row_values body vs = Inr (body @ concat (map param_bytes vs))"
  by (induction body vs rule: data_row_values.induct) (auto simp: param_bytes_def checked_i32_def)

text \<open>A value of a row as a client reads it.\<close>

definition read_value :: "bytes \<Rightarrow> (bytes option \<times> bytes) option" where
  "read_value bs =
     (if length bs < 4 then None
      else let n = read_i32 (take 4 bs); r = drop 4 bs
           in if sint n < 0 then Some (None, r)
              else if length r < nat (sint n) then None
              else Some (Some (take (nat (sint n)) r), drop (nat (sint n)) r))"

lemma read_value_param:
  "(case v of None \<Rightarrow> True | Some b \<Rightarrow> length b < 2 ^ 31) \<Longrightarrow> read_value (param_bytes v @ r) = Some (v, r)"
proof (cases v)
  case (Some b)
  moreover assume "case v of None \<Rightarrow> True | Some b \<Rightarrow> length b < 2 ^ 31"
  ultimately have "sint (of_nat (length b) :: 32 word) = int (length b)" by (intro sint_of_nat_small) simp
  with Some show ?thesis by (simp add: read_value_def param_bytes_def Let_def)
qed (simp add: read_value_def param_bytes_def Let_def)

interpretation cell: wire_format param_bytes "\<lambda>bs v r. read_value bs = Some (v, r)"
  "\<lambda>v. case v of None \<Rightarrow> True | Some b \<Rightarrow> length b < 2 ^ 31"
proof
  fix x :: "bytes option" and r
  assume "case x of None \<Rightarrow> True | Some b \<Rightarrow> length b < 2 ^ 31"
  then show "read_value (param_bytes x @ r) = Some (x, r)" by (rule read_value_param)
next
  fix x :: "bytes option"
  have "length (param_bytes x) \<ge> 4" by (simp add: param_bytes_def split: option.splits)
  then show "param_bytes x \<noteq> []" by auto
qed simp

section \<open>What the decoder accepts\<close>

text \<open>
  The type of a decoded message: names and statements are C strings, parameters are UTF-8, the counts
  are those a signed 16-bit integer can carry and the format codes are the two of the protocol.
\<close>

fun message_ok :: "frontend_message \<Rightarrow> bool" where
  "message_ok (FeQuery sql) \<longleftrightarrow> cstring_ok sql"
| "message_ok (FeParse statement query oids) \<longleftrightarrow>
     cstring_ok statement \<and> cstring_ok query \<and> length oids < 2 ^ 15"
| "message_ok (FeBind portal statement params results) \<longleftrightarrow>
     cstring_ok portal \<and> cstring_ok statement \<and> length params < 2 ^ 15 \<and> length results < 2 ^ 15 \<and>
     list_all (pred_option utf8) params \<and> list_all (\<lambda>f. f = 0 \<or> f = 1) results"
| "message_ok (FeDescribe target name) \<longleftrightarrow> target < 256 \<and> cstring_ok name"
| "message_ok (FeClose target name) \<longleftrightarrow> target < 256 \<and> cstring_ok name"
| "message_ok (FeExecute portal max_rows) \<longleftrightarrow> cstring_ok portal"
| "message_ok FeTerminate \<longleftrightarrow> True"
| "message_ok FeSync \<longleftrightarrow> True"
| "message_ok FeFlush \<longleftrightarrow> True"

lemma decode_utf8_Inr_iff: "decode_utf8 bs = Inr s \<longleftrightarrow> utf8 bs \<and> s = bs"
  by (auto simp: decode_utf8_def from_utf8_Inr_iff split: sum.splits)

lemma position_null_Some:
  "position_null bs = Some n \<Longrightarrow> \<exists>r. bs = take n bs @ CHR 0x00 # r \<and> n < length bs \<and> CHR 0x00 \<notin> set (take n bs) \<and> r = drop (n + 1) bs"
proof -
  assume "position_null bs = Some n"
  then have m: "CHR 0x00 \<in> set bs" "n = length (takeWhile (\<lambda>c. c \<noteq> CHR 0x00) bs)"
    by (auto simp: position_null_def split: if_splits)
  let ?d = "dropWhile (\<lambda>c. c \<noteq> CHR 0x00) bs"
  have d: "?d \<noteq> []" "hd ?d = CHR 0x00" using m(1) hd_dropWhile [of "\<lambda>c. c \<noteq> CHR 0x00" bs] by (auto simp: dropWhile_eq_Nil_conv)
  have t: "take n bs = takeWhile (\<lambda>c. c \<noteq> CHR 0x00) bs" "drop n bs = ?d"
    by (simp_all add: m(2) takeWhile_eq_take [symmetric] dropWhile_eq_drop [symmetric])
  have "n < length bs" using d(1) t(2) by (metis drop_eq_Nil not_le)
  moreover have "CHR 0x00 \<notin> set (take n bs)" unfolding t by (auto dest: set_takeWhileD)
  moreover have "bs = take n bs @ CHR 0x00 # drop (n + 1) bs"
    using d t(2) by (metis append_take_drop_id drop_Suc Suc_eq_plus1 list.collapse tl_drop)
  ultimately show ?thesis by blast
qed

lemma split_cstring_Inr: "split_cstring bs = Inr (s, r) \<Longrightarrow> bs = s @ CHR 0x00 # r \<and> cstring_ok s"
  by (auto simp: split_cstring_def decode_utf8_Inr_iff cstring_ok_def split: option.splits sum.splits
      dest!: position_null_Some)

lemma decode_single_cstring_Inr_iff: "decode_single_cstring bs = Inr s \<longleftrightarrow> cstring_ok s \<and> bs = s @ [CHR 0x00]"
proof
  assume "decode_single_cstring bs = Inr s"
  then obtain n where "position_null bs = Some n" "n + 1 = length bs" "utf8 (take n bs)" "s = take n bs"
    by (auto simp: decode_single_cstring_def find_null_def decode_utf8_Inr_iff split: option.splits if_splits)
  then show "cstring_ok s \<and> bs = s @ [CHR 0x00]"
    by (auto dest!: position_null_Some simp: cstring_ok_def)
qed (simp add: decode_single_cstring_ok)

lemma with_capacity_i16:
  "with_capacity k (i16_as_usize w) = Done u \<Longrightarrow> 0 < k \<Longrightarrow> i16_as_usize w < 2 ^ 15"
proof -
  assume c: "with_capacity k (i16_as_usize w) = Done u" and k: "0 < k"
  have "i16_as_usize w \<le> i16_as_usize w * k" using k by simp
  moreover have "i16_as_usize w * k \<le> isize_max" using c by (simp add: with_capacity_def split: if_splits)
  ultimately have "i16_as_usize w \<le> isize_max" by (rule le_trans)
  then have "i16_as_usize w < 2 ^ 63" by (simp add: isize_max_def)
  then have "0 \<le> sint w" using i16_as_usize_neg [of w] by linarith
  then show ?thesis using i16_as_usize_nonneg [of w] sint_less [of w] by simp
qed

lemma read_oids_length: "read_oids rest off n acc = Inr (ws, off') \<Longrightarrow> length ws = length acc + n"
  by (induction n arbitrary: off acc) (auto split: sum.splits)

lemma read_formats_ok:
  "read_formats rest off n acc = Inr (fs, off') \<Longrightarrow> list_all (\<lambda>f. f = 0 \<or> f = 1) acc \<Longrightarrow>
     length fs = length acc + n \<and> list_all (\<lambda>f. f = 0 \<or> f = 1) fs"
proof (induction n arbitrary: off acc)
  case (Suc n)
  then obtain b where "read_i16 b = 0 \<or> read_i16 b = 1" "read_formats rest (off + 2) n (acc @ [read_i16 b]) = Inr (fs, off')"
    by (auto split: sum.splits if_splits)
  with Suc.IH [of "off + 2" "acc @ [read_i16 b]"] Suc.prems(2) show ?case by auto
qed simp

lemma utf8_show_int: "utf8 (show_int i)"
proof (rule utf8_ascii)
  have "list_all (\<lambda>c. byte c < 128) (show_nat n)" for n
    using show_nat_digits [of n] by (rule list.pred_mono_strong) (simp add: is_ascii_digit_def)
  then show "is_ascii_str (show_int i)" by (simp add: is_ascii_str_def show_int_def)
qed

lemma decode_param_utf8: "decode_param f raw = Inr s \<Longrightarrow> utf8 s"
  by (auto simp: decode_param_def decode_pg_binary_param_to_text_def decode_utf8_Inr_iff from_utf8_Inr_iff
      utf8_show_int utf8_ascii is_ascii_str_def split: if_splits sum.splits)

lemma read_params_ok:
  "read_params fs rest off i n acc = Inr (ps, off') \<Longrightarrow> list_all (pred_option utf8) acc \<Longrightarrow>
     length ps = length acc + n \<and> list_all (pred_option utf8) ps"
proof (induction n arbitrary: off i acc)
  case (Suc n)
  from Suc.prems obtain v off2 where "pred_option utf8 v" "read_params fs rest off2 (i + 1) n (acc @ [v]) = Inr (ps, off')"
    by (simp add: Let_def split: sum.splits if_splits)
      (metis decode_param_utf8 option.pred_inject(1), metis decode_param_utf8 option.pred_inject(2))
  with Suc.IH [of off2 "i + 1" "acc @ [v]"] Suc.prems(2) show ?case by auto
qed simp

lemma read_count_Inr: "read_count k rest off = Done (Inr n) \<Longrightarrow> 0 < k \<Longrightarrow> n < 2 ^ 15"
  by (auto simp: read_count_def Let_def split: sum.splits dest: with_capacity_i16)

lemma decode_bind_rest_ok:
  assumes "decode_bind_rest p s rest = Done (Inr m)" and "cstring_ok p" and "cstring_ok s"
  shows "message_ok m"
proof -
  obtain n1 n2 n3 fs o1 ps o2 rs o3 where
    "read_count 24 rest o1 = Done (Inr n2)" "read_params fs rest (o1 + 2) 0 n2 [] = Inr (ps, o2)"
    "read_count 2 rest o2 = Done (Inr n3)" "read_formats rest (o2 + 2) n3 [] = Inr (rs, o3)"
    "m = FeBind p s ps rs"
    using assms(1) unfolding decode_bind_rest_def
    by (simp add: sum_case_eq_iff split: prod.splits if_splits)
  with assms(2,3) show ?thesis
    using read_count_Inr [of 24 rest o1 n2] read_count_Inr [of 2 rest o2 n3]
    by (auto dest: read_formats_ok read_params_ok)
qed

lemma decode_parse_body_ok: "decode_parse_body body = Done (Inr m) \<Longrightarrow> message_ok m"
  by (auto simp: decode_parse_body_def Let_def sum_case_eq_iff split: prod.splits if_splits
      dest!: split_cstring_Inr read_oids_length dest: with_capacity_i16)

lemma decode_message_body_ok: "decode_message_body tag body = Done (Inr m) \<Longrightarrow> message_ok m"
  by (auto simp: decode_message_body_def decode_bind_body_def sum_case_eq_iff
      decode_describe_or_close_body_def decode_execute_body_def require_empty_body_def decode_single_cstring_Inr_iff
      split: if_splits list.splits prod.splits dest!: split_cstring_Inr decode_parse_body_ok
      dest: decode_bind_rest_ok)

lemma decode_frontend_message_Inr:
  assumes "decode_frontend_message frame = Done (Inr m)"
  obtains body where "frame = encode_message (hd frame) body" and "length body + 4 < 2 ^ 31"
    and "decode_message_body (hd frame) body = Done (Inr m)"
proof -
  let ?w = "read_i32 (take 4 (drop 1 frame))" and ?b = "drop 5 frame"
  have w: "\<not> length frame < 5" "\<not> sint ?w < 4" "i32_as_usize ?w + 1 = length frame"
    "decode_message_body (hd frame) ?b = Done (Inr m)"
    using assms by (auto simp: decode_frontend_message_def Let_def split: if_splits)
  have n: "i32_as_usize ?w = nat (sint ?w)" using w(2) sint_less [of ?w] by (simp add: i32_as_usize_def)
  have l: "length ?b + 4 = nat (sint ?w)" using w(1,3) n by simp
  have "?w = of_nat (length ?b + 4)" unfolding l using w(2) by simp
  moreover have "i32_be ?w = take 4 (drop 1 frame)" using w(1) by (simp add: i32_be_read)
  moreover have "frame = hd frame # take 4 (drop 1 frame) @ ?b"
    using w(1) by (cases frame) (auto simp: numeral_eq_Suc)
  ultimately have "frame = encode_message (hd frame) ?b" by (simp add: encode_message_def)
  moreover have "length ?b + 4 < 2 ^ 31" unfolding l using sint_less [of ?w] by simp
  ultimately show thesis using that w(4) by blast
qed

lemma decode_frontend_message_ok:
  "decode_frontend_message frame = Done (Inr m) \<Longrightarrow> message_ok m"
  by (elim decode_frontend_message_Inr) (rule decode_message_body_ok)

text \<open>Exactly the encodings of a query are decoded to it.\<close>

lemma query_exactly:
  "decode_frontend_message frame = Done (Inr (FeQuery sql)) \<longleftrightarrow>
     cstring_ok sql \<and> length sql + 5 < 2 ^ 31 \<and> frame = encode_query_message sql"
proof
  assume "decode_frontend_message frame = Done (Inr (FeQuery sql))"
  then obtain body where b: "frame = encode_message (hd frame) body" "length body + 4 < 2 ^ 31"
    "decode_message_body (hd frame) body = Done (Inr (FeQuery sql))" by (rule decode_frontend_message_Inr)
  then have "hd frame = CHR ''Q'' \<and> decode_single_cstring body = Inr sql"
    by (auto simp: decode_message_body_def decode_parse_body_def decode_bind_body_def decode_bind_rest_def
      decode_describe_or_close_body_def decode_execute_body_def require_empty_body_def Let_def sum_case_eq_iff
      split: if_splits list.splits prod.splits)
  with b show "cstring_ok sql \<and> length sql + 5 < 2 ^ 31 \<and> frame = encode_query_message sql"
    by (auto simp: decode_single_cstring_Inr_iff encode_query_message_def)
qed (simp add: query_round_trip)

end
