(* ===== verification/Translation.thy ===== *)
theory Translation
  imports Select_Rewrite
begin

text \<open>
  Cross-protocol translation (\<open>gateway/core/src/translation.rs\<close>): which statements may cross from one
  dialect to the other, and how placeholders, identifiers, \<open>IFNULL\<close> and \<open>LIMIT\<close> are rewritten.

  The source walks the bytes of a valid UTF-8 string and steps over whole characters.  Bytes of a
  multi-byte character are never equal to an ASCII delimiter, so the model steps over single bytes.
  A position in the text is the rest of the text from there; the byte before it is passed along.
\<close>

section \<open>Policies\<close>

datatype gateway_error = EConfiguration str | EProtocol str | EBackend str | EUnsupported str

datatype translation_statement_kind = KSelect | KInsert | KUpdate | KDelete

record translation_policy =
  tp_name :: str
  tp_enabled :: bool
  tp_frontend_protocol :: protocol_kind
  tp_backend_protocol :: protocol_kind
  tp_allowed_statements :: "translation_statement_kind list"

fun statement_kind_as_str :: "translation_statement_kind \<Rightarrow> str" where
  "statement_kind_as_str KSelect = ''select''"
| "statement_kind_as_str KInsert = ''insert''"
| "statement_kind_as_str KUpdate = ''update''"
| "statement_kind_as_str KDelete = ''delete''"

definition kind_from_keyword :: "str \<Rightarrow> translation_statement_kind option" where
  "kind_from_keyword keyword =
     (if keyword \<in> set [''SELECT'', ''WITH'', ''VALUES'', ''TABLE'', ''SHOW'', ''EXPLAIN'', ''DESCRIBE'', ''DESC'']
      then Some KSelect
      else if keyword = ''INSERT'' then Some KInsert
      else if keyword = ''UPDATE'' then Some KUpdate
      else if keyword = ''DELETE'' then Some KDelete
      else None)"

definition default_allowed_statements :: "translation_statement_kind list" where
  "default_allowed_statements = [KSelect, KInsert, KUpdate, KDelete]"

definition effective_allowed :: "translation_policy \<Rightarrow> translation_statement_kind list" where
  "effective_allowed policy =
     (if tp_allowed_statements policy = [] then default_allowed_statements else tp_allowed_statements policy)"

definition format_allowed :: "translation_policy \<Rightarrow> str" where
  "format_allowed policy = join '', '' (map statement_kind_as_str (effective_allowed policy))"

definition in_quotes :: "str \<Rightarrow> str" where
  "in_quotes s = [squote] @ s @ [squote]"

definition policy_text :: "translation_policy \<Rightarrow> str" where
  "policy_text policy = ''translation policy '' @ in_quotes (tp_name policy)"

definition hop_text :: "translation_policy \<Rightarrow> str" where
  "hop_text policy =
     protocol_as_str (tp_frontend_protocol policy) @ '' -> '' @ protocol_as_str (tp_backend_protocol policy)"

definition protocol_debug :: "protocol_kind \<Rightarrow> str" where
  "protocol_debug p = (case p of MySql \<Rightarrow> ''MySql'' | PostgreSql \<Rightarrow> ''PostgreSql'')"

text \<open>A dialect parser: its protocol and its \<open>leading_keyword\<close>.\<close>

record dialect =
  dia_protocol :: protocol_kind
  dia_leading_keyword :: "str \<Rightarrow> str option"

definition validate_translation_policy :: "translation_policy \<Rightarrow> dialect \<Rightarrow> gateway_error + unit" where
  "validate_translation_policy policy dia =
     (if \<not> tp_enabled policy
      then Inl (EConfiguration (policy_text policy @ '' is disabled; cross-protocol access is not allowed''))
      else if tp_frontend_protocol policy = tp_backend_protocol policy
      then Inl (EConfiguration (policy_text policy @ '' has identical frontend/backend protocol ''
             @ in_quotes (protocol_as_str (tp_frontend_protocol policy))))
      else if dia_protocol dia \<noteq> tp_frontend_protocol policy
      then Inl (EConfiguration (policy_text policy @ '' expects frontend protocol ''
             @ in_quotes (protocol_as_str (tp_frontend_protocol policy)) @ '', got '' @ in_quotes (protocol_debug (dia_protocol dia))))
      else Inr ())"

definition forbidden_constructs :: "(str \<times> str) list" where
  "forbidden_constructs =
     [(''CREATE '', ''DDL CREATE''), (''ALTER '', ''DDL ALTER''), (''DROP '', ''DDL DROP''),
      (''TRUNCATE '', ''DDL TRUNCATE''), (''RENAME '', ''DDL RENAME''), (''CALL '', ''stored procedure CALL''),
      (''EXECUTE '', ''EXECUTE/procedure''), (''COPY '', ''PostgreSQL COPY''), (''LOAD DATA'', ''MySQL LOAD DATA''),
      (''LOAD XML'', ''MySQL LOAD XML''), (''HANDLER '', ''MySQL HANDLER''), (''LOCK TABLES'', ''LOCK TABLES''),
      (''UNLOCK TABLES'', ''UNLOCK TABLES''), (''REPLACE INTO'', ''MySQL REPLACE''),
      (''ON DUPLICATE KEY'', ''MySQL ON DUPLICATE KEY''), (''RETURNING '', ''PostgreSQL RETURNING (not mapped yet)''),
      (''::'', ''PostgreSQL cast operator ::''), (''ILIKE '', ''PostgreSQL ILIKE''), (''REGEXP '', ''MySQL REGEXP''),
      (''RLIKE '', ''MySQL RLIKE'')]"

fun reject_constructs :: "(str \<times> str) list \<Rightarrow> translation_policy \<Rightarrow> str \<Rightarrow> gateway_error + unit" where
  "reject_constructs [] policy upper_sql = Inr ()"
| "reject_constructs ((needle, label) # fs) policy upper_sql =
     (if contains needle upper_sql
      then Inl (EUnsupported (policy_text policy @ '': '' @ label @ '' is not supported for '' @ hop_text policy))
      else reject_constructs fs policy upper_sql)"

definition reject_unsupported_constructs :: "translation_policy \<Rightarrow> str \<Rightarrow> gateway_error + unit" where
  "reject_unsupported_constructs policy upper_sql = reject_constructs forbidden_constructs policy upper_sql"

definition sum_bind :: "'e + 'a \<Rightarrow> ('a \<Rightarrow> 'e + 'b) \<Rightarrow> 'e + 'b" where
  "sum_bind m f = (case m of Inl e \<Rightarrow> Inl e | Inr x \<Rightarrow> f x)"

definition check_translation_sql ::
  "translation_policy \<Rightarrow> str \<Rightarrow> dialect \<Rightarrow> gateway_error + translation_statement_kind" where
  "check_translation_sql policy sql dia =
     sum_bind (validate_translation_policy policy dia) (\<lambda>_.
     sum_bind (reject_unsupported_constructs policy (to_ascii_uppercase (trim_start sql))) (\<lambda>_.
       case dia_leading_keyword dia sql of
         None \<Rightarrow> Inl (EUnsupported (policy_text policy @ '': empty or unparseable SQL is not supported for '' @ hop_text policy))
       | Some keyword \<Rightarrow>
           (case kind_from_keyword keyword of
              None \<Rightarrow> Inl (EUnsupported (policy_text policy @ '': statement kind '' @ in_quotes keyword
                  @ '' is not in the supported subset for '' @ hop_text policy
                  @ '' (allowed: '' @ format_allowed policy @ '')''))
            | Some kind \<Rightarrow>
                if kind \<in> set (effective_allowed policy) then Inr kind
                else Inl (EUnsupported (policy_text policy @ '': '' @ in_quotes (statement_kind_as_str kind)
                  @ '' is not allowed (allowed: '' @ format_allowed policy @ '')'')))))"

section \<open>Opaque text: quotes, comments, dollar quotes\<close>

definition is_ident_byte :: "char \<Rightarrow> bool" where
  "is_ident_byte b \<longleftrightarrow> is_ascii_alphanumeric b \<or> b = CHR ''_''"

definition placeholder_error :: "str \<Rightarrow> gateway_error" where
  "placeholder_error message = EProtocol (''cross-protocol placeholder rewrite: '' @ message)"

abbreviation backslash :: char where "backslash \<equiv> CHR 0x5C"
abbreviation line_feed :: char where "line_feed \<equiv> CHR 0x0A"

text \<open>A scanner splits the text into what it consumed and the rest.\<close>

definition more :: "str \<Rightarrow> (str \<times> str) option \<Rightarrow> (str \<times> str) option" where
  "more a r = map_option (\<lambda>(x, y). (a @ x, y)) r"

text \<open>\<open>quoted_end\<close>, after the opening quote.\<close>

fun scan_quoted :: "char \<Rightarrow> str \<Rightarrow> (str \<times> str) option" where
  "scan_quoted q [] = None"
| "scan_quoted q [c] = (if c = q then Some ([c], []) else None)"
| "scan_quoted q (c # d # s) =
     (if c = backslash then more [c, d] (scan_quoted q s)
      else if c = q then (if d = q then more [c, d] (scan_quoted q s) else Some ([c], d # s))
      else more [c] (scan_quoted q (d # s)))"

definition scan_line :: "str \<Rightarrow> str \<times> str" where
  "scan_line s =
     (case dropWhile (\<lambda>c. c \<noteq> line_feed) s of
        [] \<Rightarrow> (s, [])
      | n # r \<Rightarrow> (takeWhile (\<lambda>c. c \<noteq> line_feed) s @ [n], r))"

fun scan_block :: "nat \<Rightarrow> str \<Rightarrow> (str \<times> str) option" where
  "scan_block depth (a # b # s) =
     (if a = CHR ''/'' \<and> b = CHR ''*'' then more [a, b] (scan_block (depth + 1) s)
      else if a = CHR ''*'' \<and> b = CHR ''/'' then (if depth \<le> 1 then Some ([a, b], s) else more [a, b] (scan_block (depth - 1) s))
      else more [a] (scan_block depth (b # s)))"
| "scan_block depth _ = None"

text \<open>The delimiter of a dollar quote at the start of the text.\<close>

definition dollar_delimiter :: "str \<Rightarrow> str option" where
  "dollar_delimiter s =
     (case s of
        c # first # r \<Rightarrow>
          if first = CHR ''$'' then Some [c, first]
          else if \<not> (is_ascii_uppercase first \<or> is_ascii_lowercase first \<or> first = CHR ''_'') then None
          else (case dropWhile is_ident_byte r of
              d # _ \<Rightarrow> if d = CHR ''$'' then Some (c # first # takeWhile is_ident_byte r @ [d]) else None
            | [] \<Rightarrow> None)
      | _ \<Rightarrow> None)"

text \<open>
  What the loop of \<open>rewrite_placeholder_tokens\<close> copies unread: nothing at this position, a piece of text,
  or an error.
\<close>

definition scan_opaque :: "str \<Rightarrow> gateway_error + (str \<times> str) option" where
  "scan_opaque t =
     (case t of
        [] \<Rightarrow> Inr None
      | c # s \<Rightarrow>
          if c = squote \<or> c = dquote \<or> c = bquote
          then (case more [c] (scan_quoted c s) of
                  None \<Rightarrow> Inl (placeholder_error (''unterminated '' @ [c] @ '' quote''))
                | Some r \<Rightarrow> Inr (Some r))
          else if c = CHR ''-'' \<and> take 1 s = ''-''
          then Inr (more (take 2 t) (Some (scan_line (drop 2 t))))
          else if c = CHR ''#'' then Inr (more [c] (Some (scan_line s)))
          else if c = CHR ''/'' \<and> take 1 s = ''*''
          then (case more (take 2 t) (scan_block 1 (drop 2 t)) of
                  None \<Rightarrow> Inl (placeholder_error ''unterminated block comment'')
                | Some r \<Rightarrow> Inr (Some r))
          else if c = CHR ''$''
          then (case dollar_delimiter t of
                  None \<Rightarrow> Inr None
                | Some delimiter \<Rightarrow>
                    (let body = drop (length delimiter) t
                     in case find_sub delimiter body of
                          None \<Rightarrow> Inl (placeholder_error (''unterminated dollar quote '' @ delimiter))
                        | Some close \<Rightarrow>
                            (let n = length delimiter + close + length delimiter in Inr (Some (take n t, drop n t)))))
          else Inr None)"

lemma more_Some: "more a r = Some (x, y) \<longleftrightarrow> (\<exists>x'. r = Some (x', y) \<and> x = a @ x')"
  by (auto simp: more_def)

lemma more_None [simp]: "more a r = None \<longleftrightarrow> r = None"
  by (simp add: more_def)

lemma scan_quoted_split: "scan_quoted q s = Some (a, b) \<Longrightarrow> s = a @ b"
  by (induction q s arbitrary: a b rule: scan_quoted.induct) (auto simp: more_Some split: if_splits)

lemma scan_line_split: "scan_line s = (a, b) \<Longrightarrow> s = a @ b"
  unfolding scan_line_def
  by (cases "dropWhile (\<lambda>c. c \<noteq> line_feed) s") (auto, metis append_Cons append_Nil append_assoc takeWhile_dropWhile_id)

lemma scan_block_split: "scan_block d s = Some (a, b) \<Longrightarrow> s = a @ b"
  by (induction d s arbitrary: a b rule: scan_block.induct) (auto simp: more_Some split: if_splits)

lemma scan_opaque_split:
  assumes "scan_opaque t = Inr (Some (a, b))"
  shows "t = a @ b \<and> a \<noteq> []"
proof -
  obtain c s where t: "t = c # s" using assms by (auto simp: scan_opaque_def split: list.splits)
  show ?thesis
    using assms unfolding scan_opaque_def t
    by (cases s) (auto simp: more_Some Let_def dollar_delimiter_def split: if_splits option.splits list.splits prod.splits
        dest!: scan_quoted_split scan_line_split scan_block_split)
qed

section \<open>Placeholders\<close>

datatype placeholder_kind = MySqlQuestion | PostgreSqlNumbered

definition u16_max :: nat where "u16_max = 65535"

text \<open>The digits of a numbered placeholder, as a checked \<open>usize\<close>.\<close>

fun checked_index :: "nat \<Rightarrow> str \<Rightarrow> nat option" where
  "checked_index n [] = Some n"
| "checked_index n (d # ds) =
     (let m = n * 10 + (byte d - 48) in if m \<le> u64_max then checked_index m ds else None)"

definition emit :: "str \<Rightarrow> nat list \<Rightarrow> gateway_error + str \<times> nat list \<Rightarrow> gateway_error + str \<times> nat list" where
  "emit a ns r = map_sum id (\<lambda>(out, refs). (a @ out, ns @ refs)) r"

function rewrite_loop :: "placeholder_kind \<Rightarrow> char option \<Rightarrow> nat \<Rightarrow> str \<Rightarrow> gateway_error + str \<times> nat list" where
  "rewrite_loop kind prev count t =
     (case t of
        [] \<Rightarrow> Inr ([], [])
      | c # s \<Rightarrow>
          (case scan_opaque t of
             Inl e \<Rightarrow> Inl e
           | Inr (Some (chunk, rest)) \<Rightarrow> emit chunk [] (rewrite_loop kind (Some (last chunk)) count rest)
           | Inr None \<Rightarrow>
               if kind = MySqlQuestion \<and> c = CHR ''?''
               then if count + 1 > u16_max
                    then Inl (placeholder_error (''MySQL placeholder count exceeds '' @ show_nat u16_max))
                    else emit (CHR ''$'' # show_nat (count + 1)) [count + 1]
                           (rewrite_loop kind (Some c) (count + 1) s)
               else if kind = PostgreSqlNumbered \<and> c = CHR ''$'' \<and> (case s of d # _ \<Rightarrow> is_ascii_digit d | [] \<Rightarrow> False)
               then if (case prev of Some b \<Rightarrow> is_ident_byte b | None \<Rightarrow> False)
                    then Inl (placeholder_error ''PostgreSQL placeholder must be token-delimited'')
                    else let ds = takeWhile is_ascii_digit s; rest = dropWhile is_ascii_digit s
                         in case checked_index 0 ds of
                              None \<Rightarrow> Inl (placeholder_error ''PostgreSQL placeholder index overflow'')
                            | Some index \<Rightarrow>
                                if index = 0 \<or> index > u16_max
                                then Inl (placeholder_error (''PostgreSQL placeholder index $'' @ show_nat index
                                       @ '' is outside 1..='' @ show_nat u16_max))
                                else if (case rest of b # _ \<Rightarrow> is_ident_byte b | [] \<Rightarrow> False)
                                then Inl (placeholder_error ''PostgreSQL placeholder must be token-delimited'')
                                else emit ''?'' [index] (rewrite_loop kind (Some (last ds)) count rest)
               else emit [c] [] (rewrite_loop kind (Some c) count s)))"
  by pat_completeness auto

termination
  by (relation "measure (\<lambda>(kind, prev, count, t). length t)")
    (auto simp: length_dropWhile_le le_imp_less_Suc dest!: scan_opaque_split arg_cong[of "_ # _" _ length])

declare rewrite_loop.simps [simp del]

definition rewrite_placeholder_tokens :: "str \<Rightarrow> placeholder_kind \<Rightarrow> gateway_error + str \<times> nat list" where
  "rewrite_placeholder_tokens sql kind = rewrite_loop kind None 0 sql"

definition rewrite_mysql_placeholders :: "str \<Rightarrow> gateway_error + str \<times> nat list" where
  "rewrite_mysql_placeholders sql = rewrite_placeholder_tokens sql MySqlQuestion"

definition max_index :: "nat list \<Rightarrow> nat" where
  "max_index refs = foldr max refs 0"

definition rewrite_pg_placeholders :: "str \<Rightarrow> gateway_error + str \<times> nat list" where
  "rewrite_pg_placeholders sql =
     sum_bind (rewrite_placeholder_tokens sql PostgreSqlNumbered) (\<lambda>(out, refs).
       case find (\<lambda>i. i \<notin> set refs) [1..<max_index refs + 1] of
         Some missing \<Rightarrow> Inl (placeholder_error (''PostgreSQL placeholder index gap: $'' @ show_nat missing @ '' is not referenced''))
       | None \<Rightarrow> Inr (out, refs))"

definition rewrite_placeholders_mysql_to_pg :: "str \<Rightarrow> gateway_error + str" where
  "rewrite_placeholders_mysql_to_pg sql = map_sum id fst (rewrite_mysql_placeholders sql)"

definition rewrite_placeholders_pg_to_mysql ::
  "str \<Rightarrow> gateway_value list \<Rightarrow> gateway_error + str \<times> gateway_value list" where
  "rewrite_placeholders_pg_to_mysql sql parameters =
     sum_bind (rewrite_pg_placeholders sql) (\<lambda>(out, refs).
       let expected = max_index refs
       in if expected \<noteq> length parameters
          then Inl (placeholder_error (''PostgreSQL query expects '' @ show_nat expected @ '' parameters, got ''
                 @ show_nat (length parameters)))
          else Inr (out, map (\<lambda>i. parameters ! (i - 1)) refs))"

section \<open>Identifiers, functions and limits\<close>

text \<open>
  \<open>out.push(bytes[i] as char)\<close> encodes a byte as the character with that number (\<open>push_byte\<close>).
  The three states of the quote conversion are three functions.
\<close>

datatype convert_state = CvPlain | CvSingle | CvDouble | CvIdent

text \<open>Double-in_quotes identifiers to backticks.\<close>

fun dq_to_bq :: "convert_state \<Rightarrow> str \<Rightarrow> str" where
  "dq_to_bq CvIdent [] = [bquote]"
| "dq_to_bq _ [] = []"
| "dq_to_bq CvSingle (c # s) =
     (if c = squote then (case s of d # s' \<Rightarrow> if d = squote then squote # squote # dq_to_bq CvSingle s'
                                             else squote # dq_to_bq CvPlain s
                                  | [] \<Rightarrow> [squote])
      else push_byte c @ dq_to_bq CvSingle s)"
| "dq_to_bq CvIdent (c # s) =
     (if c = dquote then (case s of d # s' \<Rightarrow> if d = dquote then dquote # dq_to_bq CvIdent s'
                                             else bquote # dq_to_bq CvPlain s
                                  | [] \<Rightarrow> [bquote])
      else if c = bquote then bquote # bquote # dq_to_bq CvIdent s
      else push_byte c @ dq_to_bq CvIdent s)"
| "dq_to_bq _ (c # s) =
     (if c = squote then squote # dq_to_bq CvSingle s
      else if c = dquote then bquote # dq_to_bq CvIdent s
      else push_byte c @ dq_to_bq CvPlain s)"

definition convert_double_quotes_to_backticks :: "str \<Rightarrow> str" where
  "convert_double_quotes_to_backticks sql = dq_to_bq CvPlain sql"

text \<open>Backtick identifiers to double quotes; double-in_quotes text is copied.\<close>

fun bq_to_dq :: "convert_state \<Rightarrow> str \<Rightarrow> str" where
  "bq_to_dq CvIdent [] = [dquote]"
| "bq_to_dq _ [] = []"
| "bq_to_dq CvSingle (c # s) =
     (if c = squote then (case s of d # s' \<Rightarrow> if d = squote then squote # squote # bq_to_dq CvSingle s'
                                             else squote # bq_to_dq CvPlain s
                                  | [] \<Rightarrow> [squote])
      else push_byte c @ bq_to_dq CvSingle s)"
| "bq_to_dq CvDouble (c # s) =
     (if c = dquote then (case s of d # s' \<Rightarrow> if d = dquote then dquote # dquote # bq_to_dq CvDouble s'
                                             else dquote # bq_to_dq CvPlain s
                                  | [] \<Rightarrow> [dquote])
      else push_byte c @ bq_to_dq CvDouble s)"
| "bq_to_dq CvIdent (c # s) =
     (if c = bquote then (case s of d # s' \<Rightarrow> if d = bquote then bquote # bq_to_dq CvIdent s'
                                             else dquote # bq_to_dq CvPlain s
                                  | [] \<Rightarrow> [dquote])
      else if c = dquote then dquote # dquote # bq_to_dq CvIdent s
      else push_byte c @ bq_to_dq CvIdent s)"
| "bq_to_dq CvPlain (c # s) =
     (if c = squote then squote # bq_to_dq CvSingle s
      else if c = dquote then dquote # bq_to_dq CvDouble s
      else if c = bquote then dquote # bq_to_dq CvIdent s
      else push_byte c @ bq_to_dq CvPlain s)"

definition convert_backticks_to_double_quotes :: "str \<Rightarrow> str" where
  "convert_backticks_to_double_quotes sql = bq_to_dq CvPlain sql"

function ifnull_loop :: "char option \<Rightarrow> str \<Rightarrow> str" where
  "ifnull_loop prev t =
     (case t of
        [] \<Rightarrow> []
      | c # s \<Rightarrow>
          (let ws = takeWhile is_u8_whitespace (drop 6 t); after = dropWhile is_u8_whitespace (drop 6 t)
           in if 6 < length t \<and> to_ascii_uppercase (take 6 t) = ''IFNULL''
                 \<and> (case prev of None \<Rightarrow> True | Some b \<Rightarrow> \<not> is_ident_byte (upper_byte b))
                 \<and> \<not> is_ident_byte (upper_byte (t ! 6))
                 \<and> take 1 after = ''(''
              then ''COALESCE'' @ ws @ ''('' @ ifnull_loop (Some (CHR ''('')) (drop 1 after)
              else push_byte c @ ifnull_loop (Some c) s))"
  by pat_completeness auto

termination
proof (relation "measure (\<lambda>(prev, t). length t)", goal_cases)
  case (2 prev t c s ws after)
  have "length after \<le> length (drop 6 t)" 
    using length_dropWhile_le[of is_u8_whitespace "drop 6 t"] 2(3) by (simp only:)
  then show ?case using 2 by auto
qed auto

declare ifnull_loop.simps [simp del]

definition replace_ifnull_with_coalesce :: "str \<Rightarrow> str" where
  "replace_ifnull_with_coalesce sql = ifnull_loop None sql"

fun find_keyword_loop :: "str \<Rightarrow> char option \<Rightarrow> str \<Rightarrow> nat \<Rightarrow> nat option" where
  "find_keyword_loop key prev [] i = None"
| "find_keyword_loop key prev (c # s) i =
     (if starts_with key (c # s)
         \<and> (case prev of None \<Rightarrow> True | Some b \<Rightarrow> \<not> is_ident_byte b)
         \<and> (case drop (length key) (c # s) of [] \<Rightarrow> True | b # _ \<Rightarrow> \<not> is_ident_byte b)
      then Some i else find_keyword_loop key (Some c) s (Suc i))"

definition find_keyword :: "str \<Rightarrow> str \<Rightarrow> nat option" where
  "find_keyword upper_sql keyword = find_keyword_loop keyword None upper_sql 0"

text \<open>
  \<open>char::is_ascii_digit\<close> and \<open>char::is_ascii_whitespace\<close> hold of one-byte characters only, so the scan over
  characters is a scan over bytes.
\<close>

definition rewrite_mysql_limit_offset :: "str \<Rightarrow> str" where
  "rewrite_mysql_limit_offset sql =
     (case find_keyword (to_ascii_uppercase sql) ''LIMIT'' of
        None \<Rightarrow> sql
      | Some limit_pos \<Rightarrow>
          (let rest = trim_start (drop (limit_pos + 5) sql)
           in if contains ''OFFSET'' (to_ascii_uppercase rest) then sql
              else let offset = takeWhile is_ascii_digit rest;
                       r1 = dropWhile is_u8_whitespace (dropWhile is_ascii_digit rest)
                   in if offset = [] then sql
                      else if take 1 r1 \<noteq> '','' then sql
                      else let r2 = dropWhile is_u8_whitespace (drop 1 r1);
                               cnt = takeWhile is_ascii_digit r2; tail = dropWhile is_ascii_digit r2
                           in if cnt = [] then sql
                              else take limit_pos sql @ ''LIMIT '' @ cnt @ '' OFFSET '' @ offset @ tail))"

section \<open>Commands and responses\<close>

definition rewrite_mysql_to_postgresql :: "str \<Rightarrow> gateway_error + str" where
  "rewrite_mysql_to_postgresql sql =
     map_sum id (\<lambda>out. rewrite_mysql_limit_offset (replace_ifnull_with_coalesce (convert_backticks_to_double_quotes out)))
       (rewrite_placeholders_mysql_to_pg sql)"

definition rewrite_postgresql_to_mysql :: "str \<Rightarrow> gateway_error + str" where
  "rewrite_postgresql_to_mysql sql =
     map_sum id (\<lambda>(out, refs). convert_double_quotes_to_backticks out) (rewrite_pg_placeholders sql)"

definition rewrite_sql_for_backend :: "str \<Rightarrow> protocol_kind \<Rightarrow> protocol_kind \<Rightarrow> gateway_error + str" where
  "rewrite_sql_for_backend sql frontend backend =
     (if frontend = backend then Inr sql
      else case frontend of MySql \<Rightarrow> rewrite_mysql_to_postgresql sql | PostgreSql \<Rightarrow> rewrite_postgresql_to_mysql sql)"

definition rewrite_sql_and_parameters_for_backend ::
  "str \<Rightarrow> gateway_value list \<Rightarrow> protocol_kind \<Rightarrow> protocol_kind \<Rightarrow> gateway_error + str \<times> gateway_value list" where
  "rewrite_sql_and_parameters_for_backend sql parameters frontend backend =
     (case (frontend, backend) of
        (MySql, PostgreSql) \<Rightarrow>
          sum_bind (rewrite_mysql_placeholders sql) (\<lambda>(out, refs).
            if length refs \<noteq> length parameters
            then Inl (placeholder_error (''MySQL query expects '' @ show_nat (length refs) @ '' parameters, got ''
                   @ show_nat (length parameters)))
            else Inr (rewrite_mysql_limit_offset (replace_ifnull_with_coalesce (convert_backticks_to_double_quotes out)),
                   parameters))
      | (PostgreSql, MySql) \<Rightarrow>
          sum_bind (rewrite_placeholders_pg_to_mysql sql parameters) (\<lambda>(out, ps).
            Inr (convert_double_quotes_to_backticks out, ps))
      | _ \<Rightarrow> Inr (sql, parameters))"

definition translate_sql :: "translation_policy \<Rightarrow> dialect \<Rightarrow> str \<Rightarrow> gateway_error + str" where
  "translate_sql policy dia sql =
     sum_bind (check_translation_sql policy sql dia) (\<lambda>_.
       rewrite_sql_for_backend sql (tp_frontend_protocol policy) (tp_backend_protocol policy))"

fun prepare_cross_protocol_command ::
  "translation_policy \<Rightarrow> gateway_command \<Rightarrow> dialect \<Rightarrow> gateway_error + gateway_command" where
  "prepare_cross_protocol_command policy (Prepare sql) dia = map_sum id Prepare (translate_sql policy dia sql)"
| "prepare_cross_protocol_command policy (Execute statement_id parameters) dia =
     map_sum id (\<lambda>_. Execute statement_id parameters) (validate_translation_policy policy dia)"
| "prepare_cross_protocol_command policy (CloseStatement statement_id) dia =
     map_sum id (\<lambda>_. CloseStatement statement_id) (validate_translation_policy policy dia)"
| "prepare_cross_protocol_command policy (DescribeSql sql) dia = map_sum id DescribeSql (translate_sql policy dia sql)"
| "prepare_cross_protocol_command policy (Query sql) dia = map_sum id Query (translate_sql policy dia sql)"
| "prepare_cross_protocol_command policy (QueryParams sql parameters) dia =
     sum_bind (check_translation_sql policy sql dia) (\<lambda>_.
       map_sum id (\<lambda>(out, ps). QueryParams out ps)
         (rewrite_sql_and_parameters_for_backend sql parameters (tp_frontend_protocol policy) (tp_backend_protocol policy)))"
| "prepare_cross_protocol_command policy command dia = Inr command"

definition map_columns :: "column list \<Rightarrow> protocol_kind \<Rightarrow> protocol_kind \<Rightarrow> column list" where
  "map_columns columns backend frontend =
     map (\<lambda>c. \<lparr>col_name = col_name c, data_type = map_column_type (data_type c) backend frontend\<rparr>) columns"

definition map_response_types :: "gateway_response \<Rightarrow> protocol_kind \<Rightarrow> protocol_kind \<Rightarrow> gateway_response" where
  "map_response_types response backend frontend =
     (if backend = frontend then response
      else case response of
          RspResultSet columns rows \<Rightarrow> RspResultSet (map_columns columns backend frontend) rows
        | RspTaggedResultSet columns rows tag \<Rightarrow> RspTaggedResultSet (map_columns columns backend frontend) rows tag
        | RspPrepared sid n columns \<Rightarrow> RspPrepared sid n (map_columns columns backend frontend)
        | RspRowDescription columns \<Rightarrow> RspRowDescription (map_columns columns backend frontend)
        | other \<Rightarrow> other)"

section \<open>What a statement means to its placeholders\<close>

text \<open>
  A statement is a sequence of pieces: opaque text, other bytes, and holes.  A hole keeps its digits, which
  a MySQL hole does not have.
\<close>

datatype piece = Opaque str | Other char | Hole str

inductive lexes :: "placeholder_kind \<Rightarrow> str \<Rightarrow> piece list \<Rightarrow> bool" for kind where
  lexes_nil: "lexes kind [] []"
| lexes_opaque: "scan_opaque t = Inr (Some (a, b)) \<Longrightarrow> lexes kind b ps \<Longrightarrow> lexes kind t (Opaque a # ps)"
| lexes_question: "kind = MySqlQuestion \<Longrightarrow> scan_opaque (CHR ''?'' # s) = Inr None \<Longrightarrow> lexes kind s ps
    \<Longrightarrow> lexes kind (CHR ''?'' # s) (Hole [] # ps)"
| lexes_numbered: "kind = PostgreSqlNumbered \<Longrightarrow> scan_opaque (CHR ''$'' # s) = Inr None \<Longrightarrow> ds = takeWhile is_ascii_digit s
    \<Longrightarrow> ds \<noteq> [] \<Longrightarrow> lexes kind (dropWhile is_ascii_digit s) ps \<Longrightarrow> lexes kind (CHR ''$'' # s) (Hole ds # ps)"
| lexes_other: "scan_opaque (c # s) = Inr None \<Longrightarrow> \<not> (kind = MySqlQuestion \<and> c = CHR ''?'')
    \<Longrightarrow> \<not> (kind = PostgreSqlNumbered \<and> c = CHR ''$'' \<and> takeWhile is_ascii_digit s \<noteq> []) \<Longrightarrow> lexes kind s ps
    \<Longrightarrow> lexes kind (c # s) (Other c # ps)"

fun source_text :: "placeholder_kind \<Rightarrow> piece list \<Rightarrow> str" where
  "source_text kind [] = []"
| "source_text kind (Opaque a # ps) = a @ source_text kind ps"
| "source_text kind (Other c # ps) = c # source_text kind ps"
| "source_text kind (Hole ds # ps) = (if kind = MySqlQuestion then ''?'' else CHR ''$'' # ds) @ source_text kind ps"

lemma lexes_source: "lexes kind t ps \<Longrightarrow> source_text kind ps = t"
  by (induction rule: lexes.induct) (auto dest!: scan_opaque_split)

text \<open>The text of a statement with the next hole number \<open>n\<close>, numbered or positional.\<close>

fun numbered_text :: "nat \<Rightarrow> piece list \<Rightarrow> str" where
  "numbered_text n [] = []"
| "numbered_text n (Opaque a # ps) = a @ numbered_text n ps"
| "numbered_text n (Other c # ps) = c # numbered_text n ps"
| "numbered_text n (Hole _ # ps) = CHR ''$'' # show_nat (n + 1) @ numbered_text (n + 1) ps"

fun positional_text :: "piece list \<Rightarrow> str" where
  "positional_text [] = []"
| "positional_text (Opaque a # ps) = a @ positional_text ps"
| "positional_text (Other c # ps) = c # positional_text ps"
| "positional_text (Hole _ # ps) = CHR ''?'' # positional_text ps"

fun hole_indices :: "piece list \<Rightarrow> nat list" where
  "hole_indices [] = []"
| "hole_indices (Hole ds # ps) = digits_value 0 ds # hole_indices ps"
| "hole_indices (_ # ps) = hole_indices ps"

lemma checked_index_value: "checked_index n ds = Some m \<Longrightarrow> m = digits_value n ds"
  by (induction n ds rule: checked_index.induct) (auto simp: Let_def mult.commute split: if_splits)

lemma emit_Inr: "emit a ns r = Inr (out, refs) \<longleftrightarrow> (\<exists>out' refs'. r = Inr (out', refs') \<and> out = a @ out' \<and> refs = ns @ refs')"
  by (cases r) (auto simp: emit_def)

lemma digits_ahead: "(case s of d # _ \<Rightarrow> is_ascii_digit d | [] \<Rightarrow> False) \<longleftrightarrow> takeWhile is_ascii_digit s \<noteq> []"
  by (cases s) auto

lemma rewrite_loop_cases:
  assumes "rewrite_loop kind prev count t = Inr (out, refs)"
  obtains (finished) "t = []" "out = []" "refs = []"
  | (opaque) a b out' where "scan_opaque t = Inr (Some (a, b))" "out = a @ out'"
      "rewrite_loop kind (Some (last a)) count b = Inr (out', refs)"
  | (question) s out' refs' where "kind = MySqlQuestion" "t = CHR ''?'' # s" "scan_opaque t = Inr None"
      "out = CHR ''$'' # show_nat (count + 1) @ out'" "refs = (count + 1) # refs'" "count + 1 \<le> u16_max"
      "rewrite_loop kind (Some (CHR ''?'')) (count + 1) s = Inr (out', refs')"
  | (numbered) s ds out' refs' where "kind = PostgreSqlNumbered" "t = CHR ''$'' # s" "scan_opaque t = Inr None"
      "ds = takeWhile is_ascii_digit s" "ds \<noteq> []" "1 \<le> digits_value 0 ds" "out = CHR ''?'' # out'"
      "refs = digits_value 0 ds # refs'"
      "rewrite_loop kind (Some (last ds)) count (dropWhile is_ascii_digit s) = Inr (out', refs')"
  | (other) c s out' where "t = c # s" "scan_opaque t = Inr None" "\<not> (kind = MySqlQuestion \<and> c = CHR ''?'')"
      "\<not> (kind = PostgreSqlNumbered \<and> c = CHR ''$'' \<and> takeWhile is_ascii_digit s \<noteq> [])" "out = c # out'"
      "rewrite_loop kind (Some c) count s = Inr (out', refs)"
proof (cases t)
  case Nil
  with assms show thesis by (intro finished) (simp_all add: rewrite_loop.simps[of _ _ _ "[]"])
next
  case (Cons c s)
  note loop = assms[unfolded Cons, simplified rewrite_loop.simps[of _ _ _ "c # s"] digits_ahead]
  show thesis
  proof (cases "scan_opaque t")
    case (Inl e)
    with loop show thesis by (simp add: Cons)
  next
    case (Inr o')
    show thesis
    proof (cases o')
      case (Some ab)
      then show thesis using loop Inr opaque by (cases ab) (auto simp: Cons emit_Inr)
    next
      case None
      consider "kind = MySqlQuestion \<and> c = CHR ''?''"
        | "kind = PostgreSqlNumbered \<and> c = CHR ''$'' \<and> takeWhile is_ascii_digit s \<noteq> []"
        | "\<not> (kind = MySqlQuestion \<and> c = CHR ''?'')"
          "\<not> (kind = PostgreSqlNumbered \<and> c = CHR ''$'' \<and> takeWhile is_ascii_digit s \<noteq> [])" by blast
      then show thesis
      proof cases
        case 1
        then show thesis using loop Inr None question by (auto simp: Cons emit_Inr split: if_splits)
      next
        case 2
        then obtain m where "checked_index 0 (takeWhile is_ascii_digit s) = Some m" "1 \<le> m"
          using loop Inr None by (auto simp: Cons Let_def split: if_splits option.splits)
        then show thesis using 2 loop Inr None numbered checked_index_value[of 0 _ m]
          by (auto simp: Cons Let_def emit_Inr split: if_splits)
      next
        case 3
        then show thesis using loop Inr None other by (auto simp: Cons emit_Inr split: if_splits)
      qed
    qed
  qed
qed

lemma opaque_shorter: "scan_opaque t = Inr (Some (a, b)) \<Longrightarrow> length b < length t"
  using scan_opaque_split[of t a b] by auto

lemma rewrite_loop_pg:
  "rewrite_loop PostgreSqlNumbered prev count t = Inr (out, refs) \<Longrightarrow>
   \<exists>ps. lexes PostgreSqlNumbered t ps \<and> out = positional_text ps \<and> refs = hole_indices ps \<and> (\<forall>i \<in> set refs. 1 \<le> i)"
proof (induction "length t" arbitrary: t prev out refs rule: less_induct)
  case less
  from less.prems show ?case
  proof (cases rule: rewrite_loop_cases)
    case finished
    then show ?thesis by (intro exI[of _ "[]"]) (simp add: lexes_nil)
  next
    case (opaque a b out')
    then obtain ps where "lexes PostgreSqlNumbered b ps" "out' = positional_text ps" "refs = hole_indices ps" "\<forall>i \<in> set refs. 1 \<le> i"
      using less.hyps[OF opaque_shorter] by blast
    then show ?thesis using opaque by (intro exI[of _ "Opaque a # ps"]) (auto intro: lexes_opaque)
  next
    case (numbered s ds out' refs')
    then have "length (dropWhile is_ascii_digit s) < length t" by (simp add: length_dropWhile_le le_imp_less_Suc)
    then obtain ps where "lexes PostgreSqlNumbered (dropWhile is_ascii_digit s) ps" "out' = positional_text ps"
      "refs' = hole_indices ps" "\<forall>i \<in> set refs'. 1 \<le> i"
      using less.hyps numbered by blast
    then show ?thesis using numbered by (intro exI[of _ "Hole ds # ps"]) (auto intro!: lexes_numbered)
  next
    case (other c s out')
    then obtain ps where "lexes PostgreSqlNumbered s ps" "out' = positional_text ps" "refs = hole_indices ps" "\<forall>i \<in> set refs. 1 \<le> i"
      using less.hyps[of s] by fastforce
    then show ?thesis using other by (intro exI[of _ "Other c # ps"]) (auto intro!: lexes_other)
  qed simp
qed

text \<open>A MySQL statement numbers its holes from left to right.\<close>

lemma rewrite_loop_mysql:
  "rewrite_loop MySqlQuestion prev count t = Inr (out, refs) \<Longrightarrow>
   \<exists>ps. lexes MySqlQuestion t ps \<and> out = numbered_text count ps \<and> refs = [count + 1..<count + 1 + length (hole_indices ps)]"
proof (induction "length t" arbitrary: t prev count out refs rule: less_induct)
  case less
  from less.prems show ?case
  proof (cases rule: rewrite_loop_cases)
    case finished
    then show ?thesis by (intro exI[of _ "[]"]) (simp add: lexes_nil)
  next
    case (opaque a b out')
    then obtain ps where "lexes MySqlQuestion b ps" "out' = numbered_text count ps"
      "refs = [count + 1..<count + 1 + length (hole_indices ps)]"
      using less.hyps[OF opaque_shorter] by blast
    then show ?thesis using opaque by (intro exI[of _ "Opaque a # ps"]) (auto intro: lexes_opaque)
  next
    case (question s out' refs')
    then obtain ps where "lexes MySqlQuestion s ps" "out' = numbered_text (count + 1) ps"
      "refs' = [count + 2..<count + 2 + length (hole_indices ps)]"
      using less.hyps[of s] by fastforce
    moreover have "[count + 1..<count + 1 + Suc n] = (count + 1) # [count + 2..<count + 2 + n]" for n
      by (subst upt_conv_Cons) simp_all
    ultimately show ?thesis using question
      by (intro exI[of _ "Hole [] # ps"]) (auto intro!: lexes_question)
  next
    case (other c s out')
    then obtain ps where "lexes MySqlQuestion s ps" "out' = numbered_text count ps"
      "refs = [count + 1..<count + 1 + length (hole_indices ps)]"
      using less.hyps[of s] by fastforce
    then show ?thesis using other by (intro exI[of _ "Other c # ps"]) (auto intro!: lexes_other)
  qed simp
qed

text \<open>What a statement stands for when its holes are filled, by number or in order.\<close>

fun bind_numbered :: "('v \<Rightarrow> str) \<Rightarrow> 'v list \<Rightarrow> piece list \<Rightarrow> str" where
  "bind_numbered render vs [] = []"
| "bind_numbered render vs (Opaque a # ps) = a @ bind_numbered render vs ps"
| "bind_numbered render vs (Other c # ps) = c # bind_numbered render vs ps"
| "bind_numbered render vs (Hole ds # ps) = render (vs ! (digits_value 0 ds - 1)) @ bind_numbered render vs ps"

fun bind_positional :: "('v \<Rightarrow> str) \<Rightarrow> 'v list \<Rightarrow> piece list \<Rightarrow> str option" where
  "bind_positional render vs [] = (if vs = [] then Some [] else None)"
| "bind_positional render vs (Opaque a # ps) = map_option (\<lambda>t. a @ t) (bind_positional render vs ps)"
| "bind_positional render vs (Other c # ps) = map_option (\<lambda>t. c # t) (bind_positional render vs ps)"
| "bind_positional render [] (Hole ds # ps) = None"
| "bind_positional render (v # vs) (Hole ds # ps) = map_option (\<lambda>t. render v @ t) (bind_positional render vs ps)"

lemma bind_reordered:
  "bind_positional render (map (\<lambda>i. vs ! (i - 1)) (hole_indices ps)) ps = Some (bind_numbered render vs ps)"
  by (induction ps rule: hole_indices.induct) (auto split: piece.splits)

lemma max_index_ge: "i \<in> set refs \<Longrightarrow> i \<le> max_index refs"
  by (induction refs) (auto simp: max_index_def)

lemma sum_bind_Inr: "sum_bind m f = Inr y \<longleftrightarrow> (\<exists>x. m = Inr x \<and> f x = Inr y)"
  by (cases m) (auto simp: sum_bind_def)

lemma rewrite_pg_placeholders_Inr:
  assumes "rewrite_pg_placeholders sql = Inr (out, refs)"
  obtains ps where "lexes PostgreSqlNumbered sql ps" "out = positional_text ps" "refs = hole_indices ps"
    "set refs = {1..max_index refs}"
proof -
  have loop: "rewrite_loop PostgreSqlNumbered None 0 sql = Inr (out, refs)"
    and gap: "find (\<lambda>i. i \<notin> set refs) [1..<max_index refs + 1] = None"
    using assms by (auto simp: rewrite_pg_placeholders_def rewrite_placeholder_tokens_def sum_bind_Inr split: option.splits)
  obtain ps where ps: "lexes PostgreSqlNumbered sql ps" "out = positional_text ps" "refs = hole_indices ps" "\<forall>i \<in> set refs. 1 \<le> i"
    using rewrite_loop_pg[OF loop] by blast
  have "set refs = {1..max_index refs}"
    using gap ps(4) max_index_ge by (fastforce simp: find_None_iff)
  then show thesis using that ps by blast
qed

lemma pg_binding:
  assumes "rewrite_placeholders_pg_to_mysql sql parameters = Inr (out, vs)"
  obtains ps where "lexes PostgreSqlNumbered sql ps" "out = positional_text ps"
    "\<And>render. bind_positional render vs ps = Some (bind_numbered render parameters ps)"
    "set (hole_indices ps) = {1..length parameters}"
proof -
  obtain refs where refs: "rewrite_pg_placeholders sql = Inr (out, refs)" "max_index refs = length parameters"
    "vs = map (\<lambda>i. parameters ! (i - 1)) refs"
    using assms by (auto simp: rewrite_placeholders_pg_to_mysql_def sum_bind_Inr Let_def split: if_splits)
  from refs(1) obtain ps where "lexes PostgreSqlNumbered sql ps" "out = positional_text ps" "refs = hole_indices ps"
    "set refs = {1..max_index refs}" by (rule rewrite_pg_placeholders_Inr)
  then show thesis using that[of ps] refs(2,3) bind_reordered[of _ parameters ps] by simp
qed

text \<open>The other direction keeps the values in order, one per hole.\<close>

lemma mysql_binding:
  assumes "rewrite_sql_and_parameters_for_backend sql parameters MySql PostgreSql = Inr (out, vs)"
  obtains ps where "lexes MySqlQuestion sql ps" "vs = parameters" "length (hole_indices ps) = length parameters"
    "out = rewrite_mysql_limit_offset (replace_ifnull_with_coalesce (convert_backticks_to_double_quotes (numbered_text 0 ps)))"
proof -
  have "sum_bind (rewrite_mysql_placeholders sql) (\<lambda>(t, refs).
      if length refs \<noteq> length parameters
      then Inl (placeholder_error (''MySQL query expects '' @ show_nat (length refs) @ '' parameters, got ''
             @ show_nat (length parameters)))
      else Inr (rewrite_mysql_limit_offset (replace_ifnull_with_coalesce (convert_backticks_to_double_quotes t)),
             parameters)) = Inr (out, vs)"
    using assms by (simp only: rewrite_sql_and_parameters_for_backend_def prod.case protocol_kind.case)
  then obtain t refs where r: "rewrite_loop MySqlQuestion None 0 sql = Inr (t, refs)" "length refs = length parameters" "vs = parameters"
    "out = rewrite_mysql_limit_offset (replace_ifnull_with_coalesce (convert_backticks_to_double_quotes t))"
    by (cases "rewrite_mysql_placeholders sql")
      (auto simp: sum_bind_def rewrite_mysql_placeholders_def rewrite_placeholder_tokens_def simp del: show_nat.simps split: if_splits)
  from rewrite_loop_mysql[OF r(1)] obtain ps where ps: "lexes MySqlQuestion sql ps" "t = numbered_text 0 ps"
    "refs = [0 + 1..<0 + 1 + length (hole_indices ps)]" by blast
  then have "length refs = length (hole_indices ps)" by (simp only: length_upt)
  then show thesis using that[of ps] r ps(1,2) by simp
qed

section \<open>What may cross\<close>

definition crossing_allowed :: "translation_policy \<Rightarrow> dialect \<Rightarrow> str \<Rightarrow> bool" where
  "crossing_allowed policy dia sql \<longleftrightarrow>
     tp_enabled policy \<and> tp_frontend_protocol policy \<noteq> tp_backend_protocol policy \<and>
     dia_protocol dia = tp_frontend_protocol policy \<and>
     (\<forall>(needle, label) \<in> set forbidden_constructs. \<not> contains needle (to_ascii_uppercase (trim_start sql))) \<and>
     (\<exists>keyword kind. dia_leading_keyword dia sql = Some keyword \<and> kind_from_keyword keyword = Some kind \<and>
        kind \<in> set (effective_allowed policy))"

lemma validate_translation_policy_Inr:
  "validate_translation_policy policy dia = Inr u \<longleftrightarrow>
   tp_enabled policy \<and> tp_frontend_protocol policy \<noteq> tp_backend_protocol policy \<and> dia_protocol dia = tp_frontend_protocol policy"
  by (auto simp: validate_translation_policy_def)

lemma reject_constructs_Inr:
  "reject_constructs fs policy upper_sql = Inr u \<longleftrightarrow> (\<forall>(needle, label) \<in> set fs. \<not> contains needle upper_sql)"
  by (induction fs policy upper_sql rule: reject_constructs.induct) auto

lemma check_translation_sql_Inr: "(\<exists>kind. check_translation_sql policy sql dia = Inr kind) \<longleftrightarrow> crossing_allowed policy dia sql"
  unfolding check_translation_sql_def crossing_allowed_def sum_bind_Inr validate_translation_policy_Inr
    reject_unsupported_constructs_def reject_constructs_Inr
  by (auto split: option.splits if_splits)

text \<open>A question mark that is an operator in PostgreSQL becomes one more MySQL placeholder.\<close>

lemma pg_question_operator_becomes_placeholder:
  "rewrite_placeholders_pg_to_mysql ''a ? k = $1'' [v] = Inr (''a ? k = ?'', [v])"
  by (simp add: rewrite_placeholders_pg_to_mysql_def rewrite_pg_placeholders_def rewrite_placeholder_tokens_def
      sum_bind_def rewrite_loop.simps scan_opaque_def emit_def is_ascii_digit_def max_index_def
      is_ident_byte_def is_ascii_alphanumeric_def is_ascii_uppercase_def is_ascii_lowercase_def dollar_delimiter_def
      Let_def u64_max_def u16_max_def)

text \<open>\<open>IFNULL\<close> and \<open>LIMIT\<close> are rewritten inside string literals too, and bytes outside ASCII are encoded twice.\<close>

lemma literal_rewritten:
  "rewrite_mysql_to_postgresql ([squote] @ ''ifnull(x'' @ [squote]) = Inr ([squote] @ ''COALESCE(x'' @ [squote])"
  by code_simp

lemma literal_limit_rewritten:
  "rewrite_mysql_to_postgresql ([squote] @ '' limit 1,2'' @ [squote]) = Inr ([squote] @ '' LIMIT 2 OFFSET 1'' @ [squote])"
  by code_simp

lemma accent_encoded_twice:
  "rewrite_postgresql_to_mysql (map char_of [39, 195, 169, 39 :: nat]) = Inr (map char_of [39, 195, 131, 194, 169, 39 :: nat])"
  by code_simp

end
