(* ===== verification/Gateway_Config.thy ===== *)
theory Gateway_Config
  imports Security_Config Translation Plugins
begin

text \<open>
  The gateway's configuration (\<open>gateway/core/src/config.rs\<close>): listeners, services, endpoints, the named
  policies they refer to, and the validation of their cross references.  Every error of the validation is a
  configuration error and is modelled by its message.  Reading the file is not modelled.
\<close>

section \<open>Configuration records\<close>

record listener_config =
  lc_name :: str
  lc_listen_addr :: str
  lc_protocol :: protocol_kind
  lc_service :: str
  lc_auth_policy :: "str option"

record service_config =
  svc_name :: str
  svc_backend_protocol :: protocol_kind
  svc_endpoints :: "str list"
  svc_route_policy :: "str option"
  svc_plugin_policies :: "str list"
  svc_translation_policy :: "str option"

datatype endpoint_ssl_mode = SslDisable | SslPrefer | SslRequire

fun ssl_mode_as_str :: "endpoint_ssl_mode \<Rightarrow> str" where
  "ssl_mode_as_str SslDisable = ''disable''"
| "ssl_mode_as_str SslPrefer = ''prefer''"
| "ssl_mode_as_str SslRequire = ''require''"

definition wants_tls :: "endpoint_ssl_mode \<Rightarrow> bool" where
  "wants_tls m \<longleftrightarrow> m \<noteq> SslDisable"

definition requires_tls :: "endpoint_ssl_mode \<Rightarrow> bool" where
  "requires_tls m \<longleftrightarrow> m = SslRequire"

datatype endpoint_role = RoleRead | RoleReadWrite

record endpoint_config =
  ec_name :: str
  ec_protocol :: protocol_kind
  ec_address :: str
  ec_database :: "str option"
  ec_role :: endpoint_role
  ec_username :: str
  ec_password :: str
  ec_weight :: nat
  ec_ssl_mode :: endpoint_ssl_mode
  ec_ssl_ca_file :: "str option"
  ec_ssl_accept_invalid_certs :: bool

definition endpoint_config_default :: endpoint_config where
  "endpoint_config_default = \<lparr>ec_name = [], ec_protocol = MySql, ec_address = [], ec_database = None,
     ec_role = RoleReadWrite, ec_username = [], ec_password = [], ec_weight = 1, ec_ssl_mode = SslDisable,
     ec_ssl_ca_file = None, ec_ssl_accept_invalid_certs = False\<rparr>"

record route_policy_config =
  rp_name :: str
  rp_kind :: str

record auth_user_config =
  auc_username :: str
  auc_password :: str

record auth_policy_config =
  ap_name :: str
  ap_kind :: str
  ap_username :: str
  ap_password :: str
  ap_users :: "auth_user_config list"

definition primary_static_user :: "auth_policy_config \<Rightarrow> (str \<times> str) option" where
  "primary_static_user p =
     (case ap_users p of
        u # _ \<Rightarrow> Some (auc_username u, auc_password u)
      | [] \<Rightarrow> if ap_username p \<noteq> [] then Some (ap_username p, ap_password p) else None)"

record plugin_policy_config =
  plc_name :: str
  plc_kind :: str
  plc_regex :: "str list"
  plc_case_insensitive :: bool
  plc_max_concurrency :: "nat option"
  plc_duration_secs :: "nat option"

record gateway_config =
  gc_listeners :: "listener_config list"
  gc_services :: "service_config list"
  gc_endpoints :: "endpoint_config list"
  gc_route_policies :: "route_policy_config list"
  gc_auth_policies :: "auth_policy_config list"
  gc_plugin_policies :: "plugin_policy_config list"
  gc_translation_policies :: "translation_policy list"
  gc_security :: security_config

section \<open>Validation\<close>

definition require_non_empty :: "str \<Rightarrow> str \<Rightarrow> str + unit" where
  "require_non_empty field value = check (trim value \<noteq> []) (field @ '' must not be empty'')"

fun unique_names :: "str \<Rightarrow> str list \<Rightarrow> str list \<Rightarrow> str + unit" where
  "unique_names kind seen [] = Inr ()"
| "unique_names kind seen (name # names) =
     first_error
       [require_non_empty (kind @ '' name'') name,
        check (name \<notin> set seen) (''duplicate '' @ kind @ '' '' @ in_quotes name),
        unique_names kind (name # seen) names]"

definition validate_unique :: "str \<Rightarrow> str list \<Rightarrow> str + unit" where
  "validate_unique kind names = unique_names kind [] names"

definition endpoint_text :: "endpoint_config \<Rightarrow> str" where
  "endpoint_text e = ''endpoint '' @ in_quotes (ec_name e)"

definition validate_endpoint_tls :: "endpoint_config \<Rightarrow> str + unit" where
  "validate_endpoint_tls e =
     first_error
       [check (case ec_ssl_ca_file e of Some ca \<Rightarrow> trim ca \<noteq> [] | None \<Rightarrow> True)
          (endpoint_text e @ '' ssl_ca_file must be a non-empty path when set''),
        check (\<not> (ec_ssl_mode e = SslDisable \<and> ec_ssl_ca_file e \<noteq> None))
          (endpoint_text e @ '' sets ssl_ca_file but ssl_mode=disable (TLS not used)''),
        check (\<not> (ec_ssl_mode e = SslRequire \<and> \<not> ec_ssl_accept_invalid_certs e \<and>
                  (case ec_ssl_ca_file e of Some ca \<Rightarrow> trim ca = [] | None \<Rightarrow> True)))
          (endpoint_text e @ '' ssl_mode=require with ssl_accept_invalid_certs=false requires ssl_ca_file (production pin)'')]"

definition listener_text :: "listener_config \<Rightarrow> str" where
  "listener_text l = ''listener '' @ in_quotes (lc_name l)"

definition service_text :: "service_config \<Rightarrow> str" where
  "service_text s = ''service '' @ in_quotes (svc_name s)"

definition missing :: "str \<Rightarrow> str \<Rightarrow> str \<Rightarrow> str" where
  "missing owner kind name = owner @ '' references missing '' @ kind @ '' '' @ in_quotes name"

text \<open>\<open>collect\<close> into a hash map: of two entries with the same name the later one stays.\<close>

definition policy_map :: "gateway_config \<Rightarrow> str \<Rightarrow> translation_policy option" where
  "policy_map cfg = map_of (rev (map (\<lambda>p. (tp_name p, p)) (gc_translation_policies cfg)))"

definition endpoint_protocols :: "gateway_config \<Rightarrow> str \<Rightarrow> protocol_kind option" where
  "endpoint_protocols cfg = map_of (rev (map (\<lambda>e. (ec_name e, ec_protocol e)) (gc_endpoints cfg)))"

definition validate_crossing :: "gateway_config \<Rightarrow> listener_config \<Rightarrow> service_config \<Rightarrow> str + unit" where
  "validate_crossing cfg l s =
     (if lc_protocol l = svc_backend_protocol s then Inr ()
      else case svc_translation_policy s of
          None \<Rightarrow>
            Inl (listener_text l @ '' protocol '' @ in_quotes (protocol_as_str (lc_protocol l)) @ '' does not match '' @
                 service_text s @ '' backend protocol '' @ in_quotes (protocol_as_str (svc_backend_protocol s)) @
                 '' (set service.translation_policy and enable it)'')
        | Some name \<Rightarrow>
            (case policy_map cfg name of
               None \<Rightarrow> Inl (missing (service_text s) ''translation policy'' name)
             | Some p \<Rightarrow>
                 first_error
                   [check (tp_enabled p)
                      (listener_text l @ '' requires enabled translation policy '' @ in_quotes name @ '', but it is disabled''),
                    check (\<not> (tp_frontend_protocol p \<noteq> lc_protocol l \<or> tp_backend_protocol p \<noteq> svc_backend_protocol s))
                      (policy_text p @ '' is for '' @ hop_text p @ '', but listener/service need '' @
                       protocol_as_str (lc_protocol l) @ '' -> '' @ protocol_as_str (svc_backend_protocol s))]))"

definition validate_listener :: "gateway_config \<Rightarrow> listener_config \<Rightarrow> str + unit" where
  "validate_listener cfg l =
     first_error
       [require_non_empty ''listener name'' (lc_name l),
        require_non_empty ''listener address'' (lc_listen_addr l),
        check (lc_service l \<in> set (map svc_name (gc_services cfg))) (missing (listener_text l) ''service'' (lc_service l)),
        (case lc_auth_policy l of
           None \<Rightarrow> Inr ()
         | Some p \<Rightarrow> check (p \<in> set (map ap_name (gc_auth_policies cfg))) (missing (listener_text l) ''auth policy'' p)),
        (case find (\<lambda>s. svc_name s = lc_service l) (gc_services cfg) of
           None \<Rightarrow> Inr ()
         | Some s \<Rightarrow> validate_crossing cfg l s)]"

definition validate_service_endpoint :: "gateway_config \<Rightarrow> service_config \<Rightarrow> str \<Rightarrow> str + unit" where
  "validate_service_endpoint cfg s name =
     (case endpoint_protocols cfg name of
        None \<Rightarrow> Inl (missing (service_text s) ''endpoint'' name)
      | Some p \<Rightarrow>
          check (p = svc_backend_protocol s)
            (service_text s @ '' backend protocol '' @ in_quotes (protocol_as_str (svc_backend_protocol s)) @
             '' does not match endpoint '' @ in_quotes name @ '' protocol '' @ in_quotes (protocol_as_str p)))"

definition validate_service :: "gateway_config \<Rightarrow> service_config \<Rightarrow> str + unit" where
  "validate_service cfg s =
     first_error
       ([require_non_empty ''service name'' (svc_name s),
         check (svc_endpoints s \<noteq> []) (service_text s @ '' has no endpoints'')] @
        map (validate_service_endpoint cfg s) (svc_endpoints s) @
        [(case svc_route_policy s of
            None \<Rightarrow> Inr ()
          | Some p \<Rightarrow> check (p \<in> set (map rp_name (gc_route_policies cfg))) (missing (service_text s) ''route policy'' p))] @
        map (\<lambda>p. check (p \<in> set (map plc_name (gc_plugin_policies cfg))) (missing (service_text s) ''plugin policy'' p))
          (svc_plugin_policies s) @
        [(case svc_translation_policy s of
            None \<Rightarrow> Inr ()
          | Some p \<Rightarrow> check (policy_map cfg p \<noteq> None) (missing (service_text s) ''translation policy'' p))])"

definition validate_gateway :: "bool \<Rightarrow> int \<Rightarrow> gateway_config \<Rightarrow> str + unit" where
  "validate_gateway cedar_feature local_offset cfg =
     first_error
       ([check (gc_listeners cfg \<noteq> []) ''gateway config must define at least one listener'',
         check (gc_services cfg \<noteq> []) ''gateway config must define at least one service'',
         check (gc_endpoints cfg \<noteq> []) ''gateway config must define at least one endpoint'',
         validate_unique ''listener'' (map lc_name (gc_listeners cfg)),
         validate_unique ''service'' (map svc_name (gc_services cfg)),
         validate_unique ''endpoint'' (map ec_name (gc_endpoints cfg)),
         validate_unique ''route policy'' (map rp_name (gc_route_policies cfg)),
         validate_unique ''auth policy'' (map ap_name (gc_auth_policies cfg)),
         validate_unique ''plugin policy'' (map plc_name (gc_plugin_policies cfg)),
         validate_unique ''translation policy'' (map tp_name (gc_translation_policies cfg))] @
        map validate_endpoint_tls (gc_endpoints cfg) @
        map (validate_listener cfg) (gc_listeners cfg) @
        map (validate_service cfg) (gc_services cfg) @
        map (\<lambda>e. first_error [require_non_empty ''endpoint name'' (ec_name e), require_non_empty ''endpoint address'' (ec_address e)])
          (gc_endpoints cfg) @
        [validate cedar_feature local_offset (gc_security cfg)])"

section \<open>What a validated configuration has\<close>

lemma unique_names_ok:
  "unique_names kind seen names = Inr () \<longleftrightarrow> distinct names \<and> set names \<inter> set seen = {} \<and> (\<forall>n \<in> set names. trim n \<noteq> [])"
  by (induction names arbitrary: seen) (auto simp: first_error_ok require_non_empty_def)

lemma validate_unique_ok: "validate_unique kind names = Inr () \<longleftrightarrow> distinct names \<and> (\<forall>n \<in> set names. trim n \<noteq> [])"
  by (simp add: validate_unique_def unique_names_ok)

lemma map_of_rev_find:
  "distinct (map f xs) \<Longrightarrow> map_of (rev (map (\<lambda>x. (f x, g x)) xs)) k = map_option g (find (\<lambda>x. f x = k) xs)"
proof (induction xs)
  case (Cons x xs)
  then have "find (\<lambda>y. f y = k) xs = None" if "f x = k" using that Cons.prems by (force simp: find_None_iff image_iff)
  with Cons show ?case by (cases "f x = k") (auto simp: map_add_def split: option.splits)
qed simp

text \<open>A validated service resolves: its endpoints exist and speak its protocol, its policies exist.\<close>

definition service_resolves :: "gateway_config \<Rightarrow> service_config \<Rightarrow> bool" where
  "service_resolves cfg s \<longleftrightarrow>
     svc_endpoints s \<noteq> [] \<and>
     (\<forall>n \<in> set (svc_endpoints s). \<exists>e. find (\<lambda>e. ec_name e = n) (gc_endpoints cfg) = Some e \<and> ec_protocol e = svc_backend_protocol s) \<and>
     (\<forall>p. svc_route_policy s = Some p \<longrightarrow> (\<exists>r. find (\<lambda>r. rp_name r = p) (gc_route_policies cfg) = Some r)) \<and>
     (\<forall>p \<in> set (svc_plugin_policies s). \<exists>r. find (\<lambda>r. plc_name r = p) (gc_plugin_policies cfg) = Some r)"

definition listener_resolves :: "gateway_config \<Rightarrow> listener_config \<Rightarrow> bool" where
  "listener_resolves cfg l \<longleftrightarrow>
     (\<exists>s. find (\<lambda>s. svc_name s = lc_service l) (gc_services cfg) = Some s \<and> service_resolves cfg s \<and>
        (lc_protocol l \<noteq> svc_backend_protocol s \<longrightarrow>
           (\<exists>n p. svc_translation_policy s = Some n \<and> find (\<lambda>p. tp_name p = n) (gc_translation_policies cfg) = Some p \<and>
              tp_enabled p \<and> tp_frontend_protocol p = lc_protocol l \<and> tp_backend_protocol p = svc_backend_protocol s))) \<and>
     (\<forall>p. lc_auth_policy l = Some p \<longrightarrow> (\<exists>a. find (\<lambda>a. ap_name a = p) (gc_auth_policies cfg) = Some a))"

lemma find_satisfies: "find P xs = Some x \<Longrightarrow> x \<in> set xs \<and> P x"
  by (induction xs) (auto split: if_splits)

lemma find_named: "n \<in> set (map f xs) \<Longrightarrow> \<exists>x. find (\<lambda>x. f x = n) xs = Some x \<and> x \<in> set xs \<and> f x = n"
  by (induction xs) auto

lemma validate_service_resolves:
  assumes "validate_service cfg s = Inr ()" and "distinct (map ec_name (gc_endpoints cfg))"
  shows "service_resolves cfg s"
proof -
  have "validate_service_endpoint cfg s n = Inr ()" if "n \<in> set (svc_endpoints s)" for n
    using assms(1) that by (auto simp: validate_service_def first_error_ok)
  then have "\<exists>e. find (\<lambda>e. ec_name e = n) (gc_endpoints cfg) = Some e \<and> ec_protocol e = svc_backend_protocol s"
    if "n \<in> set (svc_endpoints s)" for n
    using that assms(2)
    by (fastforce simp: validate_service_endpoint_def endpoint_protocols_def map_of_rev_find split: option.splits)
  moreover have "svc_endpoints s \<noteq> []" using assms(1) by (simp add: validate_service_def first_error_ok)
  moreover have "\<exists>r. find (\<lambda>r. rp_name r = p) (gc_route_policies cfg) = Some r" if "svc_route_policy s = Some p" for p
    using assms(1) that find_named [of p rp_name "gc_route_policies cfg"] by (auto simp: validate_service_def first_error_ok)
  moreover have "\<exists>r. find (\<lambda>r. plc_name r = p) (gc_plugin_policies cfg) = Some r" if "p \<in> set (svc_plugin_policies s)" for p
    using assms(1) that find_named [of p plc_name "gc_plugin_policies cfg"]
    by (auto simp: validate_service_def first_error_ok ball_Un)
  ultimately show ?thesis by (simp add: service_resolves_def)
qed

lemma validate_gateway_parts:
  assumes "validate_gateway cf off cfg = Inr ()"
  shows "distinct (map ec_name (gc_endpoints cfg))" "distinct (map tp_name (gc_translation_policies cfg))"
    "\<And>l. l \<in> set (gc_listeners cfg) \<Longrightarrow> validate_listener cfg l = Inr ()"
    "\<And>s. s \<in> set (gc_services cfg) \<Longrightarrow> validate_service cfg s = Inr ()"
  using assms by (simp_all add: validate_gateway_def first_error_ok validate_unique_ok)

lemma validated_listener_resolves:
  assumes "validate_gateway cf off cfg = Inr ()" and "l \<in> set (gc_listeners cfg)"
  shows "listener_resolves cfg l"
proof -
  note v = validate_gateway_parts [OF assms(1)]
  have l: "validate_listener cfg l = Inr ()" by (rule v(3) [OF assms(2)])
  then obtain s where s: "find (\<lambda>s. svc_name s = lc_service l) (gc_services cfg) = Some s" "s \<in> set (gc_services cfg)"
    using find_named [of "lc_service l" svc_name "gc_services cfg"] by (auto simp: validate_listener_def first_error_ok)
  have "service_resolves cfg s" by (rule validate_service_resolves [OF v(4) [OF s(2)] v(1)])
  moreover have c: "validate_crossing cfg l s = Inr ()" using l s(1) by (simp add: validate_listener_def first_error_ok)
  then have "\<exists>n p. svc_translation_policy s = Some n \<and> find (\<lambda>p. tp_name p = n) (gc_translation_policies cfg) = Some p \<and>
      tp_enabled p \<and> tp_frontend_protocol p = lc_protocol l \<and> tp_backend_protocol p = svc_backend_protocol s"
    if "lc_protocol l \<noteq> svc_backend_protocol s"
    using that v(2) map_of_rev_find [of tp_name "gc_translation_policies cfg" "\<lambda>p. p"]
    by (auto simp: validate_crossing_def first_error_ok policy_map_def split: option.splits)
  moreover have "\<exists>a. find (\<lambda>a. ap_name a = p) (gc_auth_policies cfg) = Some a" if "lc_auth_policy l = Some p" for p
    using l that find_named [of p ap_name "gc_auth_policies cfg"] by (auto simp: validate_listener_def first_error_ok)
  ultimately show ?thesis using s(1) by (auto simp: listener_resolves_def)
qed

end
