(* ===== verification/Transport.thy ===== *)
theory Transport
  imports Translation Obligations
begin

text \<open>
  How responses leave the gateway (\<open>gateway/core/src/transport.rs\<close>): row streams that are polled window by
  window, the encoding of a streamed or a materialized result with its obligations, the relay of raw
  packets.

  A frontend adapter is a record of functions over its own state; a writer is the batches it has written
  and, as a function of their number, the error the next write has.  A row stream of a backend is the list
  of the answers it will give to successive polls: rows, an error, or the end; a list that is used up
  means the end.  The in-memory stream and the stream with a prefix are the ones of the code.  Samples for
  the audit trail and metrics are left out; the capacity reserved for a window is not modelled.
\<close>

section \<open>Sessions, adapters, writers\<close>

record session_state =
  ss_user :: "str option"
  ss_database :: "str option"
  ss_charset :: "str option"
  ss_autocommit :: "bool option"
  ss_backend_endpoint :: "str option"
  ss_transaction_state :: transaction_state
  ss_prefer_binary_result :: bool
  ss_pg_extended_query :: bool
  ss_pg_extended_error :: bool
  ss_pg_execute_max_rows :: "nat option"
  ss_result_truncated :: bool
  ss_pg_portal_name :: "str option"
  ss_pg_portal_skip_rows :: nat
  ss_pg_drop_portal_hold :: bool
  ss_pg_client_extended_frames :: "str list"
  ss_pg_ext_tcp_hold :: bool

definition session_default :: session_state where
  "session_default = \<lparr>ss_user = None, ss_database = None, ss_charset = None, ss_autocommit = None,
     ss_backend_endpoint = None, ss_transaction_state = Idle, ss_prefer_binary_result = False,
     ss_pg_extended_query = False, ss_pg_extended_error = False, ss_pg_execute_max_rows = None,
     ss_result_truncated = False, ss_pg_portal_name = None, ss_pg_portal_skip_rows = 0,
     ss_pg_drop_portal_hold = False, ss_pg_client_extended_frames = [], ss_pg_ext_tcp_hold = False\<rparr>"

type_synonym packets = "str list"

record 'f frontend =
  fe_protocol :: protocol_kind
  fe_decode :: "'f \<Rightarrow> str \<Rightarrow> session_state \<Rightarrow> (gateway_error + gateway_command list) \<times> 'f \<times> session_state"
  fe_encode :: "'f \<Rightarrow> gateway_response \<Rightarrow> session_state \<Rightarrow> (gateway_error + packets) \<times> 'f"
  fe_header :: "'f \<Rightarrow> column list \<Rightarrow> session_state \<Rightarrow> (gateway_error + packets) \<times> 'f"
  fe_rows :: "'f \<Rightarrow> column list \<Rightarrow> row list \<Rightarrow> session_state \<Rightarrow> (gateway_error + packets) \<times> 'f"
  fe_footer :: "'f \<Rightarrow> column list \<Rightarrow> nat \<Rightarrow> session_state \<Rightarrow> bool \<Rightarrow> (gateway_error + packets) \<times> 'f"

record writer =
  w_batches :: "packets list"
  w_error :: "nat \<Rightarrow> gateway_error option"

definition write_packets :: "packets \<Rightarrow> writer \<Rightarrow> (gateway_error + unit) \<times> writer" where
  "write_packets ps w =
     (case w_error w (length (w_batches w)) of
        Some e \<Rightarrow> (Inl e, w)
      | None \<Rightarrow> (Inr (), w\<lparr>w_batches := w_batches w @ [ps]\<rparr>))"

text \<open>What a response is written through: the adapter's state and the writer.\<close>

record 'f out =
  out_fe :: 'f
  out_writer :: writer

text \<open>\<open>writer.write_packets(frontend.encode_..(..)?).await?\<close>\<close>

definition emit_packets :: "(gateway_error + packets) \<times> 'f \<Rightarrow> 'f out \<Rightarrow> (gateway_error + packets) \<times> 'f out" where
  "emit_packets r out =
     (case r of
        (Inl e, f) \<Rightarrow> (Inl e, out\<lparr>out_fe := f\<rparr>)
      | (Inr ps, f) \<Rightarrow>
          (case write_packets ps (out_writer out) of
             (Inl e, w) \<Rightarrow> (Inl e, out\<lparr>out_fe := f, out_writer := w\<rparr>)
           | (Inr _, w) \<Rightarrow> (Inr ps, out\<lparr>out_fe := f, out_writer := w\<rparr>)))"

section \<open>Row streams\<close>

type_synonym poll_answer = "gateway_error + row list option"

datatype row_stream =
    BackendRows "poll_answer list"
  | VecRowStream "row list"
  | PrefixedRowStream "row list option" row_stream

definition prefixed_new :: "row list \<Rightarrow> row_stream \<Rightarrow> row_stream" where
  "prefixed_new pre inner = PrefixedRowStream (if pre = [] then None else Some pre) inner"

fun poll_window :: "row_stream \<Rightarrow> nat \<Rightarrow> poll_answer \<times> row_stream" where
  "poll_window (BackendRows []) n = (Inr None, BackendRows [])"
| "poll_window (BackendRows (a # as)) n = (a, BackendRows as)"
| "poll_window (VecRowStream rows) n =
     (let out = take (max n 1) rows
      in if out = [] then (Inr None, VecRowStream rows)
         else (Inr (Some out), VecRowStream (drop (max n 1) rows)))"
| "poll_window (PrefixedRowStream None inner) n =
     (case poll_window inner (max n 1) of (a, inner') \<Rightarrow> (a, PrefixedRowStream None inner'))"
| "poll_window (PrefixedRowStream (Some pre) inner) n =
     (if max n 1 < length pre then
        (Inr (Some (take (max n 1) pre)), PrefixedRowStream (Some (drop (max n 1) pre)) inner)
      else if length pre = max n 1 then (Inr (Some pre), PrefixedRowStream None inner)
      else (case poll_window inner (max n 1 - length pre) of
              (Inl e, inner') \<Rightarrow> (Inl e, PrefixedRowStream None inner')
            | (Inr None, inner') \<Rightarrow> (Inr (Some pre), PrefixedRowStream None inner')
            | (Inr (Some rest), inner') \<Rightarrow> (Inr (Some (pre @ rest)), PrefixedRowStream None inner')))"

text \<open>The measure of a stream: every window it yields makes it smaller.\<close>

fun stream_size :: "row_stream \<Rightarrow> nat" where
  "stream_size (BackendRows as) = length as"
| "stream_size (VecRowStream rows) = length rows"
| "stream_size (PrefixedRowStream p s) = (case p of None \<Rightarrow> 0 | Some q \<Rightarrow> Suc (length q)) + stream_size s"

lemma poll_window_le: "stream_size (snd (poll_window s n)) \<le> stream_size s"
  by (induction s n rule: poll_window.induct)
    (auto simp: Let_def split: sum.splits option.splits prod.splits)

lemma poll_window_less: "poll_window s n = (Inr (Some c), s') \<Longrightarrow> stream_size s' < stream_size s"
proof (induction s n arbitrary: c s' rule: poll_window.induct)
  case (5 pre inner n)
  then show ?case using poll_window_le [of inner "max n 1 - length pre"]
    by (auto split: if_splits sum.splits option.splits prod.splits)
qed (auto simp: Let_def split: if_splits prod.splits)

record streaming_query =
  sq_columns :: "column list"
  sq_stream :: row_stream

datatype execute_outcome =
    OutComplete gateway_response
  | OutStreaming streaming_query
  | OutWireRelay "(gateway_error + packets option) list"

section \<open>Streamed results\<close>

record encode_stats =
  es_total_rows :: nat
  es_windows :: nat
  es_encoded_bytes :: nat
  es_masked_rows :: nat
  es_peak_window_rows :: nat
  es_peak_window_bytes :: nat
  es_truncated :: bool
  es_hold_remainder :: bool

definition encode_stats_default :: encode_stats where
  "encode_stats_default = \<lparr>es_total_rows = 0, es_windows = 0, es_encoded_bytes = 0, es_masked_rows = 0,
     es_peak_window_rows = 0, es_peak_window_bytes = 0, es_truncated = False, es_hold_remainder = False\<rparr>"

text \<open>What stays fixed during one streamed result.\<close>

record stream_ctx =
  sc_session :: session_state
  sc_columns :: "column list"
  sc_masks :: "(nat \<times> mask_spec) list"
  sc_watermark :: "watermark_spec option"
  sc_max_total :: "nat option"
  sc_window :: nat
  sc_hold :: bool

text \<open>The watermark of one streamed row: padding up to the header, then the marker on the first string.\<close>

definition pad_row :: "nat \<Rightarrow> str \<Rightarrow> row \<Rightarrow> row" where
  "pad_row width token r =
     (if length r < width then r @ replicate (width - length r - 1) GvNull @ [GvString token] else r)"

definition stamp_row :: "nat \<Rightarrow> watermark_spec option \<Rightarrow> row \<Rightarrow> row" where
  "stamp_row width wm r =
     (case wm of
        None \<Rightarrow> r
      | Some w \<Rightarrow>
          let padded = pad_row width (wm_token w) r
          in if wm_mode w = WmSuffix then
               (case suffix_cells ('' |wm='' @ wm_token w) padded of Some r' \<Rightarrow> r' | None \<Rightarrow> padded)
             else padded)"

text \<open>The statistics after a window whose packets have been encoded.\<close>

definition window_stats :: "row list \<Rightarrow> packets \<Rightarrow> encode_stats \<Rightarrow> encode_stats" where
  "window_stats chunk ps st =
     (let bytes = min u64_max (sum_list (map length ps))
      in st\<lparr>es_total_rows := es_total_rows st + length chunk,
            es_windows := min u64_max (es_windows st + 1),
            es_peak_window_rows := max (es_peak_window_rows st) (length chunk),
            es_encoded_bytes := min u64_max (es_encoded_bytes st + sum_list (map length ps)),
            es_peak_window_bytes := max (es_peak_window_bytes st) bytes\<rparr>)"

text \<open>Draining the rest of a stream; whether there were rows.\<close>

function drain_rows :: "nat \<Rightarrow> bool \<Rightarrow> row_stream \<Rightarrow> (gateway_error + bool) \<times> row_stream" where
  "drain_rows window saw_more s =
     (case poll_window s window of
        (Inl e, s') \<Rightarrow> (Inl e, s')
      | (Inr None, s') \<Rightarrow> (Inr saw_more, s')
      | (Inr (Some chunk), s') \<Rightarrow> drain_rows window (saw_more \<or> chunk \<noteq> []) s')"
  by pat_completeness auto
termination
  by (relation "measure (\<lambda>(w, m, s). stream_size s)") (auto dest!: poll_window_less [OF sym])

declare drain_rows.simps [simp del]

text \<open>How many rows the next poll asks for.\<close>

definition want_rows :: "stream_ctx \<Rightarrow> nat \<Rightarrow> encode_stats \<Rightarrow> nat" where
  "want_rows cx skip st =
     (if 0 < skip then max (min (max (sc_window cx) skip) 4096) 1
      else case sc_max_total cx of
             Some mx \<Rightarrow> max (min (mx - es_total_rows st) (sc_window cx)) 1
           | None \<Rightarrow> sc_window cx)"

text \<open>The rows of a window that are sent, and those kept back when the limit cuts the window.\<close>

definition cut_chunk :: "stream_ctx \<Rightarrow> encode_stats \<Rightarrow> row list \<Rightarrow> row list \<times> row list" where
  "cut_chunk cx st chunk =
     (case sc_max_total cx of
        None \<Rightarrow> (chunk, [])
      | Some mx \<Rightarrow> (take (mx - es_total_rows st) chunk, drop (mx - es_total_rows st) chunk))"

definition oblige_chunk :: "(64 word \<Rightarrow> str) \<Rightarrow> stream_ctx \<Rightarrow> row list \<Rightarrow> row list" where
  "oblige_chunk f64 cx chunk =
     map (stamp_row (length (sc_columns cx)) (sc_watermark cx)) (apply_masks_to_rows f64 (sc_masks cx) chunk)"

type_synonym stream_end = "encode_stats \<times> bool \<times> row list option \<times> row_stream"

function stream_loop ::
  "'f frontend \<Rightarrow> (64 word \<Rightarrow> str) \<Rightarrow> stream_ctx \<Rightarrow> nat \<Rightarrow> row list option \<Rightarrow> encode_stats \<Rightarrow> row_stream \<Rightarrow> 'f out
     \<Rightarrow> (gateway_error + stream_end) \<times> 'f out" where
  "stream_loop F f64 cx skip pre st s out =
     (if (case sc_max_total cx of Some mx \<Rightarrow> mx \<le> es_total_rows st | None \<Rightarrow> False) then
        if sc_hold cx then
          (case pre of
             Some p \<Rightarrow> (Inr (st\<lparr>es_truncated := True, es_hold_remainder := True\<rparr>, True, Some p, s), out)
           | None \<Rightarrow>
               (case poll_window s (sc_window cx) of
                  (Inl e, s') \<Rightarrow> (Inl e, out)
                | (Inr (Some (r # rs)), s') \<Rightarrow>
                    (Inr (st\<lparr>es_truncated := True, es_hold_remainder := True\<rparr>, True, Some (r # rs), s'), out)
                | (Inr _, s') \<Rightarrow> (Inr (st, False, None, s'), out)))
        else
          (case drain_rows (sc_window cx) False s of
             (Inl e, s') \<Rightarrow> (Inl e, out)
           | (Inr saw_more, s') \<Rightarrow> (Inr (st\<lparr>es_truncated := saw_more \<or> es_truncated st\<rparr>, False, pre, s'), out))
      else
        (case poll_window s (want_rows cx skip st) of
           (Inl e, s') \<Rightarrow> (Inl e, out)
         | (Inr None, s') \<Rightarrow> (Inr (st, False, pre, s'), out)
         | (Inr (Some chunk0), s') \<Rightarrow>
             (let skipped = drop skip chunk0; skip' = skip - length chunk0
              in if 0 < skip \<and> skipped = [] then stream_loop F f64 cx skip' pre st s' out
                 else let (chunk, leftover) = cut_chunk cx st skipped;
                          pre' = (if sc_hold cx \<and> leftover \<noteq> [] then Some leftover else pre);
                          st1 = (if leftover \<noteq> [] then st\<lparr>es_truncated := True\<rparr> else st);
                          st2 = (if sc_masks cx \<noteq> [] then st1\<lparr>es_masked_rows := es_masked_rows st1 + length chunk\<rparr> else st1);
                          sent = oblige_chunk f64 cx chunk
                      in case emit_packets (fe_rows F (out_fe out) (sc_columns cx) sent (sc_session cx)) out of
                           (Inl e, out') \<Rightarrow> (Inl e, out')
                         | (Inr ps, out') \<Rightarrow> stream_loop F f64 cx skip' pre' (window_stats sent ps st2) s' out')))"
  by pat_completeness auto
termination
  by (relation "measure (\<lambda>(F, f64, cx, skip, pre, st, s, out). stream_size s)")
    (auto dest!: poll_window_less [OF sym])

declare stream_loop.simps [simp del]

definition streaming_ctx ::
  "(64 word \<Rightarrow> str) \<Rightarrow> session_state \<Rightarrow> column list \<Rightarrow> nat \<Rightarrow> obligations option \<Rightarrow> bool \<Rightarrow> stream_ctx" where
  "streaming_ctx f64 session columns0 window_rows ob hold =
     (let wm = Option.bind ob watermark;
          columns = (case wm of None \<Rightarrow> columns0
                     | Some w \<Rightarrow> fst (apply_watermark_to_resultset f64 w (columns0, [])))
      in \<lparr>sc_session = session, sc_columns = columns,
          sc_masks = (case ob of None \<Rightarrow> [] | Some b \<Rightarrow> build_mask_index columns (column_masks b)),
          sc_watermark = wm, sc_max_total = Option.bind ob max_rows, sc_window = max window_rows 1,
          sc_hold = hold\<rparr>)"

definition write_streaming_query_with_obligations ::
  "'f frontend \<Rightarrow> (64 word \<Rightarrow> str) \<Rightarrow> session_state \<Rightarrow> streaming_query \<Rightarrow> nat \<Rightarrow> obligations option \<Rightarrow> bool \<Rightarrow> 'f out
     \<Rightarrow> (gateway_error + encode_stats \<times> streaming_query option) \<times> 'f out" where
  "write_streaming_query_with_obligations F f64 session query window_rows ob hold out =
     (let cx = streaming_ctx f64 session (sq_columns query) window_rows ob hold;
          columns = sc_columns cx
      in case emit_packets (fe_header F (out_fe out) columns session) out of
           (Inl e, out1) \<Rightarrow> (Inl e, out1)
         | (Inr _, out1) \<Rightarrow>
             (case stream_loop F f64 cx (ss_pg_portal_skip_rows session) None encode_stats_default (sq_stream query) out1 of
                (Inl e, out2) \<Rightarrow> (Inl e, out2)
              | (Inr (st, should_hold, pre, s), out2) \<Rightarrow>
                  (case emit_packets (fe_footer F (out_fe out2) columns (es_total_rows st) session (es_truncated st)) out2 of
                     (Inl e, out3) \<Rightarrow> (Inl e, out3)
                   | (Inr _, out3) \<Rightarrow>
                       (Inr (st,
                          if should_hold
                          then Some \<lparr>sq_columns = columns,
                                 sq_stream = (case pre of Some p \<Rightarrow> prefixed_new p s | None \<Rightarrow> s)\<rparr>
                          else None), out3))))"

section \<open>Materialized results\<close>

function window_loop ::
  "'f frontend \<Rightarrow> (64 word \<Rightarrow> str) \<Rightarrow> session_state \<Rightarrow> column list \<Rightarrow> (nat \<times> mask_spec) list \<Rightarrow> nat \<Rightarrow> encode_stats \<Rightarrow> row list
     \<Rightarrow> 'f out \<Rightarrow> (gateway_error + encode_stats) \<times> 'f out" where
  "window_loop F f64 session columns masks window st rows out =
     (if rows = [] then (Inr st, out)
      else let chunk = apply_masks_to_rows f64 masks (take (max window 1) rows);
               st1 = (if masks \<noteq> [] then st\<lparr>es_masked_rows := es_masked_rows st + length chunk\<rparr> else st)
           in case emit_packets (fe_rows F (out_fe out) columns chunk session) out of
                (Inl e, out') \<Rightarrow> (Inl e, out')
              | (Inr ps, out') \<Rightarrow>
                  window_loop F f64 session columns masks window
                    ((window_stats chunk ps st1)\<lparr>es_total_rows := es_total_rows st\<rparr>) (drop (max window 1) rows) out')"
  by pat_completeness auto
termination
  by (relation "measure (\<lambda>(F, f64, se, cs, m, w, st, rows, out). length rows)") auto

declare window_loop.simps [simp del]

definition write_resultset_windowed_with_obligations ::
  "'f frontend \<Rightarrow> (64 word \<Rightarrow> str) \<Rightarrow> session_state \<Rightarrow> column list \<Rightarrow> row list \<Rightarrow> nat \<Rightarrow> obligations option \<Rightarrow> 'f out
     \<Rightarrow> (gateway_error + encode_stats) \<times> 'f out" where
  "write_resultset_windowed_with_obligations F f64 session columns0 rows0 window_rows ob out =
     (let mx = Option.bind ob max_rows;
          cut = (case mx of Some m \<Rightarrow> m < length rows0 | None \<Rightarrow> False);
          (columns, rows) = watermark_opt f64 (Option.bind ob watermark) (columns0, truncate_rows mx rows0);
          masks = (case ob of None \<Rightarrow> [] | Some b \<Rightarrow> build_mask_index columns (column_masks b));
          st = encode_stats_default\<lparr>es_total_rows := length rows, es_truncated := cut\<rparr>
      in case emit_packets (fe_header F (out_fe out) columns session) out of
           (Inl e, out1) \<Rightarrow> (Inl e, out1)
         | (Inr _, out1) \<Rightarrow>
             (case window_loop F f64 session columns masks window_rows st rows out1 of
                (Inl e, out2) \<Rightarrow> (Inl e, out2)
              | (Inr st', out2) \<Rightarrow>
                  (case emit_packets (fe_footer F (out_fe out2) columns (es_total_rows st') session (es_truncated st')) out2 of
                     (Inl e, out3) \<Rightarrow> (Inl e, out3)
                   | (Inr _, out3) \<Rightarrow> (Inr st', out3))))"

section \<open>Relayed packets\<close>

record wire_relay_observation =
  wr_bytes :: nat
  wr_error_response :: bool
  wr_ready_status :: "nat option"

definition observe_packet :: "str \<Rightarrow> wire_relay_observation \<Rightarrow> wire_relay_observation" where
  "observe_packet p ob =
     (case p of
        [] \<Rightarrow> ob
      | c # _ \<Rightarrow>
          if c = CHR ''E'' then ob\<lparr>wr_error_response := True\<rparr>
          else if c = CHR ''Z'' \<and> 6 \<le> length p then ob\<lparr>wr_ready_status := Some (byte (p ! 5))\<rparr>
          else ob)"

definition relayed :: "bool \<Rightarrow> str \<Rightarrow> bool" where
  "relayed skip_z p \<longleftrightarrow> \<not> (skip_z \<and> p \<noteq> [] \<and> hd p \<in> {CHR ''Z'', CHR ''1'', CHR ''2''})"

fun write_wire_relay_observed ::
  "(gateway_error + packets option) list \<Rightarrow> bool \<Rightarrow> wire_relay_observation \<Rightarrow> writer
     \<Rightarrow> (gateway_error + wire_relay_observation) \<times> writer" where
  "write_wire_relay_observed [] skip_z ob w = (Inr ob, w)"
| "write_wire_relay_observed (Inl e # as) skip_z ob w = (Inl e, w)"
| "write_wire_relay_observed (Inr None # as) skip_z ob w = (Inr ob, w)"
| "write_wire_relay_observed (Inr (Some batch) # as) skip_z ob w =
     (let ob1 = fold observe_packet batch ob; out = filter (relayed skip_z) batch
      in if out = [] then write_wire_relay_observed as skip_z ob1 w
         else case write_packets out w of
                (Inl e, w') \<Rightarrow> (Inl e, w')
              | (Inr _, w') \<Rightarrow>
                  write_wire_relay_observed as skip_z
                    (ob1\<lparr>wr_bytes := saturating_add64 (wr_bytes ob1) (sum_list (map length out))\<rparr>) w')"

section \<open>What a streamed result sends\<close>

text \<open>A stream that answers every poll with at least one row until it ends, and its rows.\<close>

fun stream_ok :: "row_stream \<Rightarrow> bool" where
  "stream_ok (BackendRows as) \<longleftrightarrow> list_all (\<lambda>a. case a of Inr (Some c) \<Rightarrow> c \<noteq> [] | _ \<Rightarrow> False) as"
| "stream_ok (VecRowStream rows) \<longleftrightarrow> True"
| "stream_ok (PrefixedRowStream p s) \<longleftrightarrow> p \<noteq> Some [] \<and> stream_ok s"

fun stream_rows :: "row_stream \<Rightarrow> row list" where
  "stream_rows (BackendRows as) = concat (map (\<lambda>a. case a of Inr (Some c) \<Rightarrow> c | _ \<Rightarrow> []) as)"
| "stream_rows (VecRowStream rows) = rows"
| "stream_rows (PrefixedRowStream p s) = (case p of None \<Rightarrow> [] | Some q \<Rightarrow> q) @ stream_rows s"

lemma poll_window_ok:
  assumes "stream_ok s"
  obtains s' where "poll_window s n = (Inr None, s')" "stream_rows s = []" "stream_ok s'" "stream_rows s' = []"
  | c s' where "poll_window s n = (Inr (Some c), s')" "c \<noteq> []" "stream_ok s'" "stream_rows s = c @ stream_rows s'"
proof -
  have "(\<exists>s'. poll_window s n = (Inr None, s') \<and> stream_rows s = [] \<and> stream_ok s' \<and> stream_rows s' = []) \<or>
     (\<exists>c s'. poll_window s n = (Inr (Some c), s') \<and> c \<noteq> [] \<and> stream_ok s' \<and> stream_rows s = c @ stream_rows s')"
    using assms
  proof (induction s n rule: poll_window.induct)
    case (2 a as n)
    then show ?case by (auto split: sum.splits option.splits)
  next
    case (3 rows n)
    then show ?case by (auto simp: Let_def)
  next
    case (4 inner n)
    then consider s' where "poll_window inner (max n 1) = (Inr None, s')" "stream_rows inner = []" "stream_ok s'" "stream_rows s' = []"
      | c s' where "poll_window inner (max n 1) = (Inr (Some c), s')" "c \<noteq> []" "stream_ok s'" "stream_rows inner = c @ stream_rows s'"
      by auto
    then show ?case by cases simp_all
  next
    case (5 p inner n)
    show ?case
    proof (cases "max n 1 < length p \<or> length p = max n 1")
      case True
      with 5(2) show ?thesis by auto
    next
      case False
      with 5 consider s' where "poll_window inner (max n 1 - length p) = (Inr None, s')" "stream_rows inner = []" "stream_ok s'" "stream_rows s' = []"
        | c s' where "poll_window inner (max n 1 - length p) = (Inr (Some c), s')" "c \<noteq> []" "stream_ok s'" "stream_rows inner = c @ stream_rows s'"
        by auto
      then show ?thesis using False 5(2) by cases auto
    qed
  qed simp
  then show thesis using that by blast
qed

lemma drain_rows_ok:
  "stream_ok s \<Longrightarrow> \<exists>s'. drain_rows n b s = (Inr (b \<or> stream_rows s \<noteq> []), s') \<and> stream_ok s' \<and> stream_rows s' = []"
proof (induction n b s rule: drain_rows.induct)
  case (1 n b s)
  show ?case
  proof (rule poll_window_ok [OF 1(2), of n])
    fix c s' assume s: "poll_window s n = (Inr (Some c), s')" "c \<noteq> []" "stream_ok s'" "stream_rows s = c @ stream_rows s'"
    then show ?thesis using 1(1) [OF s(1) [symmetric] refl refl s(3)] by (subst drain_rows.simps) auto
  qed (subst drain_rows.simps, auto)
qed

lemma oblige_chunk_append: "oblige_chunk f64 cx (a @ b) = oblige_chunk f64 cx a @ oblige_chunk f64 cx b"
  by (simp add: oblige_chunk_def apply_masks_to_rows_def)

lemma length_oblige_chunk [simp]: "length (oblige_chunk f64 cx c) = length c"
  by (simp add: oblige_chunk_def apply_masks_to_rows_def)

lemma oblige_chunk_Nil [simp]: "oblige_chunk f64 cx [] = []"
  by (simp add: oblige_chunk_def apply_masks_to_rows_def)

text \<open>The rows the limit leaves of those available.\<close>

definition sent_rows :: "stream_ctx \<Rightarrow> encode_stats \<Rightarrow> row list \<Rightarrow> row list" where
  "sent_rows cx st avail = (case sc_max_total cx of None \<Rightarrow> avail | Some mx \<Rightarrow> take (mx - es_total_rows st) avail)"

lemma sent_rows_append:
  "cut_chunk cx st a = (c, l) \<Longrightarrow> es_total_rows st' = es_total_rows st + length c \<Longrightarrow>
     sent_rows cx st (a @ b) = c @ sent_rows cx st' b"
  by (auto simp: sent_rows_def cut_chunk_def min_def split: option.splits)

lemma cut_chunk_parts: "cut_chunk cx st a = (c, l) \<Longrightarrow> a = c @ l"
  by (auto simp: cut_chunk_def split: option.splits)

lemma cut_chunk_full:
  "cut_chunk cx st a = (c, l) \<Longrightarrow> l \<noteq> [] \<Longrightarrow> \<exists>mx. sc_max_total cx = Some mx \<and> mx \<le> es_total_rows st + length c"
  by (auto simp: cut_chunk_def split: option.splits)

text \<open>What a writer without errors holds after one more batch.\<close>

definition written :: "packets \<Rightarrow> 'f out \<Rightarrow> 'f out" where
  "written ps out = out\<lparr>out_writer := (out_writer out)\<lparr>w_batches := w_batches (out_writer out) @ [ps]\<rparr>\<rparr>"

lemma emit_ok:
  "w_error (out_writer out) = (\<lambda>_. None) \<Longrightarrow> emit_packets (Inr ps, out_fe out) out = (Inr ps, written ps out)"
  by (simp add: emit_packets_def write_packets_def written_def)

lemma written_simps [simp]:
  "out_fe (written ps out) = out_fe out" "w_error (out_writer (written ps out)) = w_error (out_writer out)"
  "w_batches (out_writer (written ps out)) = w_batches (out_writer out) @ [ps]"
  by (simp_all add: written_def)

text \<open>
  A streamed result over a stream that does not fail, an adapter that encodes row by row and a writer
  that does not fail: the rows sent, the rows kept for the next page, and the truncation flag.
\<close>

definition stream_result :: "stream_ctx \<Rightarrow> nat \<Rightarrow> encode_stats \<Rightarrow> packets \<Rightarrow> row list \<Rightarrow> row list \<Rightarrow> 'f out \<Rightarrow>
    (gateway_error + stream_end) \<times> 'f out \<Rightarrow> bool" where
  "stream_result cx skip st ps avail sent out r \<longleftrightarrow>
     (\<exists>st' held pre s' w. r = (Inr (st', held, pre, s'), out\<lparr>out_writer := w\<rparr>) \<and> w_error w = (\<lambda>_. None) \<and>
        concat (w_batches w) = concat (w_batches (out_writer out)) @ ps \<and>
        es_total_rows st' = es_total_rows st + length sent \<and>
        (sc_hold cx \<longrightarrow> held = (length sent < length avail)) \<and>
        (held \<longrightarrow> sc_hold cx \<and> stream_ok s' \<and>
           (case pre of None \<Rightarrow> [] | Some p \<Rightarrow> p) @ stream_rows s' = drop (length sent) avail) \<and>
        (es_hold_remainder st' = (es_hold_remainder st \<or> held)) \<and>
        (skip = 0 \<longrightarrow> es_truncated st' = (es_truncated st \<or> length sent < length avail)))"

lemma stream_resultI:
  "r = (Inr (st', held, pre, s'), out\<lparr>out_writer := w\<rparr>) \<Longrightarrow> w_error w = (\<lambda>_. None) \<Longrightarrow>
     concat (w_batches w) = concat (w_batches (out_writer out)) @ ps \<Longrightarrow>
     es_total_rows st' = es_total_rows st + length sent \<Longrightarrow>
     (sc_hold cx \<Longrightarrow> held = (length sent < length avail)) \<Longrightarrow>
     (held \<Longrightarrow> sc_hold cx \<and> stream_ok s' \<and>
        (case pre of None \<Rightarrow> [] | Some p \<Rightarrow> p) @ stream_rows s' = drop (length sent) avail) \<Longrightarrow>
     es_hold_remainder st' = (es_hold_remainder st \<or> held) \<Longrightarrow>
     (skip = 0 \<Longrightarrow> es_truncated st' = (es_truncated st \<or> length sent < length avail)) \<Longrightarrow>
     stream_result cx skip st ps avail sent out r"
  unfolding stream_result_def by blast

lemma stream_resultE:
  assumes "stream_result cx skip st ps avail sent out r"
  obtains st' held pre s' w where "r = (Inr (st', held, pre, s'), out\<lparr>out_writer := w\<rparr>)" "w_error w = (\<lambda>_. None)"
     "concat (w_batches w) = concat (w_batches (out_writer out)) @ ps"
     "es_total_rows st' = es_total_rows st + length sent"
     "sc_hold cx \<Longrightarrow> held = (length sent < length avail)"
     "held \<Longrightarrow> sc_hold cx \<and> stream_ok s' \<and>
        (case pre of None \<Rightarrow> [] | Some p \<Rightarrow> p) @ stream_rows s' = drop (length sent) avail"
     "es_hold_remainder st' = (es_hold_remainder st \<or> held)"
     "skip = 0 \<Longrightarrow> es_truncated st' = (es_truncated st \<or> length sent < length avail)"
  using assms unfolding stream_result_def by blast

lemma stream_result_skip:
  "stream_result cx k st ps avail sent out r \<Longrightarrow> 0 < skip \<Longrightarrow> stream_result cx skip st ps avail sent out r"
  unfolding stream_result_def by blast

lemma stream_result_written:
  assumes "stream_result cx 0 st1 ps avail1 sent1 (written ps0 out) r"
    and "es_total_rows st1 = es_total_rows st + length sent0" and "es_hold_remainder st1 = es_hold_remainder st"
    and "avail1 = drop (length sent0) avail" and "length sent0 \<le> length avail"
    and "es_truncated st1 = es_truncated st \<or> length (sent0 @ sent1) < length avail"
  shows "stream_result cx skip st (ps0 @ ps) avail (sent0 @ sent1) out r"
  using assms(1)
proof (rule stream_resultE)
  fix st' held pre s' w
  assume "r = (Inr (st', held, pre, s'), (written ps0 out)\<lparr>out_writer := w\<rparr>)" "w_error w = (\<lambda>_. None)"
     "concat (w_batches w) = concat (w_batches (out_writer (written ps0 out))) @ ps"
     "es_total_rows st' = es_total_rows st1 + length sent1"
     "sc_hold cx \<Longrightarrow> held = (length sent1 < length avail1)"
     "held \<Longrightarrow> sc_hold cx \<and> stream_ok s' \<and> (case pre of None \<Rightarrow> [] | Some p \<Rightarrow> p) @ stream_rows s' = drop (length sent1) avail1"
     "es_hold_remainder st' = (es_hold_remainder st1 \<or> held)"
     "0 = (0::nat) \<Longrightarrow> es_truncated st' = (es_truncated st1 \<or> length sent1 < length avail1)"
  with assms(2-) show ?thesis
    by (intro stream_resultI [where st' = st' and held = held and pre = pre and s' = s' and w = w])
      (auto simp: written_def add.commute)
qed

lemma stream_result_cut:
  assumes "stream_result cx 0 st1 [] avail1 [] (written ps0 out) r"
    and "es_total_rows st1 = es_total_rows st + length sent0" and "es_hold_remainder st1 = es_hold_remainder st"
    and "length sent0 < length avail" and "es_truncated st1" and "\<not> sc_hold cx"
  shows "stream_result cx skip st ps0 avail sent0 out r"
  using assms(1)
proof (rule stream_resultE)
  fix st' held pre s' w
  assume "r = (Inr (st', held, pre, s'), (written ps0 out)\<lparr>out_writer := w\<rparr>)" "w_error w = (\<lambda>_. None)"
     "concat (w_batches w) = concat (w_batches (out_writer (written ps0 out))) @ []"
     "es_total_rows st' = es_total_rows st1 + length []"
     "held \<Longrightarrow> sc_hold cx \<and> stream_ok s' \<and> (case pre of None \<Rightarrow> [] | Some p \<Rightarrow> p) @ stream_rows s' = drop (length []) avail1"
     "es_hold_remainder st' = (es_hold_remainder st1 \<or> held)"
     "0 = (0::nat) \<Longrightarrow> es_truncated st' = (es_truncated st1 \<or> length [] < length avail1)"
  with assms(2-) show ?thesis
    by (intro stream_resultI [where st' = st' and held = held and pre = pre and s' = s' and w = w])
      (auto simp: written_def add.commute)
qed

lemma window_stats_simps [simp]:
  "es_total_rows (window_stats c ps st) = es_total_rows st + length c"
  "es_truncated (window_stats c ps st) = es_truncated st"
  "es_hold_remainder (window_stats c ps st) = es_hold_remainder st"
  by (simp_all add: window_stats_def Let_def)

lemma out_writer_self [simp]: "out\<lparr>out_writer := out_writer out\<rparr> = out"
  by simp

text \<open>The end of the loop: nothing more is sent.\<close>

lemma stream_result_stop:
  assumes "r = (Inr (st', held, pre, s'), out)" and "w_error (out_writer out) = (\<lambda>_. None)"
    and "es_total_rows st' = es_total_rows st" and "sc_hold cx \<Longrightarrow> held = (avail \<noteq> [])"
    and "held \<Longrightarrow> sc_hold cx \<and> stream_ok s' \<and> (case pre of None \<Rightarrow> [] | Some p \<Rightarrow> p) @ stream_rows s' = avail"
    and "es_hold_remainder st' = (es_hold_remainder st \<or> held)"
    and "skip = 0 \<Longrightarrow> es_truncated st' = (es_truncated st \<or> avail \<noteq> [])"
  shows "stream_result cx skip st [] avail [] out r"
  using assms
  by (intro stream_resultI [where st' = st' and held = held and pre = pre and s' = s' and w = "out_writer out"]) auto

lemma stream_loop_full:
  assumes "stream_ok s" and "w_error (out_writer out) = (\<lambda>_. None)"
    and mx: "sc_max_total cx = Some mx" "mx \<le> es_total_rows st"
    and "sc_hold cx \<longrightarrow> skip = 0"
    and "case pre of None \<Rightarrow> avail = drop skip (stream_rows s) | Some p \<Rightarrow> p \<noteq> [] \<and> sc_hold cx \<and> avail = p @ stream_rows s"
  shows "stream_result cx skip st [] avail [] out (stream_loop F f64 cx skip pre st s out)"
proof (cases "sc_hold cx")
  case hold: True
  show ?thesis
  proof (cases pre)
    case (Some p)
    have "stream_loop F f64 cx skip pre st s out =
        (Inr (st\<lparr>es_truncated := True, es_hold_remainder := True\<rparr>, True, Some p, s), out)"
      using mx hold Some by (subst stream_loop.simps) simp
    then show ?thesis by (rule stream_result_stop) (use assms Some hold in auto)
  next
    case None
    show ?thesis
    proof (rule poll_window_ok [OF assms(1), of "sc_window cx"])
      fix s' assume p: "poll_window s (sc_window cx) = (Inr None, s')" "stream_rows s = []"
      have "stream_loop F f64 cx skip pre st s out = (Inr (st, False, None, s'), out)"
        using mx hold None p by (subst stream_loop.simps) simp
      then show ?thesis by (rule stream_result_stop) (use assms None hold p in auto)
    next
      fix c s' assume p: "poll_window s (sc_window cx) = (Inr (Some c), s')" "c \<noteq> []" "stream_ok s'" "stream_rows s = c @ stream_rows s'"
      have "stream_loop F f64 cx skip pre st s out =
          (Inr (st\<lparr>es_truncated := True, es_hold_remainder := True\<rparr>, True, Some c, s'), out)"
        using mx hold None p by (cases c) (subst stream_loop.simps, simp)+
      then show ?thesis by (rule stream_result_stop) (use assms None hold p in auto)
    qed
  qed
next
  case False
  obtain s' where d: "drain_rows (sc_window cx) False s = (Inr (stream_rows s \<noteq> []), s')"
    using drain_rows_ok [OF assms(1), of "sc_window cx" False] by auto
  have "stream_loop F f64 cx skip pre st s out =
      (Inr (st\<lparr>es_truncated := stream_rows s \<noteq> [] \<or> es_truncated st\<rparr>, False, pre, s'), out)"
    using mx False d by (subst stream_loop.simps) simp
  then show ?thesis by (rule stream_result_stop) (use assms False in \<open>auto split: option.splits\<close>)
qed

lemma stream_loop_sends:
  assumes "stream_ok s" and "w_error (out_writer out) = (\<lambda>_. None)" and "set (stream_rows s) \<subseteq> S"
    and enc: "\<And>rows. set rows \<subseteq> S \<Longrightarrow>
        fe_rows F fe (sc_columns cx) (oblige_chunk f64 cx rows) (sc_session cx) = (Inr (map enc (oblige_chunk f64 cx rows)), fe)"
    and "out_fe out = fe" and "sc_hold cx \<longrightarrow> skip = 0"
    and "avail = drop skip (stream_rows s)"
  shows "stream_result cx skip st (map enc (oblige_chunk f64 cx (sent_rows cx st avail))) avail (sent_rows cx st avail) out
     (stream_loop F f64 cx skip None st s out)"
  using assms(1-3,5-)
proof (induction "stream_size s" arbitrary: s skip st out avail rule: less_induct)
  case less
  note prems = less.prems
  show ?case
  proof (cases "case sc_max_total cx of Some mx \<Rightarrow> mx \<le> es_total_rows st | None \<Rightarrow> False")
    case True
    then obtain mx where mx: "sc_max_total cx = Some mx" "mx \<le> es_total_rows st" by (auto split: option.splits)
    then have "sent_rows cx st avail = []" by (simp add: sent_rows_def)
    then show ?thesis using stream_loop_full [OF prems(1,2) mx prems(5), where pre = None and avail = avail] prems(6) by simp
  next
    case room: False
    show ?thesis
    proof (rule poll_window_ok [OF prems(1), of "want_rows cx skip st"])
      fix s' assume p: "poll_window s (want_rows cx skip st) = (Inr None, s')" "stream_rows s = []"
      have "stream_loop F f64 cx skip None st s out = (Inr (st, False, None, s'), out)"
        using room p by (subst stream_loop.simps) simp
      then have "stream_result cx skip st [] avail [] out (stream_loop F f64 cx skip None st s out)"
        by (rule stream_result_stop) (use prems p in auto)
      then show ?thesis using prems(6) p(2) by (simp add: sent_rows_def split: option.splits)
    next
      fix c s' assume p: "poll_window s (want_rows cx skip st) = (Inr (Some c), s')" "c \<noteq> []" "stream_ok s'" "stream_rows s = c @ stream_rows s'"
      have smaller: "stream_size s' < stream_size s" by (rule poll_window_less [OF p(1)])
      have S': "set (stream_rows s') \<subseteq> S" using prems(3) p(4) by simp
      show ?thesis
      proof (cases "0 < skip \<and> drop skip c = []")
        case True
        have "stream_loop F f64 cx skip None st s out = stream_loop F f64 cx (skip - length c) None st s' out"
          using room p True by (subst stream_loop.simps) simp
        moreover have "avail = drop (skip - length c) (stream_rows s')" using True p(4) prems(6) by simp
        ultimately show ?thesis
          using stream_result_skip [OF less.hyps [OF smaller p(3) prems(2) S' prems(4), of "skip - length c" avail st]]
            True prems(5) by simp
      next
        case False
        obtain chunk leftover where cut: "cut_chunk cx st (drop skip c) = (chunk, leftover)" by fastforce
        let ?ps = "map enc (oblige_chunk f64 cx chunk)"
        define st1 where "st1 = (if leftover \<noteq> [] then st\<lparr>es_truncated := True\<rparr> else st)"
        define st2 where "st2 = window_stats (oblige_chunk f64 cx chunk) ?ps
            (if sc_masks cx \<noteq> [] then st1\<lparr>es_masked_rows := es_masked_rows st1 + length chunk\<rparr> else st1)"
        have st2: "es_total_rows st2 = es_total_rows st + length chunk" "es_hold_remainder st2 = es_hold_remainder st"
          "es_truncated st2 = (es_truncated st \<or> leftover \<noteq> [])"
          by (simp_all add: st2_def st1_def)
        have parts: "drop skip c = chunk @ leftover" by (rule cut_chunk_parts [OF cut])
        have avail: "avail = chunk @ leftover @ stream_rows s'"
          using prems(6) p(4) False parts by (cases "skip \<le> length c") auto
        have "set chunk \<subseteq> S" using parts p(4) prems(3) set_drop_subset [of skip c] by auto
        then have e: "emit_packets (fe_rows F (out_fe out) (sc_columns cx) (oblige_chunk f64 cx chunk) (sc_session cx)) out =
            (Inr ?ps, written ?ps out)"
          using enc prems(4) emit_ok [OF prems(2)] by simp
        have skip': "skip - length c = 0" using False by auto
        have loop: "stream_loop F f64 cx skip None st s out =
            stream_loop F f64 cx 0 (if sc_hold cx \<and> leftover \<noteq> [] then Some leftover else None) st2 s' (written ?ps out)"
          using room p False cut e skip' by (cases "skip = 0") (subst stream_loop.simps, simp add: Let_def st2_def st1_def)+
        have w: "w_error (out_writer (written ?ps out)) = (\<lambda>_. None)" using prems(2) by simp
        show ?thesis
        proof (cases "leftover = []")
          case True
          have sent: "sent_rows cx st avail = chunk @ sent_rows cx st2 (stream_rows s')"
            using sent_rows_append [OF cut st2(1), of "stream_rows s'"] avail parts True by simp
          show ?thesis unfolding sent oblige_chunk_append map_append loop using True
            by (simp, intro stream_result_written [OF less.hyps [OF smaller p(3) w S', of 0 "stream_rows s'" st2]])
              (use st2 avail prems in auto)
        next
          case full: False
          obtain mx where mx: "sc_max_total cx = Some mx" "mx \<le> es_total_rows st2"
            using cut_chunk_full [OF cut full] st2(1) by auto
          have sent: "sent_rows cx st avail = chunk"
            using sent_rows_append [OF cut st2(1), of "stream_rows s'"] avail parts mx by (simp add: sent_rows_def)
          show ?thesis
          proof (cases "sc_hold cx")
            case True
            have "stream_result cx 0 st2 [] (leftover @ stream_rows s') [] (written ?ps out)
                (stream_loop F f64 cx 0 (Some leftover) st2 s' (written ?ps out))"
              by (rule stream_loop_full [OF p(3) w mx]) (use True full in simp_all)
            from stream_result_written [OF this st2(1,2), of avail skip] show ?thesis
              unfolding sent loop using True full avail by simp
          next
            case False
            have "stream_result cx 0 st2 [] (stream_rows s') [] (written ?ps out)
                (stream_loop F f64 cx 0 None st2 s' (written ?ps out))"
              by (rule stream_loop_full [OF p(3) w mx]) (use False full in simp_all)
            from stream_result_cut [OF this st2(1,2), of avail skip] show ?thesis
              unfolding sent loop using False full avail st2(3) by simp
          qed
        qed
      qed
    qed
  qed
qed

text \<open>The whole streamed result: header, rows under the obligations, footer, and what is held back.\<close>

lemma write_streaming_sends:
  fixes F :: "'f frontend" and out :: "'f out"
  assumes cx_def: "cx = streaming_ctx f64 session (sq_columns q) n ob hold"
    and "stream_ok (sq_stream q)" and "w_error (out_writer out) = (\<lambda>_. None)"
    and "fe_header F (out_fe out) (sc_columns cx) session = (Inr hdr, out_fe out)"
    and "\<And>rows. set rows \<subseteq> set (stream_rows (sq_stream q)) \<Longrightarrow>
      fe_rows F (out_fe out) (sc_columns cx) (oblige_chunk f64 cx rows) session =
        (Inr (map enc (oblige_chunk f64 cx rows)), out_fe out)"
    and "\<And>m t. fe_footer F (out_fe out) (sc_columns cx) m session t = (Inr (ftr m t), out_fe out)"
    and "hold \<longrightarrow> ss_pg_portal_skip_rows session = 0"
    and "avail = drop (ss_pg_portal_skip_rows session) (stream_rows (sq_stream q))"
    and "sent = sent_rows cx encode_stats_default avail"
  obtains st held w where
    "write_streaming_query_with_obligations F f64 session q n ob hold out = (Inr (st, held), out\<lparr>out_writer := w\<rparr>)"
    "w_error w = (\<lambda>_. None)"
    "concat (w_batches w) = concat (w_batches (out_writer out)) @ hdr @ map enc (oblige_chunk f64 cx sent) @ ftr (length sent) (es_truncated st)"
    "es_total_rows st = length sent" "es_hold_remainder st = (held \<noteq> None)"
    "hold \<Longrightarrow> (held \<noteq> None) = (length sent < length avail)" "\<not> hold \<Longrightarrow> held = None"
    "ss_pg_portal_skip_rows session = 0 \<Longrightarrow> es_truncated st = (length sent < length avail)"
    "\<And>q'. held = Some q' \<Longrightarrow> sq_columns q' = sc_columns cx \<and> stream_ok (sq_stream q') \<and>
       stream_rows (sq_stream q') = drop (length sent) avail"
proof -
  let ?st = encode_stats_default
  have cx: "sc_session cx = session" "sc_hold cx = hold" by (simp_all add: cx_def streaming_ctx_def Let_def)
  have "stream_result cx (ss_pg_portal_skip_rows session) ?st (map enc (oblige_chunk f64 cx sent)) avail sent (written hdr out)
     (stream_loop F f64 cx (ss_pg_portal_skip_rows session) None ?st (sq_stream q) (written hdr out))"
    unfolding assms(9)
    by (rule stream_loop_sends [where S = "set (stream_rows (sq_stream q))" and fe = "out_fe out"]) (use assms(2-8) cx in simp_all)
  then show thesis
  proof (rule stream_resultE)
    fix st held pre s' w
    assume r: "stream_loop F f64 cx (ss_pg_portal_skip_rows session) None ?st (sq_stream q) (written hdr out) =
        (Inr (st, held, pre, s'), (written hdr out)\<lparr>out_writer := w\<rparr>)"
      and w: "w_error w = (\<lambda>_. None)"
        "concat (w_batches w) = concat (w_batches (out_writer (written hdr out))) @ map enc (oblige_chunk f64 cx sent)"
      and st: "es_total_rows st = es_total_rows ?st + length sent"
        "sc_hold cx \<Longrightarrow> held = (length sent < length avail)"
        "held \<Longrightarrow> sc_hold cx \<and> stream_ok s' \<and> (case pre of None \<Rightarrow> [] | Some p \<Rightarrow> p) @ stream_rows s' = drop (length sent) avail"
        "es_hold_remainder st = (es_hold_remainder ?st \<or> held)"
        "ss_pg_portal_skip_rows session = 0 \<Longrightarrow> es_truncated st = (es_truncated ?st \<or> length sent < length avail)"
    let ?out = "(written hdr out)\<lparr>out_writer := w\<rparr>"
    let ?held = "if held then Some \<lparr>sq_columns = sc_columns cx,
        sq_stream = (case pre of Some p \<Rightarrow> prefixed_new p s' | None \<Rightarrow> s')\<rparr> else None"
    let ?f = "ftr (length sent) (es_truncated st)"
    have e: "emit_packets (Inr hdr, out_fe out) out = (Inr hdr, written hdr out)" by (rule emit_ok [OF assms(3)])
    have f: "emit_packets (Inr ?f, out_fe out) ?out = (Inr ?f, written ?f ?out)" using emit_ok [of ?out ?f] w(1) by simp
    have "write_streaming_query_with_obligations F f64 session q n ob hold out = (Inr (st, ?held), written ?f ?out)"
      using e f assms(4,6) r st(1)
      by (simp add: write_streaming_query_with_obligations_def cx_def [symmetric] Let_def encode_stats_default_def)
    moreover have "written ?f ?out = out\<lparr>out_writer := w\<lparr>w_batches := w_batches w @ [?f]\<rparr>\<rparr>"
      by (simp add: written_def)
    ultimately show thesis
      by (intro that [where st = st and held = ?held and w = "w\<lparr>w_batches := w_batches w @ [?f]\<rparr>"])
        (use w st cx in \<open>auto simp: encode_stats_default_def prefixed_new_def split: option.splits if_splits\<close>)
  qed
qed

section \<open>Windows and the whole result\<close>

lemma masks_are_map: "apply_masks_to_rows f idx rows = map (mask_row f idx) rows"
  by (cases idx) (simp_all add: apply_masks_to_rows_def mask_row_def [abs_def])

lemma mask_index_from_append:
  "mask_index_from get i (a @ b) = mask_index_from get i a @ mask_index_from get (i + length a) b"
  by (induction a arbitrary: i) (auto split: option.splits)

lemma mask_row_beyond: "\<forall>(i, spec) \<in> set idx2. length row \<le> i \<Longrightarrow> mask_row f (idx1 @ idx2) row = mask_row f idx1 row"
proof (induction idx1 arbitrary: row)
  case Nil
  then show ?case by (induction idx2) (auto simp: mask_row_def)
next
  case (Cons p idx1)
  then show ?case by (cases p) (simp add: mask_row_Cons)
qed

text \<open>A column added at the end of the header has no cell when the masks are applied.\<close>

lemma mask_row_new_column:
  assumes "length row = length columns"
  shows "mask_row f (build_mask_index (columns @ [c]) masks) row = mask_row f (build_mask_index columns masks) row"
  unfolding build_mask_index_def mask_index_from_append
  by (rule mask_row_beyond) (use assms in \<open>auto split: option.splits\<close>)

lemma oblige_chunk_is_whole:
  assumes "rectangular (columns, rows)" and "\<And>w. watermark ob = Some w \<Longrightarrow> wm_mode w \<noteq> WmSuffix"
    and "cx = streaming_ctx f64 session columns n (Some ob) hold"
  shows "(sc_columns cx, oblige_chunk f64 cx (truncate_rows (max_rows ob) rows)) = oblige_resultset f64 ob (columns, rows)"
proof -
  have r: "\<And>row. row \<in> set (truncate_rows (max_rows ob) rows) \<Longrightarrow> length row = length columns"
    using assms(1) by (auto simp: rectangular_def truncate_rows_def split: option.splits dest: in_set_takeD)
  have t: "truncate_rows m (map g xs) = map g (truncate_rows m xs)" for m and g :: "row \<Rightarrow> row" and xs
    by (simp add: truncate_rows_def take_map split: option.splits)
  show ?thesis
  proof (cases "watermark ob")
    case None
    then show ?thesis
      by (simp add: assms(3) streaming_ctx_def oblige_chunk_def oblige_resultset_def watermark_opt_def masks_are_map t stamp_row_def)
  next
    case (Some w)
    then have m: "wm_mode w = WmColumn" using assms(2) by (cases "wm_mode w") auto
    let ?name = "if trim (wm_column w) = [] then ''_dn_wm'' else wm_column w"
    show ?thesis
    proof (cases "\<exists>c \<in> set columns. eq_ignore_ascii_case (col_name c) ?name")
      case True
      with Some m r show ?thesis
        by (simp add: assms(3) streaming_ctx_def oblige_chunk_def oblige_resultset_def watermark_opt_def masks_are_map t
            stamp_row_def pad_row_def apply_watermark_to_resultset_def Let_def)
    next
      case False
      with Some m r show ?thesis
        by (simp add: assms(3) streaming_ctx_def oblige_chunk_def oblige_resultset_def watermark_opt_def masks_are_map t
            stamp_row_def pad_row_def apply_watermark_to_resultset_def Let_def mask_row_new_column)
    qed
  qed
qed

lemma window_loop_sends:
  assumes "w_error (out_writer out) = (\<lambda>_. None)" and "set rows \<subseteq> S" and "out_fe out = fe"
    and enc: "\<And>rs. set rs \<subseteq> S \<Longrightarrow> fe_rows F fe columns (apply_masks_to_rows f64 masks rs) session =
        (Inr (map enc (apply_masks_to_rows f64 masks rs)), fe)"
  shows "\<exists>st' w. window_loop F f64 session columns masks n st rows out = (Inr st', out\<lparr>out_writer := w\<rparr>) \<and>
     w_error w = (\<lambda>_. None) \<and> es_total_rows st' = es_total_rows st \<and> es_truncated st' = es_truncated st \<and>
     concat (w_batches w) = concat (w_batches (out_writer out)) @ map enc (apply_masks_to_rows f64 masks rows)"
  using assms(1-3)
proof (induction "length rows" arbitrary: rows st out rule: less_induct)
  case less
  show ?case
  proof (cases "rows = []")
    case True
    then show ?thesis
      using less.prems by (subst window_loop.simps) (auto simp: masks_are_map intro!: exI [of _ "out_writer out"])
  next
    case False
    let ?c = "apply_masks_to_rows f64 masks (take (max n 1) rows)" and ?rest = "drop (max n 1) rows"
    let ?out = "written (map enc ?c) out"
    let ?st = "window_stats ?c (map enc ?c) (if masks \<noteq> [] then st\<lparr>es_masked_rows := es_masked_rows st + length ?c\<rparr> else st)"
    have S: "set (take (max n 1) rows) \<subseteq> S" "set ?rest \<subseteq> S"
      using less.prems(2) set_take_subset [of "max n 1" rows] set_drop_subset [of "max n 1" rows] by auto
    have e: "emit_packets (fe_rows F (out_fe out) columns ?c session) out = (Inr (map enc ?c), ?out)"
      using enc [OF S(1)] less.prems(3) emit_ok [OF less.prems(1)] by simp
    have step: "window_loop F f64 session columns masks n st rows out =
        window_loop F f64 session columns masks n (?st\<lparr>es_total_rows := es_total_rows st\<rparr>) ?rest ?out"
      using False e by (subst window_loop.simps) (simp add: Let_def)
    have "length ?rest < length rows" using False by simp
    then have "\<exists>st' w. window_loop F f64 session columns masks n (?st\<lparr>es_total_rows := es_total_rows st\<rparr>) ?rest ?out =
        (Inr st', ?out\<lparr>out_writer := w\<rparr>) \<and> w_error w = (\<lambda>_. None) \<and>
        es_total_rows st' = es_total_rows (?st\<lparr>es_total_rows := es_total_rows st\<rparr>) \<and>
        es_truncated st' = es_truncated (?st\<lparr>es_total_rows := es_total_rows st\<rparr>) \<and>
        concat (w_batches w) = concat (w_batches (out_writer ?out)) @ map enc (apply_masks_to_rows f64 masks ?rest)"
      by (rule less.hyps) (use S(2) less.prems(1,3) in simp_all)
    then obtain st' w where h: "window_loop F f64 session columns masks n (?st\<lparr>es_total_rows := es_total_rows st\<rparr>) ?rest ?out =
        (Inr st', ?out\<lparr>out_writer := w\<rparr>)" "w_error w = (\<lambda>_. None)"
      "es_total_rows st' = es_total_rows (?st\<lparr>es_total_rows := es_total_rows st\<rparr>)"
      "es_truncated st' = es_truncated (?st\<lparr>es_total_rows := es_total_rows st\<rparr>)"
      "concat (w_batches w) = concat (w_batches (out_writer ?out)) @ map enc (apply_masks_to_rows f64 masks ?rest)"
      by blast
    moreover have "?out\<lparr>out_writer := w\<rparr> = out\<lparr>out_writer := w\<rparr>" by (simp add: written_def)
    moreover have "?c @ apply_masks_to_rows f64 masks ?rest = apply_masks_to_rows f64 masks rows"
      unfolding masks_are_map map_append [symmetric] append_take_drop_id ..
    then have "map enc ?c @ map enc (apply_masks_to_rows f64 masks ?rest) = map enc (apply_masks_to_rows f64 masks rows)"
      unfolding map_append [symmetric] by simp
    ultimately show ?thesis unfolding step by (intro exI [of _ st'] exI [of _ w]) simp
  qed
qed

section \<open>Rows that leave\<close>

text \<open>
  An adapter that encodes the rows of \<open>S\<close> one by one, without an error and without state, as the PostgreSQL
  adapter does: a header, one packet for every row, a footer.
\<close>

definition encodes ::
  "'f frontend \<Rightarrow> 'f \<Rightarrow> session_state \<Rightarrow> column list \<Rightarrow> row set \<Rightarrow> packets \<Rightarrow> (row \<Rightarrow> str) \<Rightarrow> (nat \<Rightarrow> bool \<Rightarrow> packets) \<Rightarrow> bool" where
  "encodes F fe s columns S hdr enc ftr \<longleftrightarrow>
     fe_header F fe columns s = (Inr hdr, fe) \<and>
     (\<forall>rows. set rows \<subseteq> S \<longrightarrow> fe_rows F fe columns rows s = (Inr (map enc rows), fe)) \<and>
     (\<forall>n t. fe_footer F fe columns n s t = (Inr (ftr n t), fe))"

definition oblige_row :: "(64 word \<Rightarrow> str) \<Rightarrow> stream_ctx \<Rightarrow> row \<Rightarrow> row" where
  "oblige_row f64 cx row = hd (oblige_chunk f64 cx [row])"

lemma oblige_chunk_map: "oblige_chunk f64 cx rows = map (oblige_row f64 cx) rows"
proof (induction rows)
  case (Cons r rs)
  have "length (oblige_chunk f64 cx [r]) = 1" by simp
  then have "oblige_chunk f64 cx [r] = [oblige_row f64 cx r]"
    by (cases "oblige_chunk f64 cx [r]") (simp_all add: oblige_row_def)
  with Cons oblige_chunk_append [of f64 cx "[r]" rs] show ?case by simp
qed simp

lemma write_streaming_encoded:
  fixes F :: "'f frontend" and out :: "'f out"
  assumes "cx = streaming_ctx f64 session (sq_columns q) n ob hold"
    and "stream_ok (sq_stream q)" and "w_error (out_writer out) = (\<lambda>_. None)"
    and "encodes F (out_fe out) session (sc_columns cx) (set (oblige_chunk f64 cx (stream_rows (sq_stream q)))) hdr enc ftr"
    and "ss_pg_portal_skip_rows session = 0"
    and "sent = sent_rows cx encode_stats_default (stream_rows (sq_stream q))"
    and "t = (length sent < length (stream_rows (sq_stream q)))"
  obtains st held w where
    "write_streaming_query_with_obligations F f64 session q n ob hold out = (Inr (st, held), out\<lparr>out_writer := w\<rparr>)"
    "w_error w = (\<lambda>_. None)"
    "concat (w_batches w) = concat (w_batches (out_writer out)) @ hdr @ map enc (oblige_chunk f64 cx sent) @ ftr (length sent) t"
    "es_total_rows st = length sent" "es_hold_remainder st = (hold \<and> t)" "es_truncated st = t" "(held \<noteq> None) = (hold \<and> t)"
    "\<And>q'. held = Some q' \<Longrightarrow> sq_columns q' = sc_columns cx \<and> stream_ok (sq_stream q') \<and>
       stream_rows (sq_stream q') = drop (length sent) (stream_rows (sq_stream q))"
proof -
  let ?rows = "stream_rows (sq_stream q)"
  have rows: "fe_rows F (out_fe out) (sc_columns cx) (oblige_chunk f64 cx rs) session =
      (Inr (map enc (oblige_chunk f64 cx rs)), out_fe out)" if "set rs \<subseteq> set ?rows" for rs
  proof -
    have "set (oblige_chunk f64 cx rs) \<subseteq> set (oblige_chunk f64 cx ?rows)"
      using image_mono [OF that] by (simp add: oblige_chunk_map)
    then show ?thesis using assms(4) by (simp add: encodes_def)
  qed
  show thesis
    by (rule write_streaming_sends [OF assms(1-3), where enc = enc and hdr = hdr and ftr = ftr and avail = ?rows and sent = sent])
      (use assms(4-7) rows in \<open>auto simp: encodes_def intro!: that\<close>)
qed


text \<open>What a streamed result sends is what the materialized path would send of the whole result.\<close>

lemma streamed_is_whole:
  fixes F :: "'f frontend" and out :: "'f out"
  assumes "stream_ok (sq_stream q)" and "w_error (out_writer out) = (\<lambda>_. None)" and "ss_pg_portal_skip_rows session = 0"
    and "rectangular (sq_columns q, stream_rows (sq_stream q))" and "\<And>w. watermark ob = Some w \<Longrightarrow> wm_mode w \<noteq> WmSuffix"
    and "oblige_resultset f64 ob (sq_columns q, stream_rows (sq_stream q)) = (columns, rows)"
    and "encodes F (out_fe out) session columns
      (set (snd (oblige_resultset f64 (ob\<lparr>max_rows := None\<rparr>) (sq_columns q, stream_rows (sq_stream q))))) hdr enc ftr"
  shows "\<exists>st w. write_streaming_query_with_obligations F f64 session q n (Some ob) False out =
       (Inr (st, None), out\<lparr>out_writer := w\<rparr>) \<and> w_error w = (\<lambda>_. None) \<and> es_total_rows st = length rows \<and>
     concat (w_batches w) = concat (w_batches (out_writer out)) @ hdr @ map enc rows @
       ftr (length rows) (length rows < length (stream_rows (sq_stream q)))"
proof -
  let ?rows = "stream_rows (sq_stream q)"
  define cx where cx: "cx = streaming_ctx f64 session (sq_columns q) n (Some ob) False"
  define cx' where cx': "cx' = streaming_ctx f64 session (sq_columns q) n (Some (ob\<lparr>max_rows := None\<rparr>)) False"
  have same: "oblige_chunk f64 cx' rs = oblige_chunk f64 cx rs" for rs
    by (simp add: oblige_chunk_def cx cx' streaming_ctx_def Let_def)
  have whole: "sc_columns cx = columns" "oblige_chunk f64 cx (truncate_rows (max_rows ob) ?rows) = rows"
    using oblige_chunk_is_whole [OF assms(4,5) cx] assms(6) by simp_all
  have "oblige_chunk f64 cx' ?rows = snd (oblige_resultset f64 (ob\<lparr>max_rows := None\<rparr>) (sq_columns q, ?rows))"
    using oblige_chunk_is_whole [OF assms(4) _ cx', THEN arg_cong, of snd] assms(5) by (simp add: truncate_rows_def)
  then have enc: "encodes F (out_fe out) session (sc_columns cx) (set (oblige_chunk f64 cx ?rows)) hdr enc ftr"
    using assms(7) whole(1) same by simp
  have "sc_max_total cx = max_rows ob" by (simp add: cx streaming_ctx_def Let_def)
  then have sent: "sent_rows cx encode_stats_default ?rows = truncate_rows (max_rows ob) ?rows"
    by (simp add: sent_rows_def truncate_rows_def encode_stats_default_def split: option.split)
  have len: "length (truncate_rows (max_rows ob) ?rows) = length rows" using arg_cong [OF whole(2), of length] by simp
  show ?thesis
    by (rule write_streaming_encoded [OF cx assms(1,2) enc assms(3) refl refl, unfolded sent whole len]) auto
qed

end
