(* ===== verification/Core_Route.thy ===== *)
theory Core_Route
  imports Gateway_Config Route Transport
begin

text \<open>
  The route policy of a connection and the plans built from a configuration
  (\<open>runtime/gateway/src/core_engine.rs\<close>, \<open>CoreRoutePolicy\<close> and \<open>CoreGatewayListenerPlan\<close>).

  Balancers are shared and locked; a selection takes and returns them.  A balancer's \<open>next\<close> may not return
  (\<open>None\<close>) or may panic, as in the balancer's own model.  The random draw is a parameter, and so is the
  lower case of a character in \<open>normalize_policy_kind\<close>, which is Unicode.  The parser behind a dialect is
  generated code: \<open>read_only\<close> stands for it.
\<close>

section \<open>Policies\<close>

datatype core_route_policy_kind =
    CrFirst
  | CrSimple balance_type
  | CrReadWrite balance_type balance_type

record core_route_policy =
  crp_endpoints :: "endpoint_config list"
  crp_kind :: core_route_policy_kind
  crp_read_only :: "str \<Rightarrow> bool"

datatype route_target_role = TargetRead | TargetReadWrite

type_synonym 'a lookup = "gateway_error + 'a"

definition first_endpoint :: "core_route_policy \<Rightarrow> endpoint_config lookup" where
  "first_endpoint p =
     (case crp_endpoints p of
        e # _ \<Rightarrow> Inr e
      | [] \<Rightarrow> Inl (EConfiguration ''service has no endpoints''))"

definition endpoint_by_name :: "core_route_policy \<Rightarrow> str \<Rightarrow> endpoint_config lookup" where
  "endpoint_by_name p name =
     (case find (\<lambda>e. ec_name e = name) (crp_endpoints p) of
        Some e \<Rightarrow> Inr e
      | None \<Rightarrow> Inl (EConfiguration (''route policy references missing endpoint '' @ in_quotes name)))"

definition endpoint_to_route_plan :: "endpoint_config \<Rightarrow> route_plan" where
  "endpoint_to_route_plan e = RouteSingle \<lparr>er_name = ec_name e, er_address = ec_address e\<rparr>"

text \<open>A selection: the endpoint or an error, and the balancer afterwards.\<close>

type_synonym 'b selection = "(endpoint_config lookup \<times> 'b) run option"

definition select_from_balancer :: "int \<Rightarrow> core_route_policy \<Rightarrow> balance_type \<Rightarrow> balance_type selection" where
  "select_from_balancer draw p b =
     map_option (\<lambda>r. run_bind r (\<lambda>(picked, b').
       Done (case picked of Some ep \<Rightarrow> endpoint_by_name p (ep_name ep) | None \<Rightarrow> first_endpoint p, b')))
     (balance_next draw b)"

definition plan_of :: "endpoint_config lookup \<Rightarrow> route_plan lookup" where
  "plan_of r = map_sum id endpoint_to_route_plan r"

type_synonym planning = "(route_plan lookup \<times> core_route_policy) run option"

definition plan_for_role :: "int \<Rightarrow> core_route_policy \<Rightarrow> route_target_role \<Rightarrow> planning" where
  "plan_for_role draw p role =
     (case crp_kind p of
        CrFirst \<Rightarrow> Some (Done (plan_of (first_endpoint p), p))
      | CrSimple b \<Rightarrow>
          map_option (\<lambda>r. run_bind r (\<lambda>(e, b'). Done (plan_of e, p\<lparr>crp_kind := CrSimple b'\<rparr>)))
            (select_from_balancer draw p b)
      | CrReadWrite rb wb \<Rightarrow>
          (case role of
             TargetRead \<Rightarrow>
               map_option (\<lambda>r. run_bind r (\<lambda>(e, b'). Done (plan_of e, p\<lparr>crp_kind := CrReadWrite b' wb\<rparr>)))
                 (select_from_balancer draw p rb)
           | TargetReadWrite \<Rightarrow>
               map_option (\<lambda>r. run_bind r (\<lambda>(e, b'). Done (plan_of e, p\<lparr>crp_kind := CrReadWrite rb b'\<rparr>)))
                 (select_from_balancer draw p wb)))"

definition command_target_role :: "gateway_command \<Rightarrow> session_state \<Rightarrow> (str \<Rightarrow> bool) \<Rightarrow> route_target_role" where
  "command_target_role command session read_only =
     (if ss_transaction_state session = Active then TargetReadWrite
      else case command of
          Query sql \<Rightarrow> if read_only sql then TargetRead else TargetReadWrite
        | QueryParams sql _ \<Rightarrow> if read_only sql then TargetRead else TargetReadWrite
        | _ \<Rightarrow> TargetReadWrite)"

text \<open>Whether the session's endpoint is kept: always under the simple policies, in a transaction under splitting.\<close>

definition sticky_endpoint :: "core_route_policy \<Rightarrow> session_state \<Rightarrow> str option" where
  "sticky_endpoint p session =
     (if (case crp_kind p of CrReadWrite _ _ \<Rightarrow> False | _ \<Rightarrow> True) \<or> ss_transaction_state session = Active
      then ss_backend_endpoint session else None)"

definition plan_command :: "int \<Rightarrow> core_route_policy \<Rightarrow> gateway_command \<Rightarrow> session_state \<Rightarrow> planning" where
  "plan_command draw p command session =
     (case sticky_endpoint p session of
        Some name \<Rightarrow> Some (Done (plan_of (endpoint_by_name p name), p))
      | None \<Rightarrow> plan_for_role draw p (command_target_role command session (crp_read_only p)))"

fun apply_route_plan :: "route_plan \<Rightarrow> session_state \<Rightarrow> gateway_error + session_state" where
  "apply_route_plan (RouteSingle ep) session = Inr (session\<lparr>ss_backend_endpoint := Some (er_name ep)\<rparr>)"
| "apply_route_plan (RouteReject reason) session = Inl (EConfiguration reason)"
| "apply_route_plan (RouteBroadcast eps) session =
     Inl (EUnsupported ''broadcast/sharded route plans are not executed by core runtime yet'')"
| "apply_route_plan (RouteSharded ts) session =
     Inl (EUnsupported ''broadcast/sharded route plans are not executed by core runtime yet'')"

definition select_initial_endpoint ::
  "(route_plan \<Rightarrow> str) \<Rightarrow> int \<Rightarrow> core_route_policy \<Rightarrow> (endpoint_config lookup \<times> core_route_policy) run option" where
  "select_initial_endpoint dbg draw p =
     map_option (\<lambda>r. run_bind r (\<lambda>(plan, p'). Done
       (case plan of
          Inl e \<Rightarrow> Inl e
        | Inr (RouteSingle ep) \<Rightarrow> endpoint_by_name p (er_name ep)
        | Inr (RouteReject reason) \<Rightarrow> Inl (EConfiguration reason)
        | Inr other \<Rightarrow>
            Inl (EUnsupported (''initial endpoint selection only supports Single route plans, got '' @ dbg other)), p')))
     (plan_for_role draw p TargetReadWrite)"

section \<open>Building a policy\<close>

definition endpoint_protocol_name :: "protocol_kind \<Rightarrow> str" where
  "endpoint_protocol_name p = (case p of MySql \<Rightarrow> ''mysql'' | PostgreSql \<Rightarrow> ''postgresql'')"

definition load_balance_endpoint :: "endpoint_config \<Rightarrow> endpoint" where
  "load_balance_endpoint e =
     \<lparr>ep_node_type = endpoint_protocol_name (ec_protocol e), ep_weight = int (ec_weight e), ep_name = ec_name e,
      ep_db = (case ec_database e of Some d \<Rightarrow> d | None \<Rightarrow> []), ep_user = ec_username e, ep_password = ec_password e,
      ep_addr = ec_address e\<rparr>"

definition build_balancer :: "algorithm_name \<Rightarrow> endpoint_config list \<Rightarrow> balance_type run" where
  "build_balancer algorithm eps = add_all balance_add (map load_balance_endpoint eps) (build_balance algorithm)"

definition build_read_write :: "endpoint_config list \<Rightarrow> (gateway_error + core_route_policy_kind) run" where
  "build_read_write eps =
     (let reads = filter (\<lambda>e. ec_role e = RoleRead) eps; writes = filter (\<lambda>e. ec_role e = RoleReadWrite) eps
      in if writes = [] then
           Done (Inl (EConfiguration ''read_write_splitting route policy requires at least one readwrite endpoint''))
         else run_bind (build_balancer AlgRandom (if reads = [] then writes else reads)) (\<lambda>rb.
              run_bind (build_balancer AlgRandom writes) (\<lambda>wb. Done (Inr (CrReadWrite rb wb)))))"

text \<open>The characters of a string, each as its bytes.\<close>

fun str_chars :: "str \<Rightarrow> str list" where
  "str_chars [] = []"
| "str_chars (c # cs) =
     (case str_chars cs of
        [] \<Rightarrow> [[c]]
      | d # ds \<Rightarrow> if d \<noteq> [] \<and> is_continuation (hd d) then (c # d) # ds else [c] # d # ds)"

definition normalize_policy_kind :: "(str \<Rightarrow> str) \<Rightarrow> str \<Rightarrow> str" where
  "normalize_policy_kind lower kind = concat (map lower (filter (\<lambda>c. c \<noteq> ''_'' \<and> c \<noteq> ''-'') (str_chars kind)))"

definition is_read_write_splitting_policy :: "(str \<Rightarrow> str) \<Rightarrow> str option \<Rightarrow> bool" where
  "is_read_write_splitting_policy lower kind \<longleftrightarrow> map_option (normalize_policy_kind lower) kind = Some ''readwritesplitting''"

definition simple_load_balance_algorithm :: "str \<Rightarrow> algorithm_name option" where
  "simple_load_balance_algorithm kind =
     (let k = to_ascii_lowercase kind
      in if k \<in> {''simple_load_balance'', ''random''} then Some AlgRandom
         else if k \<in> {''round_robin'', ''round-robin'', ''roundrobin''} then Some AlgRoundRobin
         else None)"

definition build_route_policy ::
  "(str \<Rightarrow> str) \<Rightarrow> (protocol_kind \<Rightarrow> str \<Rightarrow> bool) \<Rightarrow> str option \<Rightarrow> endpoint_config list \<Rightarrow> protocol_kind
     \<Rightarrow> (gateway_error + core_route_policy) run" where
  "build_route_policy lower read_only kind eps protocol =
     (let policy = (\<lambda>k. \<lparr>crp_endpoints = eps, crp_kind = k, crp_read_only = read_only protocol\<rparr>)
      in if is_read_write_splitting_policy lower kind then
           run_bind (build_read_write eps) (\<lambda>r. Done (map_sum id policy r))
         else case Option.bind kind simple_load_balance_algorithm of
             Some algorithm \<Rightarrow> run_bind (build_balancer algorithm eps) (\<lambda>b. Done (Inr (policy (CrSimple b))))
           | None \<Rightarrow> Done (Inr (policy CrFirst)))"

section \<open>Listener plans\<close>

definition resolve_translation_policy ::
  "gateway_config \<Rightarrow> listener_config \<Rightarrow> service_config \<Rightarrow> gateway_error + translation_policy option" where
  "resolve_translation_policy cfg l s =
     (if lc_protocol l = svc_backend_protocol s then Inr None
      else case svc_translation_policy s of
          None \<Rightarrow>
            Inl (EConfiguration (listener_text l @ '' protocol '' @ in_quotes (protocol_as_str (lc_protocol l)) @
              '' does not match '' @ service_text s @ '' backend protocol '' @
              in_quotes (protocol_as_str (svc_backend_protocol s)) @ '' (set service.translation_policy)''))
        | Some name \<Rightarrow>
            (case find (\<lambda>p. tp_name p = name) (gc_translation_policies cfg) of
               None \<Rightarrow> Inl (EConfiguration (missing (service_text s) ''translation policy'' name))
             | Some p \<Rightarrow>
                 if \<not> tp_enabled p then Inl (EConfiguration (policy_text p @ '' is disabled'')) else Inr (Some p)))"

definition resolve_auth_user :: "gateway_config \<Rightarrow> str option \<Rightarrow> gateway_error + (str \<times> str) option" where
  "resolve_auth_user cfg policy_name =
     (case policy_name of
        None \<Rightarrow> Inr None
      | Some name \<Rightarrow>
          (case find (\<lambda>p. ap_name p = name) (gc_auth_policies cfg) of
             None \<Rightarrow> Inl (EConfiguration (missing ''listener'' ''auth policy'' name))
           | Some p \<Rightarrow>
               if to_ascii_lowercase (ap_kind p) \<noteq> ''static''
               then Inl (EConfiguration (''unsupported auth policy kind '' @ in_quotes (ap_kind p) @ '' for policy '' @ in_quotes (ap_name p)))
               else Inr (primary_static_user p)))"

type_synonym plugin_rules = "concurrency_config list \<times> circuit_break_config list"

fun collect_plugin_rules ::
  "(str \<Rightarrow> str) \<Rightarrow> gateway_config \<Rightarrow> str list \<Rightarrow> plugin_rules \<Rightarrow> gateway_error + plugin_rules" where
  "collect_plugin_rules lower cfg [] acc = Inr acc"
| "collect_plugin_rules lower cfg (name # names) (cc, cb) =
     (case find (\<lambda>p. plc_name p = name) (gc_plugin_policies cfg) of
        None \<Rightarrow> Inl (EConfiguration (missing ''service'' ''plugin policy'' name))
      | Some p \<Rightarrow>
          let kind = normalize_policy_kind lower (plc_kind p)
          in if kind \<in> {''circuitbreak'', ''audit''} then
               collect_plugin_rules lower cfg names
                 (cc, if plc_regex p = [] then cb
                      else cb @ [\<lparr>cb_regex = plc_regex p, cb_case_insensitive = plc_case_insensitive p\<rparr>])
             else if kind = ''concurrencycontrol'' then
               collect_plugin_rules lower cfg names
                 (if plc_regex p = [] then cc
                  else cc @ [\<lparr>cc_regex = plc_regex p,
                       cc_max_concurrency = (case plc_max_concurrency p of Some m \<Rightarrow> m | None \<Rightarrow> 1),
                       cc_duration = (case plc_duration_secs p of Some d \<Rightarrow> d | None \<Rightarrow> 60)\<rparr>], cb)
             else Inl (EConfiguration (''unsupported plugin policy kind '' @ in_quotes kind @ '' for policy '' @ in_quotes (plc_name p))))"

definition build_plugin_config ::
  "(str \<Rightarrow> str) \<Rightarrow> gateway_config \<Rightarrow> str list
     \<Rightarrow> gateway_error + (concurrency_config list option \<times> circuit_break_config list option) option" where
  "build_plugin_config lower cfg names =
     (if names = [] then Inr None
      else map_sum id (\<lambda>(cc, cb).
          if cc = [] \<and> cb = [] then None
          else Some (if cc = [] then None else Some cc, if cb = [] then None else Some cb))
        (collect_plugin_rules lower cfg names ([], [])))"

record listener_plan =
  lp_listener :: listener_config
  lp_service :: service_config
  lp_endpoints :: "endpoint_config list"
  lp_route_policy_kind :: "str option"
  lp_route_policy :: core_route_policy
  lp_plugin_config :: "(concurrency_config list option \<times> circuit_break_config list option) option"
  lp_auth_user :: "(str \<times> str) option"
  lp_translation_policy :: "translation_policy option"
  lp_security :: bool
  lp_stream_mode :: execute_mode
  lp_passthrough_enabled :: bool

fun collect_endpoints :: "gateway_config \<Rightarrow> service_config \<Rightarrow> str list \<Rightarrow> gateway_error + endpoint_config list" where
  "collect_endpoints cfg s [] = Inr []"
| "collect_endpoints cfg s (name # names) =
     (case find (\<lambda>e. ec_name e = name) (gc_endpoints cfg) of
        None \<Rightarrow> Inl (EConfiguration (missing (service_text s) ''endpoint'' name))
      | Some e \<Rightarrow> map_sum id ((#) e) (collect_endpoints cfg s names))"

definition resolve_route_policy_kind :: "gateway_config \<Rightarrow> service_config \<Rightarrow> gateway_error + str option" where
  "resolve_route_policy_kind cfg s =
     (case svc_route_policy s of
        None \<Rightarrow> Inr None
      | Some name \<Rightarrow>
          (case find (\<lambda>r. rp_name r = name) (gc_route_policies cfg) of
             None \<Rightarrow> Inl (EConfiguration (missing (service_text s) ''route policy'' name))
           | Some r \<Rightarrow> Inr (Some (rp_kind r))))"

text \<open>
  The stream mode is always a streaming one, so the adjustment for translated services in the source changes
  nothing.  The data-plane security handle is kept when security is enabled; installing the snapshot is
  the store's operation.
\<close>

definition listener_plan_from_config ::
  "(str \<Rightarrow> str) \<Rightarrow> (protocol_kind \<Rightarrow> str \<Rightarrow> bool) \<Rightarrow> gateway_config \<Rightarrow> listener_config \<Rightarrow> (gateway_error + listener_plan) run" where
  "listener_plan_from_config lower read_only cfg l =
     (case find (\<lambda>s. svc_name s = lc_service l) (gc_services cfg) of
        None \<Rightarrow> Done (Inl (EConfiguration (missing (listener_text l) ''service'' (lc_service l))))
      | Some s \<Rightarrow>
          (case collect_endpoints cfg s (svc_endpoints s) of
             Inl e \<Rightarrow> Done (Inl e)
           | Inr eps \<Rightarrow>
               (case resolve_route_policy_kind cfg s of
                  Inl e \<Rightarrow> Done (Inl e)
                | Inr kind \<Rightarrow>
                    run_bind (build_route_policy lower read_only kind eps (lc_protocol l)) (\<lambda>rp.
                      Done (sum_bind rp (\<lambda>policy.
                        sum_bind (build_plugin_config lower cfg (svc_plugin_policies s)) (\<lambda>plugins.
                        sum_bind (resolve_auth_user cfg (lc_auth_policy l)) (\<lambda>auth.
                        map_sum id (\<lambda>tp.
                          \<lparr>lp_listener = l, lp_service = s, lp_endpoints = eps, lp_route_policy_kind = kind,
                           lp_route_policy = policy, lp_plugin_config = plugins, lp_auth_user = auth,
                           lp_translation_policy = tp, lp_security = cfg_enabled (gc_security cfg),
                           lp_stream_mode = from_streaming_config (st_window_rows (cfg_streaming (gc_security cfg)))
                             (st_max_rows (cfg_streaming (gc_security cfg))),
                           lp_passthrough_enabled = st_passthrough (cfg_streaming (gc_security cfg))\<rparr>)
                          (resolve_translation_policy cfg l s)))))))))"

section \<open>What routing guarantees\<close>

text \<open>
  A well-formed policy: there are endpoints, a balancer is in a valid state and offers names of the policy's
  endpoints; under splitting the writing balancer offers read-write endpoints only.
\<close>

definition names_in :: "endpoint_config list \<Rightarrow> balance_type \<Rightarrow> bool" where
  "names_in eps b \<longleftrightarrow> ep_name ` set (balance_items b) \<subseteq> ec_name ` set eps"

definition route_policy_ok :: "core_route_policy \<Rightarrow> bool" where
  "route_policy_ok p \<longleftrightarrow> crp_endpoints p \<noteq> [] \<and>
     (case crp_kind p of
        CrFirst \<Rightarrow> True
      | CrSimple b \<Rightarrow> balance_ok b \<and> names_in (crp_endpoints p) b
      | CrReadWrite rb wb \<Rightarrow>
          balance_ok rb \<and> names_in (crp_endpoints p) rb \<and> balance_ok wb \<and>
          names_in (filter (\<lambda>e. ec_role e = RoleReadWrite) (crp_endpoints p)) wb \<and>
          (\<exists>e \<in> set (crp_endpoints p). ec_role e = RoleReadWrite))"

lemma endpoint_by_name_listed:
  "name \<in> ec_name ` set (crp_endpoints p) \<Longrightarrow> \<exists>e \<in> set (crp_endpoints p). endpoint_by_name p name = Inr e \<and> ec_name e = name"
  using find_named [of name ec_name "crp_endpoints p"] by (auto simp: endpoint_by_name_def)

lemma build_balancer_ok:
  "\<exists>b. build_balancer a eps = Done b \<and> balance_ok b \<and> ep_name ` set (balance_items b) = ec_name ` set eps \<and>
     set (balance_items b) \<subseteq> load_balance_endpoint ` set eps"
proof -
  obtain b where "add_all balance_add (map load_balance_endpoint eps) (build_balance a) = Done b" "balance_ok b"
    "set (balance_items b) \<subseteq> set (balance_items (build_balance a)) \<union> set (map load_balance_endpoint eps)"
    "set (map ep_name (balance_items b)) = set (map ep_name (balance_items (build_balance a))) \<union>
       set (map ep_name (map load_balance_endpoint eps))"
    using bal.add_all_ok [of "build_balance a" "map load_balance_endpoint eps"] build_balance_ok by blast
  then show ?thesis
    using build_balance_ok [of a] by (simp add: build_balancer_def load_balance_endpoint_def image_image)
qed

lemma build_route_policy_ok:
  assumes "eps \<noteq> []"
  shows "\<exists>r. build_route_policy lower ro kind eps protocol = Done r \<and>
     (case r of
        Inr p \<Rightarrow> route_policy_ok p \<and> crp_endpoints p = eps
      | Inl _ \<Rightarrow> is_read_write_splitting_policy lower kind \<and> (\<forall>e \<in> set eps. ec_role e \<noteq> RoleReadWrite))"
proof -
  let ?r = "filter (\<lambda>e. ec_role e = RoleRead) eps" and ?w = "filter (\<lambda>e. ec_role e = RoleReadWrite) eps"
  obtain rb where rb: "build_balancer AlgRandom (if ?r = [] then ?w else ?r) = Done rb" "balance_ok rb"
    "ep_name ` set (balance_items rb) \<subseteq> ec_name ` set eps"
    using build_balancer_ok [of AlgRandom "if ?r = [] then ?w else ?r"] by (fastforce split: if_splits)
  obtain wb where wb: "build_balancer AlgRandom ?w = Done wb" "balance_ok wb" "ep_name ` set (balance_items wb) = ec_name ` set ?w"
    using build_balancer_ok by blast
  show ?thesis
  proof (cases "is_read_write_splitting_policy lower kind")
    case True
    then show ?thesis
      using assms rb wb
      by (cases "?w = []")
        (auto simp: build_route_policy_def build_read_write_def Let_def route_policy_ok_def names_in_def filter_empty_conv)
  next
    case False
    show ?thesis
    proof (cases "Option.bind kind simple_load_balance_algorithm")
      case None
      with False assms show ?thesis by (simp add: build_route_policy_def Let_def route_policy_ok_def)
    next
      case (Some a)
      with False assms build_balancer_ok [of a eps] show ?thesis
        by (auto simp: build_route_policy_def Let_def route_policy_ok_def names_in_def)
    qed
  qed
qed

lemma select_from_balancer_ok:
  assumes "balance_ok b" and "names_in eps b" and "set eps \<subseteq> set (crp_endpoints p)" and "crp_endpoints p \<noteq> []"
  shows "\<exists>e b'. select_from_balancer draw p b = Some (Done (Inr e, b')) \<and> balance_ok b' \<and> balance_items b' = balance_items b \<and>
     e \<in> set (crp_endpoints p) \<and> (ec_name e \<in> ec_name ` set eps \<or> e = hd (crp_endpoints p))"
proof -
  obtain picked b' where n: "balance_next draw b = Some (Done (picked, b'))" "balance_ok b'" "balance_items b' = balance_items b"
    "\<forall>x. picked = Some x \<longrightarrow> x \<in> set (balance_items b)"
    using bal.nxt_ok [OF assms(1), of draw] by blast
  show ?thesis
  proof (cases picked)
    case None
    with n assms(4) show ?thesis
      by (cases "crp_endpoints p") (auto simp: select_from_balancer_def first_endpoint_def)
  next
    case (Some x)
    then have x: "ep_name x \<in> ec_name ` set eps" using n(4) assms(2) by (auto simp: names_in_def)
    then obtain e where "e \<in> set (crp_endpoints p)" "endpoint_by_name p (ep_name x) = Inr e" "ec_name e = ep_name x"
      using endpoint_by_name_listed [of "ep_name x" p] assms(3) by blast
    with n Some x show ?thesis by (auto simp: select_from_balancer_def)
  qed
qed

text \<open>Planning for a role always returns an endpoint of the policy and keeps the policy well formed.\<close>

lemma plan_for_role_ok:
  assumes "route_policy_ok p"
  shows "\<exists>e p'. plan_for_role draw p role = Some (Done (Inr (endpoint_to_route_plan e), p')) \<and>
     e \<in> set (crp_endpoints p) \<and> route_policy_ok p' \<and> crp_endpoints p' = crp_endpoints p \<and> crp_read_only p' = crp_read_only p"
proof -
  have ne: "crp_endpoints p \<noteq> []" using assms by (simp add: route_policy_ok_def)
  show ?thesis
  proof (cases "crp_kind p")
    case CrFirst
    with assms ne show ?thesis
      by (cases "crp_endpoints p") (auto simp: plan_for_role_def first_endpoint_def plan_of_def route_policy_ok_def)
  next
    case (CrSimple b)
    with assms select_from_balancer_ok [of b "crp_endpoints p" p draw] ne show ?thesis
      by (fastforce simp: plan_for_role_def plan_of_def route_policy_ok_def names_in_def)
  next
    case (CrReadWrite rb wb)
    let ?w = "filter (\<lambda>e. ec_role e = RoleReadWrite) (crp_endpoints p)"
    have "set ?w \<subseteq> set (crp_endpoints p)" by auto
    then show ?thesis
      using CrReadWrite assms ne select_from_balancer_ok [of rb "crp_endpoints p" p draw] select_from_balancer_ok [of wb ?w p draw]
      by (cases role) (fastforce simp: plan_for_role_def plan_of_def route_policy_ok_def names_in_def)+
  qed
qed

text \<open>A session's endpoint is a listed one.\<close>

definition session_endpoint_ok :: "core_route_policy \<Rightarrow> session_state \<Rightarrow> bool" where
  "session_endpoint_ok p session \<longleftrightarrow>
     (case ss_backend_endpoint session of None \<Rightarrow> True | Some n \<Rightarrow> n \<in> ec_name ` set (crp_endpoints p))"

lemma plan_command_ok:
  assumes "route_policy_ok p" and "session_endpoint_ok p session"
  shows "\<exists>e p'. plan_command draw p command session = Some (Done (Inr (endpoint_to_route_plan e), p')) \<and>
     e \<in> set (crp_endpoints p) \<and> route_policy_ok p' \<and> crp_endpoints p' = crp_endpoints p \<and> crp_read_only p' = crp_read_only p"
proof (cases "sticky_endpoint p session")
  case None
  then show ?thesis using plan_for_role_ok [OF assms(1)] by (simp add: plan_command_def)
next
  case (Some n)
  then have "n \<in> ec_name ` set (crp_endpoints p)"
    using assms(2) by (auto simp: sticky_endpoint_def session_endpoint_ok_def split: if_splits option.splits)
  from endpoint_by_name_listed [OF this] assms(1) Some show ?thesis by (auto simp: plan_command_def plan_of_def)
qed

lemma sticky_in_transaction:
  assumes "ss_transaction_state session = Active" and "ss_backend_endpoint session = Some n"
  shows "plan_command draw p command session = Some (Done (plan_of (endpoint_by_name p n), p))"
  using assms by (simp add: plan_command_def sticky_endpoint_def)

text \<open>
  Under splitting, a plan for the read-write role is a read-write endpoint, provided one of them has a
  positive weight; the names of the endpoints are distinct, as validation requires.
\<close>

definition writes_ok :: "core_route_policy \<Rightarrow> bool" where
  "writes_ok p \<longleftrightarrow> distinct (map ec_name (crp_endpoints p)) \<and>
     (case crp_kind p of
        CrReadWrite rb (BalRandom w) \<Rightarrow> (\<forall>e \<in> set (rw_items w). 0 \<le> ep_weight e) \<and> (\<exists>e \<in> set (rw_items w). 0 < ep_weight e)
      | _ \<Rightarrow> False)"

lemma sum_list_pos: "\<forall>x \<in> set xs. 0 \<le> (x::int) \<Longrightarrow> y \<in> set xs \<Longrightarrow> 0 < y \<Longrightarrow> 0 < sum_list xs"
  by (induction xs) (auto simp: sum_list_nonneg add_nonneg_pos add_pos_nonneg)

lemma rw_next_picks:
  assumes "rw_ok w" and "\<forall>e \<in> set (rw_items w). 0 \<le> ep_weight e" and "\<exists>e \<in> set (rw_items w). 0 < ep_weight e"
  shows "\<exists>x \<in> set (rw_items w). rw_next draw w = Done (Some x, w)"
proof -
  have "0 < sum_list (map ep_weight (rw_items w))" using assms(2,3) sum_list_pos [of "map ep_weight (rw_items w)"] by auto
  then have "rw_next draw w \<noteq> Done (None, w)"
    using assms(1,3) by (auto simp: rw_next_def rw_ok_def split: option.splits)
  with rw_next_total [OF assms(1), of draw] show ?thesis by auto
qed

lemma plan_for_write:
  assumes "route_policy_ok p" and "writes_ok p"
  shows "\<exists>e. plan_for_role draw p TargetReadWrite = Some (Done (Inr (endpoint_to_route_plan e), p)) \<and>
     e \<in> set (crp_endpoints p) \<and> ec_role e = RoleReadWrite"
proof -
  obtain rb w where k: "crp_kind p = CrReadWrite rb (BalRandom w)" "\<forall>e \<in> set (rw_items w). 0 \<le> ep_weight e"
    "\<exists>e \<in> set (rw_items w). 0 < ep_weight e"
    using assms(2) by (auto simp: writes_ok_def split: core_route_policy_kind.splits balance_type.splits)
  then have "rw_ok w" using assms(1) by (simp add: route_policy_ok_def)
  with k obtain x where x: "x \<in> set (rw_items w)" "rw_next draw w = Done (Some x, w)" using rw_next_picks by blast
  obtain e where e: "e \<in> set (crp_endpoints p)" "ec_role e = RoleReadWrite" "ec_name e = ep_name x"
  proof -
    have "ep_name x \<in> ec_name ` set (filter (\<lambda>e. ec_role e = RoleReadWrite) (crp_endpoints p))"
      using assms(1) k(1) x(1) by (auto simp: route_policy_ok_def names_in_def)
    then show thesis using that by auto
  qed
  then have "ep_name x \<in> ec_name ` set (crp_endpoints p)" by (metis image_eqI)
  from endpoint_by_name_listed [OF this] obtain e' where
    e': "e' \<in> set (crp_endpoints p)" "endpoint_by_name p (ep_name x) = Inr e'" "ec_name e' = ep_name x" by blast
  have "inj_on ec_name (set (crp_endpoints p))" using assms(2) by (simp add: writes_ok_def distinct_map)
  then have "e' = e" using e e' by (simp add: inj_on_def)
  then show ?thesis using e e' x k(1) by (auto simp: plan_for_role_def select_from_balancer_def plan_of_def)
qed

lemma build_splitting_writes_ok:
  assumes "is_read_write_splitting_policy lower kind" and "distinct (map ec_name eps)"
    and "e \<in> set eps" "ec_role e = RoleReadWrite" "0 < ec_weight e"
    and "build_route_policy lower ro kind eps protocol = Done (Inr p)"
  shows "writes_ok p"
proof -
  let ?w = "filter (\<lambda>e. ec_role e = RoleReadWrite) eps"
  have ne: "?w \<noteq> []" using assms(3,4) by (auto simp: filter_empty_conv)
  then obtain rb wb where p: "build_balancer AlgRandom ?w = Done wb" "p = \<lparr>crp_endpoints = eps, crp_kind = CrReadWrite rb wb, crp_read_only = ro protocol\<rparr>"
    using assms(1,6) by (auto simp: build_route_policy_def build_read_write_def Let_def run_bind_Done_iff)
  obtain w where w: "wb = BalRandom w" "ep_name ` set (rw_items w) = ec_name ` set ?w" "set (rw_items w) \<subseteq> load_balance_endpoint ` set ?w"
  proof -
    have a: "\<exists>w. add_all balance_add es (BalRandom v) = Done (BalRandom w)" for es v
      by (induction es arbitrary: v) simp_all
    obtain w where "add_all balance_add (map load_balance_endpoint ?w) (BalRandom rw_default) = Done (BalRandom w)"
      using a by blast
    then have "wb = BalRandom w" using p(1) by (simp add: build_balancer_def)
    then show thesis using that build_balancer_ok [of AlgRandom ?w] p(1) by auto
  qed
  have "ec_name e \<in> ep_name ` set (rw_items w)" using w(2) assms(3,4) by auto
  then obtain x where x: "x \<in> set (rw_items w)" "ep_name x = ec_name e" by auto
  then obtain e' where e': "e' \<in> set ?w" "x = load_balance_endpoint e'" using w(3) by blast
  have "inj_on ec_name (set eps)" using assms(2) by (simp add: distinct_map)
  then have "e' = e" using e' x(2) assms(3) by (simp add: inj_on_def load_balance_endpoint_def)
  then have "0 < ep_weight x" using e'(2) assms(5) by (simp add: load_balance_endpoint_def)
  moreover have "\<forall>y \<in> set (rw_items w). 0 \<le> ep_weight y" using w(3) by (auto simp: load_balance_endpoint_def)
  ultimately show ?thesis using p(2) w(1) x(1) assms(2) by (auto simp: writes_ok_def)
qed

section \<open>A validated configuration builds\<close>

lemma collect_endpoints_ok:
  "(\<forall>n \<in> set names. \<exists>e. find (\<lambda>e. ec_name e = n) (gc_endpoints cfg) = Some e) \<Longrightarrow>
     \<exists>eps. collect_endpoints cfg s names = Inr eps \<and> map ec_name eps = names \<and> set eps \<subseteq> set (gc_endpoints cfg)"
proof (induction names)
  case (Cons n names)
  then obtain e eps where e: "find (\<lambda>e. ec_name e = n) (gc_endpoints cfg) = Some e" and "collect_endpoints cfg s names = Inr eps"
    "map ec_name eps = names" "set eps \<subseteq> set (gc_endpoints cfg)" by auto
  then show ?case using find_satisfies [OF e] by simp
qed simp

definition known_plugin_kind :: "(str \<Rightarrow> str) \<Rightarrow> plugin_policy_config \<Rightarrow> bool" where
  "known_plugin_kind lower p \<longleftrightarrow> normalize_policy_kind lower (plc_kind p) \<in> {''circuitbreak'', ''audit'', ''concurrencycontrol''}"

lemma collect_plugin_rules_ok:
  "(\<forall>n \<in> set names. \<exists>p. find (\<lambda>p. plc_name p = n) (gc_plugin_policies cfg) = Some p) \<Longrightarrow>
     (\<forall>p \<in> set (gc_plugin_policies cfg). known_plugin_kind lower p) \<Longrightarrow>
     \<exists>r. collect_plugin_rules lower cfg names acc = Inr r"
proof (induction names arbitrary: acc)
  case (Cons n names)
  then obtain p where p: "find (\<lambda>p. plc_name p = n) (gc_plugin_policies cfg) = Some p" by auto
  then have "known_plugin_kind lower p" using Cons.prems(2) by (auto dest: find_satisfies)
  then show ?case using Cons p by (cases acc) (auto simp: known_plugin_kind_def Let_def)
qed auto

text \<open>
  Every listener of a validated configuration gets its plan, except for the three things validation does not look
  at: the kinds of the authentication and plugin policies, and a splitting policy without a read-write endpoint.
\<close>

lemma validated_plan_builds:
  assumes "validate_gateway cf off cfg = Inr ()" and "l \<in> set (gc_listeners cfg)"
    and "\<And>p. p \<in> set (gc_auth_policies cfg) \<Longrightarrow> to_ascii_lowercase (ap_kind p) = ''static''"
    and "\<And>p. p \<in> set (gc_plugin_policies cfg) \<Longrightarrow> known_plugin_kind lower p"
    and "\<And>s. s \<in> set (gc_services cfg) \<Longrightarrow>
      \<exists>e \<in> set (gc_endpoints cfg). ec_name e \<in> set (svc_endpoints s) \<and> ec_role e = RoleReadWrite"
  shows "\<exists>plan. listener_plan_from_config lower ro cfg l = Done (Inr plan) \<and> lp_listener plan = l \<and>
     route_policy_ok (lp_route_policy plan) \<and> crp_endpoints (lp_route_policy plan) = lp_endpoints plan \<and>
     map ec_name (lp_endpoints plan) = svc_endpoints (lp_service plan) \<and>
     (\<forall>e \<in> set (lp_endpoints plan). ec_protocol e = svc_backend_protocol (lp_service plan)) \<and>
     (lp_translation_policy plan = None \<longleftrightarrow> lc_protocol l = svc_backend_protocol (lp_service plan))"
proof -
  obtain s where s: "find (\<lambda>s. svc_name s = lc_service l) (gc_services cfg) = Some s" "service_resolves cfg s"
    and tp: "lc_protocol l \<noteq> svc_backend_protocol s \<longrightarrow>
       (\<exists>n p. svc_translation_policy s = Some n \<and> find (\<lambda>p. tp_name p = n) (gc_translation_policies cfg) = Some p \<and> tp_enabled p)"
    and au: "\<forall>p. lc_auth_policy l = Some p \<longrightarrow> (\<exists>a. find (\<lambda>a. ap_name a = p) (gc_auth_policies cfg) = Some a)"
    using validated_listener_resolves [OF assms(1,2)] by (auto simp: listener_resolves_def)
  obtain eps where eps: "collect_endpoints cfg s (svc_endpoints s) = Inr eps" "map ec_name eps = svc_endpoints s" "set eps \<subseteq> set (gc_endpoints cfg)"
    using collect_endpoints_ok [of "svc_endpoints s" cfg s] s(2) by (fastforce simp: service_resolves_def)
  have ne: "eps \<noteq> []" using eps(2) s(2) by (auto simp: service_resolves_def)
  have inj: "inj_on ec_name (set (gc_endpoints cfg))"
    using validate_gateway_parts(1) [OF assms(1)] by (simp add: distinct_map)
  have proto: "ec_protocol e = svc_backend_protocol s" if "e \<in> set eps" for e
  proof -
    have "ec_name e \<in> set (svc_endpoints s)" using that eps(2) by (metis image_eqI set_map)
    then obtain e' where e': "find (\<lambda>x. ec_name x = ec_name e) (gc_endpoints cfg) = Some e'" "ec_protocol e' = svc_backend_protocol s"
      using s(2) by (auto simp: service_resolves_def)
    have "e' = e" using inj_onD [OF inj, of e' e] find_satisfies [OF e'(1)] that eps(3) by auto
    with e'(2) show ?thesis by simp
  qed
  obtain kind where k: "resolve_route_policy_kind cfg s = Inr kind"
    using s(2) by (cases "svc_route_policy s") (auto simp: resolve_route_policy_kind_def service_resolves_def)
  obtain p where p: "build_route_policy lower ro kind eps (lc_protocol l) = Done (Inr p)" "route_policy_ok p" "crp_endpoints p = eps"
  proof -
    have "s \<in> set (gc_services cfg)" using find_satisfies [OF s(1)] by simp
    then obtain e where e: "e \<in> set (gc_endpoints cfg)" "ec_name e \<in> set (svc_endpoints s)" "ec_role e = RoleReadWrite"
      using assms(5) by blast
    then obtain e' where e': "e' \<in> set eps" "ec_name e' = ec_name e" using eps(2) by (metis imageE set_map)
    then have "e' = e" using inj eps(3) e(1) by (auto simp: inj_on_def)
    obtain r where r: "build_route_policy lower ro kind eps (lc_protocol l) = Done r"
      "case r of Inr p \<Rightarrow> route_policy_ok p \<and> crp_endpoints p = eps
       | Inl _ \<Rightarrow> is_read_write_splitting_policy lower kind \<and> (\<forall>e \<in> set eps. ec_role e \<noteq> RoleReadWrite)"
      using build_route_policy_ok [OF ne] by blast
    then show thesis using that e(3) e'(1) \<open>e' = e\<close> by (cases r) auto
  qed
  obtain pc where pc: "build_plugin_config lower cfg (svc_plugin_policies s) = Inr pc"
  proof -
    obtain r where "collect_plugin_rules lower cfg (svc_plugin_policies s) ([], []) = Inr r"
      using collect_plugin_rules_ok [of "svc_plugin_policies s" cfg lower "([], [])"] s(2) assms(4)
      by (auto simp: service_resolves_def)
    then show thesis using that by (cases "svc_plugin_policies s = []") (simp_all add: build_plugin_config_def)
  qed
  obtain au' where au': "resolve_auth_user cfg (lc_auth_policy l) = Inr au'"
  proof (cases "lc_auth_policy l")
    case (Some n)
    then obtain a where a: "find (\<lambda>a. ap_name a = n) (gc_auth_policies cfg) = Some a" using au by blast
    then have "a \<in> set (gc_auth_policies cfg)" by (auto dest: find_satisfies)
    then have "to_ascii_lowercase (ap_kind a) = ''static''" by (rule assms(3))
    then show thesis using that a Some by (simp add: resolve_auth_user_def)
  qed (use that in \<open>simp add: resolve_auth_user_def\<close>)
  obtain tp' where tp': "resolve_translation_policy cfg l s = Inr tp'" "tp' = None \<longleftrightarrow> lc_protocol l = svc_backend_protocol s"
    using tp by (cases "lc_protocol l = svc_backend_protocol s") (auto simp: resolve_translation_policy_def)
  show ?thesis
    using s(1) eps(1,2) k p pc au' tp' proto by (simp add: listener_plan_from_config_def sum_bind_def)
qed

section \<open>Two gaps in routing\<close>

text \<open>Read-write endpoints of weight zero are never drawn, and the first endpoint of the service may be a replica.\<close>

definition idle_primary :: "endpoint_config list" where
  "idle_primary =
     [endpoint_config_default\<lparr>ec_name := ''replica'', ec_role := RoleRead\<rparr>,
      endpoint_config_default\<lparr>ec_name := ''primary'', ec_weight := 0\<rparr>]"

lemma zero_weight_writes_to_replica:
  "\<exists>p. build_route_policy to_ascii_lowercase ro (Some ''read_write_splitting'') idle_primary MySql = Done (Inr p) \<and>
     plan_command draw p (Query ''delete from t'') session_default =
       (if ro MySql ''delete from t'' then plan_command draw p (Query ''delete from t'') session_default
        else Some (Done (Inr (RouteSingle \<lparr>er_name = ''replica'', er_address = []\<rparr>), p)))"
proof -
  have n: "normalize_policy_kind to_ascii_lowercase ''read_write_splitting'' = ''readwritesplitting''"
    by code_simp
  show ?thesis
    by (simp add: n build_route_policy_def is_read_write_splitting_policy_def build_read_write_def idle_primary_def
        endpoint_config_default_def build_balancer_def load_balance_endpoint_def rw_add_def rw_default_def name_listed_def
        plan_command_def sticky_endpoint_def session_default_def command_target_role_def plan_for_role_def
        select_from_balancer_def rw_next_def first_endpoint_def plan_of_def endpoint_to_route_plan_def Let_def)
qed

text \<open>Only an active transaction keeps its endpoint: after an error the next statement is balanced again.\<close>

lemma failed_transaction_rerouted:
  assumes "crp_kind p = CrReadWrite rb wb"
  shows "plan_command draw p Rollback (session\<lparr>ss_transaction_state := Failed, ss_backend_endpoint := Some n\<rparr>) =
    plan_for_role draw p TargetReadWrite"
  using assms by (simp add: plan_command_def sticky_endpoint_def command_target_role_def)

end
