(* ===== verification/Named_Cursor.thy ===== *)
theory Named_Cursor
  imports Transport
begin

text \<open>
  The gateway's own cursors (\<open>runtime/gateway/src/core_engine.rs\<close>): recognizing \<open>DECLARE\<close>, \<open>FETCH\<close>, \<open>MOVE\<close> and
  \<open>CLOSE\<close> in a simple query, and fetching from the row stream a declared cursor holds.  The slices of the
  source are at ASCII bytes it has just recognized, so they do not panic.
\<close>

section \<open>Recognizing cursor statements\<close>

datatype named_cursor_sql =
    NcDeclare str str bool
  | NcFetch str nat
  | NcClose str
  | NcUnsupported str

definition word_char :: "char \<Rightarrow> bool" where
  "word_char c \<longleftrightarrow> is_ascii_alphanumeric c \<or> c = CHR ''_''"

function find_ascii_keyword :: "str \<Rightarrow> str \<Rightarrow> nat \<Rightarrow> nat option" where
  "find_ascii_keyword sql keyword offset =
     (if offset + length keyword \<le> length sql then
        if starts_with keyword (drop offset sql) \<and>
           (offset = 0 \<or> \<not> word_char (sql ! (offset - 1))) \<and>
           (offset + length keyword = length sql \<or> \<not> word_char (sql ! (offset + length keyword)))
        then Some offset
        else find_ascii_keyword sql keyword (offset + 1)
      else None)"
  by pat_completeness auto
termination
  by (relation "measure (\<lambda>(sql, k, i). Suc (length sql) - i)") auto

declare find_ascii_keyword.simps [simp del]

definition cursor_options :: "str list" where
  "cursor_options = [''BINARY'', ''INSENSITIVE'', ''NO'', ''SCROLL'', ''ASENSITIVE'']"

definition parse_declare :: "str \<Rightarrow> named_cursor_sql option" where
  "parse_declare trimmed =
     (let upper = to_ascii_uppercase trimmed
      in case find_ascii_keyword upper ''CURSOR'' 8 of
           None \<Rightarrow> None
         | Some cursor_pos \<Rightarrow>
             (case find_ascii_keyword upper ''FOR'' (cursor_pos + 6) of
                None \<Rightarrow> None
              | Some for_pos \<Rightarrow>
                  if for_pos < cursor_pos then None
                  else case find (\<lambda>t. to_ascii_uppercase t \<notin> set cursor_options)
                               (split_whitespace (trim (take (cursor_pos - 8) (drop 8 trimmed)))) of
                      None \<Rightarrow> None
                    | Some t \<Rightarrow>
                        let name = trim_matches dquote t; select_sql = trim (drop (for_pos + 3) trimmed);
                            mid = take (for_pos - cursor_pos) (drop cursor_pos upper)
                        in if name = [] \<or> select_sql = [] then None
                           else Some (NcDeclare name select_sql (contains '' WITH HOLD'' mid))))"

definition backward_words :: "str list" where
  "backward_words = [''ABSOLUTE'', ''RELATIVE'', ''BACKWARD'', ''PRIOR'', ''FIRST'', ''LAST'']"

definition is_from :: "str \<Rightarrow> bool" where
  "is_from t \<longleftrightarrow> eq_ignore_ascii_case t ''FROM'' \<or> eq_ignore_ascii_case t ''IN''"

text \<open>\<open>FETCH\<close> after the direction words: a count or \<open>ALL\<close>, an optional \<open>FROM\<close>, the name.\<close>

definition fetch_all :: nat where
  "fetch_all = u64_max div 4"

definition parse_fetch_target :: "str list \<Rightarrow> named_cursor_sql option" where
  "parse_fetch_target tokens =
     (case tokens of
        [] \<Rightarrow> None
      | t # ts \<Rightarrow>
          let (count, rest) =
                (if eq_ignore_ascii_case t ''ALL'' then (fetch_all, ts)
                 else case parse_unsigned u64_max t of Some n \<Rightarrow> (max n 1, ts) | None \<Rightarrow> (1, t # ts));
              rest' = (case rest of r # rs \<Rightarrow> if is_from r then rs else rest | [] \<Rightarrow> [])
          in case rest' of
               [] \<Rightarrow> None
             | r # _ \<Rightarrow> let name = trim_matches dquote r in if name = [] then None else Some (NcFetch name count))"

definition parse_fetch :: "str list \<Rightarrow> named_cursor_sql option" where
  "parse_fetch tokens =
     (case tokens of
        [] \<Rightarrow> None
      | t # ts \<Rightarrow>
          let first = to_ascii_uppercase t
          in if first \<in> set backward_words then Some (NcUnsupported (''FETCH '' @ first))
             else if first = ''NEXT'' \<and> \<not> (ts \<noteq> [] \<and> is_from (hd ts)) then Some (NcUnsupported ''FETCH NEXT (unsupported form)'')
             else parse_fetch_target (if first = ''FORWARD'' \<or> first = ''NEXT'' then ts else tokens))"

definition parse_named_cursor_sql :: "str \<Rightarrow> named_cursor_sql option" where
  "parse_named_cursor_sql sql =
     (let trimmed = trim (trim_end_matches (\<lambda>c. c = CHR '';'') (trim sql)); upper = to_ascii_uppercase trimmed
      in if starts_with ''DECLARE '' upper then parse_declare trimmed
         else if starts_with ''MOVE '' upper then Some (NcUnsupported ''MOVE'')
         else if starts_with ''FETCH '' upper then parse_fetch (split_whitespace (trim (drop 6 trimmed)))
         else if starts_with ''CLOSE '' upper then
           (let name = trim_matches dquote (trim (drop 6 trimmed)) in if name = [] then None else Some (NcClose name))
         else None)"

section \<open>Cursors\<close>

record named_cursor =
  nc_with_hold :: bool
  nc_query :: streaming_query
  nc_exhausted :: bool

type_synonym named_cursors = "str \<rightharpoonup> named_cursor"

definition drop_non_hold :: "named_cursors \<Rightarrow> named_cursors" where
  "drop_non_hold cs = (\<lambda>n. case cs n of Some c \<Rightarrow> if nc_with_hold c then Some c else None | None \<Rightarrow> None)"

text \<open>The loop of \<open>FETCH\<close>: the rows, the stream and the flag afterwards.\<close>

function fetch_rows :: "nat \<Rightarrow> row list \<Rightarrow> row_stream \<Rightarrow> bool \<Rightarrow> gateway_error + row list \<times> row_stream \<times> bool" where
  "fetch_rows remaining rows s exhausted =
     (if 0 < remaining \<and> \<not> exhausted then
        (case poll_window s (min remaining 256) of
           (Inl e, s') \<Rightarrow> Inl e
         | (Inr None, s') \<Rightarrow> Inr (rows, s', True)
         | (Inr (Some chunk), s') \<Rightarrow>
             if chunk = [] then Inr (rows, s', True)
             else if remaining < length chunk
             then Inr (rows @ take remaining chunk, prefixed_new (drop remaining chunk) s', exhausted)
             else fetch_rows (remaining - length chunk) (rows @ chunk) s' exhausted)
      else Inr (rows, s, exhausted))"
  by pat_completeness auto
termination
  by (relation "measure (\<lambda>(n, rows, s, x). stream_size s)") (auto dest!: poll_window_less [OF sym])

declare fetch_rows.simps [simp del]

definition fetch_cursor :: "nat \<Rightarrow> named_cursor \<Rightarrow> gateway_error + row list \<times> named_cursor" where
  "fetch_cursor count c =
     (case fetch_rows count [] (sq_stream (nc_query c)) (nc_exhausted c) of
        Inl e \<Rightarrow> Inl e
      | Inr (rows, s, x) \<Rightarrow>
          Inr (rows, c\<lparr>nc_query := (nc_query c)\<lparr>sq_stream := s\<rparr>, nc_exhausted := x\<rparr>))"

section \<open>Fetching pages through the result\<close>

definition cursor_ok :: "named_cursor \<Rightarrow> bool" where
  "cursor_ok c \<longleftrightarrow> stream_ok (sq_stream (nc_query c)) \<and> (nc_exhausted c \<longrightarrow> stream_rows (sq_stream (nc_query c)) = [])"

definition cursor_rows :: "named_cursor \<Rightarrow> row list" where
  "cursor_rows c = stream_rows (sq_stream (nc_query c))"

lemma prefixed_new_ok:
  "stream_ok s \<Longrightarrow> stream_ok (prefixed_new p s) \<and> stream_rows (prefixed_new p s) = p @ stream_rows s"
  by (simp add: prefixed_new_def)

lemma fetch_rows_ok:
  assumes "stream_ok s" and "x \<Longrightarrow> stream_rows s = []"
  shows "\<exists>s' x'. fetch_rows n rows s x = Inr (rows @ take n (stream_rows s), s', x') \<and> stream_ok s' \<and>
     stream_rows s' = drop n (stream_rows s) \<and> (x' \<longrightarrow> stream_rows s' = [])"
  using assms
proof (induction "stream_size s" arbitrary: n rows s rule: less_induct)
  case less
  show ?case
  proof (cases "0 < n \<and> \<not> x")
    case False
    then show ?thesis using less.prems by (subst fetch_rows.simps) auto
  next
    case True
    show ?thesis
    proof (rule poll_window_ok [OF less.prems(1), of "min n 256"])
      fix s' assume "poll_window s (min n 256) = (Inr None, s')" "stream_rows s = []" "stream_ok s'" "stream_rows s' = []"
      then show ?thesis using True by (subst fetch_rows.simps) auto
    next
      fix c s' assume p: "poll_window s (min n 256) = (Inr (Some c), s')" "c \<noteq> []" "stream_ok s'" "stream_rows s = c @ stream_rows s'"
      show ?thesis
      proof (cases "n < length c")
        case short: True
        then have "fetch_rows n rows s x = Inr (rows @ take n c, prefixed_new (drop n c) s', x)"
          using True p by (subst fetch_rows.simps) simp
        then show ?thesis using prefixed_new_ok [OF p(3), of "drop n c"] p(4) short True by auto
      next
        case False
        then have "fetch_rows n rows s x = fetch_rows (n - length c) (rows @ c) s' x"
          using True p by (subst fetch_rows.simps) simp
        moreover have "\<exists>s'' x'. fetch_rows (n - length c) (rows @ c) s' x = Inr ((rows @ c) @ take (n - length c) (stream_rows s'), s'', x') \<and>
            stream_ok s'' \<and> stream_rows s'' = drop (n - length c) (stream_rows s') \<and> (x' \<longrightarrow> stream_rows s'' = [])"
          using poll_window_less [OF p(1)] p(3) True by (intro less.hyps) auto
        ultimately show ?thesis using p(4) False by simp
      qed
    qed
  qed
qed

text \<open>A fetch returns the next rows and leaves the others.\<close>

lemma fetch_cursor_ok:
  assumes "cursor_ok c"
  shows "\<exists>c'. fetch_cursor n c = Inr (take n (cursor_rows c), c') \<and> cursor_ok c' \<and> cursor_rows c' = drop n (cursor_rows c) \<and>
     nc_with_hold c' = nc_with_hold c \<and> sq_columns (nc_query c') = sq_columns (nc_query c)"
  using fetch_rows_ok [of "sq_stream (nc_query c)" "nc_exhausted c" n "[]"] assms
  by (auto simp: fetch_cursor_def cursor_ok_def cursor_rows_def)

fun fetch_all_pages :: "nat list \<Rightarrow> named_cursor \<Rightarrow> gateway_error + row list list \<times> named_cursor" where
  "fetch_all_pages [] c = Inr ([], c)"
| "fetch_all_pages (n # ns) c =
     (case fetch_cursor n c of
        Inl e \<Rightarrow> Inl e
      | Inr (rows, c') \<Rightarrow> map_sum id (\<lambda>(pages, c''). (rows # pages, c'')) (fetch_all_pages ns c'))"

text \<open>Successive fetches return consecutive pages: no row is lost, repeated or reordered.\<close>

lemma fetches_are_consecutive:
  assumes "cursor_ok c"
  shows "\<exists>pages c'. fetch_all_pages ns c = Inr (pages, c') \<and> concat pages = take (sum_list ns) (cursor_rows c) \<and>
     cursor_rows c' = drop (sum_list ns) (cursor_rows c) \<and> cursor_ok c' \<and> length pages = length ns"
  using assms
proof (induction ns arbitrary: c)
  case (Cons n ns)
  obtain c1 where c1: "fetch_cursor n c = Inr (take n (cursor_rows c), c1)" "cursor_ok c1" "cursor_rows c1 = drop n (cursor_rows c)"
    using fetch_cursor_ok [OF Cons.prems] by blast
  obtain pages c' where "fetch_all_pages ns c1 = Inr (pages, c')" "concat pages = take (sum_list ns) (cursor_rows c1)"
    "cursor_rows c' = drop (sum_list ns) (cursor_rows c1)" "cursor_ok c'" "length pages = length ns"
    using Cons.IH [OF c1(2)] by blast
  then show ?case using c1 by (simp add: take_add add.commute)
qed simp

text \<open>A statement that is not a cursor statement at all can hide behind \<open>DECLARE ... FOR\<close>.\<close>

lemma declare_accepts_any_statement:
  "parse_named_cursor_sql ''declare c cursor for delete from t'' = Some (NcDeclare ''c'' ''delete from t'' False)"
  by code_simp

end
