(* ===== verification/Dangerous_Sql.thy ===== *)
theory Dangerous_Sql
  imports Gateway_Model
begin

text \<open>
  The check for statements the gateway refuses in any case (\<open>gateway/core/src/dangerous_sql.rs\<close>): a
  tokenizer that knows the quotes and comments of the two dialects, and a classification of each
  statement of the text by its words.  The text is the list of its bytes and the scanners work on
  indexes, as in the code.
\<close>

section \<open>Capabilities\<close>

datatype unsupported_sql_capability =
    PostgresCopyProgram | PostgresCopyFile | PostgresDo | StoredProcedureCall | MysqlLoadData
  | MysqlOutfile | PostgresMaintenance | CrossDialectStatement | PrivilegedCatalogSession

fun capability_as_str :: "unsupported_sql_capability \<Rightarrow> str" where
  "capability_as_str PostgresCopyProgram = ''postgres.copy_program''"
| "capability_as_str PostgresCopyFile = ''postgres.copy_file''"
| "capability_as_str PostgresDo = ''postgres.do''"
| "capability_as_str StoredProcedureCall = ''stored_procedure.call''"
| "capability_as_str MysqlLoadData = ''mysql.load_data''"
| "capability_as_str MysqlOutfile = ''mysql.outfile''"
| "capability_as_str PostgresMaintenance = ''postgres.maintenance''"
| "capability_as_str CrossDialectStatement = ''sql.cross_dialect''"
| "capability_as_str PrivilegedCatalogSession = ''sql.privileged_catalog_session''"

definition capability_from_code :: "str \<Rightarrow> unsupported_sql_capability option" where
  "capability_from_code code =
     (if code = ''postgres.copy_program'' then Some PostgresCopyProgram
      else if code = ''postgres.copy_file'' then Some PostgresCopyFile
      else if code = ''postgres.do'' then Some PostgresDo
      else if code = ''stored_procedure.call'' then Some StoredProcedureCall
      else if code = ''mysql.load_data'' then Some MysqlLoadData
      else if code = ''mysql.outfile'' then Some MysqlOutfile
      else if code = ''postgres.maintenance'' then Some PostgresMaintenance
      else if code = ''sql.cross_dialect'' then Some CrossDialectStatement
      else if code = ''sql.privileged_catalog_session'' then Some PrivilegedCatalogSession
      else None)"

lemma capability_code_round_trip: "capability_from_code (capability_as_str c) = Some c"
  by (cases c) (simp_all add: capability_from_code_def)

section \<open>Tokens\<close>

text \<open>\<open>bytes.get(i) == Some(&b)\<close>, and the end of a run of bytes.\<close>

definition byte_at :: "str \<Rightarrow> nat \<Rightarrow> char \<Rightarrow> bool" where
  "byte_at bs i c \<longleftrightarrow> i < length bs \<and> bs ! i = c"

definition run_end :: "(char \<Rightarrow> bool) \<Rightarrow> str \<Rightarrow> nat \<Rightarrow> nat" where
  "run_end p bs i = i + length (takeWhile p (drop i bs))"

definition is_line_comment :: "str \<Rightarrow> nat \<Rightarrow> protocol_kind \<Rightarrow> bool" where
  "is_line_comment bs i dialect \<longleftrightarrow>
     byte_at bs (i + 1) CHR ''-'' \<and>
     (dialect = PostgreSql \<or> \<not> i + 2 < length bs \<or>
      is_u8_whitespace (bs ! (i + 2)) \<or> is_ascii_control (bs ! (i + 2)))"

definition is_postgresql_escape_string :: "str \<Rightarrow> nat \<Rightarrow> bool" where
  "is_postgresql_escape_string bs quote \<longleftrightarrow>
     0 < quote \<and> bs ! (quote - 1) \<in> {CHR ''e'', CHR ''E''} \<and>
     (quote = 1 \<or>
      \<not> (is_ascii_alphanumeric (bs ! (quote - 2)) \<or> bs ! (quote - 2) \<in> {CHR ''_'', CHR ''$''}))"

function skip_quoted :: "str \<Rightarrow> nat \<Rightarrow> char \<Rightarrow> bool \<Rightarrow> nat" where
  "skip_quoted bs i quote backslash =
     (if i < length bs then
        if backslash \<and> bs ! i = CHR 0x5C then skip_quoted bs (min (i + 2) (length bs)) quote backslash
        else if bs ! i = quote then
          if byte_at bs (i + 1) quote then skip_quoted bs (i + 2) quote backslash else i + 1
        else skip_quoted bs (i + 1) quote backslash
      else i)"
  by pat_completeness auto
termination
  by (relation "measure (\<lambda>(bs, i, q, b). length bs - i)") auto

declare skip_quoted.simps [simp del]

text \<open>The end of a block comment.\<close>

function comment_end :: "str \<Rightarrow> nat \<Rightarrow> nat" where
  "comment_end bs i =
     (if i + 1 < length bs \<and> \<not> (bs ! i = CHR ''*'' \<and> bs ! (i + 1) = CHR ''/'') then comment_end bs (i + 1)
      else min (i + 2) (length bs))"
  by pat_completeness auto
termination
  by (relation "measure (\<lambda>(bs, i). length bs - i)") auto

declare comment_end.simps [simp del]

definition dollar_quote_tag :: "str \<Rightarrow> nat \<Rightarrow> (nat \<times> str) option" where
  "dollar_quote_tag bs start =
     (let e = run_end (\<lambda>c. is_ascii_alphanumeric c \<or> c = CHR ''_'') bs (start + 1)
      in if byte_at bs e CHR ''$'' then Some (e + 1, take (e + 1 - start) (drop start bs)) else None)"

fun find_bytes_from :: "str \<Rightarrow> nat \<Rightarrow> str \<Rightarrow> nat option" where
  "find_bytes_from [] i needle = (if needle = [] then Some i else None)"
| "find_bytes_from (c # cs) i needle =
     (if take (length needle) (c # cs) = needle then Some i else find_bytes_from cs (i + 1) needle)"

definition find_bytes :: "str \<Rightarrow> nat \<Rightarrow> str \<Rightarrow> nat option" where
  "find_bytes haystack start needle = find_bytes_from (drop start haystack) start needle"

definition is_word_start :: "char \<Rightarrow> bool" where
  "is_word_start c \<longleftrightarrow> is_ascii_alphabetic c \<or> c = CHR ''_''"

definition is_word_char :: "char \<Rightarrow> bool" where
  "is_word_char c \<longleftrightarrow> is_ascii_alphanumeric c \<or> c = CHR ''_'' \<or> c = CHR ''$''"

text \<open>One turn of the loop: the token that is pushed, if any, and the next index.\<close>

definition next_token :: "str \<Rightarrow> protocol_kind \<Rightarrow> nat \<Rightarrow> str option \<times> nat" where
  "next_token bs dialect i =
     (let c = bs ! i in
      if is_u8_whitespace c then (None, i + 1)
      else if c = CHR ''-'' \<and> is_line_comment bs i dialect then
        (None, run_end (\<lambda>x. x \<noteq> CHR 0x0A) bs (i + 2))
      else if c = CHR ''#'' \<and> dialect = MySql then
        (None, run_end (\<lambda>x. x \<noteq> CHR 0x0A) bs (i + 1))
      else if c = CHR ''/'' \<and> byte_at bs (i + 1) CHR ''*'' then (None, comment_end bs (i + 2))
      else if c = CHR 0x27 then
        (Some ''<LITERAL>'',
         skip_quoted bs (i + 1) CHR 0x27 (dialect = MySql \<or> is_postgresql_escape_string bs i))
      else if c = CHR 0x22 then (None, skip_quoted bs (i + 1) CHR 0x22 False)
      else if c = CHR 0x60 then (Some ''<BACKTICK_IDENT>'', skip_quoted bs (i + 1) CHR 0x60 False)
      else if c = CHR ''$'' \<and> dialect = PostgreSql \<and> dollar_quote_tag bs i \<noteq> None then
        (case dollar_quote_tag bs i of
           Some (body, tag) \<Rightarrow>
             (Some ''<LITERAL>'',
              case find_bytes bs body tag of Some e \<Rightarrow> e + length tag | None \<Rightarrow> length bs))
      else if c = CHR '':'' \<and> byte_at bs (i + 1) CHR '':'' then (Some ''::'', i + 2)
      else if c = CHR '';'' then (Some '';'', i + 1)
      else if is_word_start c then
        (let e = run_end is_word_char bs (i + 1)
         in (Some (to_ascii_uppercase (take (e - i) (drop i bs))), e))
      else (None, i + 1))"

lemma run_end_ge: "i \<le> run_end p bs i"
  by (simp add: run_end_def)

lemma skip_quoted_ge: "i \<le> skip_quoted bs i q b"
proof (induction bs i q b rule: skip_quoted.induct)
  case (1 bs i q b)
  then show ?case by (subst skip_quoted.simps) (auto simp: min_def split: if_splits)
qed

lemma comment_end_ge: "i \<le> length bs \<Longrightarrow> i \<le> comment_end bs i"
proof (induction bs i rule: comment_end.induct)
  case (1 bs i)
  then show ?case by (subst comment_end.simps) (auto simp: Suc_leD)
qed

lemma find_bytes_from_ge: "find_bytes_from s i n = Some e \<Longrightarrow> i \<le> e"
  by (induction s i n rule: find_bytes_from.induct) (auto split: if_splits)

lemma next_token_moves: "i < length bs \<Longrightarrow> i < snd (next_token bs dialect i)"
proof -
  assume i: "i < length bs"
  have r: "i < run_end p bs (Suc i)" "i < run_end p bs (Suc (Suc i))" for p
    using run_end_ge [of "Suc i" p bs] run_end_ge [of "Suc (Suc i)" p bs] by simp_all
  have q: "i < skip_quoted bs (Suc i) c b" for c b using skip_quoted_ge [of "Suc i" bs c b] by simp
  have c: "byte_at bs (Suc i) x \<Longrightarrow> i < comment_end bs (Suc (Suc i))" for x
    using comment_end_ge [of "Suc (Suc i)" bs] by (simp add: byte_at_def)
  have d: "i < (case find_bytes bs body tag of Some e \<Rightarrow> e + length tag | None \<Rightarrow> length bs)"
    if "dollar_quote_tag bs i = Some (body, tag)" for body tag
  proof -
    have "i < body" using that r(1) by (auto simp: dollar_quote_tag_def Let_def split: if_splits intro: less_SucI)
    with i show ?thesis by (auto simp: find_bytes_def split: option.splits dest!: find_bytes_from_ge)
  qed
  show ?thesis using i r q c d
    by (simp add: next_token_def Let_def) (auto split: option.splits)
qed

lemma next_token_less: "(t, j) = next_token bs dialect i \<Longrightarrow> i < length bs \<Longrightarrow> length bs - j < length bs - i"
  using next_token_moves [of i bs dialect] by (cases "next_token bs dialect i") auto

function sql_tokens_from :: "str \<Rightarrow> protocol_kind \<Rightarrow> nat \<Rightarrow> str list" where
  "sql_tokens_from bs dialect i =
     (if i < length bs then
        case next_token bs dialect i of
          (None, j) \<Rightarrow> sql_tokens_from bs dialect j
        | (Some t, j) \<Rightarrow> t # sql_tokens_from bs dialect j
      else [])"
  by pat_completeness auto
termination
  by (relation "measure (\<lambda>(bs, d, i). length bs - i)")
    (auto dest!: next_token_less)

declare sql_tokens_from.simps [simp del]

definition sql_tokens :: "str \<Rightarrow> protocol_kind \<Rightarrow> str list" where
  "sql_tokens sql dialect = sql_tokens_from sql dialect 0"

section \<open>Classification\<close>

text \<open>\<open>windows(2).any(..)\<close>, \<open>split(|t| t == ";")\<close>.\<close>

fun adjacent :: "(str \<Rightarrow> str \<Rightarrow> bool) \<Rightarrow> str list \<Rightarrow> bool" where
  "adjacent p (a # b # ts) \<longleftrightarrow> p a b \<or> adjacent p (b # ts)"
| "adjacent p _ \<longleftrightarrow> False"

fun statements :: "str list \<Rightarrow> str list list" where
  "statements [] = [[]]"
| "statements (t # ts) =
     (if t = '';'' then [] # statements ts
      else case statements ts of s # ss \<Rightarrow> (t # s) # ss)"

definition is_cross_dialect :: "str list \<Rightarrow> protocol_kind \<Rightarrow> bool" where
  "is_cross_dialect tokens dialect \<longleftrightarrow>
     (case dialect of
        MySql \<Rightarrow> ''::'' \<in> set tokens
      | PostgreSql \<Rightarrow> ''<BACKTICK_IDENT>'' \<in> set tokens \<or> take 2 tokens = [''SHOW'', ''TABLES''])"

definition is_privileged_catalog_or_session :: "str list \<Rightarrow> protocol_kind \<Rightarrow> bool" where
  "is_privileged_catalog_or_session tokens dialect \<longleftrightarrow>
     (case dialect of
        MySql \<Rightarrow>
          take 2 tokens = [''SET'', ''GLOBAL''] \<or> take 2 tokens = [''SET'', ''PERSIST''] \<or>
          take 2 tokens = [''SET'', ''PERSIST_ONLY''] \<or> adjacent (\<lambda>a b. a = ''MYSQL'' \<and> b = ''USER'') tokens
      | PostgreSql \<Rightarrow>
          take 2 tokens = [''ALTER'', ''SYSTEM''] \<or> take 3 tokens = [''SET'', ''SESSION'', ''AUTHORIZATION''] \<or>
          take 2 tokens = [''SET'', ''ROLE''] \<or> ''PG_AUTHID'' \<in> set tokens \<or> ''PG_SHADOW'' \<in> set tokens)"

definition classify_statement :: "str list \<Rightarrow> protocol_kind \<Rightarrow> unsupported_sql_capability option" where
  "classify_statement s dialect =
     (if s = [] then None
      else if hd s = ''COPY'' \<and> dialect = PostgreSql \<and> ''PROGRAM'' \<in> set s then Some PostgresCopyProgram
      else if hd s = ''COPY'' \<and> dialect = PostgreSql \<and>
          adjacent (\<lambda>a b. (a = ''FROM'' \<or> a = ''TO'') \<and> b = ''<LITERAL>'') s then Some PostgresCopyFile
      else if hd s = ''DO'' \<and> dialect = PostgreSql then Some PostgresDo
      else if hd s = ''CALL'' then Some StoredProcedureCall
      else if take 2 s = [''LOAD'', ''DATA''] \<and> dialect = MySql then Some MysqlLoadData
      else if adjacent (\<lambda>a b. a = ''INTO'' \<and> (b = ''OUTFILE'' \<or> b = ''DUMPFILE'')) s \<and> dialect = MySql
      then Some MysqlOutfile
      else if (hd s = ''VACUUM'' \<or> hd s = ''ANALYZE'') \<and> dialect = PostgreSql then Some PostgresMaintenance
      else if is_cross_dialect s dialect then Some CrossDialectStatement
      else if is_privileged_catalog_or_session s dialect then Some PrivilegedCatalogSession
      else None)"

fun first_capability :: "str list list \<Rightarrow> protocol_kind \<Rightarrow> unsupported_sql_capability option" where
  "first_capability [] dialect = None"
| "first_capability (s # ss) dialect =
     (case classify_statement s dialect of Some c \<Rightarrow> Some c | None \<Rightarrow> first_capability ss dialect)"

definition classify_dangerous_sql :: "str \<Rightarrow> protocol_kind \<Rightarrow> unsupported_sql_capability option" where
  "classify_dangerous_sql sql dialect = first_capability (statements (sql_tokens sql dialect)) dialect"

section \<open>What the tokenizer sees\<close>

text \<open>
  Lexical items of both dialects, how they are written (each followed by a blank or a line end), and the
  token the check should see of each: words and statement ends, never what stands in a string, a quoted
  name or a comment.
\<close>

datatype lexeme =
    LxWord str | LxString str | LxQuoted str | LxBlock str | LxLine str | LxSemicolon | LxOther char

definition quote_bytes :: "char \<Rightarrow> bool \<Rightarrow> str \<Rightarrow> str" where
  "quote_bytes q b s = concat (map (\<lambda>c. if c = q \<or> b \<and> c = CHR 0x5C then [c, c] else [c]) s)"

fun lexeme_text :: "protocol_kind \<Rightarrow> lexeme \<Rightarrow> str" where
  "lexeme_text d (LxWord w) = w @ '' ''"
| "lexeme_text d (LxString s) = CHR 0x27 # quote_bytes CHR 0x27 (d = MySql) s @ [CHR 0x27, CHR '' '']"
| "lexeme_text d (LxQuoted s) = CHR 0x22 # quote_bytes CHR 0x22 False s @ [CHR 0x22, CHR '' '']"
| "lexeme_text d (LxBlock s) = ''/*'' @ s @ ''*/ ''"
| "lexeme_text d (LxLine s) = ''-- '' @ s @ [CHR 0x0A]"
| "lexeme_text d LxSemicolon = ''; ''"
| "lexeme_text d (LxOther c) = [c, CHR '' '']"

fun lexeme_ok :: "lexeme \<Rightarrow> bool" where
  "lexeme_ok (LxWord w) \<longleftrightarrow> w \<noteq> [] \<and> is_word_start (hd w) \<and> list_all is_word_char w"
| "lexeme_ok (LxBlock s) \<longleftrightarrow> \<not> sublist ''*/'' s"
| "lexeme_ok (LxLine s) \<longleftrightarrow> CHR 0x0A \<notin> set s"
| "lexeme_ok (LxOther c) \<longleftrightarrow> is_ascii_digit c \<or> byte c \<in> {40, 41, 42, 43, 44, 46, 60, 61, 62}"
| "lexeme_ok _ \<longleftrightarrow> True"

fun lexeme_token :: "lexeme \<Rightarrow> str list" where
  "lexeme_token (LxWord w) = [to_ascii_uppercase w]"
| "lexeme_token (LxString s) = [''<LITERAL>'']"
| "lexeme_token LxSemicolon = ['';'']"
| "lexeme_token _ = []"

lemma skip_quoted_bytes:
  assumes "q \<noteq> CHR 0x5C" and "r = [] \<or> hd r \<noteq> q"
  shows "skip_quoted (pre @ quote_bytes q b s @ q # r) (length pre) q b = length pre + length (quote_bytes q b s) + 1"
proof (induction s arbitrary: pre)
  case Nil
  then show ?case using assms
    by (subst skip_quoted.simps) (cases r; auto simp: quote_bytes_def byte_at_def nth_append)
next
  case (Cons c s)
  let ?t = "quote_bytes q b s @ q # r"
  have e: "quote_bytes q b (c # s) = (if c = q \<or> b \<and> c = CHR 0x5C then [c, c] else [c]) @ quote_bytes q b s"
    by (simp add: quote_bytes_def)
  show ?case
  proof (cases "c = q \<or> b \<and> c = CHR 0x5C")
    case True
    then have "skip_quoted (pre @ c # c # ?t) (length pre) q b = skip_quoted (pre @ c # c # ?t) (length pre + 2) q b"
      using assms(1) by (subst skip_quoted.simps) (auto simp: byte_at_def nth_append)
    with True Cons.IH [of "pre @ [c, c]"] e show ?thesis by simp
  next
    case False
    then have "skip_quoted (pre @ c # ?t) (length pre) q b = skip_quoted (pre @ c # ?t) (length pre + 1) q b"
      by (subst skip_quoted.simps) (auto simp: nth_append)
    moreover have "quote_bytes q b (c # s) = c # quote_bytes q b s" using False e by simp
    ultimately show ?thesis using Cons.IH [of "pre @ [c]"] by simp
  qed
qed

lemma comment_end_body:
  "\<not> sublist ''*/'' s \<Longrightarrow> comment_end (pre @ s @ ''*/'' @ r) (length pre) = length pre + length s + 2"
proof (induction s arbitrary: pre)
  case Nil
  then show ?case by (subst comment_end.simps) (simp add: nth_append)
next
  case (Cons c s)
  have n: "\<not> (c = CHR ''*'' \<and> (s @ ''*/'' @ r) ! 0 = CHR ''/'')"
  proof
    assume "c = CHR ''*'' \<and> (s @ ''*/'' @ r) ! 0 = CHR ''/''"
    then obtain s' where "c # s = ''*/'' @ s'" by (cases s) auto
    then have "sublist ''*/'' (c # s)" by (metis sublist_append_rightI)
    with Cons.prems show False by simp
  qed
  have "\<not> sublist ''*/'' s" using Cons.prems by (metis sublist_Cons_right)
  with Cons.IH [of "pre @ [c]"] have
    "comment_end (pre @ c # s @ ''*/'' @ r) (length pre + 1) = length pre + length (c # s) + 2" by simp
  moreover have "comment_end (pre @ c # s @ ''*/'' @ r) (length pre) = comment_end (pre @ c # s @ ''*/'' @ r) (length pre + 1)"
    using n by (subst comment_end.simps) (auto simp: nth_append)
  ultimately show ?case by simp
qed

lemma run_end_stop: "list_all p s \<Longrightarrow> r \<noteq> [] \<and> \<not> p (hd r) \<Longrightarrow> run_end p (pre @ s @ r) (length pre) = length pre + length s"
  by (cases r) (simp_all add: run_end_def list_all_iff)

lemma sql_tokens_blank:
  assumes "is_u8_whitespace c"
  shows "sql_tokens_from (pre @ c # r) d (length pre) = sql_tokens_from (pre @ c # r) d (length pre + 1)"
  using assms by (subst sql_tokens_from.simps) (simp add: next_token_def nth_append)

lemma word_start_plain:
  "is_word_start c \<Longrightarrow> \<not> is_u8_whitespace c \<and>
     c \<notin> {CHR ''-'', CHR ''#'', CHR ''/'', CHR 0x27, CHR 0x22, CHR 0x60, CHR ''$'', CHR '':'', CHR '';''}"
  by (auto simp: is_word_start_def is_ascii_alphabetic_def is_ascii_uppercase_def is_ascii_lowercase_def
      is_u8_whitespace_def)

lemma next_token_word:
  assumes "lexeme_ok (LxWord w)"
  shows "next_token (pre @ w @ CHR '' '' # r) d (length pre) = (Some (to_ascii_uppercase w), length pre + length w)"
proof -
  obtain c v where w: "w = c # v" "is_word_start c" "list_all is_word_char v" using assms by (cases w) auto
  have "\<not> is_word_char CHR '' ''"
    by (simp add: is_word_char_def is_ascii_alphanumeric_def is_ascii_uppercase_def is_ascii_lowercase_def is_ascii_digit_def)
  then have "run_end is_word_char (pre @ w @ CHR '' '' # r) (length pre + 1) = length pre + length w"
    using run_end_stop [OF w(3), of "CHR '' '' # r" "pre @ [c]"] w(1) by simp
  then show ?thesis
    using word_start_plain [OF w(2)] w by (simp add: next_token_def Let_def nth_append)
qed

lemma not_escape_string:
  "pre = [] \<or> last pre \<in> {CHR '' '', CHR 0x0A} \<Longrightarrow> \<not> is_postgresql_escape_string (pre @ x) (length pre)"
  by (cases pre rule: rev_cases) (auto simp: is_postgresql_escape_string_def nth_append)

lemma next_token_string:
  assumes "pre = [] \<or> last pre \<in> {CHR '' '', CHR 0x0A}"
  shows "next_token (pre @ CHR 0x27 # quote_bytes CHR 0x27 (d = MySql) s @ CHR 0x27 # CHR '' '' # r) d (length pre) =
    (Some ''<LITERAL>'', length pre + length (quote_bytes CHR 0x27 (d = MySql) s) + 2)"
  using not_escape_string [OF assms] skip_quoted_bytes [of "CHR 0x27" "CHR '' '' # r" "pre @ [CHR 0x27]" "d = MySql" s]
  by (simp add: next_token_def Let_def nth_append is_u8_whitespace_def)

lemma next_token_quoted:
  "next_token (pre @ CHR 0x22 # quote_bytes CHR 0x22 False s @ CHR 0x22 # CHR '' '' # r) d (length pre) =
    (None, length pre + length (quote_bytes CHR 0x22 False s) + 2)"
  using skip_quoted_bytes [of "CHR 0x22" "CHR '' '' # r" "pre @ [CHR 0x22]" False s]
  by (simp add: next_token_def Let_def nth_append is_u8_whitespace_def)

lemma next_token_block:
  "\<not> sublist ''*/'' s \<Longrightarrow>
     next_token (pre @ ''/*'' @ s @ ''*/'' @ r) d (length pre) = (None, length pre + length s + 4)"
  using comment_end_body [of s "pre @ ''/*''" r]
  by (simp add: next_token_def Let_def nth_append is_u8_whitespace_def byte_at_def)

lemma next_token_line:
  assumes "CHR 0x0A \<notin> set s"
  shows "next_token (pre @ ''-- '' @ s @ CHR 0x0A # r) d (length pre) = (None, length pre + length s + 3)"
proof -
  have "list_all (\<lambda>x. x \<noteq> CHR 0x0A) (CHR '' '' # s)" using assms by (auto simp: list_all_iff)
  from run_end_stop [OF this, of "CHR 0x0A # r" "pre @ ''--''"] show ?thesis
    by (simp add: next_token_def Let_def nth_append is_u8_whitespace_def byte_at_def is_line_comment_def)
qed

lemma next_token_other:
  assumes "lexeme_ok (LxOther c)"
  shows "next_token (pre @ c # r) d (length pre) = (None, length pre + 1)"
proof -
  have "c \<notin> {CHR ''-'', CHR ''#'', CHR ''/'', CHR 0x27, CHR 0x22, CHR 0x60, CHR ''$'', CHR '':'', CHR '';''}"
    "\<not> is_u8_whitespace c" "\<not> is_word_start c"
    using assms by (auto simp: is_ascii_digit_def is_u8_whitespace_def is_word_start_def is_ascii_alphabetic_def
        is_ascii_uppercase_def is_ascii_lowercase_def)
  then show ?thesis by (simp add: next_token_def Let_def nth_append)
qed

lemma next_token_semicolon: "next_token (pre @ CHR '';'' # r) d (length pre) = (Some '';'', length pre + 1)"
  by (simp add: next_token_def Let_def nth_append is_u8_whitespace_def)

lemma sql_tokens_step:
  assumes "next_token (pre @ y @ c # r) d (length pre) = (t, length pre + length y)" and "y \<noteq> []"
    and "c \<in> {CHR '' '', CHR 0x0A}"
  shows "sql_tokens_from (pre @ (y @ [c]) @ r) d (length pre) =
    (case t of None \<Rightarrow> [] | Some t \<Rightarrow> [t]) @ sql_tokens_from (pre @ (y @ [c]) @ r) d (length (pre @ y @ [c]))"
proof -
  have "sql_tokens_from (pre @ y @ c # r) d (length pre + length y) =
      sql_tokens_from (pre @ y @ c # r) d (length pre + length y + 1)"
    using assms(3) sql_tokens_blank [of c "pre @ y" r d] by (auto simp: is_u8_whitespace_def)
  then show ?thesis using assms(1,2)
    by (simp add: sql_tokens_from.simps [of "pre @ y @ c # r" d "length pre"] split: option.split)
qed

lemma sql_tokens_lexeme:
  assumes "lexeme_ok x" and "pre = [] \<or> last pre \<in> {CHR '' '', CHR 0x0A}"
  shows "sql_tokens_from (pre @ lexeme_text d x @ r) d (length pre) =
    lexeme_token x @ sql_tokens_from (pre @ lexeme_text d x @ r) d (length (pre @ lexeme_text d x))"
proof (cases x)
  case (LxWord w)
  then show ?thesis using sql_tokens_step [OF next_token_word [of w pre r d]] assms(1) by simp
next
  case (LxString s)
  let ?y = "CHR 0x27 # quote_bytes CHR 0x27 (d = MySql) s @ [CHR 0x27]"
  show ?thesis using sql_tokens_step [of pre ?y "CHR '' ''" r d] next_token_string [OF assms(2), of d s r] LxString by simp
next
  case (LxQuoted s)
  let ?y = "CHR 0x22 # quote_bytes CHR 0x22 False s @ [CHR 0x22]"
  show ?thesis using sql_tokens_step [of pre ?y "CHR '' ''" r d] next_token_quoted [of pre s r d] LxQuoted by simp
next
  case (LxBlock s)
  show ?thesis
    using sql_tokens_step [of pre "''/*'' @ s @ ''*/''" "CHR '' ''" r d] next_token_block [of s pre "CHR '' '' # r" d] LxBlock assms(1)
    by simp
next
  case (LxLine s)
  show ?thesis
    using sql_tokens_step [of pre "''-- '' @ s" "CHR 0x0A" r d] next_token_line [of s pre r d] LxLine assms(1) by simp
next
  case LxSemicolon
  show ?thesis
    using sql_tokens_step [of pre "'';''" "CHR '' ''" r d] next_token_semicolon [of pre "CHR '' '' # r" d] LxSemicolon by simp
next
  case (LxOther c)
  show ?thesis
    using sql_tokens_step [of pre "[c]" "CHR '' ''" r d] next_token_other [of c pre "CHR '' '' # r" d] LxOther assms(1)
    by simp
qed

lemma lexeme_text_last: "last (lexeme_text d x) \<in> {CHR '' '', CHR 0x0A}" "lexeme_text d x \<noteq> []"
  by (cases x; simp)+

lemma sql_tokens_lexemes:
  assumes "list_all lexeme_ok xs"
  shows "sql_tokens (concat (map (lexeme_text d) xs)) d = concat (map lexeme_token xs)"
proof -
  have "sql_tokens_from (pre @ concat (map (lexeme_text d) xs)) d (length pre) = concat (map lexeme_token xs)"
    if "pre = [] \<or> last pre \<in> {CHR '' '', CHR 0x0A}" for pre
    using assms that
  proof (induction xs arbitrary: pre)
    case Nil
    then show ?case by (subst sql_tokens_from.simps) simp
  next
    case (Cons x xs)
    let ?r = "concat (map (lexeme_text d) xs)"
    have "sql_tokens_from ((pre @ lexeme_text d x) @ ?r) d (length (pre @ lexeme_text d x)) = concat (map lexeme_token xs)"
      using Cons.prems lexeme_text_last [where d = d and x = x] by (intro Cons.IH) auto
    with sql_tokens_lexeme [of x pre d ?r] Cons.prems show ?case by simp
  qed
  from this [of "[]"] show ?thesis by (simp add: sql_tokens_def)
qed

text \<open>
  What the words alone decide.  A quoted name gives no token and a backquoted one a fixed token, a
  versioned comment of MySQL is a comment, and only the first word of a statement is compared: each of
  these hides a statement from the check.
\<close>

lemma quoted_catalog_unseen:
  "classify_dangerous_sql (''select * from '' @ [CHR 0x22] @ ''pg_authid'' @ [CHR 0x22]) PostgreSql = None"
  "classify_dangerous_sql ''select * from pg_authid'' PostgreSql = Some PrivilegedCatalogSession"
  by code_simp+

lemma backquoted_catalog_unseen:
  "classify_dangerous_sql (''select * from mysql.'' @ [CHR 0x60] @ ''user'' @ [CHR 0x60]) MySql = None"
  "classify_dangerous_sql ''select * from mysql.user'' MySql = Some PrivilegedCatalogSession"
  by code_simp+

lemma versioned_comment_unseen:
  "classify_dangerous_sql (''select 1 /*! into outfile '' @ [CHR 0x27] @ ''f'' @ [CHR 0x27] @ '' */'') MySql = None"
  by code_simp

lemma escaped_quote_unseen:
  "classify_dangerous_sql
     (''select '' @ [CHR 0x22, CHR 0x5C, CHR 0x22, CHR 0x22] @ '' into outfile '' @ [CHR 0x27] @ ''f'' @ [CHR 0x27]) MySql = None"
  by code_simp

end
