(* ===== verification/Engine.thy ===== *)
theory Engine
  imports Core_Route Named_Cursor Dangerous_Sql Pdp
begin

text \<open>
  One frontend connection (\<open>runtime/gateway/src/core_engine.rs\<close>, \<open>CoreGatewayConnection\<close>): a frame is decoded
  to commands, and each command is checked for unsupported statements, routed, passed through the plugins,
  translated, authorized, executed, and its response is written under the obligations of the decision.

  The state of the connection is a record that is threaded through the operations; it includes the
  adapter's state with the writer, the backend's state, and the process-wide ticket store.  \<open>g_log\<close>
  records in order what the PDP decided, what was sent to the backend, and the audit events (their decision and
  outcome).  Metrics, spans, result samples and the other fields of an audit event are left out.

  An operation may fail with an error that ends the frame, may panic, and may not return (a round robin's
  \<open>next\<close>): \<open>act\<close> has all of these.  The backend, the object extraction, the clock readings, the random
  draws and the policy snapshot a command sees are parameters.
\<close>

section \<open>Operations on a state\<close>

type_synonym ('s, 'a) act = "'s \<Rightarrow> ((gateway_error + 'a) \<times> 's) run option"

definition act_return :: "'a \<Rightarrow> ('s, 'a) act" where
  "act_return a s = Some (Done (Inr a, s))"

definition act_fail :: "gateway_error \<Rightarrow> ('s, 'a) act" where
  "act_fail e s = Some (Done (Inl e, s))"

definition act_bind :: "('s, 'a) act \<Rightarrow> ('a \<Rightarrow> ('s, 'b) act) \<Rightarrow> ('s, 'b) act" where
  "act_bind m f s =
     (case m s of
        None \<Rightarrow> None
      | Some Panic \<Rightarrow> Some Panic
      | Some (Done (Inl e, s')) \<Rightarrow> Some (Done (Inl e, s'))
      | Some (Done (Inr a, s')) \<Rightarrow> f a s')"

definition act_then :: "('s, unit) act \<Rightarrow> ('s, 'b) act \<Rightarrow> ('s, 'b) act" where
  "act_then m n = act_bind m (\<lambda>_. n)"

definition act_get :: "('s \<Rightarrow> 'a) \<Rightarrow> ('s, 'a) act" where
  "act_get f s = Some (Done (Inr (f s), s))"

definition act_modify :: "('s \<Rightarrow> 's) \<Rightarrow> ('s, unit) act" where
  "act_modify f s = Some (Done (Inr (), f s))"

definition act_when :: "bool \<Rightarrow> ('s, unit) act \<Rightarrow> ('s, unit) act" where
  "act_when b m = (if b then m else act_return ())"

text \<open>\<open>continue\<close> in the loop over the commands, or going on with a value.\<close>

datatype 'a stage = Stop | Go 'a

definition act_go :: "('s, 'a stage) act \<Rightarrow> ('a \<Rightarrow> ('s, unit) act) \<Rightarrow> ('s, unit) act" where
  "act_go m f = act_bind m (\<lambda>r. case r of Stop \<Rightarrow> act_return () | Go a \<Rightarrow> f a)"

section \<open>Connections\<close>

datatype engine_event =
    EvDecision gateway_command security_decision
  | EvExecute gateway_command execute_mode
  | EvDeclare str
  | EvAudit str str

record ('f, 'b) gw =
  g_out :: "'f out"
  g_backend :: 'b
  g_session :: session_state
  g_route :: "core_route_policy option"
  g_plugins :: "plugin_phase option"
  g_tickets :: ticket_store
  g_pending :: "obligations option"
  g_held :: "streaming_query option"
  g_cursors :: named_cursors
  g_log :: "engine_event list"

record ('f, 'b) gw_env =
  v_frontend :: "'f frontend"
  v_backend_protocol :: protocol_kind
  v_execute :: "'b \<Rightarrow> gateway_command \<Rightarrow> session_state \<Rightarrow> execute_mode
     \<Rightarrow> (gateway_error + execute_outcome) \<times> 'b \<times> session_state"
  v_health :: "'b \<Rightarrow> (gateway_error + unit) \<times> 'b"
  v_service :: str
  v_translation :: "translation_policy option"
  v_dialect :: dialect
  v_security :: bool
  v_extract :: "str \<Rightarrow> str \<Rightarrow> object_set"
  v_regex :: plugin_regex
  v_f64 :: "64 word \<Rightarrow> str"
  v_stream_mode :: execute_mode
  v_passthrough_enabled :: bool

text \<open>What a command reads of the world: a random draw, the plugins' clock, the policy and the PDP's environment.\<close>

record command_world =
  cw_draw :: int
  cw_now :: nat
  cw_view :: pdp_view
  cw_pdp :: pdp_env

type_synonym ('f, 'b, 'a) op = "(('f, 'b) gw, 'a) act"

definition record_event :: "engine_event \<Rightarrow> ('f, 'b, unit) op" where
  "record_event ev = act_modify (\<lambda>g. g\<lparr>g_log := g_log g @ [ev]\<rparr>)"

definition update_session :: "(session_state \<Rightarrow> session_state) \<Rightarrow> ('f, 'b, unit) op" where
  "update_session f = act_modify (\<lambda>g. g\<lparr>g_session := f (g_session g)\<rparr>)"

fun gateway_error_text :: "gateway_error \<Rightarrow> str" where
  "gateway_error_text (EConfiguration m) = ''configuration error: '' @ m"
| "gateway_error_text (EProtocol m) = ''protocol error: '' @ m"
| "gateway_error_text (EBackend m) = ''backend error: '' @ m"
| "gateway_error_text (EUnsupported m) = ''unsupported operation: '' @ m"

fun command_metric_type :: "gateway_command \<Rightarrow> str" where
  "command_metric_type (Query _) = ''QUERY''"
| "command_metric_type (QueryParams _ _) = ''QUERY_PARAMS''"
| "command_metric_type (Prepare _) = ''PREPARE''"
| "command_metric_type (Execute _ _) = ''EXECUTE''"
| "command_metric_type (CloseStatement _) = ''CLOSE''"
| "command_metric_type (DescribeSql _) = ''DESCRIBE_SQL''"
| "command_metric_type (ClientWire _) = ''CLIENT_WIRE''"
| "command_metric_type PgBackendSync = ''PG_BACKEND_SYNC''"
| "command_metric_type (UseDatabase _) = ''USE''"
| "command_metric_type Begin = ''BEGIN''"
| "command_metric_type Commit = ''COMMIT''"
| "command_metric_type Rollback = ''ROLLBACK''"
| "command_metric_type Ping = ''PING''"
| "command_metric_type Quit = ''QUIT''"

fun dangerous_command_capability :: "gateway_command \<Rightarrow> protocol_kind \<Rightarrow> unsupported_sql_capability option" where
  "dangerous_command_capability (Query sql) dialect = classify_dangerous_sql sql dialect"
| "dangerous_command_capability (QueryParams sql _) dialect = classify_dangerous_sql sql dialect"
| "dangerous_command_capability (Prepare sql) dialect = classify_dangerous_sql sql dialect"
| "dangerous_command_capability (DescribeSql sql) dialect = classify_dangerous_sql sql dialect"
| "dangerous_command_capability _ dialect = None"

section \<open>Writing a response\<close>

definition is_streaming :: "execute_mode \<Rightarrow> bool" where
  "is_streaming m \<longleftrightarrow> (case m of Streaming _ _ \<Rightarrow> True | _ \<Rightarrow> False)"

definition encode_window :: "execute_mode \<Rightarrow> bool \<Rightarrow> nat" where
  "encode_window mode forced =
     max (case mode_window_rows mode of Some w \<Rightarrow> w | None \<Rightarrow> if forced then 256 else u64_max) 1"

definition reset_binary :: "('f, 'b) gw \<Rightarrow> ('f, 'b) gw" where
  "reset_binary g = g\<lparr>g_session := (g_session g)\<lparr>ss_prefer_binary_result := False\<rparr>\<rparr>"

text \<open>The result of an early return keeps the flag; the last write's result is returned after it is cleared.\<close>

definition encode_plain :: "('f, 'b) gw_env \<Rightarrow> gateway_response \<Rightarrow> ('f, 'b, unit) op" where
  "encode_plain V response g =
     (case fe_encode (v_frontend V) (out_fe (g_out g)) response (g_session g) of
        (Inl e, f) \<Rightarrow> Some (Done (Inl e, g\<lparr>g_out := (g_out g)\<lparr>out_fe := f\<rparr>\<rparr>))
      | (Inr ps, f) \<Rightarrow>
          (case write_packets ps (out_writer (g_out g)) of
             (r, w) \<Rightarrow> Some (Done (r, reset_binary (g\<lparr>g_out := (g_out g)\<lparr>out_fe := f, out_writer := w\<rparr>\<rparr>)))))"

definition oblige_opt :: "(64 word \<Rightarrow> str) \<Rightarrow> obligations option \<Rightarrow> gateway_response \<Rightarrow> gateway_response" where
  "oblige_opt f64 ob response = (case ob of None \<Rightarrow> response | Some b \<Rightarrow> apply_obligations_to_response f64 response b)"

definition encode_response_to_writer :: "('f, 'b) gw_env \<Rightarrow> gateway_response \<Rightarrow> ('f, 'b, unit) op" where
  "encode_response_to_writer V response g0 =
     (let ob = g_pending g0; g = g0\<lparr>g_pending := None\<rparr>
      in case response of
           RspResultSet columns rows \<Rightarrow>
             (let cross = (v_translation V \<noteq> None);
                  has_obl = (case ob of Some b \<Rightarrow> has_result_obligations b | None \<Rightarrow> False)
              in if cross \<or> has_obl \<or> is_streaming (v_stream_mode V) then
                   (case write_resultset_windowed_with_obligations (v_frontend V) (v_f64 V) (g_session g) columns rows
                           (encode_window (v_stream_mode V) (cross \<or> has_obl)) ob (g_out g) of
                      (Inl e, out) \<Rightarrow> Some (Done (Inl e, g\<lparr>g_out := out\<rparr>))
                    | (Inr _, out) \<Rightarrow> Some (Done (Inr (), reset_binary (g\<lparr>g_out := out\<rparr>))))
                 else encode_plain V (oblige_opt (v_f64 V) ob response) g)
         | RspWire ps \<Rightarrow>
             (case write_packets ps (out_writer (g_out g)) of
                (r, w) \<Rightarrow> Some (Done (r, reset_binary (g\<lparr>g_out := (g_out g)\<lparr>out_writer := w\<rparr>\<rparr>))))
         | other \<Rightarrow> encode_plain V (oblige_opt (v_f64 V) ob other) g)"

text \<open>An error inside a PostgreSQL extended query: ignore the rest up to \<open>Sync\<close>, fail the transaction.\<close>

definition fail_transaction :: "session_state \<Rightarrow> session_state" where
  "fail_transaction s =
     (if ss_transaction_state s = Active then s\<lparr>ss_transaction_state := Failed\<rparr> else s)"

definition mark_extended_error :: "('f, 'b) gw_env \<Rightarrow> session_state \<Rightarrow> session_state" where
  "mark_extended_error V s =
     (if fe_protocol (v_frontend V) = PostgreSql \<and> ss_pg_extended_query s
      then fail_transaction (s\<lparr>ss_pg_extended_error := True\<rparr>) else s)"

definition reject_unsupported_capability ::
  "('f, 'b) gw_env \<Rightarrow> unsupported_sql_capability \<Rightarrow> ('f, 'b, unit) op" where
  "reject_unsupported_capability V cap =
     act_then (update_session (mark_extended_error V))
       (act_then (record_event (EvAudit ''reject'' ''unsupported_operation''))
         (encode_response_to_writer V (RspError ''0A000'' (''unsupported capability: '' @ capability_as_str cap))))"

section \<open>Named cursors\<close>

definition cursor_error :: "('f, 'b) gw_env \<Rightarrow> str \<Rightarrow> str \<Rightarrow> ('f, 'b, unit) op" where
  "cursor_error V code message =
     act_then (update_session fail_transaction) (encode_response_to_writer V (RspError code message))"

definition cursor_text :: "str \<Rightarrow> str \<Rightarrow> str" where
  "cursor_text name rest = ''cursor '' @ [dquote] @ name @ [dquote] @ rest"

text \<open>A call of the backend: its answer, with the backend and the session it leaves.\<close>

definition call_backend ::
  "('f, 'b) gw_env \<Rightarrow> engine_event \<Rightarrow> gateway_command \<Rightarrow> execute_mode \<Rightarrow> ('f, 'b, gateway_error + execute_outcome) op" where
  "call_backend V ev command mode g =
     (case v_execute V (g_backend g) command (g_session g) mode of
        (r, b, s) \<Rightarrow> Some (Done (Inr r, g\<lparr>g_backend := b, g_session := s, g_log := g_log g @ [ev]\<rparr>)))"

definition store_cursor :: "('f, 'b) gw_env \<Rightarrow> str \<Rightarrow> bool \<Rightarrow> streaming_query \<Rightarrow> ('f, 'b, unit) op" where
  "store_cursor V name with_hold q =
     act_then
       (act_modify (\<lambda>g. g\<lparr>g_cursors := (g_cursors g)(name \<mapsto> \<lparr>nc_with_hold = with_hold, nc_query = q, nc_exhausted = False\<rparr>)\<rparr>))
       (encode_response_to_writer V (RspCommandComplete ''DECLARE CURSOR''))"

definition handle_declare :: "('f, 'b) gw_env \<Rightarrow> str \<Rightarrow> str \<Rightarrow> bool \<Rightarrow> ('f, 'b, unit) op" where
  "handle_declare V name select_sql with_hold =
     act_bind (act_get g_cursors) (\<lambda>cs.
       if cs name \<noteq> None
       then cursor_error V ''42P03'' (cursor_text name '' already exists (process-local; not SQL WITH HOLD)'')
       else
         act_bind (call_backend V (EvDeclare select_sql) (Query select_sql)
             (from_streaming_config (max (case mode_window_rows (v_stream_mode V) of Some w \<Rightarrow> w | None \<Rightarrow> 256) 1) None)) (\<lambda>r.
           case r of
             Inl e \<Rightarrow> act_fail e
           | Inr (OutStreaming q) \<Rightarrow> store_cursor V name with_hold q
           | Inr (OutComplete (RspResultSet columns rows)) \<Rightarrow>
               store_cursor V name with_hold \<lparr>sq_columns = columns, sq_stream = VecRowStream rows\<rparr>
           | Inr (OutComplete other) \<Rightarrow> encode_response_to_writer V other
           | Inr (OutWireRelay _) \<Rightarrow>
               encode_response_to_writer V
                 (RspError ''0A000'' ''DECLARE cursor cannot use wire passthrough (process-local hold only)'')))"

text \<open>The cursor is taken out of the map before the fetch and put back after it.\<close>

definition handle_fetch :: "('f, 'b) gw_env \<Rightarrow> str \<Rightarrow> nat \<Rightarrow> ('f, 'b, unit) op" where
  "handle_fetch V name count =
     act_bind (act_get g_cursors) (\<lambda>cs.
       case cs name of
         None \<Rightarrow> cursor_error V ''34000'' (cursor_text name '' does not exist (process-local; not SQL WITH HOLD)'')
       | Some c \<Rightarrow>
           act_then (act_modify (\<lambda>g. g\<lparr>g_cursors := (g_cursors g)(name := None)\<rparr>))
             (act_bind (\<lambda>g. case v_health V (g_backend g) of (r, b) \<Rightarrow> Some (Done (Inr r, g\<lparr>g_backend := b\<rparr>))) (\<lambda>r.
               case r of
                 Inl error \<Rightarrow>
                   act_then (update_session (\<lambda>s. s\<lparr>ss_transaction_state := Failed\<rparr>))
                     (encode_response_to_writer V (RspError ''08006'' (''cursor backend connection failed: '' @ gateway_error_text error)))
               | Inr _ \<Rightarrow>
                   (case fetch_cursor count c of
                      Inl e \<Rightarrow> act_fail e
                    | Inr (rows, c') \<Rightarrow>
                        act_then (act_modify (\<lambda>g. g\<lparr>g_cursors := (g_cursors g)(name \<mapsto> c')\<rparr>))
                          (encode_response_to_writer V
                            (RspTaggedResultSet (sq_columns (nc_query c)) rows (''FETCH '' @ show_nat (length rows))))))))"

definition handle_close :: "('f, 'b) gw_env \<Rightarrow> str \<Rightarrow> ('f, 'b, unit) op" where
  "handle_close V name =
     act_bind (act_get g_cursors) (\<lambda>cs.
       act_then (act_modify (\<lambda>g. g\<lparr>g_cursors := (g_cursors g)(name := None)\<rparr>))
         (if cs name = None
          then cursor_error V ''34000'' (cursor_text name '' does not exist (process-local; not SQL WITH HOLD)'')
          else encode_response_to_writer V (RspCommandComplete ''CLOSE CURSOR'')))"

fun handle_named_cursor_sql :: "('f, 'b) gw_env \<Rightarrow> named_cursor_sql \<Rightarrow> ('f, 'b, unit) op" where
  "handle_named_cursor_sql V (NcDeclare name select_sql with_hold) = handle_declare V name select_sql with_hold"
| "handle_named_cursor_sql V (NcFetch name count) = handle_fetch V name count"
| "handle_named_cursor_sql V (NcClose name) = handle_close V name"
| "handle_named_cursor_sql V (NcUnsupported verb) =
     encode_response_to_writer V (RspError ''0A000''
       (verb @ '' is not supported on process-local cursors (forward FETCH only; not backend SQL cursor)''))"

section \<open>Before execution\<close>

definition route_command :: "command_world \<Rightarrow> gateway_command \<Rightarrow> ('f, 'b, unit) op" where
  "route_command w command g =
     (case g_route g of
        None \<Rightarrow> Some (Done (Inr (), g))
      | Some p \<Rightarrow>
          map_option (\<lambda>r. run_bind r (\<lambda>(plan, p').
            let g' = g\<lparr>g_route := Some p'\<rparr>
            in case plan of
                 Inl e \<Rightarrow> Done (Inl e, g')
               | Inr pl \<Rightarrow>
                   (case apply_route_plan pl (g_session g) of
                      Inl e \<Rightarrow> Done (Inl e, g')
                    | Inr s \<Rightarrow> Done (Inr (), g'\<lparr>g_session := s\<rparr>))))
          (plan_command (cw_draw w) p command (g_session g)))"

text \<open>The permit a command holds, if a concurrency rule matched it.\<close>

definition release_permit :: "nat option \<Rightarrow> ('f, 'b, unit) op" where
  "release_permit idx g =
     (case (g_plugins g, idx) of
        (Some pp, Some i) \<Rightarrow> Some (run_bind (release_concurrency i pp) (\<lambda>pp'. Done (Inr (), g\<lparr>g_plugins := Some pp'\<rparr>)))
      | _ \<Rightarrow> Some (Done (Inr (), g)))"

definition plugin_stage ::
  "('f, 'b) gw_env \<Rightarrow> command_world \<Rightarrow> gateway_command \<Rightarrow> ('f, 'b, (gateway_command \<times> nat option) stage) op" where
  "plugin_stage V w command g =
     (case g_plugins g of
        None \<Rightarrow> Some (Done (Inr (Go (command, None)), g))
      | Some pp \<Rightarrow>
          (case plugin_evaluate (v_regex V) (cw_now w) pp (summary_from_command command) of
             (d, pp') \<Rightarrow>
               let g' = g\<lparr>g_plugins := Some pp'\<rparr>
               in case d of
                    PdContinue idx \<Rightarrow> Some (Done (Inr (Go (command, idx)), g'))
                  | PdReject code message \<Rightarrow>
                      act_then (encode_response_to_writer V (RspError code message)) (act_return Stop) g'
                  | PdRewrite sql \<Rightarrow>
                      Some (Done (Inr (Go (case rewritten_sql (summary_from_command command) sql of
                                             Some c \<Rightarrow> c | None \<Rightarrow> command, None)), g'))))"

definition translation_stage :: "('f, 'b) gw_env \<Rightarrow> gateway_command \<Rightarrow> ('f, 'b, gateway_command stage) op" where
  "translation_stage V command =
     (case v_translation V of
        None \<Rightarrow> act_return (Go command)
      | Some policy \<Rightarrow>
          (case prepare_cross_protocol_command policy command (v_dialect V) of
             Inr translated \<Rightarrow> act_return (Go translated)
           | Inl error \<Rightarrow>
               act_then (update_session (mark_extended_error V))
                 (act_then (encode_response_to_writer V (RspError ''translation_error'' (gateway_error_text error)))
                   (act_return Stop))))"

fun command_sql :: "gateway_command \<Rightarrow> str option" where
  "command_sql (Query sql) = Some sql"
| "command_sql (QueryParams sql _) = Some sql"
| "command_sql (Prepare sql) = Some sql"
| "command_sql (DescribeSql sql) = Some sql"
| "command_sql _ = None"

fun replace_sql :: "gateway_command \<Rightarrow> str \<Rightarrow> gateway_command" where
  "replace_sql (Query _) sql = Query sql"
| "replace_sql (QueryParams _ ps) sql = QueryParams sql ps"
| "replace_sql (Prepare _) sql = Prepare sql"
| "replace_sql command sql = command"

definition refuse :: "('f, 'b) gw_env \<Rightarrow> nat option \<Rightarrow> str \<Rightarrow> str \<Rightarrow> str \<Rightarrow> str \<Rightarrow> ('f, 'b, 'a stage) op" where
  "refuse V idx decision outcome code message =
     act_then (record_event (EvAudit decision outcome))
       (act_then (encode_response_to_writer V (RspError code message))
         (act_then (release_permit idx) (act_return Stop)))"

definition authorize_stage ::
  "('f, 'b) gw_env \<Rightarrow> command_world \<Rightarrow> nat option \<Rightarrow> gateway_command \<Rightarrow> ('f, 'b, (gateway_command \<times> obligations) stage) op" where
  "authorize_stage V w idx command g =
     (if \<not> v_security V then Some (Done (Inr (Go (command, obligations_default)), g))
      else case authorize_command_with_objects (cw_view w) (cw_pdp w) (dia_leading_keyword (v_dialect V))
                  (from_protocol_user (ss_user (g_session g)) (ss_database (g_session g))) (v_service V) command
                  (map_option (\<lambda>sql. v_extract V sql (protocol_as_str (fe_protocol (v_frontend V)))) (command_sql command))
                  (g_tickets g) of
          Panic \<Rightarrow> Some Panic
        | Done (d, st) \<Rightarrow>
            let g' = g\<lparr>g_tickets := st, g_log := g_log g @ [EvDecision command d]\<rparr>
            in case d of
                 Allow ob \<Rightarrow> Some (Done (Inr (Go (command, ob)), g'))
               | AllowRewrite sql ob \<Rightarrow> Some (Done (Inr (Go (replace_sql command sql, ob)), g'))
               | RequireTicket rule ticket_type message \<Rightarrow>
                   refuse V idx ''require_approval'' ''require_ticket'' ''security_require_ticket'' message g'
               | Deny rule message \<Rightarrow> refuse V idx ''deny'' ''security_deny'' ''security_deny'' message g')"

section \<open>Execution\<close>

fun is_row_command :: "gateway_command \<Rightarrow> bool" where
  "is_row_command (Query _) = True"
| "is_row_command (QueryParams _ _) = True"
| "is_row_command (Execute _ _) = True"
| "is_row_command _ = False"

definition want_passthrough :: "('f, 'b) gw_env \<Rightarrow> gateway_command \<Rightarrow> obligations \<Rightarrow> bool" where
  "want_passthrough V command ob \<longleftrightarrow>
     v_passthrough_enabled V \<and> fe_protocol (v_frontend V) = v_backend_protocol V \<and> \<not> has_result_obligations ob \<and>
     (is_row_command command \<or> command = PgBackendSync) \<and> v_translation V = None"

definition min_opt :: "nat option \<Rightarrow> nat option \<Rightarrow> nat option" where
  "min_opt a b =
     (case (a, b) of
        (Some x, Some y) \<Rightarrow> Some (min x y) | (None, Some y) \<Rightarrow> Some y | (Some x, None) \<Rightarrow> Some x | (None, None) \<Rightarrow> None)"

definition exec_mode :: "('f, 'b) gw_env \<Rightarrow> gateway_command \<Rightarrow> obligations \<Rightarrow> execute_mode" where
  "exec_mode V command ob =
     (if want_passthrough V command ob then Passthrough
      else if v_translation V \<noteq> None \<or> has_result_obligations ob then
        (if is_streaming (v_stream_mode V) then v_stream_mode V else from_streaming_config 256 (max_rows ob))
      else case v_stream_mode V of
          Streaming window mx \<Rightarrow> Streaming window (min_opt mx (max_rows ob))
        | Materialized \<Rightarrow> if is_row_command command then from_streaming_config 256 (max_rows ob) else Materialized
        | other \<Rightarrow> other)"

definition resumes_portal :: "('f, 'b) gw \<Rightarrow> gateway_command \<Rightarrow> bool" where
  "resumes_portal g command \<longleftrightarrow>
     g_held g \<noteq> None \<and> ss_pg_portal_name (g_session g) \<noteq> None \<and> ss_pg_execute_max_rows (g_session g) \<noteq> None \<and>
     ss_pg_extended_query (g_session g) \<and> is_row_command command"

definition drop_stale_hold :: "('f, 'b) gw \<Rightarrow> ('f, 'b) gw" where
  "drop_stale_hold g =
     (if ss_pg_drop_portal_hold (g_session g)
      then g\<lparr>g_held := None, g_session := (g_session g)\<lparr>ss_pg_drop_portal_hold := False\<rparr>\<rparr> else g)"

definition execute_stage ::
  "('f, 'b) gw_env \<Rightarrow> gateway_command \<Rightarrow> execute_mode \<Rightarrow> ('f, 'b, gateway_error + execute_outcome) op" where
  "execute_stage V command mode g0 =
     (let g = drop_stale_hold g0
      in if resumes_portal g command
         then Some (Done (Inr (Inr (OutStreaming (the (g_held g)))), g\<lparr>g_held := None\<rparr>))
         else call_backend V (EvExecute command mode) command mode (g\<lparr>g_held := None\<rparr>))"

section \<open>Responses\<close>

fun response_outcome :: "bool \<Rightarrow> gateway_response \<Rightarrow> str" where
  "response_outcome cross (RspError code _) = ''error:'' @ code"
| "response_outcome cross (RspResultSet _ _) = (if cross then ''xproto_stream'' else ''resultset'')"
| "response_outcome cross (RspTaggedResultSet _ _ _) = ''resultset''"
| "response_outcome cross (RspWire _) = ''passthrough''"
| "response_outcome cross (RspOk _ _) = ''ok''"
| "response_outcome cross (RspCommandComplete _) = ''ok''"
| "response_outcome cross RspPong = ''pong''"
| "response_outcome cross RspBye = ''bye''"
| "response_outcome cross (RspPrepared _ _ _) = ''prepared''"
| "response_outcome cross (RspRowDescription _) = ''row_description''"

text \<open>The session after relayed packets: an error response, the transaction status of the last ReadyForQuery.\<close>

definition relay_session :: "wire_relay_observation \<Rightarrow> session_state \<Rightarrow> session_state" where
  "relay_session ob s =
     (let s1 = (if wr_error_response ob \<and> ss_pg_extended_query s
                then fail_transaction (s\<lparr>ss_pg_extended_error := True\<rparr>) else s)
      in case wr_ready_status ob of
           None \<Rightarrow> s1
         | Some status \<Rightarrow>
             s1\<lparr>ss_transaction_state := (if status = byte (CHR ''T'') then Active
                                        else if status = byte (CHR ''E'') then Failed else Idle)\<rparr>)"

text \<open>The label of the path, and the client frames it uses up.\<close>

definition relay_path :: "str \<Rightarrow> session_state \<Rightarrow> str \<times> session_state" where
  "relay_path ctype s =
     (if ctype = ''PG_BACKEND_SYNC'' then (''passthrough_client'', s\<lparr>ss_pg_extended_query := False, ss_pg_ext_tcp_hold := False\<rparr>)
      else if ctype = ''QUERY_PARAMS'' \<or> ctype = ''EXECUTE'' \<or> (ctype = ''QUERY'' \<and> ss_pg_extended_query s) then
        (if ss_pg_client_extended_frames s = [] then (''passthrough_client'', s)
         else (''passthrough_extended'', s\<lparr>ss_pg_client_extended_frames := []\<rparr>))
      else (''passthrough'', s))"

definition observation_default :: wire_relay_observation where
  "observation_default = \<lparr>wr_bytes = 0, wr_error_response = False, wr_ready_status = None\<rparr>"

definition relay_response ::
  "str \<Rightarrow> nat option \<Rightarrow> (gateway_error + packets option) list \<Rightarrow> ('f, 'b, unit) op" where
  "relay_response ctype idx relay g =
     (let skip_z = (ss_pg_extended_query (g_session g) \<and> ctype \<noteq> ''PG_BACKEND_SYNC'')
      in case write_wire_relay_observed relay skip_z observation_default (out_writer (g_out g)) of
           (Inl e, w) \<Rightarrow> Some (Done (Inl e, g\<lparr>g_out := (g_out g)\<lparr>out_writer := w\<rparr>\<rparr>))
         | (Inr ob, w) \<Rightarrow>
             (case relay_path ctype (relay_session ob (g_session g)) of
                (path, s) \<Rightarrow>
                  act_then (record_event (EvAudit ''execute'' path)) (release_permit idx)
                    (g\<lparr>g_out := (g_out g)\<lparr>out_writer := w\<rparr>, g_session := s\<rparr>)))"

text \<open>The obligations of a page: the client's page size is folded into the row limit.\<close>

definition page_obligations :: "session_state \<Rightarrow> obligations \<Rightarrow> obligations" where
  "page_obligations s ob =
     (case ss_pg_execute_max_rows s of
        None \<Rightarrow> ob
      | Some page \<Rightarrow> ob\<lparr>max_rows := Some (case max_rows ob of Some m \<Rightarrow> min m page | None \<Rightarrow> page)\<rparr>)"

definition wants_hold :: "session_state \<Rightarrow> bool" where
  "wants_hold s \<longleftrightarrow> ss_pg_execute_max_rows s \<noteq> None \<and> ss_pg_portal_name s \<noteq> None \<and> ss_pg_extended_query s"

definition map_stream_columns :: "('f, 'b) gw_env \<Rightarrow> streaming_query \<Rightarrow> streaming_query" where
  "map_stream_columns V q =
     (if v_translation V \<noteq> None \<and> v_backend_protocol V \<noteq> fe_protocol (v_frontend V)
      then q\<lparr>sq_columns := map_columns (sq_columns q) (v_backend_protocol V) (fe_protocol (v_frontend V))\<rparr> else q)"

text \<open>The portal after a page, and the flags of one execution cleared.\<close>

definition after_page :: "encode_stats \<Rightarrow> streaming_query option \<Rightarrow> ('f, 'b) gw \<Rightarrow> ('f, 'b) gw" where
  "after_page st kept g =
     (let s = g_session g;
          g1 = (if es_hold_remainder st
                then g\<lparr>g_held := kept, g_session := s\<lparr>ss_pg_portal_skip_rows := 0\<rparr>\<rparr>
                else if es_truncated st \<and> ss_pg_execute_max_rows s \<noteq> None \<and> ss_pg_portal_name s \<noteq> None
                then g\<lparr>g_held := None, g_session := s\<lparr>ss_pg_portal_skip_rows :=
                        saturating_add64 (ss_pg_portal_skip_rows s) (es_total_rows st)\<rparr>\<rparr>
                else if ss_pg_portal_name s \<noteq> None
                then g\<lparr>g_held := None, g_session := s\<lparr>ss_pg_portal_skip_rows := 0, ss_pg_portal_name := None\<rparr>\<rparr>
                else g)
      in g1\<lparr>g_session := (g_session g1)\<lparr>ss_prefer_binary_result := False, ss_pg_execute_max_rows := None,
              ss_result_truncated := False\<rparr>\<rparr>)"

definition stream_response ::
  "('f, 'b) gw_env \<Rightarrow> nat option \<Rightarrow> execute_mode \<Rightarrow> obligations \<Rightarrow> streaming_query \<Rightarrow> ('f, 'b, unit) op" where
  "stream_response V idx mode ob q g0 =
     (let window = max (case mode_window_rows mode of Some w \<Rightarrow> w | None \<Rightarrow> 256) 1;
          encode_obl = page_obligations (g_session g0) ob;
          hold = wants_hold (g_session g0);
          g = (if hold then g0\<lparr>g_session := (g_session g0)\<lparr>ss_pg_portal_skip_rows := 0\<rparr>\<rparr> else g0)
      in case write_streaming_query_with_obligations (v_frontend V) (v_f64 V) (g_session g) (map_stream_columns V q) window
                (if has_result_obligations encode_obl then Some encode_obl else None) hold (g_out g) of
           (Inl e, out) \<Rightarrow> Some (Done (Inl e, g\<lparr>g_out := out\<rparr>))
         | (Inr (st, kept), out) \<Rightarrow>
             act_then (record_event (EvAudit ''execute'' ''resultset'')) (release_permit idx)
               (after_page st kept (g\<lparr>g_out := out\<rparr>)))"

definition error_session :: "('f, 'b) gw_env \<Rightarrow> gateway_response \<Rightarrow> session_state \<Rightarrow> session_state" where
  "error_session V response s =
     (case response of
        RspError _ _ \<Rightarrow>
          if fe_protocol (v_frontend V) = PostgreSql
          then fail_transaction (if ss_pg_extended_query s then s\<lparr>ss_pg_extended_error := True\<rparr> else s) else s
      | _ \<Rightarrow> s)"

definition drop_cursors_after :: "gateway_command \<Rightarrow> named_cursors \<Rightarrow> named_cursors" where
  "drop_cursors_after command cs =
     (if command = Quit then Map.empty
      else if command = Commit \<or> command = Rollback then drop_non_hold cs else cs)"

text \<open>
  \<open>command\<close> is the command before the plugins, as in the source, which takes the cursor flags there.
\<close>

definition complete_response ::
  "('f, 'b) gw_env \<Rightarrow> gateway_command \<Rightarrow> nat option \<Rightarrow> gateway_response \<Rightarrow> ('f, 'b, unit) op" where
  "complete_response V command idx response =
     act_then (update_session (error_session V response))
       (act_then (record_event (EvAudit ''execute'' (response_outcome (v_translation V \<noteq> None) response)))
         (act_then (release_permit idx)
           (act_then (encode_response_to_writer V response)
             (act_modify (\<lambda>g. g\<lparr>g_cursors := drop_cursors_after command (g_cursors g)\<rparr>)))))"

definition deliver ::
  "('f, 'b) gw_env \<Rightarrow> gateway_command \<Rightarrow> nat option \<Rightarrow> execute_mode \<Rightarrow> obligations \<Rightarrow> gateway_error + execute_outcome
     \<Rightarrow> ('f, 'b, unit) op" where
  "deliver V command idx mode ob r =
     (case r of
        Inl error \<Rightarrow> complete_response V command idx (RspError ''gateway_error'' (gateway_error_text error))
      | Inr (OutWireRelay relay) \<Rightarrow> relay_response (command_metric_type command) idx relay
      | Inr (OutStreaming q) \<Rightarrow> stream_response V idx mode ob q
      | Inr (OutComplete response) \<Rightarrow>
          act_then (act_modify (\<lambda>g. if has_result_obligations ob then g\<lparr>g_pending := Some ob\<rparr> else g))
            (complete_response V command idx
              (case response of
                 RspWire _ \<Rightarrow> response
               | other \<Rightarrow> map_response_types other (v_backend_protocol V) (fe_protocol (v_frontend V)))))"

section \<open>Frames\<close>

definition guarded_command :: "('f, 'b) gw_env \<Rightarrow> command_world \<Rightarrow> gateway_command \<Rightarrow> ('f, 'b, unit) op" where
  "guarded_command V w command =
     act_go (plugin_stage V w command) (\<lambda>(c1, idx).
     act_go (translation_stage V c1) (\<lambda>c2.
     act_go (authorize_stage V w idx c2) (\<lambda>(c3, ob).
       act_bind (execute_stage V c3 (exec_mode V c3 ob)) (deliver V command idx (exec_mode V c3 ob) ob))))"

definition cursor_statement :: "gateway_command \<Rightarrow> named_cursor_sql option" where
  "cursor_statement command = (case command of Query sql \<Rightarrow> parse_named_cursor_sql sql | _ \<Rightarrow> None)"

definition process_command :: "('f, 'b) gw_env \<Rightarrow> command_world \<Rightarrow> gateway_command \<Rightarrow> ('f, 'b, unit) op" where
  "process_command V w command =
     (case dangerous_command_capability command (fe_protocol (v_frontend V)) of
        Some cap \<Rightarrow> reject_unsupported_capability V cap
      | None \<Rightarrow>
          act_then (route_command w command)
            (case cursor_statement command of
               Some kind \<Rightarrow> handle_named_cursor_sql V kind
             | None \<Rightarrow> guarded_command V w command))"

text \<open>The commands of a frame in order; \<open>world\<close> is what the n-th of them reads.\<close>

fun process_commands ::
  "('f, 'b) gw_env \<Rightarrow> (nat \<Rightarrow> command_world) \<Rightarrow> nat \<Rightarrow> gateway_command list \<Rightarrow> ('f, 'b, unit) op" where
  "process_commands V world n [] = act_return ()"
| "process_commands V world n (c # cs) =
     act_then (process_command V (world n) c) (process_commands V world (Suc n) cs)"

definition handle_frame_inner :: "('f, 'b) gw_env \<Rightarrow> (nat \<Rightarrow> command_world) \<Rightarrow> str \<Rightarrow> ('f, 'b, unit) op" where
  "handle_frame_inner V world bytes g0 =
     (let g = g0\<lparr>g_pending := None\<rparr>
      in case fe_decode (v_frontend V) (out_fe (g_out g)) bytes (g_session g) of
           (r, f, s) \<Rightarrow>
             let g' = g\<lparr>g_out := (g_out g)\<lparr>out_fe := f\<rparr>, g_session := s\<rparr>
             in case r of
                  Inr commands \<Rightarrow> process_commands V world 0 commands g'
                | Inl (EUnsupported code) \<Rightarrow>
                    (case capability_from_code code of
                       None \<Rightarrow> Some (Done (Inl (EUnsupported code), g'))
                     | Some cap \<Rightarrow> reject_unsupported_capability V cap g')
                | Inl error \<Rightarrow> Some (Done (Inl error, g')))"

end
