(* ===== verification/Engine_Safety.thy ===== *)
theory Engine_Safety
  imports Engine
begin

text \<open>
  What the engine guarantees about a frame: what reaches the backend was decided by the PDP, unsupported
  statements never reach it, raw packets are relayed only where no result obligation applies, permits are
  returned, and rows leave under their obligations.

  Relations that every step of an operation respects are composed once, in the locale \<open>step_order\<close>.
\<close>

section \<open>Composing operations\<close>

lemma act_bind_Done:
  "act_bind m f g = Some (Done (r, g')) \<longleftrightarrow>
     (\<exists>e. m g = Some (Done (Inl e, g')) \<and> r = Inl e) \<or>
     (\<exists>a g1. m g = Some (Done (Inr a, g1)) \<and> f a g1 = Some (Done (r, g')))"
  by (auto simp: act_bind_def split: option.splits run.splits sum.splits)

lemma act_then_Done:
  "act_then m n g = Some (Done (r, g')) \<longleftrightarrow>
     (\<exists>e. m g = Some (Done (Inl e, g')) \<and> r = Inl e) \<or>
     (\<exists>g1. m g = Some (Done (Inr (), g1)) \<and> n g1 = Some (Done (r, g')))"
  by (auto simp: act_then_def act_bind_Done)

lemma act_simple [simp]:
  "act_return a g = Some (Done (r, g')) \<longleftrightarrow> r = Inr a \<and> g' = g"
  "act_fail e g = Some (Done (s, g')) \<longleftrightarrow> s = Inl e \<and> g' = g"
  "act_get f g = Some (Done (t, g')) \<longleftrightarrow> t = Inr (f g) \<and> g' = g"
  "act_modify h g = Some (Done (u, g')) \<longleftrightarrow> u = Inr () \<and> g' = h g"
  by (auto simp: act_return_def act_fail_def act_get_def act_modify_def)

definition act_rel :: "('s \<Rightarrow> 's \<Rightarrow> bool) \<Rightarrow> ('s, 'a) act \<Rightarrow> bool" where
  "act_rel R m \<longleftrightarrow> (\<forall>g r g'. m g = Some (Done (r, g')) \<longrightarrow> R g g')"

lemma act_relI: "(\<And>g r g'. m g = Some (Done (r, g')) \<Longrightarrow> R g g') \<Longrightarrow> act_rel R m"
  by (auto simp: act_rel_def)

lemma act_relD: "act_rel R m \<Longrightarrow> m g = Some (Done (r, g')) \<Longrightarrow> R g g'"
  by (auto simp: act_rel_def)

locale step_order =
  fixes R :: "'s \<Rightarrow> 's \<Rightarrow> bool"
  assumes R_refl: "R g g"
    and R_trans: "R a b \<Longrightarrow> R b c \<Longrightarrow> R a c"
begin

lemma rel_return: "act_rel R (act_return a)" "act_rel R (act_fail e)" "act_rel R (act_get f)"
  by (auto simp: act_rel_def R_refl)

lemma rel_bind: "act_rel R m \<Longrightarrow> (\<And>a. act_rel R (f a)) \<Longrightarrow> act_rel R (act_bind m f)"
  unfolding act_rel_def act_bind_Done by (blast intro: R_trans)

lemma rel_then: "act_rel R m \<Longrightarrow> act_rel R n \<Longrightarrow> act_rel R (act_then m n)"
  unfolding act_then_def by (rule rel_bind)

lemma rel_go: "act_rel R m \<Longrightarrow> (\<And>a. act_rel R (f a)) \<Longrightarrow> act_rel R (act_go m f)"
  unfolding act_go_def by (rule rel_bind) (auto intro: rel_return split: stage.split)

lemmas rel_intros = rel_return rel_bind rel_then rel_go

end

section \<open>What an operation leaves alone\<close>

text \<open>Nothing was decided, sent or spent: the log, the backend, the tickets, the permits and the policy stay.\<close>

definition quiet :: "('f, 'b) gw \<Rightarrow> ('f, 'b) gw \<Rightarrow> bool" where
  "quiet g g' \<longleftrightarrow> g_log g' = g_log g \<and> g_backend g' = g_backend g \<and> g_tickets g' = g_tickets g \<and>
     g_plugins g' = g_plugins g \<and> g_route g' = g_route g \<and>
     ss_backend_endpoint (g_session g') = ss_backend_endpoint (g_session g)"

interpretation quiet: step_order quiet
  by unfold_locales (auto simp: quiet_def)

lemma quiet_encode_plain: "act_rel quiet (encode_plain V response)"
  by (rule act_relI) (auto simp: encode_plain_def quiet_def reset_binary_def split: prod.splits sum.splits)

lemma quiet_encode: "act_rel quiet (encode_response_to_writer V response)"
proof (rule act_relI)
  fix g r g' assume "encode_response_to_writer V response g = Some (Done (r, g'))"
  then show "quiet g g'"
    by (cases response)
      (auto simp: encode_response_to_writer_def Let_def quiet_def reset_binary_def split: prod.splits sum.splits if_splits
        dest!: act_relD [OF quiet_encode_plain, unfolded quiet_def])
qed

lemma quiet_session:
  "(\<And>s. ss_backend_endpoint (f s) = ss_backend_endpoint s) \<Longrightarrow> act_rel quiet (update_session f)"
  by (auto simp: act_rel_def update_session_def quiet_def)

lemma mark_endpoint [simp]:
  "ss_backend_endpoint (fail_transaction s) = ss_backend_endpoint s"
  "ss_backend_endpoint (mark_extended_error V s) = ss_backend_endpoint s"
  by (simp_all add: fail_transaction_def mark_extended_error_def)

lemma quiet_cursor_error: "act_rel quiet (cursor_error V code message)"
  unfolding cursor_error_def by (intro quiet.rel_then quiet_session quiet_encode) simp

lemma quiet_cursors: "act_rel quiet (act_modify (\<lambda>g. g\<lparr>g_cursors := f (g_cursors g)\<rparr>))"
  by (auto simp: act_rel_def quiet_def)

lemma quiet_translation: "act_rel quiet (translation_stage V command)"
  unfolding translation_stage_def
  by (auto intro!: quiet.rel_intros quiet_session quiet_encode split: option.splits sum.splits)

text \<open>
  A relation that quiet steps respect, and that a cursor's statement and the backend's health check respect, holds
  across every operation on cursors.
\<close>

locale engine_order = step_order R
  for R :: "('f, 'b) gw \<Rightarrow> ('f, 'b) gw \<Rightarrow> bool" +
  assumes quiet_R: "quiet g g' \<Longrightarrow> R g g'"
    and backend_R: "R g (g\<lparr>g_backend := b\<rparr>)"
    and declared_R: "R g (g\<lparr>g_backend := b, g_session := s, g_log := g_log g @ [EvDeclare sql]\<rparr>)"
begin

lemma rel_quiet: "act_rel quiet m \<Longrightarrow> act_rel R m"
  by (auto simp: act_rel_def quiet_R)

lemma rel_declared: "act_rel R (call_backend V (EvDeclare sql) command mode)"
  by (auto simp: act_rel_def call_backend_def declared_R split: prod.splits)

lemma rel_health: "act_rel R (\<lambda>g. case v_health V (g_backend g) of (r, b) \<Rightarrow> Some (Done (Inr r, g\<lparr>g_backend := b\<rparr>)))"
  by (auto simp: act_rel_def backend_R split: prod.splits)

lemmas rel_cursor_intros = rel_intros rel_declared rel_health rel_quiet [OF quiet_encode] rel_quiet [OF quiet_cursor_error]
  rel_quiet [OF quiet_cursors] rel_quiet [OF quiet_session]

lemma rel_store: "act_rel R (store_cursor V name with_hold q)"
  unfolding store_cursor_def by (intro rel_cursor_intros)

lemma rel_declare: "act_rel R (handle_declare V name sql with_hold)"
  unfolding handle_declare_def
  by (auto intro!: rel_cursor_intros rel_store split: sum.splits execute_outcome.splits gateway_response.splits)

lemma rel_fetch: "act_rel R (handle_fetch V name count)"
  unfolding handle_fetch_def
  by (auto intro!: rel_cursor_intros split: option.splits sum.splits prod.splits)

lemma rel_close: "act_rel R (handle_close V name)"
  unfolding handle_close_def by (auto intro!: rel_cursor_intros)

lemma rel_cursor: "act_rel R (handle_named_cursor_sql V kind)"
  by (cases kind) (auto intro: rel_declare rel_fetch rel_close rel_cursor_intros)

end

section \<open>The log of a frame\<close>

definition allowed_as :: "('f, 'b) gw_env \<Rightarrow> security_decision \<Rightarrow> gateway_command \<Rightarrow> gateway_command \<Rightarrow> execute_mode \<Rightarrow> bool" where
  "allowed_as V d c0 c m \<longleftrightarrow>
     (case d of
        Allow ob \<Rightarrow> c = c0 \<and> m = exec_mode V c ob
      | AllowRewrite sql ob \<Rightarrow> c = replace_sql c0 sql \<and> m = exec_mode V c ob
      | _ \<Rightarrow> False)"

text \<open>Every command sent to the backend comes right after a decision that allows it, in the mode of that decision.\<close>

fun authorized_log ::
  "('f, 'b) gw_env \<Rightarrow> (gateway_command \<times> security_decision) option \<Rightarrow> engine_event list \<Rightarrow> bool" where
  "authorized_log V prev [] \<longleftrightarrow> True"
| "authorized_log V prev (EvDecision c d # es) \<longleftrightarrow> authorized_log V (Some (c, d)) es"
| "authorized_log V prev (EvExecute c m # es) \<longleftrightarrow>
     (case prev of Some (c0, d) \<Rightarrow> allowed_as V d c0 c m | None \<Rightarrow> False) \<and> authorized_log V None es"
| "authorized_log V prev (EvDeclare sql # es) \<longleftrightarrow> authorized_log V None es"
| "authorized_log V prev (EvAudit d o' # es) \<longleftrightarrow> authorized_log V None es"

lemma authorized_log_any: "authorized_log V None es \<Longrightarrow> authorized_log V prev es"
  by (cases "(V, prev, es)" rule: authorized_log.cases) auto

lemma authorized_log_append: "authorized_log V prev a \<Longrightarrow> authorized_log V None b \<Longrightarrow> authorized_log V prev (a @ b)"
  by (induction V prev a rule: authorized_log.induct) (auto intro: authorized_log_any)

text \<open>A decision of the log is what the PDP answered for the command in one of the frame's policies.\<close>

definition pdp_answer :: "('f, 'b) gw_env \<Rightarrow> command_world \<Rightarrow> gateway_command \<Rightarrow> security_decision \<Rightarrow> bool" where
  "pdp_answer V w c d \<longleftrightarrow>
     (\<exists>user database st st'. authorize_command_with_objects (cw_view w) (cw_pdp w) (dia_leading_keyword (v_dialect V))
        (from_protocol_user user database) (v_service V) c
        (map_option (\<lambda>sql. v_extract V sql (protocol_as_str (fe_protocol (v_frontend V)))) (command_sql c)) st = Done (d, st'))"

definition decisions_ok :: "('f, 'b) gw_env \<Rightarrow> (nat \<Rightarrow> command_world) \<Rightarrow> engine_event list \<Rightarrow> bool" where
  "decisions_ok V world es \<longleftrightarrow> (\<forall>c d. EvDecision c d \<in> set es \<longrightarrow> (\<exists>n. pdp_answer V (world n) c d))"

definition log_step :: "('f, 'b) gw_env \<Rightarrow> (nat \<Rightarrow> command_world) \<Rightarrow> ('f, 'b) gw \<Rightarrow> ('f, 'b) gw \<Rightarrow> bool" where
  "log_step V world g g' \<longleftrightarrow>
     (\<exists>es. g_log g' = g_log g @ es \<and> authorized_log V None es \<and> decisions_ok V world es)"

interpretation logged: engine_order "log_step V world"
proof
  show "log_step V world g g" for g :: "('a, 'b) gw" by (auto simp: log_step_def decisions_ok_def)
  show "log_step V world a c" if "log_step V world a b" "log_step V world b c" for a b c :: "('a, 'b) gw"
    using that unfolding log_step_def decisions_ok_def
    by (metis (no_types, opaque_lifting) append.assoc authorized_log_append set_append Un_iff)
qed (auto simp: log_step_def decisions_ok_def quiet_def)

lemma logged_event: "ev = EvAudit a b \<or> ev = EvDeclare sql \<Longrightarrow> act_rel (log_step V world) (record_event ev)"
  by (auto simp: act_rel_def record_event_def log_step_def decisions_ok_def)

lemma log_same: "(\<And>g r g'. m g = Some (Done (r, g')) \<Longrightarrow> g_log g' = g_log g) \<Longrightarrow> act_rel (log_step V world) m"
  by (fastforce simp: act_rel_def log_step_def decisions_ok_def)

lemma logged_modify: "(\<And>g. g_log (f g) = g_log g) \<Longrightarrow> act_rel (log_step V world) (act_modify f)"
  by (auto simp: act_rel_def log_step_def decisions_ok_def)

lemma logged_session: "act_rel (log_step V world) (update_session f)"
  unfolding update_session_def by (rule logged_modify) simp

lemma logged_release: "act_rel (log_step V world) (release_permit idx)"
  by (rule log_same) (auto simp: release_permit_def run_bind_Done_iff split: option.splits)

lemma route_command_Done:
  assumes "route_command w command g = Some (Done (r, g'))"
  obtains "g_route g = None" "r = Inr ()" "g' = g"
  | p p' e where "g_route g = Some p" "r = Inl e" "g' = g\<lparr>g_route := Some p'\<rparr>"
  | p p' pl s where "g_route g = Some p" "plan_command (cw_draw w) p command (g_session g) = Some (Done (Inr pl, p'))"
      "apply_route_plan pl (g_session g) = Inr s" "r = Inr ()" "g' = g\<lparr>g_route := Some p', g_session := s\<rparr>"
proof (cases "g_route g")
  case None
  with assms show thesis by (intro that(1)) (auto simp: route_command_def)
next
  case (Some p)
  obtain x where x: "plan_command (cw_draw w) p command (g_session g) = Some x"
    using assms Some by (cases "plan_command (cw_draw w) p command (g_session g)") (simp_all add: route_command_def)
  obtain plan p' where z: "plan_command (cw_draw w) p command (g_session g) = Some (Done (plan, p'))"
    using assms Some x by (cases x) (auto simp: route_command_def)
  show thesis
  proof (cases plan)
    case (Inl e)
    with assms Some z show thesis by (intro that(2)) (auto simp: route_command_def)
  next
    case (Inr pl)
    show thesis
    proof (cases "apply_route_plan pl (g_session g)")
      case (Inl e)
      with Inr assms Some z show thesis by (intro that(2)) (auto simp: route_command_def)
    next
      case s: (Inr s)
      with Inr assms Some z show thesis by (intro that(3)) (auto simp: route_command_def)
    qed
  qed
qed

lemma logged_route: "act_rel (log_step V world) (route_command w command)"
  by (rule log_same) (auto elim!: route_command_Done)

lemmas logged_intros = logged.rel_intros logged_modify logged_session logged_release logged_route
  logged_event logged.rel_quiet [OF quiet_encode]

lemma logged_reject: "act_rel (log_step V world) (reject_unsupported_capability V cap)"
  unfolding reject_unsupported_capability_def by (intro logged_intros) simp

lemma logged_plugin: "act_rel (log_step V world) (plugin_stage V w command)"
  by (rule log_same)
    (auto simp: plugin_stage_def Let_def act_then_Done split: option.splits plugin_decision.splits prod.splits
      dest!: act_relD [OF quiet_encode, unfolded quiet_def])

lemma logged_relay: "act_rel (log_step V world) (relay_response ctype idx relay)"
proof (rule act_relI)
  fix g g' :: "('a, 'b) gw" and r assume a: "relay_response ctype idx relay g = Some (Done (r, g'))"
  obtain x w where x: "write_wire_relay_observed relay (ss_pg_extended_query (g_session g) \<and> ctype \<noteq> ''PG_BACKEND_SYNC'')
      observation_default (out_writer (g_out g)) = (x, w)" by fastforce
  show "log_step V world g g'"
  proof (cases x)
    case (Inl e)
    with a x show ?thesis by (auto simp: relay_response_def Let_def log_step_def decisions_ok_def)
  next
    case (Inr ob)
    obtain path s where p: "relay_path ctype (relay_session ob (g_session g)) = (path, s)" by fastforce
    have "act_rel (log_step V world) (act_then (record_event (EvAudit ''execute'' path)) (release_permit idx :: ('a, 'b, unit) op))"
      by (intro logged_intros) simp
    from act_relD [OF this] a x Inr p show ?thesis by (fastforce simp: relay_response_def Let_def log_step_def)
  qed
qed

lemma after_page_keeps [simp]:
  "g_log (after_page st kept g) = g_log g" "g_backend (after_page st kept g) = g_backend g"
  "g_plugins (after_page st kept g) = g_plugins g" "g_out (after_page st kept g) = g_out g"
  "g_route (after_page st kept g) = g_route g"
  "ss_backend_endpoint (g_session (after_page st kept g)) = ss_backend_endpoint (g_session g)"
  by (simp_all add: after_page_def Let_def)

lemma logged_stream: "act_rel (log_step V world) (stream_response V idx mode ob q)"
proof (rule act_relI)
  fix g g' :: "('a, 'b) gw" and r assume a: "stream_response V idx mode ob q g = Some (Done (r, g'))"
  have t: "act_rel (log_step V world) (act_then (record_event (EvAudit ''execute'' ''resultset'')) (release_permit idx :: ('a, 'b, unit) op))"
    by (intro logged_intros) simp
  from a show "log_step V world g g'"
    by (auto simp: stream_response_def Let_def log_step_def decisions_ok_def split: prod.splits sum.splits
        dest!: act_relD [OF t, unfolded log_step_def decisions_ok_def])
qed

lemma logged_complete: "act_rel (log_step V world) (complete_response V command idx response)"
  unfolding complete_response_def by (intro logged_intros) simp_all

lemma logged_deliver: "act_rel (log_step V world) (deliver V command idx mode ob r)"
  unfolding deliver_def
  by (auto intro!: logged_intros logged_complete logged_relay logged_stream split: sum.splits execute_outcome.splits)

lemma refuse_never_goes:
  "act_rel (log_step V world) (refuse V idx decision outcome code message)"
  "refuse V idx decision outcome code message g = Some (Done (r, g')) \<Longrightarrow> r \<noteq> Inr (Go a)"
  by (auto simp: refuse_def act_then_Done intro!: logged_intros)

text \<open>
  The PDP's answer: the command goes on as the decision says, with the decision as the last event, or it is
  refused.
\<close>

lemma authorize_stage_Done:
  assumes "authorize_stage V w idx c g = Some (Done (r, g'))" and "v_security V" and "w = world n"
  obtains (goes) d c' ob st where "r = Inr (Go (c', ob))" "pdp_answer V w c d" "allowed_as V d c c' (exec_mode V c' ob)"
      "d = Allow ob \<or> (\<exists>sql. d = AllowRewrite sql ob)"
      "g' = g\<lparr>g_tickets := st, g_log := g_log g @ [EvDecision c d]\<rparr>"
  | (refused) "\<And>a. r \<noteq> Inr (Go a)" "log_step V world g g'"
proof -
  note ret = goes refused
  obtain d st where d: "authorize_command_with_objects (cw_view w) (cw_pdp w) (dia_leading_keyword (v_dialect V))
      (from_protocol_user (ss_user (g_session g)) (ss_database (g_session g))) (v_service V) c
      (map_option (\<lambda>sql. v_extract V sql (protocol_as_str (fe_protocol (v_frontend V)))) (command_sql c)) (g_tickets g) = Done (d, st)"
    using assms(1,2) by (auto simp: authorize_stage_def split: run.splits)
  then have p: "pdp_answer V w c d" unfolding pdp_answer_def by blast
  let ?g = "g\<lparr>g_tickets := st, g_log := g_log g @ [EvDecision c d]\<rparr>"
  have decided: "log_step V world g ?g" using p assms(3) by (auto simp: log_step_def decisions_ok_def)
  have refused: thesis if "refuse V idx a b x y ?g = Some (Done (r, g'))" for a b x y
  proof (rule ret(2))
    show "r \<noteq> Inr (Go z)" for z using refuse_never_goes(2) [OF that] .
    show "log_step V world g g'"
      using logged.R_trans [OF decided act_relD [OF refuse_never_goes(1) that]] .
  qed
  show thesis
  proof (cases d)
    case (Allow ob)
    then have "r = Inr (Go (c, ob))" "g' = ?g" using assms(1,2) d by (auto simp: authorize_stage_def)
    with Allow p show thesis by (intro ret(1)) (auto simp: allowed_as_def)
  next
    case (AllowRewrite sql ob)
    then have "r = Inr (Go (replace_sql c sql, ob))" "g' = ?g" using assms(1,2) d by (auto simp: authorize_stage_def)
    with AllowRewrite p show thesis by (intro ret(1)) (auto simp: allowed_as_def)
  next
    case (RequireTicket rule ty m)
    then show thesis using assms(1,2) d refused by (auto simp: authorize_stage_def)
  next
    case (Deny rule m)
    then show thesis using assms(1,2) d refused by (auto simp: authorize_stage_def)
  qed
qed

lemma execute_stage_log:
  assumes "execute_stage V c m g = Some (Done (r, g'))"
  shows "g_log g' = g_log g \<or> g_log g' = g_log g @ [EvExecute c m]"
  using assms by (auto simp: execute_stage_def call_backend_def drop_stale_hold_def Let_def split: if_splits prod.splits)

text \<open>A command that goes on is executed right after its decision.\<close>

lemma logged_authorized:
  assumes "v_security V"
  shows "act_rel (log_step V world) (act_go (authorize_stage V (world n) idx c2) (\<lambda>(c3, ob).
    act_bind (execute_stage V c3 (exec_mode V c3 ob)) (deliver V command idx (exec_mode V c3 ob) ob)))"
proof (rule act_relI)
  fix g g' :: "('a, 'b) gw" and r
  assume a: "act_go (authorize_stage V (world n) idx c2) (\<lambda>(c3, ob).
    act_bind (execute_stage V c3 (exec_mode V c3 ob)) (deliver V command idx (exec_mode V c3 ob) ob)) g = Some (Done (r, g'))"
  obtain r1 g1 where s: "authorize_stage V (world n) idx c2 g = Some (Done (r1, g1))"
    using a unfolding act_go_def act_bind_Done by blast
  show "log_step V world g g'"
    using s assms refl
  proof (cases rule: authorize_stage_Done)
    case (goes d c' ob st)
    let ?m = "exec_mode V c' ob"
    have b: "act_bind (execute_stage V c' ?m) (deliver V command idx ?m ob) g1 = Some (Done (r, g'))"
      using a s goes(1) by (auto simp: act_go_def act_bind_Done)
    then obtain r2 g2 where x: "execute_stage V c' ?m g1 = Some (Done (r2, g2))"
      and y: "g' = g2 \<or> log_step V world g2 g'"
      unfolding act_bind_Done by (metis act_relD logged_deliver)
    from y have y: "log_step V world g2 g'" by (auto intro: logged.R_refl)
    have "log_step V world g g2"
      using execute_stage_log [OF x] goes(2,3,5) by (auto simp: log_step_def decisions_ok_def)
    from logged.R_trans [OF this y] show ?thesis .
  next
    case refused
    then have "(\<exists>e. r1 = Inl e) \<or> r1 = Inr Stop"
      by (cases r1) (auto, metis stage.exhaust surj_pair)
    then have "g' = g1" using a s by (auto simp: act_go_def act_bind_Done)
    with refused show ?thesis by simp
  qed
qed

lemma logged_guarded: "v_security V \<Longrightarrow> act_rel (log_step V world) (guarded_command V (world n) command)"
  unfolding guarded_command_def
  by (auto intro!: logged.rel_go logged_plugin logged.rel_quiet [OF quiet_translation] logged_authorized)

lemma logged_process:
  assumes "v_security V"
  shows "act_rel (log_step V world) (process_command V (world n) command)"
  unfolding process_command_def
  by (auto intro!: logged_intros logged_reject logged.rel_cursor logged_guarded [OF assms] split: option.splits)

lemma logged_processes:
  assumes "v_security V"
  shows "act_rel (log_step V world) (process_commands V world n cs)"
  by (induction cs arbitrary: n) (auto intro!: logged_intros logged_process [OF assms])

text \<open>Before the commands of a frame run, the frontend has decoded it.\<close>

lemma handle_frame_Done:
  assumes "handle_frame_inner V world bytes g = Some (Done (r, g'))"
  obtains g1 cs where "process_commands V world 0 cs g1 = Some (Done (r, g'))" "g_log g1 = g_log g" "g_plugins g1 = g_plugins g"
  | g1 cap where "reject_unsupported_capability V cap g1 = Some (Done (r, g'))" "g_log g1 = g_log g" "g_plugins g1 = g_plugins g"
  | e where "r = Inl e" "g_log g' = g_log g" "g_plugins g' = g_plugins g"
proof -
  obtain x f s where d: "fe_decode (v_frontend V) (out_fe (g_out g)) bytes (g_session g) = (x, f, s)"
    by (metis prod.exhaust)
  let ?g = "g\<lparr>g_pending := None, g_out := (g_out g)\<lparr>out_fe := f\<rparr>, g_session := s\<rparr>"
  show thesis
  proof (cases x)
    case (Inr cs)
    then show thesis using assms d that(1) [of cs ?g] by (simp add: handle_frame_inner_def Let_def)
  next
    case (Inl e)
    then show thesis
      using assms d that(2) [of _ ?g] that(3)
      by (cases e) (auto simp: handle_frame_inner_def Let_def split: option.splits)
  qed
qed

lemma logged_frame:
  assumes "v_security V"
  shows "act_rel (log_step V world) (handle_frame_inner V world bytes)"
proof (rule act_relI)
  fix g g' :: "('a, 'b) gw" and r assume "handle_frame_inner V world bytes g = Some (Done (r, g'))"
  then show "log_step V world g g'"
  proof (cases rule: handle_frame_Done)
    case (1 g1 cs)
    with act_relD [OF logged_processes [OF assms] 1(1)] show ?thesis by (simp add: log_step_def)
  next
    case (2 g1 cap)
    with act_relD [OF logged_reject 2(1), of world] show ?thesis by (simp add: log_step_def)
  next
    case (3 e)
    then show ?thesis by (simp add: log_step_def decisions_ok_def)
  qed
qed

text \<open>The same, read off the log: what stands before an execution.\<close>

lemma authorized_log_split:
  "authorized_log V prev (pre @ EvExecute c m # post) \<Longrightarrow> pre \<noteq> [] \<or> prev = None \<Longrightarrow>
     \<exists>before c0 d. pre = before @ [EvDecision c0 d] \<and> allowed_as V d c0 c m"
proof (induction V prev pre rule: authorized_log.induct)
  case (2 V prev c' d es)
  show ?case
  proof (cases "es = []")
    case True
    with 2(2) show ?thesis by auto
  next
    case False
    with 2 obtain before c0 d0 where "es = before @ [EvDecision c0 d0]" "allowed_as V d0 c0 c m" by auto
    then show ?thesis by (intro exI [of _ "EvDecision c' d # before"]) auto
  qed
qed (auto intro: exI [where x = "_ # _"])

lemma allowed_as_iff:
  "allowed_as V d c0 c m \<longleftrightarrow> \<not> is_deny d \<and> m = exec_mode V c (decision_obligations d) \<and>
     c = (case d of AllowRewrite sql ob \<Rightarrow> replace_sql c0 sql | _ \<Rightarrow> c0)"
  by (cases d) (auto simp: allowed_as_def)

lemma passthrough_mode:
  "exec_mode V c ob = Passthrough \<Longrightarrow> v_stream_mode V \<noteq> Passthrough \<Longrightarrow>
     \<not> has_result_obligations ob \<and> v_translation V = None \<and> fe_protocol (v_frontend V) = v_backend_protocol V"
  by (auto simp: exec_mode_def want_passthrough_def from_streaming_config_def is_streaming_def split: if_splits execute_mode.splits)

section \<open>Unsupported statements\<close>

lemma reject_keeps:
  assumes "reject_unsupported_capability V cap g = Some (Done (r, g'))"
  shows "g_log g' = g_log g @ [EvAudit ''reject'' ''unsupported_operation''] \<and> g_backend g' = g_backend g \<and>
    g_tickets g' = g_tickets g \<and> g_plugins g' = g_plugins g \<and> g_route g' = g_route g"
  using assms
  by (auto simp: reject_unsupported_capability_def act_then_Done update_session_def record_event_def
      dest!: act_relD [OF quiet_encode, unfolded quiet_def])

section \<open>Permits\<close>

text \<open>
  A rule's permits are as before, or its window has expired in between and the permits were reset.
\<close>

definition permits_back :: "concurrency_instance list \<Rightarrow> concurrency_instance list \<Rightarrow> bool" where
  "permits_back cs ds \<longleftrightarrow>
     list_all2 (\<lambda>c d. ci_max_concurrency d = ci_max_concurrency c \<and>
       (ci_permits d = ci_permits c \<or> ci_permits d = ci_max_concurrency c)) cs ds"

definition permits_returned :: "plugin_phase option \<Rightarrow> plugin_phase option \<Rightarrow> bool" where
  "permits_returned =
     rel_option (\<lambda>p q. rel_option permits_back (pp_concurrency_control p) (pp_concurrency_control q))"

lemma permits_back_refl: "permits_back cs cs"
  by (simp add: permits_back_def list_all2_same)

lemma permits_back_trans: "permits_back a b \<Longrightarrow> permits_back b c \<Longrightarrow> permits_back a c"
  unfolding permits_back_def by (erule (1) list_all2_trans [rotated]) auto

lemma permits_returned_refl: "permits_returned a a"
  unfolding permits_returned_def by (intro option.rel_refl permits_back_refl)

lemma permits_returned_trans: "permits_returned a b \<Longrightarrow> permits_returned b c \<Longrightarrow> permits_returned a c"
  unfolding permits_returned_def
  by (cases a; cases b; cases c) (auto simp: option.rel_sel intro: permits_back_trans)

text \<open>What a command holds between the plugins and the end: the permit is back once it is released.\<close>

definition released :: "nat option \<Rightarrow> plugin_phase option \<Rightarrow> plugin_phase option \<Rightarrow> bool" where
  "released idx a b \<longleftrightarrow>
     (case (a, idx) of (Some p, Some i) \<Rightarrow> (\<exists>q. release_concurrency i p = Done q \<and> b = Some q) | _ \<Rightarrow> b = a)"

lemma admitted_and_released:
  assumes "plugin_evaluate rx now p cmd = (PdContinue idx, q)" and "released idx (Some q) b"
  shows "permits_returned (Some p) b"
proof -
  obtain ccs where e: "concurrency_is_allow rx now (pp_concurrency_control p) (match_text cmd) = ((idx, True), ccs)"
    "q = p\<lparr>pp_concurrency_control := ccs\<rparr>"
    using assms(1) by (auto simp: plugin_evaluate_def Let_def split: if_splits prod.splits bool.splits)
  show ?thesis
  proof (cases "pp_concurrency_control p")
    case None
    with e assms(2) show ?thesis by (auto simp: concurrency_is_allow_def released_def permits_returned_def)
  next
    case (Some cs)
    then obtain ds where ds: "ccs = Some ds" "concurrency_loop rx now (match_text cmd) 0 cs = ((idx, True), ds)"
      using e(1) by (auto simp: concurrency_is_allow_def split: prod.splits)
    from ds(2) show ?thesis
    proof (cases rule: concurrency_loop_cases)
      case no_rule
      with e ds Some assms(2) show ?thesis by (auto simp: released_def permits_returned_def permits_back_refl)
    next
      case (rule_at j c')
      from rule_at(3) have "idx = None \<and> c' = (cs ! j)\<lparr>ci_start_at := None, ci_permits := ci_max_concurrency (cs ! j)\<rparr> \<or>
          idx = Some j \<and> Suc (ci_permits c') = ci_permits (cs ! j) \<and> ci_max_concurrency c' = ci_max_concurrency (cs ! j)"
        by (auto simp: instance_admit_def try_acquire_def split: option.splits if_splits)
      then show ?thesis
        using e ds Some assms(2) rule_at(1,2)
        by (auto simp: released_def permits_returned_def release_concurrency_def add_permits_def run_bind_Done_iff
            permits_back_def list_all2_conv_all_nth nth_list_update split: if_splits)
    qed
  qed
qed

lemma refused_by_plugin:
  assumes "plugin_evaluate rx now p cmd = (PdReject code message, q)"
  shows "permits_returned (Some p) (Some q)"
proof -
  have c: "permits_back cs ds" if "concurrency_loop rx now inp 0 cs = ((idx, False), ds)" for inp cs idx ds
    using that
    by (auto elim!: concurrency_loop_cases simp: instance_admit_def try_acquire_def permits_back_def list_all2_conv_all_nth
        nth_list_update split: option.splits if_splits)
  show ?thesis using assms
    by (auto simp: plugin_evaluate_def Let_def concurrency_is_allow_def permits_returned_def permits_back_refl option.rel_refl c
       split: if_splits prod.splits bool.splits option.splits)
qed

text \<open>The operations between the plugins and the end either keep the permits or, when they succeed, release once.\<close>

lemma release_permit_released: "release_permit idx g = Some (Done (r, g')) \<Longrightarrow> released idx (g_plugins g) (g_plugins g')"
  by (auto simp: release_permit_def released_def run_bind_Done_iff split: option.splits)

lemma quiet_plugins: "act_rel quiet m \<Longrightarrow> m g = Some (Done (r, g')) \<Longrightarrow> g_plugins g' = g_plugins g"
  by (auto simp: act_rel_def quiet_def)

lemmas encode_plugins = quiet_plugins [OF quiet_encode]

lemma refuse_released:
  "refuse V idx d out code message g = Some (Done (Inr x, g')) \<Longrightarrow> x = Stop \<and> released idx (g_plugins g) (g_plugins g')"
  by (auto simp: refuse_def act_then_Done record_event_def dest!: encode_plugins release_permit_released)

lemma complete_released:
  "complete_response V command idx response g = Some (Done (Inr x, g')) \<Longrightarrow> released idx (g_plugins g) (g_plugins g')"
  by (auto simp: complete_response_def act_then_Done record_event_def update_session_def dest!: encode_plugins release_permit_released)

lemma relay_released:
  "relay_response ctype idx relay g = Some (Done (Inr x, g')) \<Longrightarrow> released idx (g_plugins g) (g_plugins g')"
  by (auto simp: relay_response_def Let_def act_then_Done record_event_def split: prod.splits sum.splits dest!: release_permit_released)

lemma stream_released:
  "stream_response V idx mode ob q g = Some (Done (Inr x, g')) \<Longrightarrow> released idx (g_plugins g) (g_plugins g')"
  by (auto simp: stream_response_def Let_def act_then_Done record_event_def split: prod.splits sum.splits if_splits dest!: release_permit_released)

lemma deliver_released:
  "deliver V command idx mode ob r g = Some (Done (Inr x, g')) \<Longrightarrow> released idx (g_plugins g) (g_plugins g')"
  by (auto simp: deliver_def act_then_Done split: sum.splits execute_outcome.splits if_splits
      dest!: complete_released relay_released stream_released)

lemma execute_stage_plugins: "execute_stage V c m g = Some (Done (r, g')) \<Longrightarrow> g_plugins g' = g_plugins g"
  by (auto simp: execute_stage_def call_backend_def drop_stale_hold_def Let_def split: if_splits prod.splits)

lemma authorize_stage_plugins:
  assumes "authorize_stage V w idx c g = Some (Done (Inr r, g'))"
  shows "(\<exists>a. r = Go a) \<and> g_plugins g' = g_plugins g \<or> r = Stop \<and> released idx (g_plugins g) (g_plugins g')"
  using assms
  by (auto simp: authorize_stage_def Let_def split: if_splits run.splits security_decision.splits
      dest!: refuse_released)

lemma tail_released:
  assumes "act_go (authorize_stage V w idx c2) (\<lambda>(c3, ob).
       act_bind (execute_stage V c3 (exec_mode V c3 ob)) (deliver V command idx (exec_mode V c3 ob) ob)) g = Some (Done (Inr x, g'))"
  shows "released idx (g_plugins g) (g_plugins g')"
proof -
  obtain r g1 where a: "authorize_stage V w idx c2 g = Some (Done (Inr r, g1))"
    and k: "(case r of Stop \<Rightarrow> act_return () | Go (c3, ob) \<Rightarrow>
       act_bind (execute_stage V c3 (exec_mode V c3 ob)) (deliver V command idx (exec_mode V c3 ob) ob)) g1 = Some (Done (Inr x, g'))"
    using assms by (auto simp: act_go_def act_bind_Done)
  from authorize_stage_plugins [OF a] k show ?thesis
    by (auto simp: act_bind_Done dest!: deliver_released execute_stage_plugins)
qed

lemma act_go_return: "act_go (act_return (Go a)) f g = f a g"
  by (simp add: act_go_def act_bind_def act_return_def)

lemma guarded_command_permits:
  assumes "guarded_command V w command g = Some (Done (Inr x, g'))" and "v_translation V = None"
  shows "permits_returned (g_plugins g) (g_plugins g')"
proof -
  let ?tail = "\<lambda>c idx. act_go (authorize_stage V w idx c) (\<lambda>(c3, ob).
       act_bind (execute_stage V c3 (exec_mode V c3 ob)) (deliver V command idx (exec_mode V c3 ob) ob))"
  obtain r g1 where a: "plugin_stage V w command g = Some (Done (Inr r, g1))"
    and k: "(case r of Stop \<Rightarrow> act_return () | Go (c, idx) \<Rightarrow> act_go (translation_stage V c) (\<lambda>c2. ?tail c2 idx)) g1 =
      Some (Done (Inr x, g'))"
    using assms(1) unfolding guarded_command_def act_go_def [of "plugin_stage V w command"] act_bind_Done by blast
  have t: "act_go (translation_stage V c) (\<lambda>c2. ?tail c2 idx) g1 = ?tail c idx g1" for c idx
    using assms(2) by (simp add: translation_stage_def act_go_return)
  show ?thesis
  proof (cases "g_plugins g")
    case None
    then show ?thesis using a k t tail_released [of V w None command command g x g'] by (auto simp: plugin_stage_def released_def intro: permits_returned_refl)
  next
    case (Some pp)
    obtain d q where d: "plugin_evaluate (v_regex V) (cw_now w) pp (summary_from_command command) = (d, q)" by fastforce
    show ?thesis
    proof (cases d)
      case (PdContinue idx)
      then have "r = Go (command, idx)" "g_plugins g1 = Some q" using a Some d by (auto simp: plugin_stage_def)
      then show ?thesis using k t tail_released [of V w idx command command g1 x g'] admitted_and_released d PdContinue Some by auto
    next
      case (PdReject code m)
      then have "r = Stop" "g_plugins g1 = Some q"
        using a Some d by (auto simp: plugin_stage_def act_then_Done dest!: encode_plugins)
      then show ?thesis using k refused_by_plugin d PdReject Some by fastforce
    next
      case (PdRewrite sql)
      then show ?thesis using d by (auto simp: plugin_evaluate_def Let_def split: if_splits prod.splits bool.splits)
    qed
  qed
qed

interpretation plugins_kept: engine_order "\<lambda>g g'. g_plugins g' = g_plugins g"
  by unfold_locales (auto simp: quiet_def)

lemma route_plugins: "act_rel (\<lambda>g g'. g_plugins g' = g_plugins g) (route_command w command)"
  by (rule act_relI) (auto elim!: route_command_Done)

lemma process_command_permits:
  assumes "process_command V w command g = Some (Done (Inr x, g'))" and "v_translation V = None"
  shows "permits_returned (g_plugins g) (g_plugins g')"
proof (cases "dangerous_command_capability command (fe_protocol (v_frontend V))")
  case (Some cap)
  then show ?thesis using assms(1) reject_keeps by (fastforce simp: process_command_def intro: permits_returned_refl)
next
  case None
  then obtain g1 where r: "route_command w command g = Some (Done (Inr (), g1))"
    and k: "(case cursor_statement command of Some kind \<Rightarrow> handle_named_cursor_sql V kind
      | None \<Rightarrow> guarded_command V w command) g1 = Some (Done (Inr x, g'))"
    using assms(1) by (auto simp: process_command_def act_then_Done)
  have "permits_returned (g_plugins g1) (g_plugins g')"
    using k guarded_command_permits [OF _ assms(2)] act_relD [OF plugins_kept.rel_cursor]
    by (cases "cursor_statement command") (fastforce intro: permits_returned_refl)+
  then show ?thesis using act_relD [OF route_plugins r] by simp
qed

lemma process_commands_permits:
  assumes "process_commands V world n cs g = Some (Done (Inr x, g'))" and "v_translation V = None"
  shows "permits_returned (g_plugins g) (g_plugins g')"
  using assms(1)
proof (induction cs arbitrary: n g)
  case (Cons c cs)
  then obtain g1 where "process_command V (world n) c g = Some (Done (Inr (), g1))"
    "process_commands V world (Suc n) cs g1 = Some (Done (Inr x, g'))"
    by (auto simp: act_then_Done)
  from permits_returned_trans [OF process_command_permits [OF this(1) assms(2)] Cons.IH [OF this(2)]] show ?case .
qed (auto intro: permits_returned_refl)

lemma frame_permits:
  assumes "handle_frame_inner V world bytes g = Some (Done (Inr x, g'))" and "v_translation V = None"
  shows "permits_returned (g_plugins g) (g_plugins g')"
  using assms(1)
proof (cases rule: handle_frame_Done)
  case (1 g1 cs)
  with process_commands_permits [OF 1(1) assms(2)] show ?thesis by simp
next
  case (2 g1 cap)
  with reject_keeps [OF 2(1)] show ?thesis by (auto intro: permits_returned_refl)
qed simp

section \<open>Portals\<close>

text \<open>One page of a portal: the rows up to the client's and the policy's limit, and the rest is held for the next.\<close>

lemma portal_page_sent:
  fixes g :: "('f, 'b) gw"
  assumes s_def: "s = (g_session g)\<lparr>ss_pg_portal_skip_rows := 0\<rparr>"
    and cx_def: "cx = streaming_ctx (v_f64 V) s (sq_columns q) window (Some (page_obligations (g_session g) ob)) True"
    and "window = max (case mode_window_rows mode of Some w \<Rightarrow> w | None \<Rightarrow> 256) 1"
    and "wants_hold (g_session g)" and "ss_pg_execute_max_rows (g_session g) = Some page" and "v_translation V = None"
    and "stream_ok (sq_stream q)" and "w_error (out_writer (g_out g)) = (\<lambda>_. None)"
    and "encodes (v_frontend V) (out_fe (g_out g)) s (sc_columns cx)
      (set (oblige_chunk (v_f64 V) cx (stream_rows (sq_stream q)))) hdr enc ftr"
    and "limit = (case max_rows ob of Some m \<Rightarrow> min m page | None \<Rightarrow> page)"
    and "rows = stream_rows (sq_stream q)"
  shows "\<exists>g'. stream_response V None mode ob q g = Some (Done (Inr (), g')) \<and>
     concat (w_batches (out_writer (g_out g'))) = concat (w_batches (out_writer (g_out g))) @ hdr @
       map enc (oblige_chunk (v_f64 V) cx (take limit rows)) @ ftr (min limit (length rows)) (limit < length rows) \<and>
     (case g_held g' of
        None \<Rightarrow> length rows \<le> limit
      | Some q' \<Rightarrow> limit < length rows \<and> stream_ok (sq_stream q') \<and> stream_rows (sq_stream q') = drop limit rows)"
proof -
  have ob: "max_rows (page_obligations (g_session g) ob) = Some limit" "has_result_obligations (page_obligations (g_session g) ob)"
    using assms(5,10) by (auto simp: page_obligations_def has_result_obligations_def split: option.splits)
  have "sc_max_total cx = Some limit" using ob(1) by (simp add: cx_def streaming_ctx_def Let_def)
  then have sent: "sent_rows cx encode_stats_default rows = take limit rows"
    by (simp add: sent_rows_def encode_stats_default_def)
  have skip: "ss_pg_portal_skip_rows s = 0" by (simp add: s_def)
  show ?thesis
  proof (rule write_streaming_encoded [OF cx_def assms(7,8,9) skip refl refl, unfolded assms(11) [symmetric] sent])
    fix st held w
    assume r: "write_streaming_query_with_obligations (v_frontend V) (v_f64 V) s q window
        (Some (page_obligations (g_session g) ob)) True (g_out g) = (Inr (st, held), (g_out g)\<lparr>out_writer := w\<rparr>)"
      and w: "concat (w_batches w) = concat (w_batches (out_writer (g_out g))) @ hdr @ map enc (oblige_chunk (v_f64 V) cx (take limit rows)) @
        ftr (length (take limit rows)) (length (take limit rows) < length rows)"
      and st: "es_hold_remainder st = (True \<and> length (take limit rows) < length rows)"
        "(held \<noteq> None) = (True \<and> length (take limit rows) < length rows)"
        "\<And>q'. held = Some q' \<Longrightarrow> sq_columns q' = sc_columns cx \<and> stream_ok (sq_stream q') \<and>
          stream_rows (sq_stream q') = drop (length (take limit rows)) rows"
        "es_truncated st = (length (take limit rows) < length rows)"
    let ?g = "g\<lparr>g_session := s, g_out := (g_out g)\<lparr>out_writer := w\<rparr>\<rparr>"
    let ?g' = "(after_page st held ?g)\<lparr>g_log := g_log g @ [EvAudit ''execute'' ''resultset'']\<rparr>"
    have "stream_response V None mode ob q g = Some (Done (Inr (), ?g'))"
      unfolding stream_response_def Let_def assms(3) [symmetric] map_stream_columns_def
      using r assms(4,6) ob(2) unfolding s_def
      by (simp add: act_then_def act_bind_def record_event_def act_modify_def release_permit_def split: option.split)
    moreover have "g_held ?g' = held"
      using st assms(4,5) by (auto simp: after_page_def Let_def s_def wants_hold_def)
    ultimately show ?thesis using w st
      by (intro exI [of _ ?g']) (auto simp: min_def split: option.splits)
  qed
qed

section \<open>Two gaps\<close>

text \<open>
  A cursor's statement is sent to the backend without plugins, translation, PDP or audit, and it need not be a
  query.
\<close>

lemma act_then_first: "m g = Some (Done (Inr (), g1)) \<Longrightarrow> act_then m n g = n g1"
  by (simp add: act_then_def act_bind_def)

lemma declare_bypasses_policy:
  assumes "g_route g = None" and "g_cursors g = Map.empty"
    and "v_execute V (g_backend g) (Query ''delete from t'') (g_session g) mode = (Inr (OutComplete (RspOk 1 None)), b, s)"
    and "mode = from_streaming_config (max (case mode_window_rows (v_stream_mode V) of Some w \<Rightarrow> w | None \<Rightarrow> 256) 1) None"
    and "process_command V w (Query ''declare c cursor for delete from t'') g = Some (Done (r, g'))"
  shows "g_log g' = g_log g @ [EvDeclare ''delete from t''] \<and> g_backend g' = b"
proof -
  have d: "dangerous_command_capability (Query ''declare c cursor for delete from t'') (fe_protocol (v_frontend V)) = None"
  proof (cases "fe_protocol (v_frontend V)")
    case MySql
    have "dangerous_command_capability (Query ''declare c cursor for delete from t'') MySql = None" by code_simp
    with MySql show ?thesis by simp
  next
    case PostgreSql
    have "dangerous_command_capability (Query ''declare c cursor for delete from t'') PostgreSql = None" by code_simp
    with PostgreSql show ?thesis by simp
  qed
  have "handle_declare V ''c'' ''delete from t'' False g = Some (Done (r, g'))"
    using assms(1,5) d by (simp add: process_command_def route_command_def act_then_first cursor_statement_def declare_accepts_any_statement)
  then show ?thesis
    using assms(2,3,4)
    by (auto simp: handle_declare_def act_bind_Done call_backend_def dest!: act_relD [OF quiet_encode, unfolded quiet_def])
qed

text \<open>A statement that the translation refuses keeps its permit.\<close>

lemma translation_error_keeps_permit:
  assumes "g_plugins g = Some p" and "plugin_evaluate (v_regex V) (cw_now w) p (summary_from_command command) = (PdContinue idx, q)"
    and "v_translation V = Some policy" and "prepare_cross_protocol_command policy command (v_dialect V) = Inl e"
    and "guarded_command V w command g = Some (Done (r, g'))"
  shows "g_plugins g' = Some q"
proof -
  have "plugin_stage V w command g = Some (Done (Inr (Go (command, idx)), g\<lparr>g_plugins := Some q\<rparr>))"
    using assms(1,2) by (simp add: plugin_stage_def)
  then have "\<exists>x g1. translation_stage V command (g\<lparr>g_plugins := Some q\<rparr>) = Some (Done (x, g1)) \<and> (g' = g1)"
    using assms(3-5)
    by (auto simp: guarded_command_def act_go_def act_bind_Done translation_stage_def act_then_Done)
  then show ?thesis using quiet_plugins [OF quiet_translation] by fastforce
qed

end
