(* ===== verification/Scenarios.thy ===== *)
theory Scenarios
  imports Findings Reconcile Transaction_Fsm Plugins Conn_Pool Vault Mysql_Login Pg_Codec Engine_Safety
begin

text \<open>
  Concrete configurations, requests and stores, with what the model evaluates to on them.  The
  properties of the root theory are instantiated here: a permissive policy, a high-risk rule with its
  ticket, a freeze window, a tenant row filter, a tagged column, a protected table, an issued ticket,
  two processes that share a policy file, a client that logs in, and a connection that handles a frame.
\<close>

definition open_pdp :: local_pdp where
  "open_pdp = empty_pdp\<lparr>p_rules := [plain_rule ''all'' ''allow'']\<rparr>"

lemma open_pdp_allows:
  "authorize_sql (\<lambda>_. open_pdp) plain_env leading_keyword alice ''svc'' ''SELECT 1'' None store_new =
     Done (Allow obligations_default, store_new)"
  by code_simp

definition ddl_rule :: high_risk_rule where
  "ddl_rule = \<lparr>hr_name = ''ddl-gate'', hr_kind = ''ddl'', hr_ticket_type = ''ddl'', hr_actions = [],
     hr_tables = [], hr_subjects = [], hr_message = []\<rparr>"

definition ddl_pdp :: local_pdp where
  "ddl_pdp = open_pdp\<lparr>p_high_risk_rules := [ddl_rule]\<rparr>"

definition ddl_sql :: str where "ddl_sql = ''/*dn_ticket:k*/DROP TABLE t''"

definition ddl_ticket :: ticket where
  "ddl_ticket = \<lparr>tk_id = ''k'', tk_type = ''ddl'', tk_subject = ''alice'', tk_fingerprint = ''drop table t'',
     tk_sample = None, issued_at = 0, expires_at = 10, max_uses = 1, uses = 0, issued_by = Some ''bob'',
     tk_note = None, dual_control = False, tk_status = TActive, approved_by = None, approved_at = None, rejected_by = None,
     reject_reason = None\<rparr>"

definition ddl_store :: ticket_store where
  "ddl_store = \<lparr>tickets = [(''k'', ddl_ticket)], seq = 2\<rparr>"

lemma ddl_facts:
  "request_objects None ddl_sql = ([''t''], [])"
  "match_high_risk [ddl_rule] alice ADdl ddl_sql None [''t''] = Done (Some ddl_rule)"
  "sql_fingerprint ddl_sql = Done ''drop table t''"
  "extract_ticket_id ddl_sql = Done (Some ''k'')"
  "from_keyword ''DROP'' = ADdl" "subject_id alice = ''alice''"
  by code_simp+

lemma ddl_pdp_sel:
  "p_fail_closed ddl_pdp" "p_high_risk_rules ddl_pdp = [ddl_rule]" "p_time_rules ddl_pdp = []"
  "p_cedar_required ddl_pdp = False" "p_remote ddl_pdp = None" "p_default_max_rows ddl_pdp = None"
  "\<not> has_column_rules ddl_pdp"
  "is_deny (evaluate (p_rules ddl_pdp)
      \<lparr>ar_subject = alice, ar_service = ''svc'', ar_action = ADdl, ar_tables = [''t''],
       ar_columns = [], ar_sql = Some ddl_sql\<rparr>) = False"
  by code_simp+

definition ddl_store_after :: ticket_store where
  "ddl_store_after = \<lparr>tickets = [(''k'', ddl_ticket\<lparr>uses := 1\<rparr>)], seq = 2\<rparr>"

lemma ddl_consume:
  "consume 5 ''k'' ''alice'' ddl_sql (Some ''ddl'') ddl_store =
     Done (Inr (ddl_ticket\<lparr>uses := 1\<rparr>, ddl_store_after))"
  by (simp add: consume_Inr_iff ddl_facts consumable_def type_ok_def ddl_ticket_def
      ddl_store_def get_ticket_def store_put_def ddl_store_after_def)

lemma ddl_allowed:
  "authorize_sql (\<lambda>_. ddl_pdp) (plain_env\<lparr>env_now_ms := 5\<rparr>) (\<lambda>_. Some ''DROP'') alice ''svc'' ddl_sql None ddl_store =
     Done (Allow obligations_default, ddl_store_after)"
proof -
  have "try_consume_ticket 5 alice ddl_sql ddl_rule ddl_store = Done (Inr ''k'', ddl_store_after)"
    by (simp add: try_consume_ticket_def present_ticket_def ddl_consume ddl_facts)
      (simp add: ddl_rule_def ddl_consume ddl_ticket_def)
  then show ?thesis
    by (simp add: stage_defs objects_unusable_def classify_def run_gates_def evaluate_cedar_def
        evaluate_remote_def evaluate_time_rules_def high_risk_gate_def ddl_facts ddl_pdp_sel Let_def
        del: match_high_risk.simps)
qed

lemma ddl_store_ok: "store_ok ddl_store"
  by (simp add: store_ok_def ddl_store_def ddl_ticket_def ticket_ok_def u32_max_def)

definition freeze_rule :: time_rule where
  "freeze_rule = time_rule_default\<lparr>tr_name := ''freeze'', tr_effect := ''deny'', tr_outside := False,
     tr_start := ''00:00'', tr_end := ''00:01'', tr_days := [], tr_timezone := ''UTC''\<rparr>"

definition freeze_pdp :: local_pdp where
  "freeze_pdp = open_pdp\<lparr>p_time_rules := [freeze_rule]\<rparr>"

lemma freeze_clock:
  "parse_hhmm ''00:00'' = Inr 0" "parse_hhmm ''00:01'' = Inr 1"
proof -
  have "trim ''00:00'' = ''00:00''" "trim ''00:01'' = ''00:01''" by code_simp+
  then show "parse_hhmm ''00:00'' = Inr 0" "parse_hhmm ''00:01'' = Inr 1"
    by (simp_all add: parse_hhmm_def parse_unsigned_def u32_max_def is_ascii_digit_def Let_def)
qed

lemma freeze_zone: "parse_timezone_offset_minutes 0 ''UTC'' = Inr 0"
proof -
  have "trim ''UTC'' = ''UTC''" "eq_ignore_ascii_case ''UTC'' ''utc''" by code_simp+
  then show ?thesis by (simp add: parse_timezone_offset_minutes_def Let_def)
qed

lemma freeze_actions: "action_matches_actions default_time_actions ADelete" by code_simp

lemma freeze_hits: "time_rule_hits plain_env alice ADelete None [''t''] freeze_rule"
  by (simp add: time_rule_hits_def freeze_rule_def time_rule_default_def freeze_clock freeze_zone freeze_actions
      matches_now_def plain_env_def is_inside_window_def)

lemma freeze_facts:
  "request_objects None ''DELETE FROM t'' = ([''t''], [])"
  "from_keyword ''DELETE'' = ADelete" "leading_keyword ''DELETE FROM t'' = Some ''DELETE''"
  "p_time_rules freeze_pdp = [freeze_rule]" "to_ascii_lowercase (tr_effect freeze_rule) = ''deny''"
  "p_cedar_required freeze_pdp = False" "p_remote freeze_pdp = None" "p_high_risk_rules freeze_pdp = []"
  "is_deny (evaluate (p_rules freeze_pdp)
      \<lparr>ar_subject = alice, ar_service = ''svc'', ar_action = ADelete, ar_tables = [''t''],
       ar_columns = [], ar_sql = Some ''DELETE FROM t''\<rparr>) = False"
  by code_simp+

definition tenant_rule :: security_rule where
  "tenant_rule = (plain_rule ''tenant'' ''allow'')\<lparr>sr_row_filter := Some ''tenant = 1''\<rparr>"

definition tenant_pdp :: local_pdp where
  "tenant_pdp = empty_pdp\<lparr>p_rules := [tenant_rule]\<rparr>"

lemma tenant_facts:
  "p_fail_closed tenant_pdp" "p_cedar_required tenant_pdp = False" "p_remote tenant_pdp = None"
  "p_high_risk_rules tenant_pdp = []" "p_time_rules tenant_pdp = []" "\<not> has_column_rules tenant_pdp"
  "request_objects None ''SELECT a FROM t'' = ([''t''], [])"
  "leading_keyword ''SELECT a FROM t'' = Some ''SELECT''" "from_keyword ''SELECT'' = ASelect"
  "collect_row_filter (p_rules tenant_pdp) alice ASelect None [''t''] = Some ''tenant = 1''"
  "inject_row_filter ''SELECT a FROM t'' ''tenant = 1'' = Done (Some ''SELECT a FROM t WHERE (tenant = 1)'')"
  "is_deny (evaluate (p_rules tenant_pdp)
      \<lparr>ar_subject = alice, ar_service = ''svc'', ar_action = ASelect, ar_tables = [''t''],
       ar_columns = [], ar_sql = Some ''SELECT a FROM t''\<rparr>) = False"
  by code_simp+

definition email_tag :: column_tag where
  "email_tag = \<lparr>ct_column = ''email'', ct_tables = [], ct_subjects = [], ct_mask_rule = ''hide'', ct_label = []\<rparr>"

definition hide_rule :: mask_rule where
  "hide_rule = \<lparr>mr_name = ''Hide'', mr_algorithm = ''nullify'', mr_replace_with = [], mr_prefix_len = 0, mr_suffix_len = 0\<rparr>"

definition demo_config :: security_config where
  "demo_config =
     \<lparr>cfg_enabled = True, cfg_fail_closed = True, cfg_star_policy = ''deny'', cfg_default_audit_level = ''L0'',
      cfg_subject_sources = [],
      cfg_pdp = \<lparr>pc_backend = ''local'', pc_policy_dir = [], pc_cache_epoch_reload = False, pc_subject_attrs = [],
        pc_table_attrs = [], pc_remote_url = [], pc_remote_timeout_ms = 1, pc_remote_token = [],
        pc_remote_fail_closed = True\<rparr>,
      cfg_streaming = \<lparr>st_window_rows = 1, st_max_rows = None, st_max_bytes = None, st_passthrough = False,
        st_backend_sql_with_hold = False\<rparr>,
      cfg_audit = \<lparr>au_queue_capacity = 1, au_overflow = ''block'', au_sample_enabled = False,
        au_sample_max_rows = 0, au_sample_max_bytes = 0\<rparr>,
      cfg_rules = [], cfg_mask_rules = [hide_rule], cfg_column_tags = [email_tag],
      cfg_high_risk_rules = [], cfg_time_rules = [], cfg_watermark = watermark_default,
      cfg_state = \<lparr>sc_backend = ''memory'', sc_ticket_path = [], sc_vault_path = [], sc_vault_encrypt_key = [],
        sc_ticket_encrypt_key = [], sc_policy_path = [], sc_policy_poll_ms = 0\<rparr>\<rparr>"

lemma demo_valid: "validate False 0 demo_config = Inr ()"
proof -
  have "to_ascii_lowercase ''deny'' = ''deny''" "to_ascii_lowercase ''column'' = ''column''"
    "to_ascii_lowercase (trim ''memory'') = ''memory''"
    "check_each validate_mask_rule [hide_rule] = Inr ()"
    "check_each (validate_column_tag [hide_rule]) [email_tag] = Inr ()"
    by code_simp+
  then show ?thesis
    by (simp add: validate_def demo_config_def watermark_default_def Let_def first_error_ok validate_pdp_def
        validate_audit_def validate_state_def validate_key_def check_each_ok)
qed

definition email_objects :: object_set where
  "email_objects =
     \<lparr>os_objects = [\<lparr>oa_schema = None, oa_table = ''u'', oa_columns = [''u.Email''], oa_op = ASelect,
                    oa_has_wildcard = False\<rparr>],
      os_parse_failed = False, os_heuristic = False\<rparr>"

definition demo_pdp :: local_pdp where
  "demo_pdp = pdp_from_config None demo_config"

lemma demo_facts:
  "request_objects (Some email_objects) ''SELECT u.Email FROM u'' = ([''u''], [''email''])"
  "(''u'', ''email'') \<in> set (candidate_columns (cfg_column_tags demo_config) (Some email_objects) [''u''] [''email''])"
  "tag_applies alice ''u'' ''email'' email_tag"
  "leading_keyword ''SELECT u.Email FROM u'' = Some ''SELECT''" "from_keyword ''SELECT'' = ASelect"
  "objects_unusable (Some email_objects) = False"
  "bare_column_name ''EMAIL'' = to_ascii_lowercase ''email''"
  by code_simp+

lemma demo_pdp_sel:
  "p_cedar_required demo_pdp = False" "p_remote demo_pdp = None" "p_time_rules demo_pdp = []"
  "p_high_risk_rules demo_pdp = []" "p_rules demo_pdp = []"
proof -
  have "\<not> eq_ignore_ascii_case ''local'' ''remote''" by code_simp
  then show "p_cedar_required demo_pdp = False" "p_remote demo_pdp = None" "p_time_rules demo_pdp = []"
    "p_high_risk_rules demo_pdp = []" "p_rules demo_pdp = []"
    by (simp_all add: demo_pdp_def pdp_from_config_def demo_config_def Let_def)
qed

lemma demo_allows:
  "\<exists>d. authorize_sql (\<lambda>_. demo_pdp) plain_env leading_keyword alice ''svc'' ''SELECT u.Email FROM u''
     (Some email_objects) store_new = Done (d, store_new) \<and> \<not> is_deny d"
  by (simp add: authorize_sql_def demo_facts classify_def no_gates [where p = demo_pdp] demo_pdp_sel
      shape_statement_def column_stage_def has_column_rules_def row_filter_stage_def collect_row_filter_def Let_def)

definition guard_pdp :: local_pdp where
  "guard_pdp = empty_pdp\<lparr>p_rules := [secret_column_rule\<lparr>sr_tables := [''vault'']\<rparr>]\<rparr>"

definition star_objects :: object_set where
  "star_objects =
     \<lparr>os_objects = [\<lparr>oa_schema = None, oa_table = ''t'', oa_columns = [''a''], oa_op = ASelect,
                    oa_has_wildcard = True\<rparr>],
      os_parse_failed = False, os_heuristic = False\<rparr>"

lemma guard_facts:
  "p_cedar_required guard_pdp = False" "p_remote guard_pdp = None" "p_time_rules guard_pdp = []"
  "p_high_risk_rules guard_pdp = []" "has_column_rules guard_pdp" "\<not> os_parse_failed star_objects"
  "set_has_wildcard star_objects" "objects_unusable (Some star_objects) = False"
  "request_objects (Some star_objects) ''SELECT *, a FROM t'' = ([''t''], [''a''])"
  "leading_keyword ''SELECT *, a FROM t'' = Some ''SELECT''" "from_keyword ''SELECT'' = ASelect"
  "is_deny (evaluate (p_rules guard_pdp)
      \<lparr>ar_subject = alice, ar_service = ''svc'', ar_action = ASelect, ar_tables = [''t''],
       ar_columns = [''a''], ar_sql = Some ''SELECT *, a FROM t''\<rparr>) = False"
  "evaluate_column_acl (p_star_policy guard_pdp) (p_rules guard_pdp) alice ''svc'' ASelect star_objects
     ''SELECT *, a FROM t'' = Done AclUnchanged"
  "collect_row_filter (p_rules guard_pdp) alice ASelect (Some star_objects) [''t''] = None"
  by code_simp+

lemma guard_allows:
  "\<exists>d. authorize_sql (\<lambda>_. guard_pdp) plain_env leading_keyword alice ''svc'' ''SELECT *, a FROM t''
     (Some star_objects) store_new = Done (d, store_new) \<and> \<not> is_deny d"
  by (simp add: authorize_sql_def classify_def no_gates [where p = guard_pdp] guard_facts
      shape_statement_def column_stage_def row_filter_stage_def Let_def)

lemma guard_class: "classify guard_pdp leading_keyword ''SELECT *, a FROM t'' = Inr ASelect"
  by (simp add: classify_def guard_facts)

definition null_email :: obligations where
  "null_email = obligations_default\<lparr>column_masks := [mask_spec_new ''email'' Nullify ''r'']\<rparr>"

definition drop_request :: issue_request where
  "drop_request = \<lparr>rq_subject = ''alice'', rq_sql = ''DROP TABLE t'', rq_type = ''ddl'', rq_ttl_secs = 60,
     rq_max_uses = 2, rq_note = None, rq_issued_by = Some ''bob'', rq_dual_control = False\<rparr>"

definition drop_id :: str where "drop_id = ticket_id 7 1"

definition drop_ticket :: ticket where
  "drop_ticket = \<lparr>tk_id = drop_id, tk_type = ''ddl'', tk_subject = ''alice'', tk_fingerprint = ''drop table t'',
     tk_sample = Some ''DROP TABLE t'', issued_at = 7, expires_at = 60007, max_uses = 2, uses = 0,
     issued_by = Some ''bob'', tk_note = None, dual_control = False, tk_status = TActive, approved_by = None,
     approved_at = None, rejected_by = None, reject_reason = None\<rparr>"

definition drop_store :: ticket_store where
  "drop_store = \<lparr>tickets = [(drop_id, drop_ticket)], seq = 2\<rparr>"

lemma drop_facts:
  "sql_fingerprint ''DROP TABLE t'' = Done ''drop table t''"
  "strip_ticket_comment ''DROP TABLE t'' = Done ''DROP TABLE t''"
  "trim ''ddl'' = ''ddl''" "starts_with ''/*'' (trim_start ''DROP TABLE t'') = False"
  by code_simp+

lemma drop_issue: "issue 7 drop_request store_new = Done (drop_ticket, drop_store)"
  by (simp add: issue_def drop_request_def drop_facts Let_def store_new_def drop_ticket_def drop_store_def drop_id_def
      saturating_add64_def saturating_mul64_def u64_max_def)

lemma drop_reachable: "reachable_store drop_store"
  by (rule reach_step [OF reach_new step_issue [OF drop_issue]]) (simp add: drop_request_def u32_max_def)

lemma drop_get: "get_ticket drop_store drop_id = Some drop_ticket"
  by (simp add: get_ticket_def drop_store_def)

lemma drop_consume:
  "consume 8 drop_id ''alice'' ''DROP TABLE t'' None drop_store =
     Done (Inr (drop_ticket\<lparr>uses := 1\<rparr>, store_put drop_store drop_id (drop_ticket\<lparr>uses := 1\<rparr>)))"
  by (simp add: consume_Inr_iff drop_facts drop_get consumable_def type_ok_def)
    (simp add: drop_ticket_def eq_ignore_ascii_case_def)

definition shared_config :: security_config where
  "shared_config = demo_config\<lparr>cfg_state := (cfg_state demo_config)\<lparr>sc_policy_path := ''p''\<rparr>\<rparr>"

definition peer_store :: pdp_store where
  "peer_store = pdp_store_new\<lparr>ps_policy_path := ''p'', ps_policy_poll_ms := 1\<rparr>"

definition weighted :: "str \<Rightarrow> int \<Rightarrow> endpoint" where
  "weighted a w = \<lparr>ep_node_type = [], ep_weight = w, ep_name = a, ep_db = [], ep_user = [], ep_password = [], ep_addr = a\<rparr>"

definition pair_rr :: round_robin where
  "pair_rr = \<lparr>rr_items = [weighted ''a'' 4, weighted ''b'' 2], rr_n = 2, rr_gcd = 2, rr_max_weight = 4, rr_i = -1, rr_cw = 0\<rparr>"

lemma pair_rr_reachable: "rr_reachable pair_rr"
proof -
  have a: "rr_add (weighted ''a'' 4) rr_default =
      Done \<lparr>rr_items = [weighted ''a'' 4], rr_n = 1, rr_gcd = 4, rr_max_weight = 4, rr_i = -1, rr_cw = 0\<rparr>" by code_simp
  have b: "rr_add (weighted ''b'' 2) \<lparr>rr_items = [weighted ''a'' 4], rr_n = 1, rr_gcd = 4, rr_max_weight = 4, rr_i = -1, rr_cw = 0\<rparr>
      = Done pair_rr" by code_simp
  show ?thesis by (rule rr_added [OF rr_added [OF rr_start a] b])
qed

definition demo_rw :: rw_endpoints where
  "demo_rw = \<lparr>re_read = [weighted ''r'' 1], re_readwrite = [weighted ''w'' 1]\<rparr>"

definition no_regex :: regex_engine where
  "no_regex = \<lparr>rx_compiles = (\<lambda>_. True), rx_matches = (\<lambda>_ _. False)\<rparr>"

definition demo_rules :: "rules_match run" where
  "demo_rules = rules_build no_regex [] TrRead [] demo_rw"

definition demo_rules_match :: rules_match where
  "demo_rules_match = (case demo_rules of Done rm \<Rightarrow> rm)"

definition one_query :: concurrency_config where
  "one_query = \<lparr>cc_regex = [''.''], cc_max_concurrency = 1, cc_duration = 5\<rparr>"

definition numbered_conns :: "(nat, unit) conn_ops" where
  "numbered_conns = \<lparr>build_conn = (\<lambda>i f. Inr (Suc i)), conn_ping = (\<lambda>c. (c, True)), conn_endpoint = (\<lambda>_. ''e''),
     conn_init = (\<lambda>_ c. c)\<rparr>"

lemma numbered_conns_ok: "conn_ok numbered_conns id"
  by (simp add: conn_ok_def numbered_conns_def)

definition demo_pool :: "nat list \<Rightarrow> nat \<Rightarrow> nat pool" where
  "demo_pool q g = \<lparr>pl_factory = [(''e'', 0)], pl_size = 2,
     pl_pool = [(''e'', \<lparr>pi_queue = q, pi_capacity = 2, pi_generation = g\<rparr>)]\<rparr>"

definition demo_sys :: "nat pool \<Rightarrow> nat session \<Rightarrow> nat set \<Rightarrow> nat set \<Rightarrow> (nat, nat) pool_sys" where
  "demo_sys p x seen old = \<lparr>sy_pool = p, sy_session = (\<lambda>_. NoConn)(0 := x), sy_seen = seen, sy_old = (\<lambda>_. {})(''e'' := old)\<rparr>"

abbreviation demo_hold :: "nat \<Rightarrow> nat \<Rightarrow> nat session" where
  "demo_hold c g \<equiv> Holding ''e'' \<lparr>pc_conn = Some c, pc_generation = g\<rparr>"

lemmas demo_pool_simps = demo_sys_def demo_pool_def numbered_conns_def sys_new_def pool_new_def set_factory_def
  ensure_pool_inner_def pool_inner_new_def put_inner_def factory_build_def hold_def pool_defs u64_max_def fun_eq_iff

lemma demo_new: "demo_sys \<lparr>pl_factory = [], pl_size = 2, pl_pool = []\<rparr> NoConn {} {} = sys_new 2"
  by (simp add: demo_sys_def sys_new_def pool_new_def fun_eq_iff)

lemma demo_steps:
  "pool_step numbered_conns id (sys_new 2) (demo_sys \<lparr>pl_factory = [(''e'', 0)], pl_size = 2, pl_pool = []\<rparr> NoConn {} {})"
  "pool_step numbered_conns id (demo_sys \<lparr>pl_factory = [(''e'', 0)], pl_size = 2, pl_pool = []\<rparr> NoConn {} {})
     (demo_sys (demo_pool [] 0) (Wanting ''e'' 0) {} {})"
  "c \<notin> seen \<Longrightarrow> c = Suc i \<Longrightarrow> pool_step numbered_conns id (demo_sys (demo_pool [] g) (Wanting ''e'' g) seen old)
     (demo_sys (demo_pool [] g) (demo_hold c g) (insert c seen) old)"
  "pool_step numbered_conns id (demo_sys (demo_pool [] g) (demo_hold c g) seen old) (demo_sys (demo_pool [c] g) NoConn seen old)"
  "pool_step numbered_conns id (demo_sys (demo_pool q 0) NoConn seen old) (demo_sys (demo_pool [] 1) NoConn seen seen)"
  "pool_step numbered_conns id (demo_sys (demo_pool q g) NoConn seen old) (demo_sys (demo_pool q g) (Wanting ''e'' g) seen old)"
proof -
  show "pool_step numbered_conns id (sys_new 2) (demo_sys \<lparr>pl_factory = [(''e'', 0)], pl_size = 2, pl_pool = []\<rparr> NoConn {} {})"
    by (rule pool_step_to [OF pool_step.pool_add_factory [of numbered_conns 0 "''e''"]]) (auto simp: demo_pool_simps)
  show "pool_step numbered_conns id (demo_sys \<lparr>pl_factory = [(''e'', 0)], pl_size = 2, pl_pool = []\<rparr> NoConn {} {})
     (demo_sys (demo_pool [] 0) (Wanting ''e'' 0) {} {})"
    by (rule pool_step_to [OF pool_step.pool_want [of _ 0 "''e''" 0 "demo_pool [] 0"]]) (auto simp: demo_pool_simps)
  show "pool_step numbered_conns id (demo_sys (demo_pool [] g) (Wanting ''e'' g) seen old)
     (demo_sys (demo_pool [] g) (demo_hold c g) (insert c seen) old)" if "c \<notin> seen" "c = Suc i"
    by (rule pool_step_to [OF pool_step.pool_build [of _ 0 "''e''" g numbered_conns i c id "[]"]]) (use that in \<open>auto simp: demo_pool_simps\<close>)
  show "pool_step numbered_conns id (demo_sys (demo_pool [] g) (demo_hold c g) seen old) (demo_sys (demo_pool [c] g) NoConn seen old)"
    by (rule pool_step_to [OF pool_step.pool_drop_conn [of _ 0 "''e''" "\<lparr>pc_conn = Some c, pc_generation = g\<rparr>"]]) (auto simp: demo_pool_simps)
  show "pool_step numbered_conns id (demo_sys (demo_pool q 0) NoConn seen old) (demo_sys (demo_pool [] 1) NoConn seen seen)"
    by (rule pool_step_to [OF pool_step.pool_refresh [of _ "''e''" "\<lparr>pi_queue = q, pi_capacity = 2, pi_generation = 0\<rparr>"]]) (auto simp: demo_pool_simps)
  show "pool_step numbered_conns id (demo_sys (demo_pool q g) NoConn seen old) (demo_sys (demo_pool q g) (Wanting ''e'' g) seen old)"
    by (rule pool_step_to [OF pool_step.pool_want [of _ 0 "''e''" g "demo_pool q g"]]) (auto simp: demo_pool_simps)
qed

lemma demo_sys_reachable: "(pool_step numbered_conns id)\<^sup>*\<^sup>* (sys_new 2) (demo_sys (demo_pool [2] 1) NoConn {2, 1} {1})"
proof -
  note next_step = rtranclp.rtrancl_into_rtrancl [of "pool_step numbered_conns id"]
  have "(pool_step numbered_conns id)\<^sup>*\<^sup>* (sys_new 2) (demo_sys (demo_pool [1] 0) NoConn {1} {})"
    by (rule next_step [OF next_step [OF next_step [OF next_step [OF rtranclp.rtrancl_refl demo_steps(1)] demo_steps(2)]
            demo_steps(3) [of 1 _ 0]] demo_steps(4)]) simp_all
  then have "(pool_step numbered_conns id)\<^sup>*\<^sup>* (sys_new 2) (demo_sys (demo_pool [] 1) (Wanting ''e'' 1) {1} {1})"
    by (rule next_step [OF next_step [OF _ demo_steps(5)] demo_steps(6)])
  then show ?thesis
    by (rule next_step [OF next_step [OF _ demo_steps(3) [of 2 _ 1]] demo_steps(4)]) simp_all
qed

fun letters :: "str \<Rightarrow> str" where
  "letters [] = []"
| "letters (c # s) = char_of (97 + byte c div 16) # char_of (97 + byte c mod 16) # letters s"

fun from_letters :: "str \<Rightarrow> str" where
  "from_letters (a # b # s) = char_of ((byte a - 97) * 16 + (byte b - 97)) # from_letters s"
| "from_letters _ = []"

lemma nibbles: "byte c div 16 < 16" "byte c mod 16 < 16"
  by (simp_all add: div_less_iff_less_mult)

lemma from_letters_letters: "from_letters (letters s) = s"
proof (induction s)
  case (Cons c s)
  have "char_of ((byte (char_of (97 + byte c div 16)) - 97) * 16 + (byte (char_of (97 + byte c mod 16)) - 97)) = c"
    using nibbles [of c] by simp
  then show ?case using Cons by simp
qed simp

lemma letters_b64: "list_all b64_char (letters s)"
proof (induction s)
  case (Cons c s)
  have "b64_char (char_of (97 + byte c div 16))" "b64_char (char_of (97 + byte c mod 16))"
    using nibbles [of c] by (auto simp: b64_char_def is_ascii_alphanumeric_def is_ascii_lowercase_def intro: less_imp_le_nat le_trans [of _ 15])
  then show ?case using Cons by simp
qed simp

definition demo_cipher :: cipher where
  "demo_cipher = \<lparr>seal = (\<lambda>_ _ p. Inr p), unseal = (\<lambda>_ _ c. Inr c), b64_encode = letters, b64_decode = (\<lambda>s. Inr (from_letters s))\<rparr>"

lemma demo_cipher_ok: "cipher_ok demo_cipher"
  by (simp add: cipher_ok_def demo_cipher_def from_letters_letters letters_b64)

definition demo_vault_env :: "vault_file \<Rightarrow> vault_env" where
  "demo_vault_env f = \<lparr>ve_cipher = demo_cipher, ve_now = 9, ve_now' = 9, ve_to_json = (\<lambda>_. ''{}''),
     ve_to_json_pretty = (\<lambda>_. ''{}''), ve_of_json = (\<lambda>_. Inr f), ve_io_error = None\<rparr>"

lemma demo_json_ok: "json_ok (demo_vault_env f) f"
  by (simp add: json_ok_def demo_vault_env_def)

definition demo_vault :: vault_world where
  "demo_vault = \<lparr>vw_store = vault_new\<lparr>vs_path := Some ''v'', vs_encrypt_key := Some ''k''\<rparr>, vw_disk = Map.empty\<rparr>"

definition demo_request :: issue_lease_request where
  "demo_request = \<lparr>il_project = ''p'', il_environment = ''dev'', il_ttl_secs = 900, il_issued_by = None\<rparr>"

definition demo_target :: lease_target where
  "demo_target = \<lparr>lt_service = ''s'', lt_endpoint_name = ''e'', lt_protocol = ''mysql'', lt_address = ''h:1'',
     lt_database = None, lt_username = ''root'', lt_password = ''secret''\<rparr>"

definition leased_vault :: vault_world where
  "leased_vault = snd (issue_lease (demo_vault_env (vault_file_of vault_new)) 7 demo_request demo_target demo_vault)"

lemma leased_vault_step: "vault_step demo_vault leased_vault"
  unfolding leased_vault_def by (rule lease_issued) (simp add: demo_vault_def vault_new_def u64_max_def)

lemma leased_vault_leases:
  "vs_path (vw_store leased_vault) = Some ''v''" "vs_encrypt_key (vw_store leased_vault) = Some ''k''"
  "\<exists>r. map_of (vs_leases (vw_store leased_vault)) (new_lease_id 7 1) = Some r \<and> \<not> revoked (lr_lease r) \<and>
     vl_expires_at (lr_lease r) = 900007 \<and> backend_password r = ''secret'' \<and> backend_username r = ''root''"
  by (simp_all add: leased_vault_def issue_lease_def demo_vault_def vault_new_def Let_def demo_request_def demo_target_def
      saturating_add64_def saturating_mul64_def u64_max_def)

lemma swapped_sql:
  "rewrite_placeholders_pg_to_mysql ''a=$2,b=$1'' [GvBoolean True, GvNull] = Inr (''a=?,b=?'', [GvNull, GvBoolean True])"
  by (simp add: rewrite_placeholders_pg_to_mysql_def rewrite_pg_placeholders_def rewrite_placeholder_tokens_def
      sum_bind_def rewrite_loop.simps scan_opaque_def emit_def is_ascii_digit_def max_index_def
      is_ident_byte_def is_ascii_alphanumeric_def is_ascii_uppercase_def is_ascii_lowercase_def dollar_delimiter_def
      Let_def u64_max_def u16_max_def upt_rec)

section \<open>A login\<close>

text \<open>A hash with digests of the right length stands in for SHA-1; the properties need no more of it.\<close>

definition demo_crypto :: "unit mysql_crypto" where
  "demo_crypto = \<lparr>sha1 = (\<lambda>d. take 20 (d @ replicate 20 (CHR ''*''))), sha256 = (\<lambda>d. d),
     public_key_from_pem = (\<lambda>_. None), rsa_encrypt = (\<lambda>_ m. m), version_captures = (\<lambda>_. None)\<rparr>"
definition demo_client :: client_auth where
  "demo_client = client_auth_new\<lparr>ca_user := ''bob'', ca_password := ''secret''\<rparr>"
definition demo_tls :: client_tls_opts where
  "demo_tls = \<lparr>tls_server_name = ''db'', accept_invalid_certs = False, tls_ca_file = None, require_tls = True\<rparr>"
definition demo_server :: server_handshake where
  "demo_server = server_handshake_new 7 [40..<60] ''bob'' ''secret'' ''db'' ''5.7.1''"

lemma demo_crypto_length: "length (sha1 demo_crypto d) = 20"
  by (simp add: demo_crypto_def)

lemma demo_client_ok:
  "plain_client demo_client" "length [40..<60 :: nat] = 20" "CHR 0x00 \<notin> set ''5.7.1''"
  "utf8 (''5.7.1'' @ [CHR 0x00])" "read_version demo_crypto demo_client (''5.7.1'' @ [CHR 0x00]) \<noteq> Panic"
  "ca_user demo_client = ''bob''" "ca_password demo_client = ''secret''"
  by (simp_all add: plain_client_def demo_client_def client_auth_new_def utf8_ascii is_ascii_str_def
      read_version_def demo_crypto_def)

lemma demo_login: "\<exists>packet st' sent. handshake demo_crypto (\<lambda>s. s) False demo_server [packet] = Done (Inr True, st', sent)"
proof -
  obtain initial greeting h c1 c2 packet st1 where
    s: "encode_initial_handshake demo_server = Done initial" "hs_send demo_server initial [] = Done (demo_server\<lparr>hs_seq := 1\<rparr>, [greeting])"
    and d: "hs_decode demo_crypto (\<lambda>s. s) (demo_server\<lparr>hs_seq := 1\<rparr>) packet = Done (Some (None, st1, []))" "hs_next st1 = HsComplete"
    using client_answers_greeting [OF demo_client_ok(1) demo_crypto_length demo_client_ok(2-5), of 7 "''db''" "\<lambda>s. s"]
    unfolding demo_client_ok(6,7) demo_server_def [symmetric] by metis
  from hs_loop_accept_one [OF d, of False "[greeting]"] s show ?thesis by (auto simp: handshake_def)
qed

lemma demo_tls_greeted:
  "\<exists>data h c1. client_decode demo_crypto (demo_client\<lparr>ca_tls := Some demo_tls\<rparr>) data =
     Done (Inr (Some (DrWriteSslRequest h)), c1, [])"
proof -
  let ?c = "demo_client\<lparr>ca_tls := Some demo_tls, ca_seq := of_char CHR 0x00\<rparr>"
  have g: "greeting_ok demo_server"
    by (simp add: greeting_ok_def demo_server_def server_handshake_new_def random_buf_def utf8_ascii is_ascii_str_def)
  have v: "read_version demo_crypto ?c (hs_server_version demo_server @ [CHR 0x00]) = Done ?c"
    by (simp add: read_version_def demo_crypto_def)
  obtain i where i: "4 \<le> length i" "read_initial_handshake demo_crypto ?c (drop 4 i) = Done (Inr (), greeted demo_server ?c, [])"
    by (rule greeting_is_read [OF g v])
  have "\<exists>h. write_auth_handshake demo_crypto (greeted demo_server ?c) = Done (Inr (h, True))"
    by (simp add: write_auth_handshake_def gen_auth_response_def greeted_def sub_range_def demo_client_def
        client_auth_new_def demo_server_def server_handshake_new_def random_buf_def default_collation Let_def)
  then obtain h where "write_auth_handshake demo_crypto (greeted demo_server ?c) = Done (Inr (h, True))" by blast
  with i have "client_decode demo_crypto (demo_client\<lparr>ca_tls := Some demo_tls\<rparr>) (replicate 4 (CHR 0x00) @ drop 4 i) =
      Done (Inr (Some (DrWriteSslRequest h)), (greeted demo_server ?c)\<lparr>ca_next := WriteSslRequest\<rparr>, [])"
    by (simp add: client_decode_def Let_def decode_greeting_def split_to_def nth_append demo_client_def client_auth_new_def)
  then show ?thesis by blast
qed

definition one_number :: object_set where
  "one_number = \<lparr>os_objects = [], os_parse_failed = False, os_heuristic = True\<rparr>"

definition demo_frontend :: "unit frontend" where
  "demo_frontend =
     \<lparr>fe_protocol = PostgreSql, fe_decode = (\<lambda>f bytes s. (Inr [Query bytes], f, s)),
      fe_encode = (\<lambda>f r s. (Inr [''R''], f)), fe_header = (\<lambda>f cols s. (Inr [''T''], f)),
      fe_rows = (\<lambda>f cols rows s. (Inr (map (\<lambda>row. case row of [GvString v] \<Rightarrow> v | _ \<Rightarrow> []) rows), f)),
      fe_footer = (\<lambda>f cols n s t. (Inr [if t then ''s'' else ''C''], f))\<rparr>"

definition demo_gateway :: "(unit, nat) gw_env" where
  "demo_gateway =
     \<lparr>v_frontend = demo_frontend, v_backend_protocol = PostgreSql,
      v_execute = (\<lambda>b c s m. (Inr (OutComplete (RspOk 0 None)), b + 1, s)), v_health = (\<lambda>b. (Inr (), b)),
      v_service = ''svc'', v_translation = None,
      v_dialect = \<lparr>dia_protocol = PostgreSql, dia_leading_keyword = leading_keyword\<rparr>, v_security = True,
      v_extract = (\<lambda>_ _. one_number), v_regex = any_regex, v_f64 = (\<lambda>_. []), v_stream_mode = Materialized,
      v_passthrough_enabled = False\<rparr>"

definition demo_world :: command_world where
  "demo_world = \<lparr>cw_draw = 0, cw_now = 0, cw_view = (\<lambda>_. open_pdp), cw_pdp = plain_env\<rparr>"

definition demo_conn :: "(unit, nat) gw" where
  "demo_conn =
     \<lparr>g_out = \<lparr>out_fe = (), out_writer = \<lparr>w_batches = [], w_error = (\<lambda>_. None)\<rparr>\<rparr>, g_backend = 0,
      g_session = session_default\<lparr>ss_user := Some ''alice''\<rparr>, g_route = None,
      g_plugins = Some \<lparr>pp_concurrency_control = Some [one_at_a_time], pp_circuit_break = None\<rparr>,
      g_tickets = store_new, g_pending = None, g_held = None, g_cursors = Map.empty, g_log = []\<rparr>"

lemmas demo_engine_simps = demo_frontend_def demo_gateway_def demo_world_def demo_conn_def

lemma demo_allowed:
  "authorize_command_with_objects (cw_view demo_world) (cw_pdp demo_world) (dia_leading_keyword (v_dialect demo_gateway))
     (from_protocol_user (ss_user (g_session demo_conn)) (ss_database (g_session demo_conn))) (v_service demo_gateway) (Query ''SELECT 1'')
     (Some one_number) store_new = Done (Allow obligations_default, store_new)"
  by code_simp

lemma demo_harmless: "classify_dangerous_sql ''SELECT 1'' PostgreSql = None" "parse_named_cursor_sql ''SELECT 1'' = None"
  by code_simp+

lemma demo_sels:
  "v_translation demo_gateway = None" "fe_protocol (v_frontend demo_gateway) = PostgreSql" "g_route demo_conn = None"
  "fe_decode (v_frontend demo_gateway) f bytes s = (Inr [Query bytes], f, s)"
  "demo_conn\<lparr>g_pending := None, g_out := g_out demo_conn\<lparr>out_fe := ()\<rparr>\<rparr> = demo_conn"
  by (simp_all add: demo_engine_simps)

lemma demo_frame:
  "\<exists>g'. handle_frame_inner demo_gateway (\<lambda>_. demo_world) ''SELECT 1'' demo_conn = Some (Done (Inr (), g')) \<and>
     g_log g' = [EvDecision (Query ''SELECT 1'') (Allow obligations_default),
       EvExecute (Query ''SELECT 1'') (Streaming 256 None), EvAudit ''execute'' ''ok''] \<and>
     g_plugins g' = Some \<lparr>pp_concurrency_control = Some [one_at_a_time\<lparr>ci_start_at := Some 0\<rparr>], pp_circuit_break = None\<rparr>"
proof -
  let ?g = "demo_conn\<lparr>g_plugins := Some \<lparr>pp_concurrency_control = Some [one_at_a_time\<lparr>ci_start_at := Some 0, ci_permits := 0\<rparr>], pp_circuit_break = None\<rparr>\<rparr>"
  let ?d = "[EvDecision (Query ''SELECT 1'') (Allow obligations_default)]"
  have p: "plugin_stage demo_gateway demo_world (Query ''SELECT 1'') demo_conn = Some (Done (Inr (Go (Query ''SELECT 1'', Some 0)), ?g))"
    by (simp add: plugin_stage_def plugin_evaluate_def Let_def demo_engine_simps one_at_a_time_simps circuit_break_handle_def)
  have a: "authorize_stage demo_gateway demo_world (Some 0) (Query ''SELECT 1'') ?g =
      Some (Done (Inr (Go (Query ''SELECT 1'', obligations_default)), ?g\<lparr>g_log := ?d\<rparr>))"
    using demo_allowed by (simp add: authorize_stage_def demo_engine_simps)
  have m: "exec_mode demo_gateway (Query ''SELECT 1'') obligations_default = Streaming 256 None"
    by (simp add: exec_mode_def want_passthrough_def demo_engine_simps has_result_obligations_def obligations_default_def from_streaming_config_def)
  have x: "execute_stage demo_gateway (Query ''SELECT 1'') (Streaming 256 None) (?g\<lparr>g_log := ?d\<rparr>) =
      Some (Done (Inr (Inr (OutComplete (RspOk 0 None))), ?g\<lparr>g_backend := 1, g_log := ?d @ [EvExecute (Query ''SELECT 1'') (Streaming 256 None)]\<rparr>))"
    by (simp add: execute_stage_def call_backend_def drop_stale_hold_def resumes_portal_def demo_engine_simps session_default_def)
  have d: "\<exists>g'. deliver demo_gateway (Query ''SELECT 1'') (Some 0) (Streaming 256 None) obligations_default (Inr (OutComplete (RspOk 0 None)))
      (?g\<lparr>g_backend := 1, g_log := ?d @ [EvExecute (Query ''SELECT 1'') (Streaming 256 None)]\<rparr>) = Some (Done (Inr (), g')) \<and>
      g_log g' = ?d @ [EvExecute (Query ''SELECT 1'') (Streaming 256 None), EvAudit ''execute'' ''ok''] \<and>
      g_plugins g' = Some \<lparr>pp_concurrency_control = Some [one_at_a_time\<lparr>ci_start_at := Some 0\<rparr>], pp_circuit_break = None\<rparr>"
    by (simp add: deliver_def complete_response_def act_then_def act_bind_def act_modify_def update_session_def record_event_def
        release_permit_def release_concurrency_def add_permits_def encode_response_to_writer_def encode_plain_def oblige_opt_def
        map_response_types_def error_session_def has_result_obligations_def obligations_default_def write_packets_def reset_binary_def
        drop_cursors_after_def one_at_a_time_def demo_engine_simps Let_def)
  have g: "guarded_command demo_gateway demo_world (Query ''SELECT 1'') demo_conn =
      deliver demo_gateway (Query ''SELECT 1'') (Some 0) (Streaming 256 None) obligations_default (Inr (OutComplete (RspOk 0 None)))
        (?g\<lparr>g_backend := 1, g_log := ?d @ [EvExecute (Query ''SELECT 1'') (Streaming 256 None)]\<rparr>)"
    by (simp add: guarded_command_def act_go_def act_bind_def p translation_stage_def demo_sels act_return_def a m x)
  have "handle_frame_inner demo_gateway (\<lambda>_. demo_world) ''SELECT 1'' demo_conn =
      act_then (guarded_command demo_gateway demo_world (Query ''SELECT 1'')) (act_return ()) demo_conn"
    by (simp add: handle_frame_inner_def Let_def demo_sels process_command_def demo_harmless cursor_statement_def)
      (simp add: act_then_def act_bind_def route_command_def demo_sels)
  with d g show ?thesis by (auto simp: act_then_def act_bind_def act_return_def)
qed

lemma demo_encodes: "encodes demo_frontend f s cols S [''T''] (\<lambda>row. case row of [GvString v] \<Rightarrow> v | _ \<Rightarrow> []) (\<lambda>n t. [if t then ''s'' else ''C''])"
  by (simp add: encodes_def demo_frontend_def)

definition three_rows :: streaming_query where
  "three_rows = \<lparr>sq_columns = [\<lparr>col_name = ''email'', data_type = ''text''\<rparr>],
     sq_stream = VecRowStream [[GvString ''a''], [GvString ''b''], [GvString ''c'']]\<rparr>"

definition demo_portal :: "(unit, nat) gw" where
  "demo_portal = demo_conn\<lparr>g_session := (g_session demo_conn)\<lparr>ss_pg_execute_max_rows := Some 2, ss_pg_portal_name := Some [],
     ss_pg_extended_query := True\<rparr>\<rparr>"

definition splitting :: "endpoint_config list" where
  "splitting =
     [endpoint_config_default\<lparr>ec_name := ''replica'', ec_role := RoleRead, ec_address := ''r''\<rparr>,
      endpoint_config_default\<lparr>ec_name := ''primary'', ec_address := ''p''\<rparr>]"

lemma splitting_builds:
  "\<exists>p. build_route_policy to_ascii_lowercase (\<lambda>_ _. False) (Some ''read_write_splitting'') splitting MySql = Done (Inr p) \<and>
     crp_endpoints p = splitting \<and> crp_read_only p = (\<lambda>_. False)"
proof -
  have n: "normalize_policy_kind to_ascii_lowercase ''read_write_splitting'' = ''readwritesplitting''" by code_simp
  show ?thesis
    by (simp add: n build_route_policy_def is_read_write_splitting_policy_def build_read_write_def splitting_def
        endpoint_config_default_def build_balancer_def load_balance_endpoint_def rw_add_def rw_default_def name_listed_def Let_def)
qed

lemma splitting_kind: "is_read_write_splitting_policy to_ascii_lowercase (Some ''read_write_splitting'')"
  by code_simp

definition demo_listener :: listener_config where
  "demo_listener = \<lparr>lc_name = ''l'', lc_listen_addr = ''a'', lc_protocol = MySql, lc_service = ''svc'', lc_auth_policy = None\<rparr>"

definition demo_gateway_config :: gateway_config where
  "demo_gateway_config =
     \<lparr>gc_listeners = [demo_listener],
      gc_services = [\<lparr>svc_name = ''svc'', svc_backend_protocol = MySql, svc_endpoints = [''replica'', ''primary''],
        svc_route_policy = Some ''rw'', svc_plugin_policies = [], svc_translation_policy = None\<rparr>],
      gc_endpoints = splitting, gc_route_policies = [\<lparr>rp_name = ''rw'', rp_kind = ''read_write_splitting''\<rparr>],
      gc_auth_policies = [], gc_plugin_policies = [], gc_translation_policies = [], gc_security = demo_config\<rparr>"

lemma demo_names: "trim ''l'' = ''l''" "trim ''a'' = ''a''" "trim ''svc'' = ''svc''" "trim ''replica'' = ''replica''"
  "trim ''primary'' = ''primary''" "trim ''rw'' = ''rw''" "trim ''r'' = ''r''" "trim ''p'' = ''p''"
  by code_simp+

lemma demo_gateway_valid: "validate_gateway False 0 demo_gateway_config = Inr ()"
  using demo_valid
  by (simp add: validate_gateway_def first_error_ok validate_unique_ok demo_gateway_config_def demo_listener_def splitting_def
      endpoint_config_default_def demo_names validate_endpoint_tls_def validate_listener_def validate_crossing_def validate_service_def
      validate_service_endpoint_def require_non_empty_def endpoint_protocols_def wants_tls_def Let_def)

end
