(* ===== verification/Spec2Isabelle.thy ===== *)
theory Spec2Isabelle
  imports Scenarios
begin

text \<open>
  \<^bold>\<open>Data Nexus, the decision core of a SQL gateway.\<close>

  Data Nexus is a database proxy written in Rust.  A connection's frontend decodes a MySQL or PostgreSQL packet
  into gateway commands.  The connection engine refuses unsupported statements, asks the route policy for an
  endpoint, lets the governance plugins refuse the command, lets a translation policy rewrite it for the backend's
  dialect, asks the policy decision point (PDP), sends the possibly rewritten statement to a backend, and applies
  the obligations of the decision to the rows on their way back.  This development models the engine and the parts
  it calls with the state they keep: the crate \<open>gateway/core\<close> (policy, obligations, tickets, vault, translation,
  transport, configuration), the plugins, the routing strategies with their load balancers and the failover task, the
  connection pool, the state machine of a session, and the codecs and login handshakes of the two protocols.

  \<^bold>\<open>Theories and sources.\<close>

  \<^item> \<open>Nexus_Prelude\<close>: Rust strings as byte lists (UTF-8 scanning, \<open>trim\<close>, \<open>split\<close>, slices that
    panic off a character boundary), the \<open>run\<close> type (\<open>Panic\<close> or \<open>Done\<close>), saturating 64-bit arithmetic,
    association lists, decimal printing and parsing.
  \<^item> \<open>Gateway_Model\<close>: \<open>model.rs\<close>, \<open>types.rs\<close>, \<open>dialect.rs\<close>: commands, values, responses, execution modes, the
    column type mapping between the two protocols, the heuristic dialect helper.
  \<^item> \<open>Glob\<close>: \<open>glob_match\<close> of \<open>pdp.rs\<close>, as a \<open>while\<close> loop, against a declarative meaning of patterns.
  \<^item> \<open>Sql_Scan\<close>: the quote- and parenthesis-aware keyword search (\<open>pdp.rs\<close>, \<open>ticket.rs\<close>).
  \<^item> \<open>Obligations\<close>: \<open>obligations.rs\<close>: mask algorithms, mask index, row limits, watermark, windowed
    application, row filter injection, merging.
  \<^item> \<open>Ticket\<close>: \<open>ticket.rs\<close>: the approval ticket life cycle, the statement fingerprint, the comment that
    carries a ticket, the state file.
  \<^item> \<open>Time_Rules\<close>: \<open>time_rules.rs\<close>: freeze windows, time zones, week days.
  \<^item> \<open>Security_Config\<close>: \<open>security.rs\<close>: the security configuration and its validation.
  \<^item> \<open>Policy\<close>: the rule language of \<open>pdp.rs\<close>: statement classification, table rules, mask and row filter
    collection, the object set of \<open>object_set.rs\<close>; the dialect helper is used through the locale
    \<open>dialect_parser\<close>.
  \<^item> \<open>Select_Rewrite\<close>: column rules and the rewriting of select lists (\<open>pdp.rs\<close>).
  \<^item> \<open>Remote_Pdp\<close>: \<open>remote_pdp.rs\<close>: request, response, timeouts.
  \<^item> \<open>Pdp\<close>: \<open>authorize_command_with_objects\<close> of \<open>pdp.rs\<close>: the gates in order, the statement shaping.
  \<^item> \<open>Pdp_Store\<close>: \<open>policy_file.rs\<close> and the snapshot store of \<open>pdp.rs\<close>: install, reload, polling of the
    shared policy file.
  \<^item> \<open>State_File\<close>: the loop that loads a state file, as a locale; \<open>State_Crypto\<close>: \<open>state_crypto.rs\<close>, the
    encrypted envelope; \<open>Vault\<close>: \<open>vault.rs\<close>, leases on backend credentials.
  \<^item> \<open>Translation\<close>: \<open>translation.rs\<close>: which statements may cross dialects, and their rewriting.
  \<^item> \<open>Plugins\<close>: \<open>plugin.rs\<close> and \<open>plugin/src\<close>: circuit breaking and concurrency control.
  \<^item> \<open>Load_Balance\<close>: \<open>proxy/loadbalance\<close>; \<open>Route\<close>: \<open>proxy/strategy\<close>, read/write splitting; \<open>Reconcile\<close>:
    \<open>monitor_reconcile.rs\<close>, one round of the failover task.
  \<^item> \<open>Transaction_Fsm\<close>: \<open>runtime/gateway/src/transaction_fsm.rs\<close>; \<open>Conn_Pool\<close>: \<open>proxy/pool\<close>, with sessions and
    refreshes interleaved.
  \<^item> \<open>Wire_Bytes\<close>: byte buffers with their panics, little- and big-endian integers, UTF-8; \<open>Mysql_Packet\<close>:
    \<open>protocol/mysql\<close>, framing, length-encoded values, OK, ERR and EOF packets; \<open>Charset\<close>: the collation tables;
    \<open>Mysql_Auth\<close> and \<open>Mysql_Client_Auth\<close>: \<open>server/auth.rs\<close> and \<open>client/auth.rs\<close>, the two sides of the handshake;
    \<open>Mysql_Login\<close>: the client's loop, and both sides against each other; \<open>Pg_Codec\<close>: \<open>protocol/postgresql/src/lib.rs\<close>.
  \<^item> \<open>Dangerous_Sql\<close>: \<open>dangerous_sql.rs\<close>, the words of a statement and what is unsupported; \<open>Transport\<close>: \<open>transport.rs\<close>,
    row streams and the streamed, windowed and relayed encoding of results.
  \<^item> \<open>Gateway_Config\<close>: \<open>config.rs\<close>; \<open>Core_Route\<close>, \<open>Named_Cursor\<close> and \<open>Engine\<close>: \<open>runtime/gateway/src/core_engine.rs\<close>, the
    plans of listeners, routing of commands, named cursors, and the handling of a frame; \<open>Engine_Safety\<close>: what the
    engine guarantees, by relations on states that its operations respect.
  \<^item> \<open>Findings\<close>: concrete inputs on which the code does something its documentation does not say.
  \<^item> \<open>Scenarios\<close>: the configurations and requests at which the properties below are instantiated.

  \<^bold>\<open>How state and effects are written.\<close>  Structs are records and enums are datatypes with the source's
  constructors.  A function that mutates shared state takes and returns it: the ticket store, the PDP
  store, the disk (a map from paths to content and modification time).  A function that can fail returns
  a sum with the error on the left.  A function that can panic returns \<open>'a run\<close>.  A string is the list of
  its bytes, because the code indexes bytes and panics off a character boundary; a map that is iterated
  or written to a file is an association list.  Every load of the snapshot in
  \<open>authorize_command_with_objects\<close> is a separate read of the global store: the model takes the snapshot as
  a function of the place where it is read (\<open>view\<close>), so that a reload between two gates is an
  interleaving of the model.

  \<^bold>\<open>Parameters.\<close>  The clock and the local time zone (\<open>env_now_ms\<close>, \<open>local_offset\<close>, \<open>civil\<close>), the decimal
  text of a float (\<open>f64\<close>), the Cedar engine and its loader, the answer of the remote HTTP service, the
  debug text of an object list, the outcome of a compare-exchange on the poll clock (\<open>won\<close>), and the
  result of writing a file (\<open>save_io\<close>) stand for code outside the repository or for the environment.
  So do the regex crate (\<open>regex_engine\<close>, \<open>plugin_regex\<close>), the number a random balancer draws, the cipher, Base64 and
  JSON of the vault file (\<open>cipher\<close>, \<open>vault_env\<close>), what connecting and pinging a backend answers (\<open>conn_ops\<close>), digests
  and RSA (\<open>mysql_crypto\<close>), the random salt, and Unicode lower case (\<open>lower\<close>).  The engine takes the frontend adapter
  (\<open>frontend\<close>), the backend and the object extraction (\<open>gw_env\<close>), and what each command reads of the world
  (\<open>command_world\<close>) as arguments; the log \<open>g_log\<close> records decisions, executions and audit events in order.

  \<^bold>\<open>Interfaces.\<close>  Locales state what one part needs of another: \<open>dialect_parser\<close> (classification of
  statements), \<open>windowed_stage\<close> (what can be applied window by window), \<open>use_budget\<close> (tickets as counted
  resources), \<open>state_file\<close> (rebuilding a store from its file), \<open>balancer\<close> (what routing needs of a load
  balancer), \<open>wire_format\<close> (a value that is read back from what was written), \<open>step_order\<close> and \<open>engine_order\<close> (a
  relation on states that every operation of the engine respects).  Each is interpreted on the model's own
  operations, next to their definitions.

  \<^bold>\<open>Loops and fuel.\<close>  The glob matcher is a \<open>while_option\<close> loop with a proof that it ends on every input.
  The round robin's loop and the login loop of the MySQL client are \<open>partial_function\<close>s: the first is proved to return
  in every reachable state, the second when user and password agree, and not to return when the server closes the
  connection.  Row streams are lists of what the backend answers, so the streaming loops end because each poll
  shortens the stream.  Scanners are structural recursions over the text or \<open>function\<close>s with a length measure; the
  pool's retries count to ten as in the code.  The one fuelled function, \<open>split_ws_fuel\<close>, is started with the length
  of its text, and each step drops at least one byte.

  \<^bold>\<open>What the properties show.\<close>  C1 to C5 are about a connection handling a frame: every command that reaches the
  backend was allowed by the PDP (except the statement of a named cursor), unsupported statements reach nothing, streamed rows equal the whole result under
  the obligations, portal pages split a result, permits come back.  C6 to C14 state what an allowed statement has gone
  through and what its text and its result look like.  C15 and C16 relate the glob matcher to its declarative
  meaning.  C17 and C18 are about obligations on results.  C19 to C22 are about tickets: an invariant of all reachable
  stores, replay, persistence, acceptance.  C23 and C24 are about restarting the vault and reloading the policy.  C25
  to C30 are about where a statement goes: plans of validated listeners, writes, fair shares, roles, failover, the
  connection of a transaction.  C31 to C34 are about permit holders, refreshed connections, revoked leases and
  translated parameters.  C35 to C40 are about the protocols: logins, required TLS, packets, decoded messages.

  \<^bold>\<open>Not modelled.\<close>  Sockets, connection tasks and the mapping between packets and commands (\<open>runtime\<close> frontends and
  backends) are behind the adapter and backend parameters of the engine.  The generated SQL grammars (\<open>parser\<close>) enter
  as the extracted objects a request carries, and sharding rewrites work on their syntax trees.  The admin HTTP
  interface calls the modelled stores; monitors, audit sinks and the user interface feed or format them.  Admin
  authentication is not modelled.  Metrics, tracing spans and the fields of an audit event other than its decision and
  outcome are left out of the engine, and so are result samples.  JSON and TOML text, file locks, TLS and the Cedar
  engine are below the decoded values the model uses.
\<close>

section \<open>Connections\<close>







text \<open>
  C4 (functional).  One execution of a portal with a page size sends the rows up to the smaller of the page and the
  policy's limit, obliged, and holds exactly the remaining rows for the next execution; when none remain nothing is
  held.
\<close>

theorem portal_pages_split_the_result:
  assumes "s = (g_session g)\<lparr>ss_pg_portal_skip_rows := 0\<rparr>"
    and "cx = streaming_ctx (v_f64 V) s (sq_columns q) window (Some (page_obligations (g_session g) ob)) True"
    and "window = max (case mode_window_rows mode of Some w \<Rightarrow> w | None \<Rightarrow> 256) 1"
    and "wants_hold (g_session g)" and "ss_pg_execute_max_rows (g_session g) = Some page" and "v_translation V = None"
    and "stream_ok (sq_stream q)" and "w_error (out_writer (g_out g)) = (\<lambda>_. None)"
    and "encodes (v_frontend V) (out_fe (g_out g)) s (sc_columns cx)
      (set (oblige_chunk (v_f64 V) cx (stream_rows (sq_stream q)))) hdr enc ftr"
    and "limit = (case max_rows ob of Some m \<Rightarrow> min m page | None \<Rightarrow> page)"
    and "rows = stream_rows (sq_stream q)"
  shows "\<exists>g'. stream_response V None mode ob q g = Some (Done (Inr (), g')) \<and>
     concat (w_batches (out_writer (g_out g'))) = concat (w_batches (out_writer (g_out g))) @ hdr @
       map enc (oblige_chunk (v_f64 V) cx (take limit rows)) @ ftr (min limit (length rows)) (limit < length rows) \<and>
     (case g_held g' of
        None \<Rightarrow> length rows \<le> limit
      | Some q' \<Rightarrow> limit < length rows \<and> stream_ok (sq_stream q') \<and> stream_rows (sq_stream q') = drop limit rows)"
  using assms by (rule portal_page_sent)

theorem portal_pages_split_the_result_witness:
  "\<exists>g' q'. stream_response demo_gateway None Materialized obligations_default three_rows demo_portal = Some (Done (Inr (), g')) \<and>
     g_held g' = Some q' \<and> stream_rows (sq_stream q') = [[GvString ''c'']]"
proof -
  have "encodes (v_frontend demo_gateway) (out_fe (g_out demo_portal)) s cols S [''T'']
      (\<lambda>row. case row of [GvString v] \<Rightarrow> v | _ \<Rightarrow> []) (\<lambda>n t. [if t then ''s'' else ''C''])" for s cols S
    using demo_encodes by (simp add: demo_gateway_def)
  from portal_pages_split_the_result [where g = demo_portal and page = 2 and q = three_rows and ob = obligations_default and
      mode = Materialized and V = demo_gateway, OF refl refl refl _ _ _ _ _ this refl refl]
  show ?thesis
    by (auto simp: demo_portal_def demo_engine_simps wants_hold_def three_rows_def obligations_default_def split: option.splits)
qed



section \<open>Decisions\<close>



text \<open>
  C7 (safety).  When a high-risk rule matches an allowed statement, the statement carries the
  identifier of an active, unexpired ticket with uses left, of the subject, the rule's type and this
  very statement, and the resulting store is the store before the high-risk gate with one more use of
  that ticket.
\<close>

theorem high_risk_needs_ticket:
  assumes "authorize_sql view env leading subject service sql objects st = Done (d, st')"
    and "\<not> is_deny d" and "store_ok st"
    and "classify (view LEntry) leading sql = Inr action"
    and "request_objects objects sql = (tables, columns)"
    and "match_high_risk (p_high_risk_rules (view LHighRisk)) subject action sql objects tables = Done (Some hr)"
  shows "\<exists>st1 k t fp. store_ok st1 \<and>
    extract_ticket_id sql = Done (Some k) \<and> sql_fingerprint sql = Done fp \<and>
    get_ticket st1 k = Some t \<and>
    env_now_ms env \<le> expires_at t \<and> tk_status t = TActive \<and> uses t < max_uses t \<and>
    eq_ignore_ascii_case (tk_subject t) (subject_id subject) \<and> tk_fingerprint t = fp \<and>
    (hr_ticket_type hr = [] \<or> eq_ignore_ascii_case (tk_type t) (hr_ticket_type hr)) \<and>
    (dual_control t \<longrightarrow> second_person t) \<and>
    st' = store_put st1 k (t\<lparr>uses := uses t + 1\<rparr>)"
proof -
  obtain st1 where t1: "evaluate_time_rules env (view LTime) subject action sql objects tables st = Done (None, st1)"
    and h: "high_risk_gate env (view LHighRisk) subject action sql objects tables st1 = Done (None, st')"
    using assms(1,2,4,5) by (elim authorize_sql_allows) (auto simp: run_gates_pass)
  have ok: "store_ok st1" using time_gate_store_ok [OF t1 assms(3)] .
  from high_risk_gate_pass [OF h ok] assms(6) obtain k t fp where
    k: "extract_ticket_id sql = Done (Some k)" "sql_fingerprint sql = Done fp" "get_ticket st1 k = Some t"
      "consumable (env_now_ms env) (subject_id subject) fp (Some (hr_ticket_type hr)) t"
      "st' = store_put st1 k (t\<lparr>uses := uses t + 1\<rparr>)"
    by (auto simp: ticket_spent_def)
  moreover have "ticket_ok t" using store_ok_get [OF ok k(3)] by simp
  ultimately show ?thesis
    using ok by (intro exI [of _ st1] exI [of _ k] exI [of _ t] exI [of _ fp])
      (auto simp: consumable_def type_ok_def ticket_ok_def)
qed

theorem high_risk_needs_ticket_witness:
  "\<exists>st1 k t fp. store_ok st1 \<and>
    extract_ticket_id ddl_sql = Done (Some k) \<and> sql_fingerprint ddl_sql = Done fp \<and>
    get_ticket st1 k = Some t \<and>
    5 \<le> expires_at t \<and> tk_status t = TActive \<and> uses t < max_uses t \<and>
    eq_ignore_ascii_case (tk_subject t) (subject_id alice) \<and> tk_fingerprint t = fp \<and>
    (hr_ticket_type ddl_rule = [] \<or> eq_ignore_ascii_case (tk_type t) (hr_ticket_type ddl_rule)) \<and>
    (dual_control t \<longrightarrow> second_person t) \<and>
    ddl_store_after = store_put st1 k (t\<lparr>uses := uses t + 1\<rparr>)"
  using high_risk_needs_ticket [OF ddl_allowed _ ddl_store_ok, of ADdl "[''t'']" "[]" ddl_rule]
  by (simp add: classify_def ddl_facts(1,2,5) ddl_pdp_sel del: match_high_risk.simps)

text \<open>
  C8 (safety).  While a time rule without \<open>require_ticket\<close> is the first one that covers a statement
  and its window is active, the statement is refused and no ticket is used up.
\<close>

theorem freeze_window_refuses:
  assumes "authorize_sql view env leading subject service sql objects st = Done (d, st')"
    and "classify (view LEntry) leading sql = Inr action"
    and "request_objects objects sql = (tables, columns)"
    and "find (time_rule_hits env subject action objects tables) (p_time_rules (view LTime)) = Some tr"
    and "to_ascii_lowercase (tr_effect tr) \<noteq> ''require_ticket''"
  shows "is_deny d \<and> st' = st"
proof -
  have "evaluate_time_rules env (view LTime) subject action sql objects tables st =
      Done (Some (Deny (tr_name tr) (time_message tr action)), st)"
    using assms(4,5) by (simp add: evaluate_time_rules_def)
  then have "g \<noteq> None \<and> st' = st"
    if "run_gates view env subject service action sql objects tables columns st = Done (g, st')" for g st'
    using that by (auto simp: run_gates_def Let_def option_case_eq_iff split: if_splits)
  then show ?thesis
    using assms(1-3) run_gates_stop
    by (auto simp: authorize_sql_def fail_closed_deny_def option_case_eq_iff split: if_splits)
qed

theorem freeze_window_refuses_witness:
  "\<exists>d. authorize_sql (\<lambda>_. freeze_pdp) plain_env leading_keyword alice ''svc'' ''DELETE FROM t'' None store_new
     = Done (d, store_new) \<and> is_deny d"
proof -
  obtain d where d: "authorize_sql (\<lambda>_. freeze_pdp) plain_env leading_keyword alice ''svc'' ''DELETE FROM t''
      None store_new = Done (d, store_new)"
    by (simp add: authorize_sql_def objects_unusable_def classify_def run_gates_def evaluate_cedar_def
        evaluate_remote_def evaluate_time_rules_def freeze_hits freeze_facts Let_def)
  from freeze_window_refuses [OF d, of ADelete "[''t'']" "[]" freeze_rule] d show ?thesis
    by (simp add: classify_def freeze_hits freeze_facts)
qed

text \<open>
  C9 (error).  With \<open>fail_closed\<close>, a statement whose objects could not be extracted, a statement
  without a leading keyword and a prepared \<open>EXECUTE\<close> are denied by the rule \<open>fail_closed\<close>, and the
  ticket store is left alone.
\<close>

theorem fail_closed_denies:
  assumes "p_fail_closed (view LEntry)"
    and "command = Execute stmt params \<or>
      (command = Query sql \<or> command = Prepare sql \<or> command = DescribeSql sql) \<and>
      (objects_unusable objects \<or> leading sql = None)"
  shows "\<exists>m. authorize_command_with_objects view env leading subject service command objects st =
    Done (Deny ''fail_closed'' m, st)"
  using assms
  by (auto simp: authorize_command_with_objects_def authorize_sql_def fail_closed_deny_def classify_def)

theorem fail_closed_denies_witness:
  "\<exists>m. authorize_command_with_objects (\<lambda>_. open_pdp) plain_env (\<lambda>_. None) alice ''svc'' (Query ''  '') None
     store_new = Done (Deny ''fail_closed'' m, store_new)"
  by (rule fail_closed_denies [where sql = "''  ''"]) (simp_all add: open_pdp_def empty_pdp_def)





text \<open>
  C12 (safety).  A statement other than a plain \<open>SELECT\<close> with explicit columns is let through only
  when no column rule denies a column it touches.
\<close>

theorem denied_columns_not_written:
  assumes "authorize_sql view env leading subject service sql (Some os) st = Done (d, st')"
    and "\<not> is_deny d" and "classify (view LEntry) leading sql = Inr action"
    and "\<not> os_parse_failed os \<or> os_objects os \<noteq> []" and "has_column_rules (view LHasColumns)"
    and "action \<noteq> ASelect \<or> set_has_wildcard os"
  shows "\<not> denied_column subject action (p_rules (view LColumnAcl)) (os_objects os) col"
proof -
  obtain tables columns where
    "shape_statement view env subject service action (Some os) tables columns sql = Done d"
    using assms(1-3) by (elim authorize_sql_allows) auto
  then obtain rw where "column_stage view subject service action (Some os) sql = Done (Inr rw)"
    using assms(2) by (rule shape_statement_allows)
  from column_stage_denies(1) [OF this assms(4,5,6)] show ?thesis .
qed

theorem denied_columns_not_written_witness:
  "\<not> denied_column alice ASelect (p_rules guard_pdp) (os_objects star_objects) ''a''"
  using guard_allows denied_columns_not_written
    [where view = "\<lambda>_. guard_pdp" and os = star_objects and action = ASelect, OF _ _ guard_class]
  by (auto simp: guard_facts)



text \<open>
  C14 (safety).  Authorizing an ASCII statement never panics, unless its text starts with \<open>/*/\<close>
  (which the ticket parser cannot handle): every slice the policy code takes is in range.
\<close>

theorem authorize_never_panics:
  assumes "is_ascii_str sql" and "\<not> starts_with ''/*/'' (trim_start sql)"
  shows "\<exists>d st'. authorize_command_with_objects view env leading subject service (Query sql) objects st =
    Done (d, st')"
proof -
  have "returns (authorize_sql view env leading subject service sql objects st)"
    by (rule authorize_sql_returns) (use assms in \<open>simp add: safe_text_def\<close>)
  then show ?thesis by (auto simp: returns_Ex authorize_command_with_objects_def)
qed

theorem authorize_never_panics_witness:
  "\<exists>d st'. authorize_command_with_objects (\<lambda>_. empty_pdp) plain_env leading_keyword alice ''svc''
     (Query ''SELECT x FROM (SELECT 1) s'') None store_new = Done (d, st')"
  by (rule authorize_never_panics) code_simp+

section \<open>Matching\<close>



text \<open>C16 (termination).  The matcher's loop ends on every pattern and value.\<close>

theorem glob_loop_ends: "\<exists>s. glob_loop p v = Some s"
  by (rule glob_loop_terminates)

section \<open>Results\<close>

text \<open>
  C17 (equivalence).  Applying the obligations window by window, for any window size, gives the same
  response as applying them to the whole result set.
\<close>

theorem windowed_is_whole:
  "apply_obligations_windowed f64 columns rows ob window =
     apply_obligations_to_response f64 (RspResultSet columns rows) ob"
  by (rule windowed_eq_response)

text \<open>
  C18 (safety).  Non-interference: two result sets that differ only in cells under a \<open>nullify\<close> or
  \<open>replace\<close> mask give the same response.
\<close>

theorem opaque_masks_hide:
  assumes "low_equivalent columns (column_masks ob) rows rows'" and "column_masks ob \<noteq> []"
  shows "apply_obligations_to_response f64 (RspResultSet columns rows) ob =
    apply_obligations_to_response f64 (RspResultSet columns rows') ob"
proof -
  have "has_result_obligations ob" using assms(2) by (simp add: has_result_obligations_def)
  with low_equivalent_masks [OF assms(1), of f64] show ?thesis
    by (simp add: apply_obligations_to_response_def oblige_resultset_def)
qed

theorem opaque_masks_hide_witness:
  "apply_obligations_to_response (\<lambda>_. []) (RspResultSet [\<lparr>col_name = ''email'', data_type = ''text''\<rparr>]
       [[GvString ''a'']]) null_email =
   apply_obligations_to_response (\<lambda>_. []) (RspResultSet [\<lparr>col_name = ''email'', data_type = ''text''\<rparr>]
       [[GvString ''b'']]) null_email"
proof -
  have "bare_column_name ''email'' = to_ascii_lowercase ''email''" by code_simp
  then have "low_equivalent [\<lparr>col_name = ''email'', data_type = ''text''\<rparr>] (column_masks null_email)
      [[GvString ''a'']] [[GvString ''b'']]"
    by (simp add: low_equivalent_def null_email_def mask_for_def mask_spec_new_def opaque_mask_def)
  then show ?thesis by (rule opaque_masks_hide) (simp add: null_email_def)
qed

section \<open>Tickets\<close>

text \<open>
  C19 (invariant).  In every store reachable by issuing, approving, rejecting, pruning and consuming,
  identifiers are unique and match their entry, a ticket has been used at most \<open>max_uses\<close> times, one
  that is not active has never been used, and an active dual-control ticket was approved by a named
  person other than its issuer.
\<close>

theorem reachable_tickets_ok:
  assumes "reachable_store st"
  shows "distinct (map fst (tickets st)) \<and>
    (\<forall>(k, t) \<in> set (tickets st). k = tk_id t \<and> uses t \<le> max_uses t \<and>
       (tk_status t \<noteq> TActive \<longrightarrow> uses t = 0) \<and>
       (dual_control t \<and> tk_status t = TActive \<longrightarrow>
          (\<exists>a. approved_by t = Some a \<and> a \<noteq> [] \<and>
             (\<forall>i. issued_by t = Some i \<longrightarrow> \<not> eq_ignore_ascii_case i a))))"
  using reachable_store_ok [OF assms]
  by (fastforce simp: store_ok_def ticket_ok_def second_person_def split: option.splits)

theorem reachable_tickets_ok_witness:
  "distinct (map fst (tickets drop_store)) \<and> uses drop_ticket \<le> max_uses drop_ticket"
  using reachable_tickets_ok [OF drop_reachable] by (simp add: drop_store_def)

text \<open>
  C20 (safety).  Replay is bounded: over any sequence of attempts, by any subjects with any texts at
  any times and in any order, a ticket is accepted at most as often as it has uses left.
\<close>

theorem replay_is_bounded:
  "count_list (fst (foldl (attempt_step spend_ticket) ([], st) attempts)) tid \<le> ticket_uses_left st tid"
  by (rule ticket_budget.attempts_bounded)

text \<open>
  C21 (round trip).  Writing the tickets to the state file and loading it again gives a store with
  the same tickets, in which new identifiers are still fresh: the sequence number, which the file does
  not hold, is recovered from the identifiers.
\<close>

theorem ticket_file_round_trip:
  assumes "store_ok st" and "ids_below_seq st" and "seq st \<le> u64_max"
  shows "get_ticket (load_tickets (ticket_file st)) = get_ticket st \<and>
    ids_below_seq (load_tickets (ticket_file st))"
  using load_ticket_file_get [OF assms(1)] reload_ids_below_seq [OF assms] by auto

theorem ticket_file_round_trip_witness:
  "get_ticket (load_tickets (ticket_file drop_store)) drop_id = Some drop_ticket"
proof -
  have "ids_below_seq store_new" by (simp add: ids_below_seq_def store_new_def)
  then have "ids_below_seq drop_store" "seq drop_store \<le> u64_max"
    using ids_below_seq_issue [OF _ drop_issue] by (simp_all add: store_new_def drop_store_def u64_max_def)
  from ticket_file_round_trip [OF reachable_store_ok [OF drop_reachable] this] drop_get show ?thesis by simp
qed



section \<open>Time, types and reloading\<close>

text \<open>
  C23 (roundtrip).  A process that starts on the vault file another one has written finds the same
  valid leases and the same projects; the backend credentials come back with an encryption key and only
  then.  The cipher, the text encoding and the JSON library are parameters with their documented laws.
\<close>

theorem vault_restart:
  assumes "vault_ok (vw_store w)" and "cipher_ok (ve_cipher E)" and "json_ok E (vault_file_of (vw_store w))"
    and "vs_path (vw_store w) = Some path" and "persist E w = Inr w'"
  shows "\<exists>w''. with_file E path (vs_encrypt_key (vw_store w)) (vw_disk w') = Inr w'' \<and>
    vs_projects (vw_store w'') = vs_projects (vw_store w) \<and>
    (\<forall>t k. get_valid_lease t k (vw_store w'') = get_valid_lease t k (vw_store w)) \<and>
    (\<forall>t k. backend_identity t k (vw_store w'') =
       (if vs_encrypt_key (vw_store w) = None then None else backend_identity t k (vw_store w)))"
proof -
  obtain w'' where w: "with_file E path (vs_encrypt_key (vw_store w)) (vw_disk w') = Inr w''"
    "vs_projects (vw_store w'') = vs_projects (vw_store w)"
    and ls: "\<And>k. map_of (vs_leases (vw_store w'')) k =
      map_option (if vs_encrypt_key (vw_store w) = None then strip_secret else (\<lambda>r. r)) (map_of (vs_leases (vw_store w)) k)"
    using restart_keeps_leases [OF assms(1-4) refl assms(5)] by blast
  have "get_valid_lease t k (vw_store w'') = get_valid_lease t k (vw_store w) \<and>
      backend_identity t k (vw_store w'') =
        (if vs_encrypt_key (vw_store w) = None then None else backend_identity t k (vw_store w))" for t k
  proof (cases "vs_encrypt_key (vw_store w)")
    case None
    then show ?thesis using ls [of k] strip_secret_valid [of "vw_store w''" k "vw_store w" t] by simp
  next
    case (Some key)
    then have "map_of (vs_leases (vw_store w'')) k = map_of (vs_leases (vw_store w)) k"
      using ls [of k] by (simp add: option.map_ident)
    then show ?thesis using Some by (simp add: get_valid_lease_def backend_identity_def)
  qed
  with w show ?thesis by blast
qed

theorem vault_restart_witness:
  "\<exists>w' w''. persist (demo_vault_env (vault_file_of (vw_store leased_vault))) leased_vault = Inr w' \<and>
     with_file (demo_vault_env (vault_file_of (vw_store leased_vault))) ''v'' (Some ''k'') (vw_disk w') = Inr w'' \<and>
     backend_identity 8 (new_lease_id 7 1) (vw_store w'') = Some (''root'', ''secret'')"
proof -
  let ?E = "demo_vault_env (vault_file_of (vw_store leased_vault))"
  have ok: "vault_ok (vw_store leased_vault)"
    using vault_step_ok [OF leased_vault_step] vault_ok_new by (simp add: demo_vault_def)
  obtain w' where w': "persist ?E leased_vault = Inr w'"
    by (simp add: persist_def write_file_locked_def encrypt_blob_def leased_vault_leases demo_vault_env_def demo_cipher_def Let_def)
  have c: "cipher_ok (ve_cipher ?E)" using demo_cipher_ok by (simp add: demo_vault_env_def)
  from vault_restart [OF ok c demo_json_ok leased_vault_leases(1) w'] w' leased_vault_leases show ?thesis
    by (auto simp: backend_identity_def is_active_def)
qed

text \<open>
  C24 (refinement).  What one process persists on a reload, a peer with the same policy path has after
  its next due check: the hot fields of its snapshot equal those of the reloading process.
\<close>

theorem peers_converge:
  assumes "reload_global_local_pdp cf now io cfg dsk a = Some (info, dsk', a')"
    and "io_error io = None" and "trim (sc_policy_path (cfg_state cfg)) = path" and "path \<noteq> []"
    and "ps_policy_path b = path" and "0 < ps_policy_poll_ms b"
    and "ps_policy_poll_ms b \<le> now' - ps_policy_last_check_ms b"
    and "ps_policy_mtime_ns b \<noteq> io_mtime io"
  shows "hot_fields (ps_current (maybe_refresh_from_policy_file now' True dsk' b)) = hot_fields (ps_current a')"
  using assms by (rule peer_takes_over)

theorem peers_converge_witness:
  "\<exists>info dsk' a'. reload_global_local_pdp None 9 \<lparr>io_mtime = 5, io_error = None\<rparr> shared_config Map.empty
       pdp_store_new = Some (info, dsk', a') \<and>
     hot_fields (ps_current (maybe_refresh_from_policy_file 10 True dsk' peer_store)) = hot_fields (ps_current a')"
proof -
  have "cfg_enabled shared_config" by (simp add: shared_config_def demo_config_def)
  then obtain info dsk' a' where r: "reload_global_local_pdp None 9 \<lparr>io_mtime = 5, io_error = None\<rparr> shared_config
      Map.empty pdp_store_new = Some (info, dsk', a')"
    by (simp add: reload_global_local_pdp_def swap_pdp_def Let_def)
  have "trim (sc_policy_path (cfg_state shared_config)) = ''p''"
    by (simp add: shared_config_def) code_simp
  from peers_converge [OF r _ this, of peer_store 10] r show ?thesis
    by (simp add: peer_store_def pdp_store_new_def)
qed

section \<open>Routing and connections\<close>





text \<open>
  C27 (functional).  From any state of the weighted round robin that its operations reach, with at least
  two endpoints and a positive weight, as many calls as the shares add up to give every endpoint exactly
  its share, the weight divided by the greatest common divisor; every one of these calls returns.
\<close>

theorem round_robin_is_fair:
  assumes "rr_reachable s" and "2 \<le> length (rr_items s)" and "\<exists>e \<in> set (rr_items s). 0 < ep_weight e"
  shows "\<exists>xs s'. rr_serve (\<Sum>e \<leftarrow> rr_items s. rr_share s e) s = Some (xs, s') \<and>
    (\<forall>e \<in> set (rr_items s). count_list xs e = rr_share s e)"
  using assms by (rule rr_fair)

theorem round_robin_is_fair_witness:
  "\<exists>xs s'. rr_serve 3 pair_rr = Some (xs, s') \<and>
     count_list xs (weighted ''a'' 4) = 2 \<and> count_list xs (weighted ''b'' 2) = 1"
  using round_robin_is_fair [OF pair_rr_reachable]
  by (simp add: pair_rr_def rr_share_def) (simp add: weighted_def)



text \<open>
  C29 (functional).  When the connection check reports the only read-write endpoint as down, the last
  replica that reports itself as master becomes the read-write endpoint.
\<close>

theorem failover_to_reported_master:
  assumes "mha_read_only_enabled mha" and "cn_readwrite c = [(a, Disconnected)]"
    and "\<forall>ep \<in> set (re_read base). map_of m (ep_addr ep) \<noteq> None" and "reported_masters m (re_read base) \<noteq> []"
  shows "change_read_write_if_necessary mha (Some c) ping (Some m) base =
    Done (base\<lparr>re_readwrite := [last (reported_masters m (re_read base))]\<rparr>)"
  using assms by (rule failover_promotes)

theorem failover_to_reported_master_witness:
  "change_read_write_if_necessary \<lparr>mha_replication_lag_enabled = False, mha_read_only_enabled = True\<rparr>
     (Some \<lparr>cn_read = [], cn_readwrite = [(''m'', Disconnected)]\<rparr>) None
     (Some [(''a'', NodeSlave), (''b'', NodeMaster)]) two_replicas =
   Done (two_replicas\<lparr>re_readwrite := [replica ''b'']\<rparr>)"
  by (subst failover_to_reported_master [where a = "''m''"])
    (simp_all add: two_replicas_def replica_def reported_masters_def)



text \<open>
  C31 (bounds).  Under concurrency control at most \<open>max_concurrency\<close> commands hold a permit of a rule at
  any time, as long as its window has not expired; each expiry adds at most that number again.
\<close>

theorem permits_bound_holders:
  assumes "concurrency_instances rx (Some cfg) = Done (Some cs0)" and "cc_reachable rx cs0 cs g" and "i < length cs"
  shows "held g i \<le> cc_max_concurrency (cfg ! i) * Suc (expiries g i)"
proof -
  have "fresh_instances cs0" using assms(1) by (rule concurrency_instances_fresh)
  then have "permits_ok cs g" using cc_reachable_ok assms(2) by blast
  then have "held g i \<le> ci_max_concurrency (cs ! i) * Suc (expiries g i)"
    using assms(3) by (force simp: permits_ok_def)
  moreover have "map ci_max_concurrency cs = map cc_max_concurrency cfg"
    using cc_reachable_max [OF assms(2)] configured_max [OF assms(1)] by simp
  then have "ci_max_concurrency (cs ! i) = cc_max_concurrency (cfg ! i)"
    using assms(3) by (metis length_map nth_map)
  ultimately show ?thesis by simp
qed

theorem permits_bound_holders_witness:
  "\<exists>cs g. cc_reachable any_regex [one_at_a_time] cs g \<and> held g 0 = 1 \<and> held g 0 \<le> 1 * Suc 0"
proof -
  have i: "concurrency_instances any_regex (Some [one_query]) = Done (Some [one_at_a_time])"
    by (simp add: concurrency_instances_def any_regex_def one_query_def one_at_a_time_def)
  let ?cs = "[one_at_a_time\<lparr>ci_permits := 0, ci_start_at := Some 0\<rparr>]"
    and ?g = "\<lparr>held = (\<lambda>_. 0)(0 := 1), expiries = (\<lambda>_. 0)\<rparr>"
  have r: "cc_reachable any_regex [one_at_a_time] ?cs ?g"
    by (rule request_to [OF cc_reachable.cc_started, where now = 0 and inp = "[]" and r = "(Some 0, True)"])
      (auto simp: one_at_a_time_simps grant_def count_expiry_def fun_eq_iff)
  from permits_bound_holders [OF i r, of 0] r show ?thesis
    by (intro exI [of _ ?cs] exI [of _ ?g]) (simp add: one_query_def)
qed







section \<open>Protocols\<close>

text \<open>
  C35 (safety).  The server side of the MySQL handshake answers \<open>true\<close> only if the scramble of the configured
  password under this connection's salt and the configured user name were among the bytes received, however
  the stream was cut into arrivals, with or without the switch to TLS and the switch of the authentication
  method.  SHA-1 digests have 20 bytes.
\<close>

theorem handshake_needs_password:
  assumes "handshake X dbg tls (server_handshake_new cid draws user password db version) chunks =
             Done (Inr True, st', sent)"
    and "\<And>d. length (sha1 X d) = 20"
  shows "sublist (calc_password X (random_buf draws) password) (concat chunks) \<and>
         sublist (user @ [CHR 0x00]) (concat chunks) \<and>
         hs_user st' = user \<and> hs_password st' = password"
proof -
  let ?st = "server_handshake_new cid draws user password db version"
  obtain st1 sent1 initial where i: "hs_send ?st initial [] = Done (st1, sent1)"
    "hs_loop X dbg tls st1 [] chunks sent1 = Done (Inr True, st', sent)"
    using assms(1) by (auto simp: handshake_def)
  have k: "same_identity ?st st1" "hs_next st1 = ReadResponseFirst"
    using hs_send_keeps [OF i(1)] by (auto simp: server_handshake_new_def)
  have a: "accepted_properly X st1 (concat chunks)" "same_identity st1 st'"
    using hs_loop_accepts [OF i(2)] k(2) by (auto simp: reading_def)
  have "calc_password X (random_buf draws) password \<noteq> [CHR 0xfb]"
    using length_calc_password [of X password "random_buf draws"] assms(2)
    by (cases "password = []") (auto simp: calc_password_def dest!: arg_cong [where f = length])
  then show ?thesis using a k
    by (simp add: accepted_properly_def presented_def same_identity_def server_handshake_new_def)
qed

theorem handshake_needs_password_witness:
  "\<exists>chunks. sublist (calc_password demo_crypto (random_buf [40..<60]) ''secret'') (concat chunks) \<and>
     sublist (''bob'' @ [CHR 0x00]) (concat chunks)"
proof -
  obtain packet st' sent where "handshake demo_crypto (\<lambda>s. s) False demo_server [packet] = Done (Inr True, st', sent)"
    using demo_login by blast
  from handshake_needs_password [OF this [unfolded demo_server_def] demo_crypto_length]
  show ?thesis by blast
qed



text \<open>
  C37 (safety).  When TLS is required, the client's answer to any greeting it accepts is the TLS request: 32
  bytes of capabilities, packet size, character set and zeros, without user name or password, and the
  handshake response is written only after it.
\<close>

theorem required_tls_comes_first:
  assumes "ca_next c = InitialHandshake" and "ca_tls c = Some t" and "require_tls t"
    and "client_decode X c data = Done (Inr (Some x), c1, r)" 
  shows "\<exists>h cap charset c2 sq. x = DrWriteSslRequest h \<and>
     client_encode c1 h = Done (c2, [CHR 0x20, CHR 0x00, CHR 0x00, sq] @ cap @
        [CHR 0x00, CHR 0x00, CHR 0x00, CHR 0x01, charset] @ replicate 23 (CHR 0x00)) \<and>
     length cap = 4 \<and> ca_next c2 = WriteHandshake"
proof -
  obtain c0 where d: "decode_greeting X c0 data = Done (Inr (Some x), c1, r)" "ca_tls c0 = Some t"
    using assms by (auto simp: client_decode_def Let_def split: if_splits)
  obtain h where x: "x = DrWriteSslRequest h" using required_tls_is_requested [OF d(2) assms(3) d(1)] by auto
  then have c1: "ca_next c1 = WriteSslRequest" "write_auth_handshake X c1 = Done (Inr (h, True))"
    using d(1) by (auto simp: decode_greeting_def sum_case_eq_iff split: bool.splits)
  obtain cap charset rest where h: "length cap = 4"
    "h = cap @ [CHR 0x00, CHR 0x00, CHR 0x00, CHR 0x01, charset] @ replicate 23 (CHR 0x00) @ rest"
    using write_auth_handshake_head [OF c1(2)] by blast
  have "sub_range h 0 32 = Done (cap @ [CHR 0x00, CHR 0x00, CHR 0x00, CHR 0x01, charset] @ replicate 23 (CHR 0x00))"
    using h(1) unfolding h(2) by (simp add: sub_range_def)
  then have "\<exists>c2. client_encode c1 h = Done (c2, [CHR 0x20, CHR 0x00, CHR 0x00, char_of (unat (ca_seq c1 + 1))] @ cap @
        [CHR 0x00, CHR 0x00, CHR 0x00, CHR 0x01, charset] @ replicate 23 (CHR 0x00)) \<and> ca_next c2 = WriteHandshake"
    using c1(1) ssl_request_length by (simp add: client_encode_def Let_def)
  with x h(1) show ?thesis by blast
qed

theorem required_tls_comes_first_witness:
  "\<exists>data h c1 c2 packet. client_decode demo_crypto (demo_client\<lparr>ca_tls := Some demo_tls\<rparr>) data =
     Done (Inr (Some (DrWriteSslRequest h)), c1, []) \<and> client_encode c1 h = Done (c2, packet) \<and> length packet = 36"
proof -
  let ?c = "demo_client\<lparr>ca_tls := Some demo_tls\<rparr>"
  obtain data h c1 where d: "client_decode demo_crypto ?c data = Done (Inr (Some (DrWriteSslRequest h)), c1, [])"
    using demo_tls_greeted by blast
  have "ca_next ?c = InitialHandshake" "ca_tls ?c = Some demo_tls" "require_tls demo_tls"
    by (simp_all add: demo_client_def client_auth_new_def demo_tls_def)
  from required_tls_comes_first [OF this d] d show ?thesis by fastforce
qed

text \<open>
  C38 (roundtrip).  Payloads of any size, written one after the other with one codec, are read back by the
  packet decoder one by one and nothing is left over, in whatever pieces the bytes arrive; encoding never
  fails.
\<close>

theorem packets_survive_segmentation:
  "\<exists>st' stream. encode_all st [] ms = Done (st', stream) \<and>
     (\<forall>chunks. chunks \<noteq> [] \<and> concat chunks = stream \<longrightarrow>
        (\<exists>dec'. feed packet_codec_new [] chunks = (ms, dec', []) \<and> pk_buf dec' = []))"
proof -
  obtain st' stream where "encode_all st [] ms = Done (st', stream)"
    "\<exists>dec'. drain packet_codec_new stream = (ms, dec', []) \<and> pk_buf dec' = []"
    using encode_all_drain [of st "[]" ms packet_codec_new] by (auto simp: packet_codec_new_def)
  then show ?thesis by (auto simp: feed_drain)
qed

theorem packets_survive_segmentation_witness:
  "\<exists>dec'. feed packet_codec_new [] [[CHR 0x02, CHR 0x00], [CHR 0x00, CHR 0x00, CHR ''a''], [CHR ''b'', CHR 0x00],
      [CHR 0x00, CHR 0x00, CHR 0x01]] = ([''ab'', []], dec', []) \<and> pk_buf dec' = []"
proof -
  let ?chunks = "[[CHR 0x02, CHR 0x00], [CHR 0x00, CHR 0x00, CHR ''a''], [CHR ''b'', CHR 0x00],
      [CHR 0x00, CHR 0x00, CHR 0x01]]"
  have c: "char_of (Suc (Suc 0)) = CHR 0x02" "char_of (0 :: nat) = CHR 0x00" "char_of (Suc 0) = CHR 0x01"
    by code_simp+
  have e: "\<exists>st'. encode_all packet_codec_new [] [''ab'', []] = Done (st', concat ?chunks)"
    using encode_packet_offset_frames [of packet_codec_new "''ab''" "[]"]
    by (simp add: encode_packet_offset_frames pieces_def piece_def MAX_PAYLOAD_LEN_def frame_def packet_codec_new_def
        numeral_3_eq_3)
      (rule conjI [OF c(1) conjI [OF c(2,3)]])
  obtain st' stream where s: "encode_all packet_codec_new [] [''ab'', []] = Done (st', stream)"
    and f: "\<forall>chunks. chunks \<noteq> [] \<and> concat chunks = stream \<longrightarrow>
      (\<exists>dec'. feed packet_codec_new [] chunks = ([''ab'', []], dec', []) \<and> pk_buf dec' = [])"
    using packets_survive_segmentation [of packet_codec_new "[''ab'', []]"] by blast
  have "concat ?chunks = stream" using e s by (metis prod.inject run.inject)
  then show ?thesis using f by blast
qed



text \<open>
  C40 (roundtrip).  A Bind message laid out as the protocol prescribes is decoded to its portal, statement and
  result formats, and each parameter to the text its format code stands for; NULL stays NULL.
\<close>

theorem bind_parameters_arrive:
  assumes "cstring_ok portal" and "cstring_ok statement"
    and "list_all (\<lambda>f. f = 0 \<or> f = 1) formats" and "list_all (\<lambda>f. f = 0 \<or> f = 1) results"
    and "length formats < 2 ^ 15" and "length vs < 2 ^ 15" and "length results < 2 ^ 15"
    and "param_text formats 0 vs ts"
    and "length (bind_frame portal statement formats vs results) < 2 ^ 31"
  shows "decode_frontend_message (bind_frame portal statement formats vs results) =
    Done (Inr (FeBind portal statement ts results))"
  using assms by (rule bind_is_decoded)

theorem bind_parameters_arrive_witness:
   "decode_frontend_message (bind_frame [] ''s1'' [1] [Some (map char_of [0, 0, 0, 42 :: nat]), None] [0]) =
     Done (Inr (FeBind [] ''s1'' [Some ''42'', None] [0]))"
proof -
  have "decode_param 1 (map char_of [0, 0, 0, 42 :: nat]) = Inr ''42''" by code_simp
  then show ?thesis
    by (intro bind_parameters_arrive) (simp_all add: cstring_ok_def utf8_ascii is_ascii_str_def param_format_def bind_frame_def bind_tail_def encode_message_def)
qed

end
